(* ===== verification/Py_Prelude.thy ===== *)
theory Py_Prelude
  imports Complex_Main "HOL-Library.AList" "HOL-Library.Char_ord" "HOL-Library.List_Lexorder"
begin

text \<open>
  The parts of Python that the modelled modules use, and the lemmas about them that the
  component theories share: strings and their methods, dictionaries in insertion order,
  dynamic values, exceptions as values of a sum type, sorting.

  Strings are lists of characters and the case and class methods (\<open>lower\<close>, \<open>isalnum\<close>,
  \<open>isdigit\<close>) follow Python on ASCII text; schema identifiers, type names and status words
  are ASCII. A dictionary is an association list without repeated keys whose order is
  Python's insertion order: assigning to a present key keeps its place, a new key goes last.
\<close>

named_theorems py_simps \<open>equations that evaluate the Python primitives\<close>
named_theorems dict_simps \<open>lookups and key sets of dictionaries\<close>

section \<open>Exceptions\<close>

datatype exn =
    ValueError string
  | TypeError string
  | KeyError string
  | IndexError string
  | OverflowError string
  | AttributeError string
  | RuntimeError string
  | NotImplementedError string
  | SchemaCycleError "string list"
  | ReferenceRowNotFound string
  | UnknownTargetTable string
  | DbError string
  | ValidationError string
  | NotFoundError string
  | ConflictError string

type_synonym 'a res = "exn + 'a"

definition res_bind :: "'a res \<Rightarrow> ('a \<Rightarrow> 'b res) \<Rightarrow> 'b res" where
  "res_bind r f = (case r of Inl e \<Rightarrow> Inl e | Inr x \<Rightarrow> f x)"

lemma res_bind_simps [simp]:
  "res_bind (Inl e) f = Inl e"
  "res_bind (Inr x) f = f x"
  by (simp_all add: res_bind_def)

lemma res_bind_Inr_iff: "res_bind r f = Inr y \<longleftrightarrow> (\<exists>x. r = Inr x \<and> f x = Inr y)"
  by (cases r) simp_all

lemma res_bind_Inl_iff: "res_bind r f = Inl e \<longleftrightarrow> r = Inl e \<or> (\<exists>x. r = Inr x \<and> f x = Inl e)"
  by (cases r) simp_all

lemma case_res_InrD: "(case r of Inl e \<Rightarrow> False | Inr x \<Rightarrow> P x) \<Longrightarrow> \<exists>x. r = Inr x \<and> P x"
  by (cases r) simp_all

lemma res_bind_cong [fundef_cong]:
  "r = r' \<Longrightarrow> (\<And>x. r' = Inr x \<Longrightarrow> f x = g x) \<Longrightarrow> res_bind r f = res_bind r' g"
  by (cases r') simp_all

text \<open>A loop whose body may raise: the first exception ends it.\<close>

fun fold_res :: "('a \<Rightarrow> 's \<Rightarrow> 's res) \<Rightarrow> 'a list \<Rightarrow> 's \<Rightarrow> 's res" where
  "fold_res f [] s = Inr s"
| "fold_res f (x # xs) s = res_bind (f x s) (fold_res f xs)"

fun map_res :: "('a \<Rightarrow> 'b res) \<Rightarrow> 'a list \<Rightarrow> 'b list res" where
  "map_res f [] = Inr []"
| "map_res f (x # xs) = res_bind (f x) (\<lambda>y. res_bind (map_res f xs) (\<lambda>ys. Inr (y # ys)))"

lemma fold_res_append:
  "fold_res f (xs @ ys) s = res_bind (fold_res f xs s) (fold_res f ys)"
proof (induction xs arbitrary: s)
  case Nil
  then show ?case by simp
next
  case (Cons x xs)
  then show ?case by (cases "f x s") simp_all
qed

lemma fold_res_inv:
  assumes "fold_res f xs s = Inr t" and "I s"
    and "\<And>x s t. x \<in> set xs \<Longrightarrow> I s \<Longrightarrow> f x s = Inr t \<Longrightarrow> I t"
  shows "I t"
  using assms
proof (induction xs arbitrary: s)
  case Nil
  then show ?case by simp
next
  case (Cons x xs)
  then obtain u where u: "f x s = Inr u" and rest: "fold_res f xs u = Inr t"
    by (auto simp: res_bind_Inr_iff)
  from Cons.prems(2,3) u have "I u" by auto
  with Cons rest show ?case by auto
qed

lemma map_res_Inr_iff:
  "map_res f xs = Inr ys \<longleftrightarrow> list_all2 (\<lambda>x y. f x = Inr y) xs ys"
proof (induction xs arbitrary: ys)
  case Nil
  then show ?case by (cases ys) auto
next
  case (Cons x xs)
  then show ?case by (cases ys) (auto simp: res_bind_Inr_iff)
qed

lemma map_res_length: "map_res f xs = Inr ys \<Longrightarrow> length ys = length xs"
  by (auto simp: map_res_Inr_iff dest: list_all2_lengthD)

section \<open>Strings\<close>

text \<open>Character classes on ASCII text, and Python's whitespace below code point 256.\<close>

definition is_space :: "char \<Rightarrow> bool" where
  "is_space c = (let n = (of_char c :: nat) in
     (9 \<le> n \<and> n \<le> 13) \<or> (28 \<le> n \<and> n \<le> 32) \<or> n = 133 \<or> n = 160)"

definition is_upper :: "char \<Rightarrow> bool" where
  "is_upper c = (let n = (of_char c :: nat) in 65 \<le> n \<and> n \<le> 90)"

definition is_lower :: "char \<Rightarrow> bool" where
  "is_lower c = (let n = (of_char c :: nat) in 97 \<le> n \<and> n \<le> 122)"

definition is_digit :: "char \<Rightarrow> bool" where
  "is_digit c = (let n = (of_char c :: nat) in 48 \<le> n \<and> n \<le> 57)"

definition lower_char :: "char \<Rightarrow> char" where
  "lower_char c = (if is_upper c then char_of (of_char c + 32 :: nat) else c)"

definition upper_char :: "char \<Rightarrow> char" where
  "upper_char c = (if is_lower c then char_of (of_char c - 32 :: nat) else c)"

definition str_lower :: "string \<Rightarrow> string" where
  "str_lower s = map lower_char s"

definition str_upper :: "string \<Rightarrow> string" where
  "str_upper s = map upper_char s"

definition str_isalnum :: "string \<Rightarrow> bool" where
  "str_isalnum s = (s \<noteq> [] \<and> list_all (\<lambda>c. is_upper c \<or> is_lower c \<or> is_digit c) s)"

definition str_isdigit :: "string \<Rightarrow> bool" where
  "str_isdigit s = (s \<noteq> [] \<and> list_all is_digit s)"

definition str_lstrip :: "string \<Rightarrow> string" where
  "str_lstrip s = dropWhile is_space s"

definition str_rstrip :: "string \<Rightarrow> string" where
  "str_rstrip s = rev (dropWhile is_space (rev s))"

definition str_strip :: "string \<Rightarrow> string" where
  "str_strip s = str_rstrip (str_lstrip s)"

definition strip_chars :: "string \<Rightarrow> string \<Rightarrow> string" where
  "strip_chars cs s = rev (dropWhile (\<lambda>c. c \<in> set cs) (rev (dropWhile (\<lambda>c. c \<in> set cs) s)))"

fun starts_with :: "string \<Rightarrow> string \<Rightarrow> bool" where
  "starts_with [] s = True"
| "starts_with (p # ps) [] = False"
| "starts_with (p # ps) (c # cs) = (p = c \<and> starts_with ps cs)"

definition ends_with :: "string \<Rightarrow> string \<Rightarrow> bool" where
  "ends_with p s = starts_with (rev p) (rev s)"

text \<open>\<open>p in s\<close> on strings.\<close>

fun str_in :: "string \<Rightarrow> string \<Rightarrow> bool" where
  "str_in p [] = (p = [])"
| "str_in p (c # cs) = (starts_with p (c # cs) \<or> str_in p cs)"

text \<open>\<open>s.replace(c, new)\<close> for a one-character pattern.\<close>

definition replace_char :: "char \<Rightarrow> string \<Rightarrow> string \<Rightarrow> string" where
  "replace_char c new s = concat (map (\<lambda>d. if d = c then new else [d]) s)"

text \<open>\<open>s.split(c)\<close> for a one-character separator: never the empty list.\<close>

fun split_on :: "char \<Rightarrow> string \<Rightarrow> string list" where
  "split_on c [] = [[]]"
| "split_on c (d # ds) =
     (if d = c then [] # split_on c ds
      else (case split_on c ds of [] \<Rightarrow> [[d]] | p # ps \<Rightarrow> (d # p) # ps))"

fun join :: "string \<Rightarrow> string list \<Rightarrow> string" where
  "join sep [] = []"
| "join sep [x] = x"
| "join sep (x # y # xs) = x @ sep @ join sep (y # xs)"

text \<open>\<open>s.split(sep, 1)[1]\<close> when \<open>s\<close> is known to start with \<open>sep\<close>.\<close>

definition after_prefix :: "string \<Rightarrow> string \<Rightarrow> string" where
  "after_prefix p s = drop (length p) s"

text \<open>The same classes over binary integers, which evaluation uses.\<close>

lemma of_char_int: "(of_char c :: int) = int (of_char c)"
  by (rule of_nat_of_char [symmetric])

lemma char_of_int: "char_of (int n) = char_of n"
  by (simp add: char_of_def bit_simps)

lemma is_space_code [code]:
  "is_space c = (let n = (of_char c :: int) in
     (9 \<le> n \<and> n \<le> 13) \<or> (28 \<le> n \<and> n \<le> 32) \<or> n = 133 \<or> n = 160)"
  unfolding is_space_def Let_def of_char_int by linarith

lemma is_upper_code [code]: "is_upper c = (let n = (of_char c :: int) in 65 \<le> n \<and> n \<le> 90)"
  unfolding is_upper_def Let_def of_char_int by linarith

lemma is_lower_code [code]: "is_lower c = (let n = (of_char c :: int) in 97 \<le> n \<and> n \<le> 122)"
  unfolding is_lower_def Let_def of_char_int by linarith

lemma is_digit_code [code]: "is_digit c = (let n = (of_char c :: int) in 48 \<le> n \<and> n \<le> 57)"
  unfolding is_digit_def Let_def of_char_int by linarith

lemma lower_char_code [code]: "lower_char c = (if is_upper c then char_of (of_char c + 32 :: int) else c)"
  unfolding lower_char_def of_char_int by (metis char_of_int of_nat_add of_nat_numeral)

lemma upper_char_code [code]: "upper_char c = (if is_lower c then char_of (of_char c - 32 :: int) else c)"
proof (cases "is_lower c")
  case True
  then have "32 \<le> (of_char c :: nat)" by (simp add: is_lower_def Let_def)
  then have "(of_char c - 32 :: int) = int (of_char c - 32)" unfolding of_char_int by simp
  then show ?thesis using True by (simp add: upper_char_def char_of_int)
qed (simp add: upper_char_def)

lemma starts_with_iff: "starts_with p s \<longleftrightarrow> (\<exists>r. s = p @ r)"
  by (induction p s rule: starts_with.induct) auto

lemma starts_with_append [simp]: "starts_with p (p @ r)"
  by (auto simp: starts_with_iff)

lemma ends_with_iff: "ends_with p s \<longleftrightarrow> (\<exists>r. s = r @ p)"
proof -
  have "ends_with p s \<longleftrightarrow> (\<exists>r. rev s = rev p @ r)"
    by (simp add: ends_with_def starts_with_iff)
  also have "\<dots> \<longleftrightarrow> (\<exists>r. s = r @ p)"
    by (metis rev_append rev_rev_ident)
  finally show ?thesis .
qed

lemma str_in_iff: "str_in p s \<longleftrightarrow> (\<exists>a b. s = a @ p @ b)"
proof (induction s)
  case Nil
  then show ?case by simp
next
  case (Cons c cs)
  have "(\<exists>a b. c # cs = a @ p @ b) \<longleftrightarrow> (\<exists>b. c # cs = p @ b) \<or> (\<exists>a b. cs = a @ p @ b)"
    by (metis append_Cons append_Nil list.sel(3) neq_Nil_conv)
  then show ?case using Cons by (simp add: starts_with_iff)
qed

lemma after_prefix_append [simp]: "after_prefix p (p @ r) = r"
  by (simp add: after_prefix_def)

lemma split_on_not_Nil [simp]: "split_on c s \<noteq> []"
  by (induction s) (auto split: list.splits)

lemma length_str_lower [simp]: "length (str_lower s) = length s"
  by (simp add: str_lower_def)

lemma split_on_join:
  assumes "\<forall>p \<in> set ps. c \<notin> set p" and "ps \<noteq> []"
  shows "split_on c (join [c] ps) = ps"
proof -
  have no: "split_on c p = [p]" if "c \<notin> set p" for p
    using that by (induction p) auto
  have sep: "split_on c (p @ c # r) = p # split_on c r" if "c \<notin> set p" for p r
    using that by (induction p) auto
  show ?thesis
    using assms
  proof (induction ps)
    case Nil
    then show ?case by simp
  next
    case (Cons p ps)
    then show ?case by (cases ps) (auto simp: no sep)
  qed
qed

lemma join_split_on: "join [c] (split_on c s) = s"
proof (induction s)
  case Nil
  then show ?case by simp
next
  case (Cons d ds)
  obtain p ps where eq: "split_on c ds = p # ps"
    by (meson neq_Nil_conv split_on_not_Nil)
  then show ?case using Cons by (cases ps) auto
qed

section \<open>Dictionaries\<close>

type_synonym ('k, 'v) dict = "('k \<times> 'v) list"

definition dget :: "('k, 'v) dict \<Rightarrow> 'k \<Rightarrow> 'v option" where
  "dget d k = map_of d k"

definition dput :: "'k \<Rightarrow> 'v \<Rightarrow> ('k, 'v) dict \<Rightarrow> ('k, 'v) dict" where
  "dput k v d = AList.update k v d"

definition dkeys :: "('k, 'v) dict \<Rightarrow> 'k list" where
  "dkeys d = map fst d"

definition dvalues :: "('k, 'v) dict \<Rightarrow> 'v list" where
  "dvalues d = map snd d"

definition dhas :: "('k, 'v) dict \<Rightarrow> 'k \<Rightarrow> bool" where
  "dhas d k = (k \<in> set (map fst d))"

text \<open>A dictionary built from a list of pairs: the last binding of a key wins, in first-seen place.\<close>

definition dict_of :: "('k \<times> 'v) list \<Rightarrow> ('k, 'v) dict" where
  "dict_of kvs = fold (\<lambda>(k, v). dput k v) kvs []"

text \<open>\<open>d.setdefault(k, []).append(x)\<close>.\<close>

definition dappend :: "'k \<Rightarrow> 'v \<Rightarrow> ('k, 'v list) dict \<Rightarrow> ('k, 'v list) dict" where
  "dappend k x d = dput k ((case dget d k of None \<Rightarrow> [] | Some xs \<Rightarrow> xs) @ [x]) d"

definition wf_dict :: "('k, 'v) dict \<Rightarrow> bool" where
  "wf_dict d = distinct (map fst d)"

lemma dget_Nil [dict_simps, simp]: "dget [] k = None"
  by (simp add: dget_def)

lemma dget_dput [dict_simps, simp]: "dget (dput k v d) k' = (if k' = k then Some v else dget d k')"
  by (simp add: dget_def dput_def update_conv')

lemma dhas_iff [dict_simps]: "dhas d k \<longleftrightarrow> dget d k \<noteq> None"
  by (simp add: dhas_def dget_def map_of_eq_None_iff)

lemma set_dkeys_dput [dict_simps, simp]: "set (dkeys (dput k v d)) = insert k (set (dkeys d))"
  by (simp add: dkeys_def dput_def dom_update)

lemma dkeys_dput_present: "k \<in> set (dkeys d) \<Longrightarrow> dkeys (dput k v d) = dkeys d"
  unfolding dkeys_def dput_def by (induction d) auto

lemma dkeys_dput_new: "k \<notin> set (dkeys d) \<Longrightarrow> dput k v d = d @ [(k, v)]"
  unfolding dkeys_def dput_def by (induction d) auto

lemma wf_dict_Nil [simp]: "wf_dict []"
  by (simp add: wf_dict_def)

lemma wf_dict_dput [simp, intro]: "wf_dict d \<Longrightarrow> wf_dict (dput k v d)"
  by (simp add: wf_dict_def dput_def distinct_update)

lemma dget_in_set: "dget d k = Some v \<Longrightarrow> (k, v) \<in> set d"
  by (simp add: dget_def map_of_SomeD)

lemma in_set_dget: "wf_dict d \<Longrightarrow> (k, v) \<in> set d \<Longrightarrow> dget d k = Some v"
  by (simp add: dget_def wf_dict_def)

lemma set_dkeys_iff: "k \<in> set (dkeys d) \<longleftrightarrow> dget d k \<noteq> None"
  by (simp add: dkeys_def dget_def map_of_eq_None_iff)

lemma dict_of_snoc: "dict_of (kvs @ [(k, v)]) = dput k v (dict_of kvs)"
  by (simp add: dict_of_def)

lemma dget_dict_of: "dget (dict_of kvs) k = map_of (rev kvs) k"
  by (induction kvs rule: rev_induct) (auto simp: dict_of_snoc, simp add: dict_of_def)

lemma wf_dict_dict_of [simp]: "wf_dict (dict_of kvs)"
  by (induction kvs rule: rev_induct) (auto simp: dict_of_snoc, simp add: dict_of_def)

lemma set_dkeys_dict_of: "set (dkeys (dict_of kvs)) = fst ` set kvs"
proof (induction kvs rule: rev_induct)
  case Nil
  then show ?case by (simp add: dict_of_def dkeys_def)
next
  case (snoc kv kvs)
  then show ?case by (cases kv) (simp add: dict_of_snoc)
qed

lemma dict_of_distinct: "distinct (map fst kvs) \<Longrightarrow> dict_of kvs = kvs"
proof (induction kvs rule: rev_induct)
  case Nil
  then show ?case by (simp add: dict_of_def)
next
  case (snoc kv kvs)
  then show ?case by (cases kv) (simp add: dict_of_snoc dkeys_dput_new dkeys_def)
qed

lemma dget_dappend:
  "dget (dappend k x d) k' =
     (if k' = k then Some ((case dget d k of None \<Rightarrow> [] | Some xs \<Rightarrow> xs) @ [x]) else dget d k')"
  by (simp add: dappend_def)

lemma wf_dict_dappend [simp, intro]: "wf_dict d \<Longrightarrow> wf_dict (dappend k x d)"
  by (simp add: dappend_def wf_dict_dput)

lemma dget_filter_keys:
  "dget (filter (\<lambda>(k, v). P k) d) k = (if P k then dget d k else None)"
  by (induction d) (auto simp: dget_def)

section \<open>Grouping: a dictionary of lists\<close>

definition group_by :: "('a \<Rightarrow> 'k) \<Rightarrow> 'a list \<Rightarrow> ('k, 'a list) dict" where
  "group_by f xs = fold (\<lambda>x d. dappend (f x) x d) xs []"

lemma group_by_snoc: "group_by f (xs @ [x]) = dappend (f x) x (group_by f xs)"
  by (simp add: group_by_def)

lemma dget_group_by:
  "dget (group_by f xs) k =
     (if k \<in> f ` set xs then Some (filter (\<lambda>x. f x = k) xs) else None)"
proof (induction xs rule: rev_induct)
  case Nil
  then show ?case by (simp add: group_by_def)
next
  case (snoc x xs)
  then show ?case
    by (auto simp: group_by_snoc dget_dappend image_iff filter_empty_conv
        intro!: filter_False [symmetric]) metis
qed

lemma wf_group_by [simp]: "wf_dict (group_by f xs)"
  by (induction xs rule: rev_induct) (auto simp: group_by_snoc, simp add: group_by_def)

section \<open>Sorting a set of names\<close>

definition sorted_set :: "'a::linorder list \<Rightarrow> 'a list" where
  "sorted_set xs = sort (remdups xs)"

lemma set_sorted_set [simp]: "set (sorted_set xs) = set xs"
  by (simp add: sorted_set_def)

lemma distinct_sorted_set [simp]: "distinct (sorted_set xs)"
  by (simp add: sorted_set_def)

lemma sorted_sorted_set [simp]: "sorted (sorted_set xs)"
  by (simp add: sorted_set_def)

lemma sorted_set_cong: "set xs = set ys \<Longrightarrow> sorted_set xs = sorted_set ys"
  by (rule sorted_distinct_set_unique) simp_all

end
