(* ===== verification/Py_Values.thy ===== *)
theory Py_Values
  imports Py_Prelude
begin

text \<open>
  Python's dynamic values, as rows of a database and JSON documents carry them, with the
  conversions the modules use: \<open>str\<close>, \<open>repr\<close>, \<open>int\<close> on text and the equality of a value
  with a string. Finite floats are their rational value. Facts about floats and
  opaque objects are not computed here but taken from a \<^emph>\<open>runtime\<close> record: the shortest
  text of a float, the parsing of float text, and the conversion of an int to a float
  (which raises OverflowError when the int is too large). The record also holds what lies
  outside the repository's code: JSON parsing, the two hash functions, and how the database
  driver and server store a Python value in a TEXT column (\<open>rt_sql_text\<close>, which refuses a
  value it cannot adapt) and a float in a REAL column (\<open>rt_real\<close>, rounded to four bytes).
\<close>

datatype pyfloat = Fin rat | Inf bool | NaN

datatype pyval =
    PNone
  | PBool bool
  | PInt int
  | PFloat pyfloat
  | PStr string
  | PDate "int \<times> int \<times> int"
  | PDateTime "int \<times> int \<times> int" "int \<times> int \<times> int \<times> int" "int option"
  | PList "pyval list"
  | PDict "(string \<times> pyval) list"
  | PObj string string

text \<open>
  \<open>PDate (y, m, d)\<close>, \<open>PDateTime (y, m, d) (hh, mm, ss, us) offset\<close> with the offset of an
  aware value in minutes, \<open>PObj type_name text\<close> for any other object (Decimal, UUID,
  memoryview, \<dots>), of which the code only ever takes \<open>str()\<close>.
\<close>

type_synonym row = "(string, pyval) dict"

record runtime =
  rt_float_str :: "pyfloat \<Rightarrow> string"
  rt_float_of_str :: "string \<Rightarrow> pyfloat option"
  rt_float_of_int :: "int \<Rightarrow> pyfloat option"
  rt_int_of_obj :: "pyval \<Rightarrow> int res"
  rt_json_loads :: "string \<Rightarrow> pyval res"
  rt_sha256 :: "string \<Rightarrow> string"
  rt_uuid5 :: "string \<Rightarrow> string"
  rt_sql_text :: "pyval \<Rightarrow> string option res"
  rt_real :: "pyfloat \<Rightarrow> pyfloat"

text \<open>A runtime for evaluating examples: every other result of the development holds for any runtime.\<close>

definition sample_runtime :: runtime where
  "sample_runtime =
     \<lparr>rt_float_str = (\<lambda>_. ''0.5''), rt_float_of_str = (\<lambda>_. None),
      rt_float_of_int = (\<lambda>i. Some (Fin (of_int i))),
      rt_int_of_obj = (\<lambda>_. Inl (TypeError ''int'')),
      rt_json_loads = (\<lambda>_. Inr (PDict [(''M'', PStr ''Male'')])),
      rt_sha256 = (\<lambda>s. s), rt_uuid5 = (\<lambda>s. s),
      rt_sql_text = (\<lambda>v. case v of PNone \<Rightarrow> Inr None | PStr s \<Rightarrow> Inr (Some s) | _ \<Rightarrow> Inl (TypeError ''can not adapt'')),
      rt_real = (\<lambda>f. f)\<rparr>"

section \<open>Numbers as text\<close>

definition digit_char :: "nat \<Rightarrow> char" where
  "digit_char n = char_of (48 + n)"

fun nat_str :: "nat \<Rightarrow> string" where
  "nat_str n = (if n < 10 then [digit_char n] else nat_str (n div 10) @ [digit_char (n mod 10)])"

declare nat_str.simps [simp del]

definition int_str :: "int \<Rightarrow> string" where
  "int_str i = (if i < 0 then CHR ''-'' # nat_str (nat (- i)) else nat_str (nat i))"

text \<open>The same in binary integers, so that evaluation does not count in unary.\<close>

function int_digits :: "int \<Rightarrow> string" where
  "int_digits i = (if i < 10 then [char_of (48 + i)] else int_digits (i div 10) @ [char_of (48 + i mod 10)])"
  by auto

termination by (relation "measure nat") auto

declare int_digits.simps [simp del]

lemma int_digits_nat: "int_digits (int n) = nat_str n"
proof (induction n rule: nat_str.induct)
  case (1 n)
  have d: "char_of (48 + int m) = digit_char m" for m
    unfolding digit_char_def char_of_int [symmetric] by simp
  show ?case
  proof (cases "n < 10")
    case True
    then show ?thesis by (subst nat_str.simps, subst int_digits.simps) (simp add: d)
  next
    case False
    then have "int_digits (int n div 10) = nat_str (n div 10)" using 1 by (simp add: zdiv_int)
    moreover have "char_of (48 + int n mod 10) = digit_char (n mod 10)" using d [of "n mod 10"] by (simp add: zmod_int)
    ultimately show ?thesis using False by (subst nat_str.simps, subst int_digits.simps) simp
  qed
qed

lemma int_str_code [code]: "int_str i = (if i < 0 then CHR ''-'' # int_digits (- i) else int_digits i)"
  using int_digits_nat [of "nat i"] int_digits_nat [of "nat (- i)"] by (simp add: int_str_def split: if_splits)

definition digit_val :: "char \<Rightarrow> nat" where
  "digit_val c = of_char c - 48"

text \<open>Digits with single underscores between them, as \<open>int()\<close> accepts.\<close>

fun parse_digits :: "nat \<Rightarrow> bool \<Rightarrow> string \<Rightarrow> nat option" where
  "parse_digits acc prev [] = (if prev then Some acc else None)"
| "parse_digits acc prev (c # cs) =
     (if is_digit c then parse_digits (10 * acc + digit_val c) True cs
      else if c = CHR ''_'' \<and> prev then parse_digits acc False cs
      else None)"

text \<open>\<open>int(s)\<close> on a string: surrounding whitespace, a sign, digits.\<close>

definition int_of_str :: "string \<Rightarrow> int res" where
  "int_of_str s =
     (let bad = Inl (ValueError (''invalid literal for int() with base 10: '' @ s)) in
      case str_strip s of
        [] \<Rightarrow> bad
      | c # cs \<Rightarrow>
          (let neg = (c = CHR ''-'');
               body = (if c = CHR ''-'' \<or> c = CHR ''+'' then cs else c # cs)
           in case parse_digits 0 False body of
                None \<Rightarrow> bad
              | Some n \<Rightarrow> Inr (if neg then - int n else int n)))"

text \<open>The same in binary integers.\<close>

fun parse_int_digits :: "int \<Rightarrow> bool \<Rightarrow> string \<Rightarrow> int option" where
  "parse_int_digits acc prev [] = (if prev then Some acc else None)"
| "parse_int_digits acc prev (c # cs) =
     (if is_digit c then parse_int_digits (10 * acc + (of_char c - 48)) True cs
      else if c = CHR ''_'' \<and> prev then parse_int_digits acc False cs
      else None)"

lemma parse_int_digits: "parse_int_digits (int n) prev s = map_option int (parse_digits n prev s)"
proof (induction s arbitrary: n prev)
  case (Cons c s)
  have "10 * int n + (of_char c - 48) = int (10 * n + digit_val c)" if "is_digit c"
  proof -
    have "48 \<le> (of_char c :: nat)" using that by (simp add: is_digit_def Let_def)
    then have "(of_char c :: int) - 48 = int (digit_val c)" unfolding of_char_int digit_val_def by simp
    then show ?thesis by simp
  qed
  then show ?case using Cons by (simp del: of_nat_add of_nat_mult)
qed simp

lemma int_of_str_code [code]:
  "int_of_str s =
     (let bad = Inl (ValueError (''invalid literal for int() with base 10: '' @ s)) in
      case str_strip s of
        [] \<Rightarrow> bad
      | c # cs \<Rightarrow>
          (let neg = (c = CHR ''-'');
               body = (if c = CHR ''-'' \<or> c = CHR ''+'' then cs else c # cs)
           in case parse_int_digits 0 False body of
                None \<Rightarrow> bad
              | Some n \<Rightarrow> Inr (if neg then - n else n)))"
proof -
  have p: "parse_int_digits 0 False b = map_option int (parse_digits 0 False b)" for b
    using parse_int_digits [of 0 False b] by simp
  show ?thesis unfolding int_of_str_def Let_def p
    by (rule list.case_cong [OF refl refl]) (auto split: option.split)
qed

section \<open>The text of a value\<close>

definition hex_digit :: "nat \<Rightarrow> char" where
  "hex_digit n = (if n < 10 then char_of (48 + n) else char_of (87 + n))"

definition repr_char :: "char \<Rightarrow> char \<Rightarrow> string" where
  "repr_char q c =
     (let n = (of_char c :: nat); bs = char_of (92 :: nat) in
      if c = bs then [bs, bs]
      else if c = q then [bs, q]
      else if n = 10 then [bs, CHR ''n'']
      else if n = 13 then [bs, CHR ''r'']
      else if n = 9 then [bs, CHR ''t'']
      else if n < 32 \<or> n = 127 then [bs, CHR ''x'', hex_digit (n div 16), hex_digit (n mod 16)]
      else [c])"

definition sq :: char where "sq = char_of (39 :: nat)"
definition dq :: char where "dq = char_of (34 :: nat)"
definition bt :: char where "bt = char_of (96 :: nat)"

lemma char_of_of_char: "of_char c = (n::nat) \<Longrightarrow> char_of n = c"
  by (metis char_of_char)

lemma quote_chars_code [code]: "sq = CHR 0x27" "dq = CHR 0x22" "bt = CHR 0x60"
  unfolding sq_def dq_def bt_def by (rule char_of_of_char, simp)+

lemma repr_char_code [code]:
  "repr_char q c =
     (let n = (of_char c :: int); bs = CHR 0x5C in
      if c = bs then [bs, bs]
      else if c = q then [bs, q]
      else if n = 10 then [bs, CHR ''n'']
      else if n = 13 then [bs, CHR ''r'']
      else if n = 9 then [bs, CHR ''t'']
      else if n < 32 \<or> n = 127
      then [bs, CHR ''x'', hex_digit (of_char c div 16), hex_digit (of_char c mod 16)]
      else [c])"
proof -
  have n: "(int (of_char c) = 10) = (of_char c = (10::nat))" "(int (of_char c) = 13) = (of_char c = (13::nat))"
    "(int (of_char c) = 9) = (of_char c = (9::nat))" "(int (of_char c) = 127) = (of_char c = (127::nat))"
    "(int (of_char c) < 32) = (of_char c < (32::nat))" by linarith+
  have b: "char_of (92::nat) = CHR 0x5C" by (rule char_of_of_char) simp
  show ?thesis unfolding repr_char_def Let_def of_char_int n b ..
qed

definition str_repr :: "string \<Rightarrow> string" where
  "str_repr s =
     (let q = (if sq \<in> set s \<and> dq \<notin> set s then dq else sq)
      in [q] @ concat (map (repr_char q) s) @ [q])"

definition pad :: "nat \<Rightarrow> int \<Rightarrow> string" where
  "pad w n = (let t = int_str n in replicate (w - length t) (CHR ''0'') @ t)"

fun date_str :: "int \<times> int \<times> int \<Rightarrow> string" where
  "date_str (y, m, d) = pad 4 y @ ''-'' @ pad 2 m @ ''-'' @ pad 2 d"

fun time_str :: "int \<times> int \<times> int \<times> int \<Rightarrow> string" where
  "time_str (h, m, s, us) =
     pad 2 h @ '':'' @ pad 2 m @ '':'' @ pad 2 s @ (if us = 0 then [] else ''.'' @ pad 6 us)"

fun offset_str :: "int option \<Rightarrow> string" where
  "offset_str None = []"
| "offset_str (Some z) =
     (if z < 0 then ''-'' else ''+'') @ pad 2 (\<bar>z\<bar> div 60) @ '':'' @ pad 2 (\<bar>z\<bar> mod 60)"

definition bool_str :: "bool \<Rightarrow> string" where
  "bool_str b = (if b then ''True'' else ''False'')"

fun py_repr :: "runtime \<Rightarrow> pyval \<Rightarrow> string" where
  "py_repr P PNone = ''None''"
| "py_repr P (PBool b) = bool_str b"
| "py_repr P (PInt i) = int_str i"
| "py_repr P (PFloat f) = rt_float_str P f"
| "py_repr P (PStr s) = str_repr s"
| "py_repr P (PDate d) = ''datetime.date('' @ date_str d @ '')''"
| "py_repr P (PDateTime d t z) = ''datetime.datetime('' @ date_str d @ '' '' @ time_str t @ offset_str z @ '')''"
| "py_repr P (PList vs) = ''['' @ join '', '' (map (py_repr P) vs) @ '']''"
| "py_repr P (PDict kvs) =
     ''{'' @ join '', '' (map (\<lambda>kv. str_repr (fst kv) @ '': '' @ py_repr P (snd kv)) kvs) @ ''}''"
| "py_repr P (PObj t s) = t @ ''('' @ s @ '')''"

fun py_str :: "runtime \<Rightarrow> pyval \<Rightarrow> string" where
  "py_str P (PStr s) = s"
| "py_str P (PDate d) = date_str d"
| "py_str P (PDateTime d t z) = date_str d @ '' '' @ time_str t @ offset_str z"
| "py_str P (PObj t s) = s"
| "py_str P v = py_repr P v"

section \<open>Tests on values\<close>

definition is_none :: "pyval \<Rightarrow> bool" where
  "is_none v = (v = PNone)"

text \<open>\<open>v in (None, "")\<close>.\<close>

definition none_or_empty :: "pyval \<Rightarrow> bool" where
  "none_or_empty v = (v = PNone \<or> v = PStr [])"

text \<open>\<open>row.get(k)\<close>: the value, or None when the key is absent.\<close>

definition row_get :: "row \<Rightarrow> string \<Rightarrow> pyval" where
  "row_get r k = (case dget r k of None \<Rightarrow> PNone | Some v \<Rightarrow> v)"

lemma row_get_Nil [simp]: "row_get [] k = PNone"
  by (simp add: row_get_def)

lemma row_get_dput [simp]: "row_get (dput k v r) k' = (if k' = k then v else row_get r k')"
  by (simp add: row_get_def)

definition quoted :: "string \<Rightarrow> string" where
  "quoted s = [sq] @ s @ [sq]"

section \<open>Conversions and the text of an exception\<close>

definition type_name :: "pyval \<Rightarrow> string" where
  "type_name v = (case v of PNone \<Rightarrow> ''NoneType'' | PBool b \<Rightarrow> ''bool'' | PInt i \<Rightarrow> ''int''
     | PFloat f \<Rightarrow> ''float'' | PStr s \<Rightarrow> ''str'' | PDate d \<Rightarrow> ''datetime.date''
     | PDateTime d t z \<Rightarrow> ''datetime.datetime'' | PList vs \<Rightarrow> ''list'' | PDict kvs \<Rightarrow> ''dict''
     | PObj t s \<Rightarrow> t)"

definition trunc_rat :: "rat \<Rightarrow> int" where
  "trunc_rat q = (if 0 \<le> q then \<lfloor>q\<rfloor> else \<lceil>q\<rceil>)"

text \<open>\<open>int(v)\<close>.\<close>

definition py_int :: "runtime \<Rightarrow> pyval \<Rightarrow> int res" where
  "py_int P v = (case v of
       PBool b \<Rightarrow> Inr (if b then 1 else 0)
     | PInt i \<Rightarrow> Inr i
     | PFloat (Fin q) \<Rightarrow> Inr (trunc_rat q)
     | PFloat (Inf n) \<Rightarrow> Inl (OverflowError ''cannot convert float infinity to integer'')
     | PFloat NaN \<Rightarrow> Inl (ValueError ''cannot convert float NaN to integer'')
     | PStr s \<Rightarrow> int_of_str s
     | PObj t s \<Rightarrow> rt_int_of_obj P v
     | _ \<Rightarrow> Inl (TypeError (''int() argument must be a string, a bytes-like object or a real number, not ''
          @ quoted (type_name v))))"

text \<open>\<open>str(e)\<close>: a KeyError shows the \<open>repr\<close> of its key, every other exception its message.\<close>

fun exn_str :: "exn \<Rightarrow> string" where
  "exn_str (KeyError k) = str_repr k"
| "exn_str (ValueError m) = m"
| "exn_str (IndexError m) = m"
| "exn_str (TypeError m) = m"
| "exn_str (OverflowError m) = m"
| "exn_str (AttributeError m) = m"
| "exn_str (RuntimeError m) = m"
| "exn_str (NotImplementedError m) = m"
| "exn_str (SchemaCycleError ts) =
     ''foreign-key cycle among ['' @ join '', '' (map str_repr ts) @ ''] (self-references excluded)''"
| "exn_str (ReferenceRowNotFound m) = m"
| "exn_str (UnknownTargetTable m) = m"
| "exn_str (DbError m) = m"
| "exn_str (ValidationError m) = m"
| "exn_str (NotFoundError m) = m"
| "exn_str (ConflictError m) = m"

section \<open>Facts\<close>

lemma nat_str_not_Nil [simp]: "nat_str n \<noteq> []"
  by (subst nat_str.simps) simp

lemma is_digit_char:
  assumes "is_digit c"
  shows "\<not> is_space c" and "c \<noteq> CHR ''_''" and "c \<noteq> CHR ''-''" and "c \<noteq> CHR ''+''"
  using assms by (auto simp: is_digit_def is_space_def Let_def)

lemma digit_char_props:
  assumes "n < 10"
  shows "is_digit (digit_char n)" and "digit_val (digit_char n) = n"
  using assms by (simp_all add: digit_char_def is_digit_def digit_val_def Let_def)

lemma nat_str_digits: "\<forall>c \<in> set (nat_str n). is_digit c"
proof (induction n rule: nat_str.induct)
  case (1 n)
  show ?case
  proof (cases "n < 10")
    case True
    then show ?thesis by (subst nat_str.simps) (simp add: digit_char_props)
  next
    case False
    with 1 have "\<forall>c \<in> set (nat_str (n div 10)). is_digit c" by simp
    with False show ?thesis by (subst nat_str.simps) (auto simp: digit_char_props)
  qed
qed

lemma parse_digits_all:
  "\<forall>c \<in> set xs. is_digit c \<Longrightarrow> xs \<noteq> [] \<or> b \<Longrightarrow>
   parse_digits acc b xs = Some (fold (\<lambda>c a. 10 * a + digit_val c) xs acc)"
  by (induction xs arbitrary: acc b) auto

lemma fold_nat_str: "fold (\<lambda>c a. 10 * a + digit_val c) (nat_str n) 0 = n"
proof (induction n rule: nat_str.induct)
  case (1 n)
  then show ?case
    by (cases "n < 10"; subst nat_str.simps) (simp_all add: digit_char_props)
qed

lemma parse_nat_str: "parse_digits 0 False (nat_str n) = Some n"
  by (simp add: parse_digits_all nat_str_digits fold_nat_str)

lemma dropWhile_none: "\<forall>c \<in> set s. \<not> P c \<Longrightarrow> dropWhile P s = s"
  by (cases s) auto

lemma str_strip_id: "\<forall>c \<in> set s. \<not> is_space c \<Longrightarrow> str_strip s = s"
  by (simp add: str_strip_def str_lstrip_def str_rstrip_def dropWhile_none)

text \<open>\<open>int(str(i)) == i\<close>.\<close>

lemma int_of_str_int_str [simp]: "int_of_str (int_str i) = Inr i"
proof -
  have sp: "\<forall>c \<in> set (int_str i). \<not> is_space c"
  proof
    fix c assume "c \<in> set (int_str i)"
    then consider "c = CHR ''-''" | "is_digit c"
      using nat_str_digits by (auto simp: int_str_def split: if_splits)
    then show "\<not> is_space c"
      by cases (simp add: is_space_def Let_def, simp add: is_digit_char)
  qed
  show ?thesis
  proof (cases "i < 0")
    case True
    then show ?thesis
      using str_strip_id [OF sp]
      by (simp add: int_of_str_def int_str_def Let_def parse_nat_str)
  next
    case False
    then obtain c cs where eq: "nat_str (nat i) = c # cs" by (meson neq_Nil_conv nat_str_not_Nil)
    then have "c \<noteq> CHR ''-''" "c \<noteq> CHR ''+''"
      using nat_str_digits [of "nat i"] is_digit_char(3,4) by auto
    then show ?thesis
      using False eq str_strip_id [OF sp] parse_nat_str [of "nat i"]
      by (simp add: int_of_str_def int_str_def Let_def)
  qed
qed

lemma int_str_inj [simp]: "int_str i = int_str j \<longleftrightarrow> i = j"
  by (metis int_of_str_int_str sum.inject(2))

end
