(* ===== verification/Schema_Models.thy ===== *)
theory Schema_Models
  imports Py_Values
begin

text \<open>
  \<open>src/schema_models.py\<close>: the system-agnostic schema (columns, tables, schemas), the
  lookups on it, and its dictionary form (\<open>to_dict\<close> / \<open>from_dict\<close>), with the round trip.
  Also Python's compact JSON text (\<open>json.dumps\<close> with sorted keys), which the fingerprints
  and checksums hash.
\<close>

section \<open>JSON text\<close>

definition json_char :: "char \<Rightarrow> string" where
  "json_char c =
     (let n = (of_char c :: nat); bs = char_of (92 :: nat) in
      if c = dq then [bs, dq]
      else if c = bs then [bs, bs]
      else if n = 10 then [bs, CHR ''n'']
      else if n = 13 then [bs, CHR ''r'']
      else if n = 9 then [bs, CHR ''t'']
      else if n = 8 then [bs, CHR ''b'']
      else if n = 12 then [bs, CHR ''f'']
      else if n < 32 \<or> 126 < n
      then [bs, CHR ''u'', CHR ''0'', CHR ''0'', hex_digit (n div 16), hex_digit (n mod 16)]
      else [c])"

text \<open>The same over binary integers, the common case first: what evaluation uses.\<close>

lemma json_char_code [code]:
  "json_char c =
     (let n = (of_char c :: int); bs = CHR 0x5C in
      if c = dq then [bs, dq]
      else if c = bs then [bs, bs]
      else if 32 \<le> n \<and> n \<le> 126 then [c]
      else if n = 10 then [bs, CHR ''n'']
      else if n = 13 then [bs, CHR ''r'']
      else if n = 9 then [bs, CHR ''t'']
      else if n = 8 then [bs, CHR ''b'']
      else if n = 12 then [bs, CHR ''f'']
      else let m = (of_char c :: nat) in
        [bs, CHR ''u'', CHR ''0'', CHR ''0'', hex_digit (m div 16), hex_digit (m mod 16)])"
proof -
  have "char_of (92 :: nat) = CHR 0x5C" by code_simp
  then show ?thesis by (auto simp: json_char_def Let_def of_char_int)
qed

definition json_string :: "string \<Rightarrow> string" where
  "json_string s = [dq] @ concat (map json_char s) @ [dq]"

text \<open>
  \<open>json.dumps(v, sort_keys=True, separators=(",", ":"), default=str)\<close>: a value JSON does
  not know becomes the JSON string of its \<open>str()\<close>.
\<close>

fun json_text :: "runtime \<Rightarrow> pyval \<Rightarrow> string" where
  "json_text P PNone = ''null''"
| "json_text P (PBool b) = (if b then ''true'' else ''false'')"
| "json_text P (PInt i) = int_str i"
| "json_text P (PFloat (Fin q)) = rt_float_str P (Fin q)"
| "json_text P (PFloat (Inf neg)) = (if neg then ''-Infinity'' else ''Infinity'')"
| "json_text P (PFloat NaN) = ''NaN''"
| "json_text P (PStr s) = json_string s"
| "json_text P (PList vs) = ''['' @ join '','' (map (json_text P) vs) @ '']''"
| "json_text P (PDict kvs) =
     ''{'' @ join '','' (map snd (sort_key fst
        (map (\<lambda>kv. (fst kv, json_string (fst kv) @ '':'' @ json_text P (snd kv))) kvs))) @ ''}''"
| "json_text P v = json_string (py_str P v)"

text \<open>Whether \<open>json.dumps\<close> without \<open>default\<close> accepts the value.\<close>

fun json_plain :: "pyval \<Rightarrow> bool" where
  "json_plain (PList vs) = list_all json_plain vs"
| "json_plain (PDict kvs) = list_all (\<lambda>kv. json_plain (snd kv)) kvs"
| "json_plain (PDate d) = False"
| "json_plain (PDateTime d t z) = False"
| "json_plain (PObj t s) = False"
| "json_plain v = True"

section \<open>The schema\<close>

record column =
  col_name :: string
  col_type :: string
  col_nullable :: bool
  col_pk :: bool
  col_fk :: bool
  col_references :: "string option"
  col_enum :: "string list option"
  col_description :: string
  col_samples :: "pyval list"

record table =
  tab_name :: string
  tab_columns :: "column list"

record schema =
  sch_system :: string
  sch_tables :: "table list"
  sch_version :: string

text \<open>\<open>Column(name, data_type)\<close> with the dataclass defaults.\<close>

definition mk_column :: "string \<Rightarrow> string \<Rightarrow> column" where
  "mk_column n t = \<lparr>col_name = n, col_type = t, col_nullable = True, col_pk = False,
     col_fk = False, col_references = None, col_enum = None, col_description = [],
     col_samples = []\<rparr>"

definition column_names :: "table \<Rightarrow> string list" where
  "column_names t = map col_name (tab_columns t)"

definition get_column :: "table \<Rightarrow> string \<Rightarrow> column option" where
  "get_column t n = find (\<lambda>c. col_name c = n) (tab_columns t)"

definition table_names :: "schema \<Rightarrow> string list" where
  "table_names s = map tab_name (sch_tables s)"

definition get_table :: "schema \<Rightarrow> string \<Rightarrow> table option" where
  "get_table s n = find (\<lambda>t. tab_name t = n) (sch_tables s)"

section \<open>to\_dict and from\_dict\<close>

definition opt_str :: "string option \<Rightarrow> pyval" where
  "opt_str x = (case x of None \<Rightarrow> PNone | Some s \<Rightarrow> PStr s)"

definition column_to_dict :: "column \<Rightarrow> pyval" where
  "column_to_dict c = PDict
     [(''name'', PStr (col_name c)), (''data_type'', PStr (col_type c)),
      (''nullable'', PBool (col_nullable c)), (''is_primary_key'', PBool (col_pk c)),
      (''is_foreign_key'', PBool (col_fk c)), (''references'', opt_str (col_references c)),
      (''enum_values'', (case col_enum c of None \<Rightarrow> PNone | Some vs \<Rightarrow> PList (map PStr vs))),
      (''description'', PStr (col_description c)), (''sample_values'', PList (col_samples c))]"

definition table_to_dict :: "table \<Rightarrow> pyval" where
  "table_to_dict t = PDict
     [(''name'', PStr (tab_name t)), (''columns'', PList (map column_to_dict (tab_columns t)))]"

definition schema_to_dict :: "schema \<Rightarrow> pyval" where
  "schema_to_dict s = PDict
     [(''system_name'', PStr (sch_system s)), (''tables'', PList (map table_to_dict (sch_tables s))),
      (''version'', PStr (sch_version s))]"

text \<open>
  Typed reading of a value. The dataclasses do not check the types of their arguments; a
  document whose fields have other types than \<open>to_dict\<close> writes is refused here with
  TypeError, where the code would carry the wrong value on.
\<close>

definition as_str :: "pyval \<Rightarrow> string res" where
  "as_str v = (case v of PStr s \<Rightarrow> Inr s | _ \<Rightarrow> Inl (TypeError ''expected str''))"

definition as_bool :: "pyval \<Rightarrow> bool res" where
  "as_bool v = (case v of PBool b \<Rightarrow> Inr b | _ \<Rightarrow> Inl (TypeError ''expected bool''))"

definition as_list :: "pyval \<Rightarrow> pyval list res" where
  "as_list v = (case v of PList vs \<Rightarrow> Inr vs | _ \<Rightarrow> Inl (TypeError ''expected list''))"

definition as_dict :: "pyval \<Rightarrow> row res" where
  "as_dict v = (case v of PDict kvs \<Rightarrow> Inr kvs | _ \<Rightarrow> Inl (TypeError ''expected dict''))"

definition as_opt_str :: "pyval \<Rightarrow> string option res" where
  "as_opt_str v = (case v of PNone \<Rightarrow> Inr None | PStr s \<Rightarrow> Inr (Some s)
     | _ \<Rightarrow> Inl (TypeError ''expected str or None''))"

definition as_opt_strs :: "pyval \<Rightarrow> string list option res" where
  "as_opt_strs v = (case v of PNone \<Rightarrow> Inr None
     | PList vs \<Rightarrow> res_bind (map_res as_str vs) (\<lambda>ss. Inr (Some ss))
     | _ \<Rightarrow> Inl (TypeError ''expected list or None''))"

text \<open>\<open>d[k]\<close>.\<close>

definition item :: "row \<Rightarrow> string \<Rightarrow> pyval res" where
  "item d k = (case dget d k of None \<Rightarrow> Inl (KeyError k) | Some v \<Rightarrow> Inr v)"

text \<open>A keyword argument with the dataclass default.\<close>

definition kwarg :: "row \<Rightarrow> string \<Rightarrow> (pyval \<Rightarrow> 'a res) \<Rightarrow> 'a \<Rightarrow> 'a res" where
  "kwarg d k conv dflt = (case dget d k of None \<Rightarrow> Inr dflt | Some v \<Rightarrow> conv v)"

definition required_arg :: "row \<Rightarrow> string \<Rightarrow> (pyval \<Rightarrow> 'a res) \<Rightarrow> 'a res" where
  "required_arg d k conv = (case dget d k of
     None \<Rightarrow> Inl (TypeError (''missing required argument: '' @ k)) | Some v \<Rightarrow> conv v)"

definition column_fields :: "string list" where
  "column_fields = [''name'', ''data_type'', ''nullable'', ''is_primary_key'', ''is_foreign_key'',
     ''references'', ''enum_values'', ''description'', ''sample_values'']"

text \<open>\<open>Column(**c)\<close>.\<close>

definition column_of_dict :: "row \<Rightarrow> column res" where
  "column_of_dict d =
     (if \<not> list_all (\<lambda>k. k \<in> set column_fields) (dkeys d)
      then Inl (TypeError ''unexpected keyword argument'')
      else res_bind (required_arg d ''name'' as_str) (\<lambda>n.
           res_bind (required_arg d ''data_type'' as_str) (\<lambda>t.
           res_bind (kwarg d ''nullable'' as_bool True) (\<lambda>nu.
           res_bind (kwarg d ''is_primary_key'' as_bool False) (\<lambda>pk.
           res_bind (kwarg d ''is_foreign_key'' as_bool False) (\<lambda>fk.
           res_bind (kwarg d ''references'' as_opt_str None) (\<lambda>rf.
           res_bind (kwarg d ''enum_values'' as_opt_strs None) (\<lambda>ev.
           res_bind (kwarg d ''description'' as_str []) (\<lambda>ds.
           res_bind (kwarg d ''sample_values'' as_list []) (\<lambda>sv.
             Inr \<lparr>col_name = n, col_type = t, col_nullable = nu, col_pk = pk, col_fk = fk,
                  col_references = rf, col_enum = ev, col_description = ds, col_samples = sv\<rparr>))))))))))"

definition table_of_dict :: "row \<Rightarrow> table res" where
  "table_of_dict d =
     res_bind (kwarg d ''columns'' as_list []) (\<lambda>cs.
     res_bind (map_res (\<lambda>c. res_bind (as_dict c) column_of_dict) cs) (\<lambda>cols.
     res_bind (item d ''name'') (\<lambda>n. res_bind (as_str n) (\<lambda>name.
       Inr \<lparr>tab_name = name, tab_columns = cols\<rparr>))))"

definition schema_from_dict :: "pyval \<Rightarrow> schema res" where
  "schema_from_dict v =
     res_bind (as_dict v) (\<lambda>d.
     res_bind (kwarg d ''tables'' as_list []) (\<lambda>ts.
     res_bind (map_res (\<lambda>t. res_bind (as_dict t) table_of_dict) ts) (\<lambda>tabs.
     res_bind (item d ''system_name'') (\<lambda>n. res_bind (as_str n) (\<lambda>name.
     res_bind (kwarg d ''version'' as_str ''1'') (\<lambda>ver.
       Inr \<lparr>sch_system = name, sch_tables = tabs, sch_version = ver\<rparr>))))))"

section \<open>Facts\<close>

lemma find_name_Some:
  "find P xs = Some x \<Longrightarrow> P x \<and> x \<in> set xs"
  by (induction xs) (auto split: if_splits)

lemma find_None_iff_all: "find P xs = None \<longleftrightarrow> (\<forall>x \<in> set xs. \<not> P x)"
  by (induction xs) auto

lemma get_column_name: "get_column t n = Some c \<Longrightarrow> col_name c = n \<and> c \<in> set (tab_columns t)"
  unfolding get_column_def by (drule find_name_Some) simp

lemma get_table_name: "get_table s n = Some t \<Longrightarrow> tab_name t = n \<and> t \<in> set (sch_tables s)"
  unfolding get_table_def by (drule find_name_Some) simp

lemma get_column_None: "get_column t n = None \<longleftrightarrow> n \<notin> set (column_names t)"
  by (auto simp: get_column_def column_names_def find_None_iff_all)

lemma get_table_None: "get_table s n = None \<longleftrightarrow> n \<notin> set (table_names s)"
  by (auto simp: get_table_def table_names_def find_None_iff_all)

lemma map_res_to: "(\<And>x. x \<in> set xs \<Longrightarrow> f (g x) = Inr x) \<Longrightarrow> map_res f (map g xs) = Inr xs"
  by (induction xs) auto

lemma as_opt_str_opt_str [simp]: "as_opt_str (opt_str x) = Inr x"
  by (cases x) (simp_all add: as_opt_str_def opt_str_def)

lemma as_opt_strs_list:
  "as_opt_strs (case x of None \<Rightarrow> PNone | Some vs \<Rightarrow> PList (map PStr vs)) = Inr x"
  by (cases x) (simp_all add: as_opt_strs_def map_res_to as_str_def)

lemma column_roundtrip: "res_bind (as_dict (column_to_dict c)) column_of_dict = Inr c"
  by (simp add: column_to_dict_def as_dict_def column_of_dict_def dkeys_def column_fields_def
      required_arg_def kwarg_def dget_def as_opt_strs_list as_bool_def as_list_def
      as_str_def [of "PStr _"])

lemma columns_roundtrip:
  "map_res (\<lambda>c. res_bind (as_dict c) column_of_dict) (map column_to_dict cs) = Inr cs"
  by (rule map_res_to) (rule column_roundtrip)

lemma table_roundtrip: "res_bind (as_dict (table_to_dict t)) table_of_dict = Inr t"
  by (simp add: table_to_dict_def as_dict_def [of "PDict _"] table_of_dict_def kwarg_def item_def dget_def
      as_list_def as_str_def columns_roundtrip)

lemma tables_roundtrip:
  "map_res (\<lambda>t. res_bind (as_dict t) table_of_dict) (map table_to_dict ts) = Inr ts"
  by (rule map_res_to) (rule table_roundtrip)

text \<open>C40: a schema document written by \<open>to_dict\<close> is read back by \<open>from_dict\<close> as the same schema.\<close>

theorem schema_roundtrip: "schema_from_dict (schema_to_dict s) = Inr s"
  by (simp add: schema_to_dict_def as_dict_def [of "PDict _"] schema_from_dict_def kwarg_def item_def
      dget_def as_list_def as_str_def tables_roundtrip)

end
