(* ===== verification/Schema_Ingest.thy ===== *)
theory Schema_Ingest
  imports Schema_Models
begin

text \<open>
  \<open>src/schema_ingest.py\<close>: normalisation of native type names, the readers of a JSON export
  and of \<open>information_schema\<close> rows, the comma splitter and the column reader of the DDL
  parser, the schema subset and the fingerprints. The hash function is the parameter
  \<open>rt_sha256\<close>; the JSON text it hashes is computed.
\<close>

definition type_map :: "(string, string) dict" where
  "type_map =
    [(''varchar'', ''string''), (''char'', ''string''), (''text'', ''text''), (''nvarchar'', ''string''),
     (''int'', ''integer''), (''integer'', ''integer''), (''bigint'', ''integer''), (''smallint'', ''integer''),
     (''decimal'', ''float''), (''numeric'', ''float''), (''float'', ''float''), (''double'', ''float''),
     (''real'', ''float''),
     (''bool'', ''boolean''), (''boolean'', ''boolean''), (''bit'', ''boolean''),
     (''date'', ''date''), (''datetime'', ''datetime''), (''timestamp'', ''datetime''), (''time'', ''datetime''),
     (''uuid'', ''uuid''), (''uniqueidentifier'', ''uuid''),
     (''json'', ''json''), (''jsonb'', ''json''),
     (''enum'', ''enum'')]"

text \<open>\<open>re.split(r"[\s(]", raw, maxsplit=1)[0]\<close> is the text before the first space or bracket.\<close>

definition normalize_type :: "string \<Rightarrow> string" where
  "normalize_type raw_type =
     (let raw = str_lower (str_strip raw_type);
          base = takeWhile (\<lambda>c. \<not> is_space c \<and> c \<noteq> CHR ''('') raw
      in case dget type_map base of None \<Rightarrow> ''string'' | Some t \<Rightarrow> t)"

section \<open>The DDL reader's column list\<close>

text \<open>
  The character loop of \<open>parse_ddl\<close>: split the body on commas outside brackets. The state
  is (depth, parts, current), the parts in order.
\<close>

fun split_columns :: "int \<Rightarrow> string list \<Rightarrow> string \<Rightarrow> string \<Rightarrow> string list" where
  "split_columns depth parts current [] =
     (if str_strip current \<noteq> [] then parts @ [current] else parts)"
| "split_columns depth parts current (ch # body) =
     (let depth' = (if ch = CHR ''('' then depth + 1 else if ch = CHR '')'' then depth - 1 else depth)
      in if ch = CHR '','' \<and> depth' = 0
         then split_columns depth' (parts @ [current]) [] body
         else split_columns depth' parts (current @ [ch]) body)"

definition is_word :: "char \<Rightarrow> bool" where
  "is_word c = (is_upper c \<or> is_lower c \<or> is_digit c \<or> c = CHR ''_'')"

definition is_alpha :: "char \<Rightarrow> bool" where
  "is_alpha c = (is_upper c \<or> is_lower c)"

text \<open>\<open>^(PRIMARY|FOREIGN|UNIQUE|CONSTRAINT|KEY)\b\<close>, ignoring case.\<close>

definition is_constraint_part :: "string \<Rightarrow> bool" where
  "is_constraint_part part =
     list_ex (\<lambda>kw. starts_with kw (str_upper part) \<and>
        (case drop (length kw) part of [] \<Rightarrow> True | c # _ \<Rightarrow> \<not> is_word c))
       [''PRIMARY'', ''FOREIGN'', ''UNIQUE'', ''CONSTRAINT'', ''KEY'']"

text \<open>An optional character of a class.\<close>

definition skip_opt :: "char set \<Rightarrow> string \<Rightarrow> string" where
  "skip_opt cs s = (case s of [] \<Rightarrow> [] | c # r \<Rightarrow> if c \<in> cs then r else s)"

text \<open>
  \<open>[\[`"]?(\w+)[\]`"]?\s+([A-Za-z]+(?:\([^)]*\))?)(.*)\<close>: the name, the type with its
  optional bracketed arguments, and the rest of the line (\<open>.\<close> does not match a newline). A
  greedy reading is exact here: the classes that follow each other are disjoint.
\<close>

definition match_column :: "string \<Rightarrow> (string \<times> string \<times> string) option" where
  "match_column part =
     (let s1 = skip_opt {CHR ''['', bt, dq} part;
          name = takeWhile is_word s1;
          s2 = skip_opt {CHR '']'', bt, dq} (dropWhile is_word s1);
          s3 = dropWhile is_space s2;
          ty = takeWhile is_alpha s3;
          s4 = dropWhile is_alpha s3;
          args = (case s4 of
                    CHR ''('' # r \<Rightarrow> (if CHR '')'' \<in> set r
                        then CHR ''('' # takeWhile (\<lambda>c. c \<noteq> CHR '')'') r @ [CHR '')''] else [])
                  | _ \<Rightarrow> []);
          rest = takeWhile (\<lambda>c. of_char c \<noteq> (10::nat)) (drop (length args) s4)
      in if name = [] \<or> s3 = s2 \<or> ty = [] then None else Some (name, ty @ args, rest))"

definition column_of_part :: "string \<Rightarrow> column option" where
  "column_of_part part0 =
     (let part = str_strip part0 in
      if part = [] \<or> is_constraint_part part then None
      else case match_column part of
             None \<Rightarrow> None
           | Some (name, raw_type, rest) \<Rightarrow>
               Some ((mk_column name (normalize_type raw_type))
                 \<lparr>col_nullable := \<not> str_in ''NOT NULL'' (str_upper rest),
                  col_pk := str_in ''PRIMARY KEY'' (str_upper rest)\<rparr>))"

text \<open>The columns of one CREATE TABLE body.\<close>

definition columns_of_body :: "string \<Rightarrow> column list" where
  "columns_of_body body = List.map_filter column_of_part (split_columns 0 [] [] body)"

text \<open>
  \<open>CREATE\s+TABLE\s+(?:IF NOT EXISTS\s+)?[\[`"]?(\w+)[\]`"]?\s*\((.*?)\)\s*;\<close>, ignoring case: the
  table name, the body (the shortest one that a closing bracket and a semicolon follow) and
  the text after the match.
\<close>

definition skip_word :: "string \<Rightarrow> string \<Rightarrow> string option" where
  "skip_word kw s = (if starts_with kw (str_upper s) then Some (drop (length kw) s) else None)"

definition skip_spaces1 :: "string \<Rightarrow> string option" where
  "skip_spaces1 s = (case s of [] \<Rightarrow> None | c # r \<Rightarrow> if is_space c then Some (dropWhile is_space r) else None)"

fun body_end :: "string \<Rightarrow> string \<Rightarrow> (string \<times> string) option" where
  "body_end acc [] = None"
| "body_end acc (c # r) =
     (if c = CHR '')'' \<and> starts_with '';'' (dropWhile is_space r)
      then Some (acc, drop 1 (dropWhile is_space r))
      else body_end (acc @ [c]) r)"

definition match_table :: "string \<Rightarrow> (string \<times> string \<times> string) option" where
  "match_table s =
     Option.bind (skip_word ''CREATE'' s) (\<lambda>s1.
     Option.bind (skip_spaces1 s1) (\<lambda>s2.
     Option.bind (skip_word ''TABLE'' s2) (\<lambda>s3.
     Option.bind (skip_spaces1 s3) (\<lambda>s4.
       let s5 = (case Option.bind (skip_word ''IF NOT EXISTS'' s4) skip_spaces1 of
                   None \<Rightarrow> s4 | Some r \<Rightarrow> r);
           s6 = skip_opt {CHR ''['', bt, dq} s5;
           name = takeWhile is_word s6;
           s7 = skip_opt {CHR '']'', bt, dq} (dropWhile is_word s6);
           s8 = dropWhile is_space s7
       in if name = [] then None
          else case s8 of
                 CHR ''('' # r \<Rightarrow> map_option (\<lambda>(b, rest). (name, b, rest)) (body_end [] r)
               | _ \<Rightarrow> None))))"

lemma length_dropWhile_less: "length (dropWhile Q xs) \<le> length xs"
  by (rule length_dropWhile_le)

lemma length_skip_opt: "length (skip_opt cs s) \<le> length s"
  by (auto simp: skip_opt_def split: list.splits)

lemma skip_word_length: "skip_word kw s = Some r \<Longrightarrow> length r \<le> length s"
  by (auto simp: skip_word_def split: if_splits)

lemma skip_spaces1_length: "skip_spaces1 s = Some r \<Longrightarrow> length r < length s"
  by (auto simp: skip_spaces1_def less_Suc_eq_le length_dropWhile_le split: list.splits if_splits)

lemma body_end_length: "body_end acc s = Some (b, rest) \<Longrightarrow> length rest \<le> length s"
proof (induction acc s rule: body_end.induct)
  case (2 acc c r)
  then show ?case
    using length_dropWhile_le [of is_space r] by (auto split: if_splits)
qed simp

lemma match_table_length:
  assumes "match_table s = Some (n, b, rest)" shows "length rest < length s"
proof -
  obtain s1 s2 s3 s4 s5 r where
    h: "skip_word ''CREATE'' s = Some s1" "skip_spaces1 s1 = Some s2" "skip_word ''TABLE'' s2 = Some s3"
      "skip_spaces1 s3 = Some s4"
      "s5 = (case Option.bind (skip_word ''IF NOT EXISTS'' s4) skip_spaces1 of None \<Rightarrow> s4 | Some r \<Rightarrow> r)"
      "dropWhile is_space (skip_opt {CHR '']'', bt, dq}
         (dropWhile is_word (skip_opt {CHR ''['', bt, dq} s5))) = CHR ''('' # r"
      "body_end [] r = Some (b, rest)"
    using assms
    by (auto simp: match_table_def Let_def bind_eq_Some_conv split: if_splits list.splits char.splits bool.splits)
  have "length s5 \<le> length s4"
    using h(5) by (auto split: option.splits simp: bind_eq_Some_conv
        dest!: skip_word_length skip_spaces1_length)
  moreover have "length (CHR ''('' # r) \<le> length s5"
    unfolding h(6) [symmetric]
    by (meson length_dropWhile_le length_skip_opt order_trans)
  moreover note skip_word_length [OF h(1)] skip_spaces1_length [OF h(2)]
    skip_word_length [OF h(3)] skip_spaces1_length [OF h(4)] body_end_length [OF h(7)]
  ultimately show ?thesis by simp
qed

text \<open>\<open>table_pattern.finditer(ddl_text)\<close>: non-overlapping matches from left to right.\<close>

function find_tables :: "string \<Rightarrow> (string \<times> string) list" where
  "find_tables [] = []"
| "find_tables (c # cs) =
     (case match_table (c # cs) of
        None \<Rightarrow> find_tables cs
      | Some (n, b, rest) \<Rightarrow> (n, b) # find_tables rest)"
  by pat_completeness auto
termination
  by (relation "measure length") (auto dest: match_table_length)

definition parse_ddl :: "string \<Rightarrow> string \<Rightarrow> schema" where
  "parse_ddl ddl_text system_name =
     \<lparr>sch_system = system_name,
      sch_tables = map (\<lambda>(n, b). \<lparr>tab_name = n, tab_columns = columns_of_body b\<rparr>) (find_tables ddl_text),
      sch_version = ''1''\<rparr>"

section \<open>JSON export and information\_schema\<close>

definition export_column :: "row \<Rightarrow> column res" where
  "export_column c =
     res_bind (item c ''name'') (\<lambda>nv. res_bind (as_str nv) (\<lambda>n.
     res_bind (kwarg c ''type'' as_str ''string'') (\<lambda>ty.
     res_bind (kwarg c ''nullable'' as_bool True) (\<lambda>nu.
     res_bind (kwarg c ''primary_key'' as_bool False) (\<lambda>pk.
     res_bind (kwarg c ''description'' as_str []) (\<lambda>ds.
       Inr ((mk_column n (normalize_type ty))
         \<lparr>col_nullable := nu, col_pk := pk, col_description := ds\<rparr>)))))))"

definition from_json_export :: "(string, row list) dict \<Rightarrow> string \<Rightarrow> schema res" where
  "from_json_export js system_name =
     res_bind (map_res (\<lambda>(n, cols). res_bind (map_res export_column cols)
                 (\<lambda>cs. Inr \<lparr>tab_name = n, tab_columns = cs\<rparr>)) js)
       (\<lambda>ts. Inr \<lparr>sch_system = system_name, sch_tables = ts, sch_version = ''1''\<rparr>)"

text \<open>\<open>{str(k).lower(): v for k, v in row.items()}\<close>.\<close>

definition lower_keys :: "row \<Rightarrow> row" where
  "lower_keys r = dict_of (map (\<lambda>(k, v). (str_lower k, v)) r)"

definition info_column :: "runtime \<Rightarrow> row \<Rightarrow> (string \<times> column) res" where
  "info_column P r0 =
     (let r = lower_keys r0 in
      res_bind (item r ''table_name'') (\<lambda>tv. res_bind (as_str tv) (\<lambda>t.
      res_bind (item r ''column_name'') (\<lambda>nv. res_bind (as_str nv) (\<lambda>n.
      res_bind (item r ''data_type'') (\<lambda>yv. res_bind (as_str yv) (\<lambda>ty.
        Inr (t, (mk_column n (normalize_type ty))
          \<lparr>col_nullable := (str_upper (py_str P (case dget r ''is_nullable'' of None \<Rightarrow> PStr ''YES'' | Some v \<Rightarrow> v)) = ''YES''),
           col_pk := (str_upper (py_str P (case dget r ''column_key'' of None \<Rightarrow> PStr [] | Some v \<Rightarrow> v)) = ''PRI'')\<rparr>))))))))"

definition tables_of_grouped :: "(string, column list) dict \<Rightarrow> table list" where
  "tables_of_grouped d = map (\<lambda>(n, cs). \<lparr>tab_name = n, tab_columns = cs\<rparr>) (sort_key fst d)"

definition from_information_schema :: "runtime \<Rightarrow> row list \<Rightarrow> string \<Rightarrow> schema res" where
  "from_information_schema P rows system_name =
     res_bind (map_res (info_column P) rows) (\<lambda>tcs.
       Inr \<lparr>sch_system = system_name,
            sch_tables = tables_of_grouped (fold (\<lambda>(t, c) d. dappend t c d) tcs []),
            sch_version = ''1''\<rparr>)"

section \<open>Fingerprints and subsets\<close>

definition schema_fingerprint :: "runtime \<Rightarrow> schema \<Rightarrow> string res" where
  "schema_fingerprint P s =
     (if json_plain (schema_to_dict s) then Inr (rt_sha256 P (json_text P (schema_to_dict s)))
      else Inl (TypeError ''not JSON serializable''))"

definition schema_subset :: "schema \<Rightarrow> string list \<Rightarrow> schema" where
  "schema_subset s names = s\<lparr>sch_tables := filter (\<lambda>t. tab_name t \<in> set names) (sch_tables s)\<rparr>"

definition table_schema :: "schema \<Rightarrow> string \<Rightarrow> schema option" where
  "table_schema s n = (case get_table s n of None \<Rightarrow> None | Some t \<Rightarrow> Some (s\<lparr>sch_tables := [t]\<rparr>))"

definition entity_target_contract ::
  "runtime \<Rightarrow> row list \<Rightarrow> string list \<Rightarrow> string \<Rightarrow> (schema \<times> string option) res" where
  "entity_target_contract P rows target_tables system_name =
     res_bind (from_information_schema P rows system_name) (\<lambda>observed.
       let contract = schema_subset observed target_tables in
       if sch_tables contract = [] then Inr (contract, None)
       else res_bind (schema_fingerprint P contract) (\<lambda>f. Inr (contract, Some f)))"

section \<open>Facts\<close>

subsection \<open>The comma splitter loses nothing\<close>

lemma join_snoc: "ps \<noteq> [] \<Longrightarrow> join sep (ps @ [p]) = join sep ps @ sep @ p"
  by (induction ps rule: induct_list012) auto

lemma join_merge: "join sep (ps @ [p, q]) = join sep (ps @ [p @ sep @ q])"
proof (cases "ps = []")
  case False
  then show ?thesis
    using join_snoc [of "ps @ [p]" sep q] join_snoc [of ps sep p] join_snoc [of ps sep "p @ sep @ q"]
    by simp
qed simp

text \<open>The loop invariant: parts, then current, then the unread body spell the whole text.\<close>

lemma split_columns_join:
  "\<exists>tl. str_strip tl = [] \<and>
     join '','' (parts @ [current @ body])
       \<in> {join '','' (split_columns depth parts current body),
          join '','' (split_columns depth parts current body @ [tl])}"
proof (induction depth parts current body rule: split_columns.induct)
  case (1 depth parts current)
  have e: "str_strip [] = []" by (simp add: str_strip_def str_lstrip_def str_rstrip_def)
  show ?case
    by (cases "str_strip current = []") (auto intro: exI [of _ current] exI [of _ "[]"] simp: e)
next
  case (2 depth parts current ch body)
  define depth' where "depth' = (if ch = CHR ''('' then depth + 1 else if ch = CHR '')'' then depth - 1 else depth)"
  show ?case
  proof (cases "ch = CHR '','' \<and> depth' = 0")
    case True
    have "join '','' ((parts @ [current]) @ [[] @ body]) = join '','' (parts @ [current @ ch # body])"
      using True join_merge [of "'',''" parts current body] by simp
    moreover have "split_columns depth parts current (ch # body) = split_columns depth' (parts @ [current]) [] body"
      unfolding split_columns.simps Let_def depth'_def [symmetric] using True by simp
    ultimately show ?thesis using 2(1) [OF depth'_def True] by simp
  next
    case False
    have "split_columns depth parts current (ch # body) = split_columns depth' parts (current @ [ch]) body"
      unfolding split_columns.simps Let_def depth'_def [symmetric] by (rule if_not_P [OF False])
    then show ?thesis using 2(2) [OF depth'_def False] by simp
  qed
qed

text \<open>
  Splitting a CREATE TABLE body on its top-level commas loses nothing: joining the parts
  with commas gives the body back, up to a last part that is only whitespace.
\<close>

theorem split_columns_lossless:
  "\<exists>tl. str_strip tl = [] \<and>
     body \<in> {join '','' (split_columns 0 [] [] body), join '','' (split_columns 0 [] [] body @ [tl])}"
  using split_columns_join [of "[]" "[]" body 0] by simp

subsection \<open>Grouping rows by table\<close>

lemma filter_update:
  "filter (\<lambda>kv. Q (fst kv)) (AList.update k v d) =
     (if Q k then AList.update k v (filter (\<lambda>kv. Q (fst kv)) d) else filter (\<lambda>kv. Q (fst kv)) d)"
  by (induction d) auto

lemma dget_filter_fst: "dget (filter (\<lambda>kv. Q (fst kv)) d) k = (if Q k then dget d k else None)"
  by (induction d) (auto simp: dget_def)

lemma filter_dappend:
  "filter (\<lambda>kv. Q (fst kv)) (dappend k x d) =
     (if Q k then dappend k x (filter (\<lambda>kv. Q (fst kv)) d) else filter (\<lambda>kv. Q (fst kv)) d)"
  by (simp add: dappend_def dput_def filter_update dget_filter_fst)

definition grouped_columns :: "(string \<times> column) list \<Rightarrow> (string, column list) dict" where
  "grouped_columns tcs = fold (\<lambda>(t, c) d. dappend t c d) tcs []"

lemma filter_grouped_columns:
  "filter (\<lambda>kv. Q (fst kv)) (grouped_columns tcs) = grouped_columns (filter (\<lambda>tc. Q (fst tc)) tcs)"
  unfolding grouped_columns_def
  by (induction tcs rule: rev_induct) (auto simp: filter_dappend split: prod.splits)

lemma wf_grouped_columns: "wf_dict (grouped_columns tcs)"
  unfolding grouped_columns_def
  by (induction tcs rule: rev_induct) (auto split: prod.splits)

lemma dget_grouped_columns:
  "dget (grouped_columns tcs) t =
     (if t \<in> fst ` set tcs then Some (map snd (filter (\<lambda>tc. fst tc = t) tcs)) else None)"
  unfolding grouped_columns_def
proof (induction tcs rule: rev_induct)
  case (snoc tc tcs)
  then show ?case
    by (cases tc) (auto simp: dget_dappend image_iff filter_empty_conv)
qed simp

lemma filter_tables_of_grouped:
  "filter (\<lambda>t. Q (tab_name t)) (tables_of_grouped d) = tables_of_grouped (filter (\<lambda>kv. Q (fst kv)) d)"
  by (simp add: tables_of_grouped_def filter_map comp_def case_prod_beta filter_sort)

text \<open>The table an information\_schema row speaks of.\<close>

definition row_table :: "row \<Rightarrow> pyval" where
  "row_table r = row_get (lower_keys r) ''table_name''"

lemma info_column_table: "info_column P r = Inr (t, c) \<Longrightarrow> row_table r = PStr t"
  by (auto simp: info_column_def Let_def res_bind_Inr_iff item_def as_str_def row_table_def row_get_def
      split: option.splits pyval.splits)

lemma map_res_filter:
  assumes "map_res f xs = Inr ys" and "\<And>x y. f x = Inr y \<Longrightarrow> P x = Q y"
  shows "map_res f (filter P xs) = Inr (filter Q ys)"
  using assms(1)
  by (induction xs arbitrary: ys) (auto simp: res_bind_Inr_iff assms(2))

lemma from_information_schema_tables:
  assumes "from_information_schema P rows sys = Inr s"
  obtains tcs where "map_res (info_column P) rows = Inr tcs"
    and "s = \<lparr>sch_system = sys, sch_tables = tables_of_grouped (grouped_columns tcs), sch_version = ''1''\<rparr>"
  using assms by (auto simp: from_information_schema_def res_bind_Inr_iff grouped_columns_def)

text \<open>
  The table list read from \<open>information_schema\<close> has one entry per table, in name order,
  each with exactly the columns of its rows in row order.
\<close>

theorem from_information_schema_grouped:
  assumes "from_information_schema P rows sys = Inr s"
  shows "sorted (table_names s) \<and> distinct (table_names s) \<and>
    (\<exists>tcs. map_res (info_column P) rows = Inr tcs \<and>
      (\<forall>t. get_table s t = (if t \<in> fst ` set tcs
         then Some \<lparr>tab_name = t, tab_columns = map snd (filter (\<lambda>tc. fst tc = t) tcs)\<rparr> else None)))"
proof -
  obtain tcs where tcs: "map_res (info_column P) rows = Inr tcs"
    and s: "s = \<lparr>sch_system = sys, sch_tables = tables_of_grouped (grouped_columns tcs), sch_version = ''1''\<rparr>"
    using assms by (rule from_information_schema_tables)
  let ?d = "sort_key fst (grouped_columns tcs)"
  have names: "table_names s = map fst ?d"
    by (simp add: s table_names_def tables_of_grouped_def comp_def case_prod_beta)
  have dist: "distinct (map fst ?d)"
    using wf_grouped_columns [of tcs]
    by (simp add: wf_dict_def distinct_map)
  have find_assoc: "find (\<lambda>t. tab_name t = n) (map (\<lambda>(n, cs). \<lparr>tab_name = n, tab_columns = cs\<rparr>) d)
      = map_option (\<lambda>cs. \<lparr>tab_name = n, tab_columns = cs\<rparr>) (map_of d n)" for n d
    by (induction d) auto
  have "map_of ?d = map_of (grouped_columns tcs)"
    using dist wf_grouped_columns [of tcs]
    by (intro map_of_inject_set [THEN iffD2]) (auto simp: wf_dict_def)
  then have "get_table s t = map_option (\<lambda>cs. \<lparr>tab_name = t, tab_columns = cs\<rparr>) (dget (grouped_columns tcs) t)" for t
    by (simp add: s get_table_def tables_of_grouped_def find_assoc dget_def)
  then show ?thesis
    using names dist tcs by (auto simp: dget_grouped_columns)
qed

text \<open>
  A fingerprint does not see other tables: dropping every row of a table outside the
  target footprint leaves the contract of the entity unchanged.
\<close>

theorem entity_contract_isolated:
  assumes "map_res (info_column P) rows = Inr tcs"
  shows "entity_target_contract P (filter (\<lambda>r. row_table r \<in> PStr ` set tables) rows) tables sys
    = entity_target_contract P rows tables sys"
proof -
  have "map_res (info_column P) (filter (\<lambda>r. row_table r \<in> PStr ` set tables) rows)
      = Inr (filter (\<lambda>tc. fst tc \<in> set tables) tcs)"
    by (rule map_res_filter [OF assms]) (auto dest: info_column_table)
  then show ?thesis
    using assms
    by (simp add: entity_target_contract_def from_information_schema_def schema_subset_def
        grouped_columns_def [symmetric] filter_tables_of_grouped [of "\<lambda>n. n \<in> set tables"]
        filter_grouped_columns [of "\<lambda>n. n \<in> set tables"])
qed


definition sample_rows :: "row list" where
  "sample_rows =
     [[(''table_name'', PStr ''b''), (''column_name'', PStr ''x''), (''data_type'', PStr ''INT'')],
      [(''TABLE_NAME'', PStr ''a''), (''COLUMN_NAME'', PStr ''y''), (''DATA_TYPE'', PStr ''varchar(20)'')],
      [(''table_name'', PStr ''b''), (''column_name'', PStr ''z''), (''data_type'', PStr ''date'')]]"

lemma sample_rows_parse:
  "map_res (info_column sample_runtime) sample_rows =
     Inr [(''b'', mk_column ''x'' ''integer''), (''a'', mk_column ''y'' ''string''), (''b'', mk_column ''z'' ''date'')]"
  by code_simp

theorem from_information_schema_grouped_witness:
  "from_information_schema sample_runtime sample_rows ''T'' = Inr
     \<lparr>sch_system = ''T'',
      sch_tables = [\<lparr>tab_name = ''a'', tab_columns = [mk_column ''y'' ''string'']\<rparr>,
        \<lparr>tab_name = ''b'', tab_columns = [mk_column ''x'' ''integer'', mk_column ''z'' ''date'']\<rparr>],
      sch_version = ''1''\<rparr> \<and>
   (\<exists>s. from_information_schema sample_runtime sample_rows ''T'' = Inr s \<and>
      distinct (table_names s))"
proof -
  have e: "from_information_schema sample_runtime sample_rows ''T'' = Inr
     \<lparr>sch_system = ''T'',
      sch_tables = [\<lparr>tab_name = ''a'', tab_columns = [mk_column ''y'' ''string'']\<rparr>,
        \<lparr>tab_name = ''b'', tab_columns = [mk_column ''x'' ''integer'', mk_column ''z'' ''date'']\<rparr>],
      sch_version = ''1''\<rparr>" by code_simp
  then show ?thesis using from_information_schema_grouped [OF e] by blast
qed

theorem entity_contract_isolated_witness:
  "entity_target_contract sample_runtime
     (filter (\<lambda>r. row_table r \<in> PStr ` set [''b'']) sample_rows) [''b''] ''T''
   = entity_target_contract sample_runtime sample_rows [''b''] ''T'' \<and>
   filter (\<lambda>r. row_table r \<in> PStr ` set [''b'']) sample_rows \<noteq> sample_rows"
proof -
  have "filter (\<lambda>r. row_table r \<in> PStr ` set [''b'']) sample_rows \<noteq> sample_rows" by code_simp
  then show ?thesis using entity_contract_isolated [OF sample_rows_parse, of "[''b'']" "''T''"] by blast
qed

end
