(* ===== verification/Central_Db.thy ===== *)
theory Central_Db
  imports Schema_Ingest
begin

text \<open>
  The central PostgreSQL database (\<open>sql/*.sql\<close>): the \<open>integration\<close> tables the modelled
  modules read and write, as lists of rows in insertion order, and the relational effect of
  the statements the code issues (SELECT with a filter, UPDATE, upsert, DELETE). Timestamps
  are integers (microseconds); \<open>now()\<close> is an argument of the operations that use it. A
  BIGSERIAL column draws from a counter of its own. An operation that raises returns no new
  state: the transaction it belongs to is rolled back.
\<close>

section \<open>Status columns\<close>

datatype delivery_status = Pending | Processing | Delivered | Retry | Quarantined | DeadLetter

datatype mapping_status = MDraft | MApproved | MSuperseded | MPaused

datatype entity_status = EDiscovered | EProposed | EReviewed | EDeployed | EPaused | EDisabled

datatype proposal_status = PDraft | PAutoApproved | PNeedsReview | PApproved | PRejected | PDeploying

datatype review_status = RPending | RAccepted | RRejected | RResolved

section \<open>Rows\<close>

record outbox_row =
  ev_id :: string
  ev_source_system :: string
  ev_source_entity :: string
  ev_external_reference :: string
  ev_operation :: string
  ev_payload :: pyval
  ev_payload_checksum :: string
  ev_target_system :: string
  ev_mapping_version_id :: "int option"
  ev_status :: delivery_status
  ev_attempts :: nat
  ev_available_at :: int
  ev_source_updated_at :: int
  ev_created_at :: int
  ev_processed_at :: "int option"
  ev_error_code :: "string option"
  ev_error_message :: "string option"

record control_row =
  ct_source_entity :: string
  ct_target_system :: string
  ct_enabled :: bool
  ct_paused_reason :: "string option"
  ct_updated_at :: int

text \<open>One entry of a mapping document: a source column and where it goes.\<close>

record mapping_entry =
  m_source :: string
  m_table :: "string option"
  m_column :: "string option"
  m_transform :: "string option"

record mapping_version_row =
  mv_id :: int
  mv_source_entity :: string
  mv_target_system :: string
  mv_target_table :: string
  mv_fingerprint :: string
  mv_version :: int
  mv_status :: mapping_status
  mv_mappings :: "mapping_entry list"
  mv_approved_at :: "int option"
  mv_approved_by :: "string option"

record projection_row =
  pr_event_id :: string
  pr_external_reference :: string
  pr_target_system :: string
  pr_target_table :: string
  pr_mapping_version_id :: int
  pr_payload :: pyval
  pr_checksum :: string
  pr_delivered_at :: "int option"

record quarantine_row =
  qr_event_id :: string
  qr_errors :: "string list"
  qr_payload :: pyval
  qr_mapping_version_id :: "int option"

record audit_row =
  au_event_id :: string
  au_attempt :: nat
  au_outcome :: string
  au_code :: string
  au_message :: "string option"

record crosswalk_row =
  cw_source_system :: string
  cw_source_entity :: string
  cw_external_reference :: string
  cw_target_system :: string
  cw_target_table :: string
  cw_target_id :: "string option"
  cw_last_event_id :: "string option"
  cw_updated_at :: int

record drift_report_row =
  dr_target_system :: string
  dr_previous :: "string option"
  dr_observed :: string
  dr_differences :: pyval
  dr_impacted :: "string list"
  dr_breaking :: bool
  dr_pair :: string
  dr_resolved_at :: "int option"
  dr_resolved_by :: "string option"

record entity_row =
  en_id :: int
  en_source_system :: string
  en_source_schema :: string
  en_source_table :: string
  en_pk_columns :: "string list"
  en_updated_at_column :: "string option"
  en_target_system :: string
  en_source_fingerprint :: "string option"
  en_target_fingerprint :: "string option"
  en_scope_version :: int
  en_status :: entity_status
  en_deployed_by :: "string option"
  en_deployed_at :: "int option"
  en_paused_reason :: "string option"
  en_target_tables :: "string list option"
  en_updated_at :: int

record proposal_row =
  po_id :: int
  po_entity_id :: int
  po_source_fingerprint :: string
  po_target_fingerprint :: string
  po_status :: proposal_status
  po_mappings :: pyval
  po_ignored :: "string list"
  po_unmet :: "string list"
  po_auto_count :: nat
  po_review_count :: nat
  po_rejected_count :: nat
  po_ai_response :: "pyval option"
  po_reviewed_by :: "string option"
  po_reviewed_at :: "int option"
  po_created_at :: int
  po_updated_at :: int

record review_row =
  rv_id :: int
  rv_proposal_id :: int
  rv_source_column :: string
  rv_target_table :: "string option"
  rv_target_column :: "string option"
  rv_confidence :: pyfloat
  rv_transform :: string
  rv_reasoning :: "string option"
  rv_status :: review_status
  rv_resolved_target_column :: "string option"
  rv_resolved_transform :: "string option"
  rv_resolved_by :: "string option"
  rv_resolved_at :: "int option"

record entity_audit_row =
  ea_entity_id :: int
  ea_proposal_id :: "int option"
  ea_action :: string
  ea_details :: pyval
  ea_by :: string

record schema_version_row =
  sv_target_system :: string
  sv_scope_kind :: string
  sv_scope_name :: string
  sv_fingerprint :: string
  sv_document :: pyval
  sv_observed_at :: int
  sv_approved_at :: "int option"
  sv_approved_by :: "string option"

record central =
  outbox :: "outbox_row list"
  entity_control :: "control_row list"
  mapping_version :: "mapping_version_row list"
  projection_record :: "projection_row list"
  quarantined_events :: "quarantine_row list"
  delivery_audit :: "audit_row list"
  id_crosswalk :: "crosswalk_row list"
  id_sequence :: "(string, int) dict"
  drift_reports :: "drift_report_row list"
  entities :: "entity_row list"
  proposals :: "proposal_row list"
  field_reviews :: "review_row list"
  entity_audit :: "entity_audit_row list"
  schema_versions :: "schema_version_row list"
  serials :: "string \<Rightarrow> int"

definition empty_central :: central where
  "empty_central = \<lparr>outbox = [], entity_control = [], mapping_version = [], projection_record = [],
     quarantined_events = [], delivery_audit = [], id_crosswalk = [], id_sequence = [],
     drift_reports = [], entities = [], proposals = [], field_reviews = [], entity_audit = [],
     schema_versions = [], serials = (\<lambda>_. 1)\<rparr>"

section \<open>Statements\<close>

text \<open>\<open>UPDATE \<dots> SET f WHERE P\<close>, and its row count.\<close>

definition update_where :: "('r \<Rightarrow> bool) \<Rightarrow> ('r \<Rightarrow> 'r) \<Rightarrow> 'r list \<Rightarrow> 'r list" where
  "update_where P f rs = map (\<lambda>r. if P r then f r else r) rs"

definition row_count :: "('r \<Rightarrow> bool) \<Rightarrow> 'r list \<Rightarrow> nat" where
  "row_count P rs = length (filter P rs)"

text \<open>\<open>INSERT \<dots> ON CONFLICT (key) DO UPDATE\<close> and \<open>DO NOTHING\<close>.\<close>

definition upsert :: "('r \<Rightarrow> bool) \<Rightarrow> ('r \<Rightarrow> 'r) \<Rightarrow> 'r \<Rightarrow> 'r list \<Rightarrow> 'r list" where
  "upsert P f new rs = (if \<exists>r \<in> set rs. P r then update_where P f rs else rs @ [new])"

definition insert_ignore :: "('r \<Rightarrow> bool) \<Rightarrow> 'r \<Rightarrow> 'r list \<Rightarrow> 'r list" where
  "insert_ignore P new rs = (if \<exists>r \<in> set rs. P r then rs else rs @ [new])"

definition delete_where :: "('r \<Rightarrow> bool) \<Rightarrow> 'r list \<Rightarrow> 'r list" where
  "delete_where P rs = filter (\<lambda>r. \<not> P r) rs"

text \<open>The next value of a serial column.\<close>

definition next_serial :: "string \<Rightarrow> central \<Rightarrow> int \<times> central" where
  "next_serial t c = (serials c t, c\<lparr>serials := (serials c)(t := serials c t + 1)\<rparr>)"

named_theorems sql_simps \<open>membership in the rows a statement leaves\<close>

lemma in_update_where [sql_simps]:
  "r \<in> set (update_where P f rs) \<longleftrightarrow> (\<exists>r0 \<in> set rs. r = (if P r0 then f r0 else r0))"
  by (auto simp: update_where_def)

lemma map_update_where [sql_simps]:
  "(\<And>r. P r \<Longrightarrow> k (f r) = k r) \<Longrightarrow> map k (update_where P f rs) = map k rs"
  by (simp add: update_where_def)

lemma update_where_none: "\<forall>r \<in> set rs. \<not> P r \<Longrightarrow> update_where P f rs = rs"
  unfolding update_where_def by (induction rs) auto

lemma update_where_all:
  assumes "\<And>r. r \<in> set rs \<Longrightarrow> P r \<Longrightarrow> Q (f r)" and "\<And>r. r \<in> set rs \<Longrightarrow> \<not> P r \<Longrightarrow> Q r"
  shows "\<forall>r \<in> set (update_where P f rs). Q r"
  using assms by (auto simp: update_where_def)

lemma update_where_cases:
  assumes "r \<in> set (update_where P f rs)"
  obtains (changed) r0 where "r0 \<in> set rs" and "P r0" and "r = f r0"
    | (kept) "r \<in> set rs" and "\<not> P r"
proof -
  obtain r0 where "r0 \<in> set rs" "r = (if P r0 then f r0 else r0)"
    using assms by (auto simp: update_where_def)
  then show thesis using changed kept by (cases "P r0") auto
qed

lemma update_where_origin:
  assumes "r \<in> set (update_where P f rs)" and "\<And>r. k (f r) = k r"
  shows "\<exists>r0 \<in> set rs. k r0 = k r"
proof -
  obtain r0 where "r0 \<in> set rs" "r = (if P r0 then f r0 else r0)"
    using assms(1) by (auto simp: update_where_def)
  then show ?thesis using assms(2) by (intro bexI [of _ r0]) simp_all
qed

text \<open>Rows outside what an update touches are as before.\<close>

lemma update_where_frame:
  assumes "\<And>r. P r \<Longrightarrow> Q r" and "\<And>r. P r \<Longrightarrow> Q (f r)"
  shows "filter (\<lambda>r. \<not> Q r) (update_where P f rs) = filter (\<lambda>r. \<not> Q r) rs"
  unfolding update_where_def using assms by (induction rs) auto

lemma length_update_where [simp]: "length (update_where P f rs) = length rs"
  by (simp add: update_where_def)

lemma in_delete_where [sql_simps]: "r \<in> set (delete_where P rs) \<longleftrightarrow> r \<in> set rs \<and> \<not> P r"
  by (auto simp: delete_where_def)

lemma row_count_1_ex: "row_count P rs = 1 \<Longrightarrow> \<exists>r \<in> set rs. P r"
  by (metis One_nat_def filter_False length_0_conv n_not_Suc_n row_count_def)

lemma row_count_0: "row_count P rs = 0 \<longleftrightarrow> (\<forall>r \<in> set rs. \<not> P r)"
  by (simp add: row_count_def filter_empty_conv)

lemma row_count_distinct:
  assumes "distinct (map k rs)" and "\<And>r. P r \<Longrightarrow> k r = x"
  shows "row_count P rs \<le> 1"
  using assms(1)
proof (induction rs)
  case (Cons r rs)
  show ?case
  proof (cases "P r")
    case True
    have "\<not> P r'" if "r' \<in> set rs" for r'
      using that Cons.prems True assms(2) [of r] assms(2) [of r'] by (auto simp: image_iff)
    then have "row_count P rs = 0" by (simp add: row_count_0)
    with True show ?thesis by (simp add: row_count_def)
  next
    case False
    with Cons show ?thesis by (simp add: row_count_def)
  qed
qed (simp add: row_count_def)

lemma map_upsert:
  assumes "\<And>r. P r \<Longrightarrow> k (f r) = k r"
  shows "map k (upsert P f new rs) = (if \<exists>r \<in> set rs. P r then map k rs else map k rs @ [k new])"
  using assms by (simp add: upsert_def map_update_where)

lemma keys_upsert:
  assumes "\<And>r. P r \<longleftrightarrow> k r = k new" and "\<And>r. P r \<Longrightarrow> k (f r) = k r"
  shows "k ` set (upsert P f new rs) = insert (k new) (k ` set rs)"
proof -
  have m: "map k (upsert P f new rs) = (if \<exists>r \<in> set rs. P r then map k rs else map k rs @ [k new])"
    by (rule map_upsert) (rule assms(2))
  have "k ` set (upsert P f new rs) = set (map k (upsert P f new rs))" by simp
  also have "\<dots> = insert (k new) (k ` set rs)"
    unfolding m using assms(1) by (auto simp: image_iff) metis
  finally show ?thesis .
qed

lemma distinct_upsert:
  assumes "distinct (map k rs)" and "\<And>r. P r \<longleftrightarrow> k r = k new" and "\<And>r. P r \<Longrightarrow> k (f r) = k r"
  shows "distinct (map k (upsert P f new rs))"
proof -
  have "map k (upsert P f new rs) = (if \<exists>r \<in> set rs. P r then map k rs else map k rs @ [k new])"
    by (rule map_upsert) (rule assms(3))
  then show ?thesis using assms(1,2) by (auto simp: image_iff)
qed

lemma distinct_map_eq:
  "distinct (map k rs) \<Longrightarrow> r \<in> set rs \<Longrightarrow> r' \<in> set rs \<Longrightarrow> k r = k r' \<Longrightarrow> r = r'"
  by (auto simp: distinct_map inj_on_def)

lemma disjoint_keys: "(\<And>r. r \<in> set rs \<Longrightarrow> k r \<notin> A) \<Longrightarrow> A \<inter> set (map k rs) = {}"
  by auto

text \<open>The first row a key picks out, in table order.\<close>

definition select_one :: "('r \<Rightarrow> bool) \<Rightarrow> 'r list \<Rightarrow> 'r option" where
  "select_one P rs = find P rs"

lemma select_one_Some: "select_one P rs = Some r \<Longrightarrow> r \<in> set rs \<and> P r"
  unfolding select_one_def by (induction rs) (auto split: if_splits)

lemma select_one_None: "select_one P rs = None \<longleftrightarrow> (\<forall>r \<in> set rs. \<not> P r)"
  unfolding select_one_def by (induction rs) auto

lemma find_update_where:
  "(\<And>r. P r \<Longrightarrow> P (f r)) \<Longrightarrow> find P (update_where P f rs) = map_option f (find P rs)"
  unfolding update_where_def by (induction rs) auto

lemma select_one_upsert:
  assumes "P new" and "\<And>r. P r \<Longrightarrow> P (f r)"
  shows "select_one P (upsert P f new rs) = (case select_one P rs of None \<Rightarrow> Some new | Some r \<Rightarrow> Some (f r))"
proof (cases "\<exists>r \<in> set rs. P r")
  case True
  then show ?thesis
    using find_update_where [of P f rs, OF assms(2)] select_one_None [of P rs]
    by (auto simp: upsert_def select_one_def split: option.splits)
next
  case False
  then have "find P rs = None" by (auto simp: find_None_iff)
  moreover have "find P (rs @ [new]) = Some new"
    using False assms(1) by (induction rs) auto
  ultimately show ?thesis using False by (simp add: upsert_def select_one_def)
qed

lemma find_other_update:
  "(\<And>r. P r \<Longrightarrow> Q (f r) = Q r) \<Longrightarrow> (\<And>r. P r \<Longrightarrow> \<not> Q r) \<Longrightarrow> find Q (update_where P f rs) = find Q rs"
  unfolding update_where_def by (induction rs) auto

lemma select_one_upsert_other:
  assumes "\<not> Q new" and "\<And>r. P r \<Longrightarrow> Q (f r) = Q r" and "\<And>r. P r \<Longrightarrow> \<not> Q r"
  shows "select_one Q (upsert P f new rs) = select_one Q rs"
proof (cases "\<exists>r \<in> set rs. P r")
  case True
  then show ?thesis
    using find_other_update [of P Q f rs, OF assms(2,3)]
    by (simp add: upsert_def select_one_def)
next
  case False
  have "find Q (rs @ [new]) = find Q rs" using assms(1) by (induction rs) auto
  then show ?thesis using False by (simp add: upsert_def select_one_def)
qed

lemma upsert_all:
  assumes "r \<in> set (upsert P f new rs)" and "P r" and "\<And>r. P r \<Longrightarrow> Q (f r)" and "Q new"
  shows "Q r"
proof (cases "\<exists>r \<in> set rs. P r")
  case True
  then have "r \<in> set (update_where P f rs)" using assms(1) by (simp add: upsert_def)
  then show ?thesis using assms(2,3) by (cases rule: update_where_cases) auto
next
  case False
  then show ?thesis using assms(1,2,4) by (auto simp: upsert_def)
qed

lemma upsert_has: "P new \<Longrightarrow> (\<And>r. P r \<Longrightarrow> P (f r)) \<Longrightarrow> \<exists>r \<in> set (upsert P f new rs). P r"
  unfolding upsert_def update_where_def by auto

text \<open>The row a key picks out, and what an update of it leaves.\<close>

lemma update_where_id:
  assumes "distinct (map k rows)" and "r \<in> set rows"
  shows "x \<in> set (update_where (\<lambda>y. k y = k r) f rows) \<Longrightarrow> x = f r \<or> (x \<in> set rows \<and> k x \<noteq> k r)"
    and "f r \<in> set (update_where (\<lambda>y. k y = k r) f rows)"
proof -
  assume "x \<in> set (update_where (\<lambda>y. k y = k r) f rows)"
  then show "x = f r \<or> (x \<in> set rows \<and> k x \<noteq> k r)"
    by (cases rule: update_where_cases) (use distinct_map_eq [OF assms(1) _ assms(2)] in auto)
next
  show "f r \<in> set (update_where (\<lambda>y. k y = k r) f rows)"
    using assms(2) unfolding in_update_where by (intro bexI [of _ r]) simp_all
qed

end
