(* ===== verification/Schema_Drift.thy ===== *)
theory Schema_Drift
  imports Central_Db
begin

text \<open>
  \<open>src/schema_drift.py\<close>: the comparison of two schemas and the selective pause of the
  entities whose approved mappings write to a table with a breaking change. The comparison is
  shown to flag a breaking difference exactly when the observed schema is not backward
  compatible, a notion stated on the schemas alone.
\<close>

section \<open>Comparison\<close>

datatype change = TypeChange string string | NullableChange bool bool | PkChange bool bool

datatype difference =
    TableAdded string
  | TableRemoved string
  | ColumnAdded string string bool column
  | ColumnRemoved string string column
  | ColumnChanged string string bool "change list"

fun diff_breaking :: "difference \<Rightarrow> bool" where
  "diff_breaking (TableAdded t) = False"
| "diff_breaking (TableRemoved t) = True"
| "diff_breaking (ColumnAdded t c b new) = b"
| "diff_breaking (ColumnRemoved t c old) = True"
| "diff_breaking (ColumnChanged t c b chs) = b"

fun diff_table :: "difference \<Rightarrow> string" where
  "diff_table (TableAdded t) = t"
| "diff_table (TableRemoved t) = t"
| "diff_table (ColumnAdded t c b new) = t"
| "diff_table (ColumnRemoved t c old) = t"
| "diff_table (ColumnChanged t c b chs) = t"

definition column_changes :: "column \<Rightarrow> column \<Rightarrow> change list" where
  "column_changes old new =
     (if col_type old \<noteq> col_type new then [TypeChange (col_type old) (col_type new)] else []) @
     (if col_nullable old \<noteq> col_nullable new then [NullableChange (col_nullable old) (col_nullable new)] else []) @
     (if col_pk old \<noteq> col_pk new then [PkChange (col_pk old) (col_pk new)] else [])"

definition changes_breaking :: "change list \<Rightarrow> column \<Rightarrow> bool" where
  "changes_breaking chs new =
     (list_ex (\<lambda>ch. case ch of TypeChange a b \<Rightarrow> True | PkChange a b \<Rightarrow> True | NullableChange a b \<Rightarrow> False) chs \<or>
      (list_ex (\<lambda>ch. case ch of NullableChange a b \<Rightarrow> True | _ \<Rightarrow> False) chs \<and> \<not> col_nullable new))"

definition tables_dict :: "schema \<Rightarrow> (string, table) dict" where
  "tables_dict s = dict_of (map (\<lambda>t. (tab_name t, t)) (sch_tables s))"

definition columns_dict :: "table \<Rightarrow> (string, column) dict" where
  "columns_dict t = dict_of (map (\<lambda>c. (col_name c, c)) (tab_columns t))"

text \<open>The body of the loop over column names.\<close>

definition diff_column ::
  "string \<Rightarrow> string \<Rightarrow> column option \<Rightarrow> column option \<Rightarrow> difference list" where
  "diff_column table_name column_name old new =
     (case (old, new) of
        (None, None) \<Rightarrow> []
      | (None, Some n) \<Rightarrow> [ColumnAdded table_name column_name (\<not> col_nullable n) n]
      | (Some ol, None) \<Rightarrow> [ColumnRemoved table_name column_name ol]
      | (Some ol, Some n) \<Rightarrow>
          (let chs = column_changes ol n
           in if chs \<noteq> [] then [ColumnChanged table_name column_name (changes_breaking chs n) chs] else []))"

definition diff_table_pair ::
  "string \<Rightarrow> table option \<Rightarrow> table option \<Rightarrow> difference list" where
  "diff_table_pair table_name before after =
     (case before of
        None \<Rightarrow> [TableAdded table_name]
      | Some b \<Rightarrow>
          (case after of
             None \<Rightarrow> [TableRemoved table_name]
           | Some a \<Rightarrow>
               (let old_cols = columns_dict b; new_cols = columns_dict a
                in concat (map (\<lambda>c. diff_column table_name c (dget old_cols c) (dget new_cols c))
                     (sorted_set (dkeys old_cols @ dkeys new_cols))))))"

definition diff_schemas :: "schema \<Rightarrow> schema \<Rightarrow> difference list" where
  "diff_schemas previous observed =
     (let pt = tables_dict previous; ot = tables_dict observed
      in concat (map (\<lambda>n. diff_table_pair n (dget pt n) (dget ot n))
           (sorted_set (dkeys pt @ dkeys ot))))"

section \<open>The differences as a document\<close>

fun change_to_dict :: "change \<Rightarrow> string \<times> pyval" where
  "change_to_dict (TypeChange a b) = (''data_type'', PDict [(''before'', PStr a), (''after'', PStr b)])"
| "change_to_dict (NullableChange a b) = (''nullable'', PDict [(''before'', PBool a), (''after'', PBool b)])"
| "change_to_dict (PkChange a b) = (''is_primary_key'', PDict [(''before'', PBool a), (''after'', PBool b)])"

fun difference_to_dict :: "difference \<Rightarrow> pyval" where
  "difference_to_dict (TableAdded t) =
     PDict [(''kind'', PStr ''table_added''), (''table'', PStr t), (''breaking'', PBool False)]"
| "difference_to_dict (TableRemoved t) =
     PDict [(''kind'', PStr ''table_removed''), (''table'', PStr t), (''breaking'', PBool True)]"
| "difference_to_dict (ColumnAdded t c b new) =
     PDict [(''kind'', PStr ''column_added''), (''table'', PStr t), (''column'', PStr c),
       (''breaking'', PBool b), (''after'', column_to_dict new)]"
| "difference_to_dict (ColumnRemoved t c old) =
     PDict [(''kind'', PStr ''column_removed''), (''table'', PStr t), (''column'', PStr c),
       (''breaking'', PBool True), (''before'', column_to_dict old)]"
| "difference_to_dict (ColumnChanged t c b chs) =
     PDict [(''kind'', PStr ''column_changed''), (''table'', PStr t), (''column'', PStr c),
       (''breaking'', PBool b), (''changes'', PDict (map change_to_dict chs))]"

section \<open>The pause\<close>

definition impacted_entities :: "central \<Rightarrow> string \<Rightarrow> difference list \<Rightarrow> string list" where
  "impacted_entities c target_system differences =
     (let changed_tables = map diff_table (filter diff_breaking differences)
      in if changed_tables = [] then []
         else remdups (map mv_source_entity
           (filter (\<lambda>m. mv_target_system m = target_system \<and> mv_status m = MApproved
              \<and> mv_target_table m \<in> set changed_tables) (mapping_version c))))"

definition record_drift ::
  "int \<Rightarrow> central \<Rightarrow> string \<Rightarrow> string option \<Rightarrow> string \<Rightarrow> difference list \<Rightarrow> string \<Rightarrow> string list \<times> central" where
  "record_drift now c target_system previous_fingerprint observed_fingerprint differences drift_pair =
     (let impacted = impacted_entities c target_system differences;
          breaking = list_ex diff_breaking differences;
          c1 = c\<lparr>drift_reports := drift_reports c @
            [\<lparr>dr_target_system = target_system, dr_previous = previous_fingerprint,
              dr_observed = observed_fingerprint,
              dr_differences = PList (map difference_to_dict differences),
              dr_impacted = impacted, dr_breaking = breaking, dr_pair = drift_pair,
              dr_resolved_at = None, dr_resolved_by = None\<rparr>]\<rparr>;
          c2 = (if impacted = [] then c1
            else c1\<lparr>entity_control := update_where
                   (\<lambda>r. ct_target_system r = target_system \<and> ct_source_entity r \<in> set impacted)
                   (\<lambda>r. r\<lparr>ct_enabled := False,
                        ct_paused_reason := Some (''Breaking LRMIS schema drift '' @ take 12 observed_fingerprint),
                        ct_updated_at := now\<rparr>) (entity_control c1),
                 mapping_version := update_where
                   (\<lambda>m. mv_target_system m = target_system \<and> mv_source_entity m \<in> set impacted
                      \<and> mv_status m = MApproved)
                   (\<lambda>m. m\<lparr>mv_status := MPaused\<rparr>) (mapping_version c1)\<rparr>)
      in (impacted, c2))"

section \<open>Backward compatibility\<close>

text \<open>
  A new version of a table keeps every old column with its type and key role, never makes one
  mandatory that was optional, and every column it adds is optional; a new schema keeps every
  old table in this sense.
\<close>

definition column_compatible :: "column option \<Rightarrow> column option \<Rightarrow> bool" where
  "column_compatible old new \<longleftrightarrow>
     (case (old, new) of
        (Some ol, Some n) \<Rightarrow> col_type ol = col_type n \<and> col_pk ol = col_pk n \<and> (col_nullable ol \<longrightarrow> col_nullable n)
      | (Some ol, None) \<Rightarrow> False
      | (None, Some n) \<Rightarrow> col_nullable n
      | (None, None) \<Rightarrow> True)"

definition table_compatible :: "table \<Rightarrow> table option \<Rightarrow> bool" where
  "table_compatible old new \<longleftrightarrow>
     (\<exists>n. new = Some n \<and> (\<forall>c. column_compatible (dget (columns_dict old) c) (dget (columns_dict n) c)))"

definition backward_compatible :: "schema \<Rightarrow> schema \<Rightarrow> bool" where
  "backward_compatible previous observed \<longleftrightarrow>
     (\<forall>n t. dget (tables_dict previous) n = Some t \<longrightarrow> table_compatible t (dget (tables_dict observed) n))"

lemma diff_column_breaking:
  "(\<exists>d \<in> set (diff_column t c old new). diff_breaking d) \<longleftrightarrow> \<not> column_compatible old new"
  by (auto simp: diff_column_def column_compatible_def column_changes_def changes_breaking_def Let_def
      split: option.splits)

lemma diff_column_same: "diff_column t c x x = []"
  by (auto simp: diff_column_def column_changes_def split: option.splits)

lemma column_compatible_None [simp]: "column_compatible None None"
  by (simp add: column_compatible_def)

lemma bex_concat_map: "(\<exists>d \<in> set (concat (map f xs)). Q d) \<longleftrightarrow> (\<exists>x \<in> set xs. \<exists>d \<in> set (f x). Q d)"
  by auto

lemma diff_pair_breaking:
  "(\<exists>d \<in> set (diff_table_pair n before after). diff_breaking d) \<longleftrightarrow>
     (case before of None \<Rightarrow> False | Some b \<Rightarrow> \<not> table_compatible b after)"
proof (cases before)
  case None
  then show ?thesis by (simp add: diff_table_pair_def)
next
  case (Some b)
  show ?thesis
  proof (cases after)
    case None
    then show ?thesis using Some by (simp add: diff_table_pair_def table_compatible_def)
  next
    case A: (Some a)
    let ?names = "set (dkeys (columns_dict b)) \<union> set (dkeys (columns_dict a))"
    have "(\<exists>d \<in> set (diff_table_pair n before after). diff_breaking d) \<longleftrightarrow>
        (\<exists>c \<in> ?names. \<not> column_compatible (dget (columns_dict b) c) (dget (columns_dict a) c))"
      unfolding Some A diff_table_pair_def option.case Let_def bex_concat_map diff_column_breaking
      by simp
    moreover have "column_compatible (dget (columns_dict b) c) (dget (columns_dict a) c)" if "c \<notin> ?names" for c
      using that by (auto simp: set_dkeys_iff)
    ultimately show ?thesis using Some A by (auto simp: table_compatible_def)
  qed
qed

text \<open>
  C38: the comparison reports a breaking difference exactly when the observed schema is not
  backward compatible with the previous one.
\<close>

theorem diff_breaking_iff_incompatible:
  "list_ex diff_breaking (diff_schemas previous observed) \<longleftrightarrow> \<not> backward_compatible previous observed"
proof -
  let ?names = "set (dkeys (tables_dict previous)) \<union> set (dkeys (tables_dict observed))"
  have "list_ex diff_breaking (diff_schemas previous observed) \<longleftrightarrow>
      (\<exists>n \<in> ?names. \<exists>d \<in> set (diff_table_pair n (dget (tables_dict previous) n) (dget (tables_dict observed) n)).
         diff_breaking d)"
    by (auto simp: diff_schemas_def Let_def list_ex_iff)
  also have "\<dots> \<longleftrightarrow> (\<exists>n t. dget (tables_dict previous) n = Some t \<and>
      \<not> table_compatible t (dget (tables_dict observed) n))"
    by (auto simp: diff_pair_breaking set_dkeys_iff split: option.splits)
  finally show ?thesis by (auto simp: backward_compatible_def)
qed

text \<open>A schema does not differ from itself.\<close>

theorem diff_schemas_self: "diff_schemas s s = []"
  by (auto simp: diff_schemas_def diff_table_pair_def Let_def diff_column_same set_dkeys_iff
      split: option.splits)

section \<open>What the pause does\<close>

lemma impacted_iff:
  "e \<in> set (impacted_entities c sys ds) \<longleftrightarrow>
     (\<exists>m \<in> set (mapping_version c). \<exists>d \<in> set ds. diff_breaking d \<and> mv_source_entity m = e
        \<and> mv_target_system m = sys \<and> mv_status m = MApproved \<and> mv_target_table m = diff_table d)"
  by (auto simp: impacted_entities_def Let_def filter_empty_conv)

text \<open>
  After a drift is recorded, an entity with an approved mapping onto a table with a
  breaking difference is not enabled and has no approved mapping left, while the controls and
  mappings of every other entity and of every other target system are as before.
\<close>

theorem record_drift_pauses_impacted:
  assumes "record_drift now c sys prev obs ds pair = (impacted, c')"
  shows "(\<forall>m \<in> set (mapping_version c). \<forall>d \<in> set ds. diff_breaking d \<and> mv_target_system m = sys
        \<and> mv_status m = MApproved \<and> mv_target_table m = diff_table d \<longrightarrow> mv_source_entity m \<in> set impacted)
    \<and> (\<forall>r \<in> set (entity_control c'). ct_target_system r = sys \<and> ct_source_entity r \<in> set impacted \<longrightarrow> \<not> ct_enabled r)
    \<and> (\<forall>m \<in> set (mapping_version c'). mv_target_system m = sys \<and> mv_source_entity m \<in> set impacted
        \<longrightarrow> mv_status m \<noteq> MApproved)
    \<and> filter (\<lambda>r. ct_target_system r \<noteq> sys \<or> ct_source_entity r \<notin> set impacted) (entity_control c')
       = filter (\<lambda>r. ct_target_system r \<noteq> sys \<or> ct_source_entity r \<notin> set impacted) (entity_control c)
    \<and> filter (\<lambda>m. mv_target_system m \<noteq> sys \<or> mv_source_entity m \<notin> set impacted) (mapping_version c')
       = filter (\<lambda>m. mv_target_system m \<noteq> sys \<or> mv_source_entity m \<notin> set impacted) (mapping_version c)"
proof -
  have imp: "impacted = impacted_entities c sys ds"
    and ctl: "entity_control c' = (if impacted = [] then entity_control c else update_where
        (\<lambda>r. ct_target_system r = sys \<and> ct_source_entity r \<in> set impacted)
        (\<lambda>r. r\<lparr>ct_enabled := False, ct_paused_reason := Some (''Breaking LRMIS schema drift '' @ take 12 obs),
             ct_updated_at := now\<rparr>) (entity_control c))"
    and map: "mapping_version c' = (if impacted = [] then mapping_version c else update_where
        (\<lambda>m. mv_target_system m = sys \<and> mv_source_entity m \<in> set impacted \<and> mv_status m = MApproved)
        (\<lambda>m. m\<lparr>mv_status := MPaused\<rparr>) (mapping_version c))"
    using assms by (auto simp: record_drift_def Let_def)
  have 1: "\<forall>m \<in> set (mapping_version c). \<forall>d \<in> set ds. diff_breaking d \<and> mv_target_system m = sys
        \<and> mv_status m = MApproved \<and> mv_target_table m = diff_table d \<longrightarrow> mv_source_entity m \<in> set impacted"
    by (auto simp: imp impacted_iff)
  have 2: "filter (\<lambda>r. \<not> (ct_target_system r = sys \<and> ct_source_entity r \<in> set impacted)) (entity_control c')
     = filter (\<lambda>r. \<not> (ct_target_system r = sys \<and> ct_source_entity r \<in> set impacted)) (entity_control c)"
  proof (cases "impacted = []")
    case False
    show ?thesis unfolding ctl if_not_P [OF False] by (rule update_where_frame) auto
  qed (simp add: ctl)
  have 3: "filter (\<lambda>m. \<not> (mv_target_system m = sys \<and> mv_source_entity m \<in> set impacted)) (mapping_version c')
     = filter (\<lambda>m. \<not> (mv_target_system m = sys \<and> mv_source_entity m \<in> set impacted)) (mapping_version c)"
  proof (cases "impacted = []")
    case False
    show ?thesis unfolding map if_not_P [OF False] by (rule update_where_frame) auto
  qed (simp add: map)
  have 4: "\<forall>r \<in> set (entity_control c'). ct_target_system r = sys \<and> ct_source_entity r \<in> set impacted
      \<longrightarrow> \<not> ct_enabled r"
  proof (cases "impacted = []")
    case False
    show ?thesis unfolding ctl if_not_P [OF False] by (rule update_where_all) auto
  qed simp
  have 5: "\<forall>m \<in> set (mapping_version c'). mv_target_system m = sys \<and> mv_source_entity m \<in> set impacted
      \<longrightarrow> mv_status m \<noteq> MApproved"
  proof (cases "impacted = []")
    case False
    show ?thesis unfolding map if_not_P [OF False] by (rule update_where_all) auto
  qed simp
  show ?thesis
    using 1 2 3 4 5 by simp
qed


definition sample_mapping :: "int \<Rightarrow> string \<Rightarrow> string \<Rightarrow> mapping_status \<Rightarrow> mapping_version_row" where
  "sample_mapping i e t st = \<lparr>mv_id = i, mv_source_entity = e, mv_target_system = ''LRMIS'',
     mv_target_table = t, mv_fingerprint = ''f'', mv_version = i, mv_status = st, mv_mappings = [],
     mv_approved_at = None, mv_approved_by = None\<rparr>"

definition sample_control :: "string \<Rightarrow> control_row" where
  "sample_control e = \<lparr>ct_source_entity = e, ct_target_system = ''LRMIS'', ct_enabled = True,
     ct_paused_reason = None, ct_updated_at = 0\<rparr>"

definition sample_drift_db :: central where
  "sample_drift_db = empty_central\<lparr>
     mapping_version := [sample_mapping 1 ''customer'' ''customers'' MApproved,
                         sample_mapping 2 ''order'' ''orders'' MApproved],
     entity_control := [sample_control ''customer'', sample_control ''order'']\<rparr>"

theorem record_drift_pauses_impacted_witness:
  "fst (record_drift 5 sample_drift_db ''LRMIS'' None ''abc'' [TableRemoved ''customers''] ''source->target'')
     = [''customer''] \<and>
   filter (\<lambda>r. ct_target_system r = ''LRMIS'' \<and> ct_source_entity r = ''customer'' \<and> ct_enabled r)
     (entity_control (snd (record_drift 5 sample_drift_db ''LRMIS'' None ''abc''
       [TableRemoved ''customers''] ''source->target''))) = []"
proof -
  let ?r = "record_drift 5 sample_drift_db ''LRMIS'' None ''abc'' [TableRemoved ''customers''] ''source->target''"
  have e: "fst ?r = [''customer'']" by code_simp
  then have eq: "?r = ([''customer''], snd ?r)" by (metis prod.collapse)
  show ?thesis using e record_drift_pauses_impacted [OF eq] by (simp add: filter_empty_conv)
qed

end
