(* ===== verification/Integration_Store.thy ===== *)
theory Integration_Store
  imports Central_Db
begin

text \<open>
  \<open>src/integration_store.py\<close>: the durable state transitions of an outbox event (claim, deliver,
  retry or dead-letter, quarantine, replay), each as the statements it issues; then the
  lifecycle as a step relation over the database, and the invariant every reachable database
  satisfies.
\<close>

section \<open>Operations\<close>

definition canonical_json :: "runtime \<Rightarrow> pyval \<Rightarrow> string" where
  "canonical_json P v = json_text P v"

definition checksum :: "runtime \<Rightarrow> pyval \<Rightarrow> string" where
  "checksum P v = rt_sha256 P (canonical_json P v)"

definition entity_enabled :: "central \<Rightarrow> string \<Rightarrow> string \<Rightarrow> bool" where
  "entity_enabled c entity target =
     (\<exists>k \<in> set (entity_control c). ct_source_entity k = entity \<and> ct_target_system k = target \<and> ct_enabled k)"

definition claimable :: "int \<Rightarrow> central \<Rightarrow> string \<Rightarrow> outbox_row \<Rightarrow> bool" where
  "claimable now c target_system o' =
     (ev_target_system o' = target_system \<and> (ev_status o' = Pending \<or> ev_status o' = Retry)
      \<and> ev_available_at o' \<le> now \<and> entity_enabled c (ev_source_entity o') (ev_target_system o'))"

text \<open>
  The claim: rows locked by another transaction are skipped (\<open>locked\<close>), the rest is ordered
  by \<open>created_at\<close> and cut at the limit; the claimed rows become processing. The returned events
  are the rows as they were selected.
\<close>

definition claim_events ::
  "int \<Rightarrow> string set \<Rightarrow> central \<Rightarrow> string \<Rightarrow> nat \<Rightarrow> outbox_row list \<times> central" where
  "claim_events now locked c target_system limit =
     (let events = take limit (sort_key ev_created_at
            (filter (\<lambda>o'. claimable now c target_system o' \<and> ev_id o' \<notin> locked) (outbox c)));
          ids = set (map ev_id events)
      in (events, if events = [] then c
                  else c\<lparr>outbox := update_where (\<lambda>o'. ev_id o' \<in> ids)
                          (\<lambda>o'. o'\<lparr>ev_status := Processing\<rparr>) (outbox c)\<rparr>))"

definition save_projection ::
  "runtime \<Rightarrow> central \<Rightarrow> outbox_row \<Rightarrow> mapping_version_row \<Rightarrow> pyval \<Rightarrow> central" where
  "save_projection P c event mapping payload =
     c\<lparr>projection_record := insert_ignore (\<lambda>p. pr_event_id p = ev_id event)
          \<lparr>pr_event_id = ev_id event, pr_external_reference = ev_external_reference event,
           pr_target_system = ev_target_system event, pr_target_table = mv_target_table mapping,
           pr_mapping_version_id = mv_id mapping, pr_payload = payload,
           pr_checksum = checksum P payload, pr_delivered_at = None\<rparr> (projection_record c),
       outbox := update_where (\<lambda>o'. ev_id o' = ev_id event)
          (\<lambda>o'. o'\<lparr>ev_mapping_version_id := Some (mv_id mapping)\<rparr>) (outbox c)\<rparr>"

definition quarantine ::
  "int \<Rightarrow> central \<Rightarrow> outbox_row \<Rightarrow> string list \<Rightarrow> int option \<Rightarrow> central" where
  "quarantine now c event errors mapping_id =
     c\<lparr>quarantined_events := upsert (\<lambda>q. qr_event_id q = ev_id event)
          (\<lambda>q. q\<lparr>qr_errors := errors\<rparr>)
          \<lparr>qr_event_id = ev_id event, qr_errors = errors, qr_payload = ev_payload event,
           qr_mapping_version_id = mapping_id\<rparr> (quarantined_events c),
       outbox := update_where (\<lambda>o'. ev_id o' = ev_id event)
          (\<lambda>o'. o'\<lparr>ev_status := Quarantined, ev_processed_at := Some now,
               ev_error_code := Some ''VALIDATION'', ev_error_message := Some (join ''; '' errors)\<rparr>)
          (outbox c)\<rparr>"

definition set_delivered :: "int \<Rightarrow> nat \<Rightarrow> outbox_row \<Rightarrow> outbox_row" where
  "set_delivered now attempt o' = o'\<lparr>ev_status := Delivered, ev_attempts := attempt,
     ev_processed_at := Some now, ev_error_code := None, ev_error_message := None\<rparr>"

definition audit_accepted :: "outbox_row \<Rightarrow> string \<Rightarrow> audit_row" where
  "audit_accepted event code = \<lparr>au_event_id = ev_id event, au_attempt = ev_attempts event + 1,
     au_outcome = ''accepted'', au_code = code, au_message = None\<rparr>"

definition crosswalk_key ::
  "string \<Rightarrow> string \<Rightarrow> string \<Rightarrow> string \<Rightarrow> string \<Rightarrow> crosswalk_row \<Rightarrow> bool" where
  "crosswalk_key ss se er ts tt w = (cw_source_system w = ss \<and> cw_source_entity w = se
     \<and> cw_external_reference w = er \<and> cw_target_system w = ts \<and> cw_target_table w = tt)"

definition delivered ::
  "int \<Rightarrow> central \<Rightarrow> outbox_row \<Rightarrow> mapping_version_row \<Rightarrow> string option \<Rightarrow> central" where
  "delivered now c event mapping target_id =
     c\<lparr>outbox := update_where (\<lambda>o'. ev_id o' = ev_id event)
          (set_delivered now (ev_attempts event + 1)) (outbox c),
       projection_record := update_where (\<lambda>p. pr_event_id p = ev_id event)
          (\<lambda>p. p\<lparr>pr_delivered_at := Some now\<rparr>) (projection_record c),
       delivery_audit := delivery_audit c @ [audit_accepted event ''UPSERTED''],
       id_crosswalk := upsert
          (crosswalk_key (ev_source_system event) (ev_source_entity event)
             (ev_external_reference event) (ev_target_system event) (mv_target_table mapping))
          (\<lambda>w. w\<lparr>cw_target_id := (case target_id of None \<Rightarrow> cw_target_id w | Some i \<Rightarrow> Some i),
               cw_last_event_id := Some (ev_id event), cw_updated_at := now\<rparr>)
          \<lparr>cw_source_system = ev_source_system event, cw_source_entity = ev_source_entity event,
           cw_external_reference = ev_external_reference event,
           cw_target_system = ev_target_system event, cw_target_table = mv_target_table mapping,
           cw_target_id = target_id, cw_last_event_id = Some (ev_id event), cw_updated_at = now\<rparr>
          (id_crosswalk c)\<rparr>"

definition mark_event_delivered :: "int \<Rightarrow> central \<Rightarrow> outbox_row \<Rightarrow> central" where
  "mark_event_delivered now c event =
     c\<lparr>outbox := update_where (\<lambda>o'. ev_id o' = ev_id event)
          (set_delivered now (ev_attempts event + 1)) (outbox c),
       delivery_audit := delivery_audit c @ [audit_accepted event ''LRMIS_MULTI'']\<rparr>"

text \<open>\<open>min(3600, 2 ** min(attempt, 10) * 15)\<close> seconds.\<close>

definition delay_seconds :: "nat \<Rightarrow> int" where
  "delay_seconds attempt = min 3600 (2 ^ min attempt 10 * 15)"

definition retry_or_dead_letter ::
  "int \<Rightarrow> central \<Rightarrow> outbox_row \<Rightarrow> string \<Rightarrow> nat \<Rightarrow> central" where
  "retry_or_dead_letter now c event error max_attempts =
     (let attempt = ev_attempts event + 1;
          terminal = (attempt \<ge> max_attempts);
          available_at = now + delay_seconds attempt * 1000000
      in c\<lparr>outbox := update_where (\<lambda>o'. ev_id o' = ev_id event)
             (\<lambda>o'. o'\<lparr>ev_status := (if terminal then DeadLetter else Retry), ev_attempts := attempt,
                  ev_available_at := available_at,
                  ev_processed_at := (if terminal then Some now else None),
                  ev_error_code := Some ''TRANSPORT'', ev_error_message := Some (take 2000 error)\<rparr>)
             (outbox c),
           delivery_audit := delivery_audit c @
             [\<lparr>au_event_id = ev_id event, au_attempt = attempt, au_outcome = ''transport_error'',
               au_code = ''TRANSPORT'', au_message = Some (take 2000 error)\<rparr>]\<rparr>)"

definition replayable :: "string \<Rightarrow> outbox_row \<Rightarrow> bool" where
  "replayable event_id o' = (ev_id o' = event_id \<and> ev_status o' \<in> {Quarantined, DeadLetter, Delivered})"

definition replay :: "int \<Rightarrow> central \<Rightarrow> string \<Rightarrow> central res" where
  "replay now c event_id =
     (if row_count (replayable event_id) (outbox c) \<noteq> 1
      then Inl (ValueError ''event not found or is not replayable'')
      else Inr (c\<lparr>outbox := update_where (replayable event_id)
              (\<lambda>o'. o'\<lparr>ev_status := Pending, ev_attempts := 0, ev_available_at := now,
                   ev_processed_at := None, ev_error_code := None, ev_error_message := None\<rparr>) (outbox c),
            quarantined_events := delete_where (\<lambda>q. qr_event_id q = event_id) (quarantined_events c)\<rparr>))"

section \<open>Claims\<close>

lemma claim_events_fst:
  "claim_events now locked c sys n = (events, c') \<Longrightarrow>
   events = take n (sort_key ev_created_at
     (filter (\<lambda>o'. claimable now c sys o' \<and> ev_id o' \<notin> locked) (outbox c)))"
  by (simp add: claim_events_def Let_def split: if_splits)

lemma claim_events_outbox:
  assumes "claim_events now locked c sys n = (events, c')"
  shows "outbox c' = update_where (\<lambda>o'. ev_id o' \<in> set (map ev_id events))
           (\<lambda>o'. o'\<lparr>ev_status := Processing\<rparr>) (outbox c)"
    and "entity_control c' = entity_control c" and "quarantined_events c' = quarantined_events c"
    and "delivery_audit c' = delivery_audit c"
  using assms by (auto simp: claim_events_def Let_def update_where_none split: if_splits)

lemma claim_events_members:
  assumes "claim_events now locked c sys n = (events, c')" and "e \<in> set events"
  shows "e \<in> set (outbox c) \<and> claimable now c sys e \<and> ev_id e \<notin> locked"
  using assms claim_events_fst [OF assms(1)] by (auto dest: in_set_takeD)

lemma claim_events_distinct:
  assumes "claim_events now locked c sys n = (events, c')" and "distinct (map ev_id (outbox c))"
  shows "distinct (map ev_id events)"
proof -
  have "distinct (map ev_id (sort_key ev_created_at
      (filter (\<lambda>o'. claimable now c sys o' \<and> ev_id o' \<notin> locked) (outbox c))))"
    using assms(2) by (simp add: distinct_map inj_on_def)
  then show ?thesis unfolding claim_events_fst [OF assms(1)] take_map [symmetric] by (rule distinct_take)
qed

lemma claim_events_oldest:
  assumes "claim_events now locked c sys n = (events, c')"
    and "o' \<in> set (outbox c)" and "claimable now c sys o'" and "ev_id o' \<notin> locked" and "o' \<notin> set events"
  shows "length events = n \<and> (\<forall>e \<in> set events. ev_created_at e \<le> ev_created_at o')"
proof -
  let ?all = "sort_key ev_created_at (filter (\<lambda>o'. claimable now c sys o' \<and> ev_id o' \<notin> locked) (outbox c))"
  have ev: "events = take n ?all" by (rule claim_events_fst [OF assms(1)])
  have "o' \<in> set ?all" using assms(2-4) by simp
  then have rest: "o' \<in> set (drop n ?all)" using assms(5) unfolding ev by (metis Un_iff append_take_drop_id set_append)
  have "sorted (map ev_created_at (take n ?all) @ map ev_created_at (drop n ?all))"
    by (metis append_take_drop_id map_append sorted_sort_key)
  then have "\<forall>e \<in> set events. ev_created_at e \<le> ev_created_at o'"
    using rest unfolding sorted_append ev by simp
  moreover have "drop n ?all \<noteq> []" using rest by force
  then have "length events = n" unfolding ev by simp
  ultimately show ?thesis by blast
qed

text \<open>
  C13: a claim returns at most the limit of events, oldest first, each one a pending or retry
  event of the target system that is due, of an enabled entity and not locked. An event that
  could be claimed is left only when the limit is reached by events that are not younger. After
  the claim the claimed events are processing and every other row is as it was.
\<close>

theorem claim_events_spec:
  assumes "claim_events now locked c sys n = (events, c')" and "distinct (map ev_id (outbox c))"
  shows "length events \<le> n \<and> sorted (map ev_created_at events) \<and> distinct (map ev_id events)
    \<and> (\<forall>e \<in> set events. e \<in> set (outbox c) \<and> ev_id e \<notin> locked \<and> ev_target_system e = sys
        \<and> ev_status e \<in> {Pending, Retry} \<and> ev_available_at e \<le> now
        \<and> (\<exists>k \<in> set (entity_control c). ct_source_entity k = ev_source_entity e \<and> ct_target_system k = sys \<and> ct_enabled k))
    \<and> (\<forall>e \<in> set (outbox c). claimable now c sys e \<longrightarrow> ev_id e \<notin> locked \<longrightarrow> e \<notin> set events \<longrightarrow>
        length events = n \<and> (\<forall>e' \<in> set events. ev_created_at e' \<le> ev_created_at e))
    \<and> (\<forall>o' \<in> set (outbox c'). ev_id o' \<in> set (map ev_id events) \<longrightarrow> ev_status o' = Processing)
    \<and> filter (\<lambda>o'. ev_id o' \<notin> set (map ev_id events)) (outbox c')
       = filter (\<lambda>o'. ev_id o' \<notin> set (map ev_id events)) (outbox c)"
proof (intro conjI)
  note ev = claim_events_fst [OF assms(1)]
  note ob = claim_events_outbox(1) [OF assms(1)]
  show "length events \<le> n" by (simp add: ev)
  show "sorted (map ev_created_at events)"
    by (simp add: ev take_map [symmetric] sorted_wrt_take)
  show "distinct (map ev_id events)" by (rule claim_events_distinct [OF assms])
  show "\<forall>e \<in> set events. e \<in> set (outbox c) \<and> ev_id e \<notin> locked \<and> ev_target_system e = sys
        \<and> ev_status e \<in> {Pending, Retry} \<and> ev_available_at e \<le> now
        \<and> (\<exists>k \<in> set (entity_control c). ct_source_entity k = ev_source_entity e \<and> ct_target_system k = sys \<and> ct_enabled k)"
    using claim_events_members [OF assms(1)] unfolding claimable_def entity_enabled_def by auto
  show "\<forall>e \<in> set (outbox c). claimable now c sys e \<longrightarrow> ev_id e \<notin> locked \<longrightarrow> e \<notin> set events \<longrightarrow>
        length events = n \<and> (\<forall>e' \<in> set events. ev_created_at e' \<le> ev_created_at e)"
    using claim_events_oldest [OF assms(1)] by blast
  show "\<forall>o' \<in> set (outbox c'). ev_id o' \<in> set (map ev_id events) \<longrightarrow> ev_status o' = Processing"
    unfolding ob by (rule update_where_all) auto
  show "filter (\<lambda>o'. ev_id o' \<notin> set (map ev_id events)) (outbox c')
       = filter (\<lambda>o'. ev_id o' \<notin> set (map ev_id events)) (outbox c)"
    unfolding ob by (rule update_where_frame) auto
qed

text \<open>
  Two claims never share an event: one that follows the first sees its events as
  processing, and one that runs while the first is uncommitted finds them locked.
\<close>

theorem claims_disjoint:
  assumes "claim_events now locked c sys n = (ev1, c1)"
    and "claim_events now1 locked1 c1 sys1 n1 = (ev2, c2)"
    and "claim_events now1 (locked \<union> set (map ev_id ev1)) c sys1 n1 = (ev3, c3)"
  shows "set (map ev_id ev1) \<inter> set (map ev_id ev2) = {} \<and> set (map ev_id ev1) \<inter> set (map ev_id ev3) = {}"
proof -
  have "\<forall>e \<in> set (outbox c1). ev_id e \<in> set (map ev_id ev1) \<longrightarrow> ev_status e = Processing"
    unfolding claim_events_outbox(1) [OF assms(1)] by (rule update_where_all) auto
  then have "ev_id e \<notin> set (map ev_id ev1)" if "e \<in> set ev2" for e
    using claim_events_members [OF assms(2) that] by (auto simp: claimable_def)
  moreover have "ev_id e \<notin> set (map ev_id ev1)" if "e \<in> set ev3" for e
    using claim_events_members [OF assms(3) that] by simp
  ultimately show ?thesis by (intro conjI disjoint_keys)
qed

section \<open>Backoff\<close>


section \<open>The lifecycle of an event\<close>

text \<open>
  One step of the store: a new event arrives, a batch is claimed, an event that is being
  processed is delivered, retried or quarantined (the operations get the event as it was
  claimed: its id and attempts are those of the stored row), an administrator replays one, or
  something happens in other tables (entity controls, mappings, the crosswalk).
\<close>

definition in_process :: "central \<Rightarrow> outbox_row \<Rightarrow> bool" where
  "in_process c e = (\<exists>o' \<in> set (outbox c). ev_id o' = ev_id e \<and> ev_attempts o' = ev_attempts e
     \<and> ev_status o' = Processing)"

inductive store_step :: "nat \<Rightarrow> central \<Rightarrow> central \<Rightarrow> bool" for M where
  enqueue: "ev_id o' \<notin> ev_id ` set (outbox c) \<Longrightarrow> ev_id o' \<notin> qr_event_id ` set (quarantined_events c) \<Longrightarrow>
     ev_status o' = Pending \<Longrightarrow> ev_attempts o' = 0 \<Longrightarrow> ev_processed_at o' = None \<Longrightarrow>
     store_step M c (c\<lparr>outbox := outbox c @ [o']\<rparr>)"
| claim: "claim_events now locked c sys n = (events, c') \<Longrightarrow> store_step M c c'"
| deliver: "in_process c e \<Longrightarrow> store_step M c (mark_event_delivered now c e)"
| deliver_single: "in_process c e \<Longrightarrow> store_step M c (delivered now c e mapping target_id)"
| fail: "in_process c e \<Longrightarrow> store_step M c (retry_or_dead_letter now c e err M)"
| reject: "in_process c e \<Longrightarrow> store_step M c (quarantine now c e errors mid)"
| replay: "replay now c i = Inr c' \<Longrightarrow> store_step M c c'"
| other: "outbox c' = outbox c \<Longrightarrow> quarantined_events c' = quarantined_events c \<Longrightarrow>
     delivery_audit c' = delivery_audit c \<Longrightarrow> store_step M c c'"

inductive store_reachable :: "nat \<Rightarrow> central \<Rightarrow> bool" for M where
  start: "store_reachable M empty_central"
| step: "store_reachable M c \<Longrightarrow> store_step M c c' \<Longrightarrow> store_reachable M c'"

section \<open>The invariant\<close>

definition status_ok :: "nat \<Rightarrow> outbox_row \<Rightarrow> bool" where
  "status_ok M o' = (case ev_status o' of
     Pending \<Rightarrow> ev_attempts o' = 0 \<and> ev_processed_at o' = None
   | Processing \<Rightarrow> ev_attempts o' < M \<and> ev_processed_at o' = None
   | Retry \<Rightarrow> 0 < ev_attempts o' \<and> ev_attempts o' < M \<and> ev_processed_at o' = None
   | Delivered \<Rightarrow> 0 < ev_attempts o' \<and> ev_attempts o' \<le> M \<and> ev_processed_at o' \<noteq> None
   | Quarantined \<Rightarrow> ev_attempts o' < M \<and> ev_processed_at o' \<noteq> None
   | DeadLetter \<Rightarrow> ev_attempts o' = M \<and> ev_processed_at o' \<noteq> None)"

definition audited :: "audit_row list \<Rightarrow> outbox_row \<Rightarrow> string \<Rightarrow> bool" where
  "audited as o' outcome = (\<exists>a \<in> set as. au_event_id a = ev_id o' \<and> au_attempt a = ev_attempts o'
     \<and> au_outcome a = outcome)"

definition row_ok :: "nat \<Rightarrow> string set \<Rightarrow> audit_row list \<Rightarrow> outbox_row \<Rightarrow> bool" where
  "row_ok M q as o' = (status_ok M o'
     \<and> (ev_status o' = Quarantined \<longleftrightarrow> ev_id o' \<in> q)
     \<and> (ev_status o' = Delivered \<longrightarrow> audited as o' ''accepted'')
     \<and> (ev_status o' = DeadLetter \<longrightarrow> audited as o' ''transport_error''))"

definition store_inv :: "nat \<Rightarrow> central \<Rightarrow> bool" where
  "store_inv M c = (distinct (map ev_id (outbox c)) \<and> distinct (map qr_event_id (quarantined_events c))
     \<and> qr_event_id ` set (quarantined_events c) \<subseteq> ev_id ` set (outbox c)
     \<and> (\<forall>o' \<in> set (outbox c).
          row_ok M (qr_event_id ` set (quarantined_events c)) (delivery_audit c) o'))"

lemma audited_mono [intro]: "audited as o' x \<Longrightarrow> audited (as @ bs) o' x"
  by (auto simp: audited_def)

lemma row_ok_more_audit: "row_ok M q as o' \<Longrightarrow> row_ok M q (as @ bs) o'"
  by (auto simp: row_ok_def)

lemma store_inv_empty: "store_inv M empty_central"
  by (simp add: store_inv_def empty_central_def)

text \<open>
  An operation on one event keeps the invariant when it leaves that event's row well-formed:
  the other rows keep their status, and the quarantine table changes for that event only.
\<close>

lemma store_inv_update:
  assumes inv: "store_inv M c"
    and ob: "outbox c' = update_where P f (outbox c)"
    and id: "\<And>o'. P o' \<Longrightarrow> ev_id (f o') = ev_id o'"
    and au: "delivery_audit c' = delivery_audit c @ as"
    and dq: "distinct (map qr_event_id (quarantined_events c'))"
    and sub: "qr_event_id ` set (quarantined_events c') \<subseteq> ev_id ` set (outbox c)"
    and same: "\<And>o'. o' \<in> set (outbox c) \<Longrightarrow> \<not> P o' \<Longrightarrow>
      ev_id o' \<in> qr_event_id ` set (quarantined_events c') \<longleftrightarrow> ev_id o' \<in> qr_event_id ` set (quarantined_events c)"
    and new: "\<And>o'. o' \<in> set (outbox c) \<Longrightarrow> P o' \<Longrightarrow>
      row_ok M (qr_event_id ` set (quarantined_events c)) (delivery_audit c) o' \<Longrightarrow>
      row_ok M (qr_event_id ` set (quarantined_events c')) (delivery_audit c') (f o')"
  shows "store_inv M c'"
proof -
  have ids: "map ev_id (outbox c') = map ev_id (outbox c)"
    unfolding ob by (rule map_update_where) (rule id)
  then have "ev_id ` set (outbox c') = ev_id ` set (outbox c)"
    by (metis list.set_map)
  moreover have "\<forall>o' \<in> set (outbox c'). row_ok M (qr_event_id ` set (quarantined_events c')) (delivery_audit c') o'"
    unfolding ob
  proof (rule update_where_all)
    fix o' assume o': "o' \<in> set (outbox c)"
    then have ok: "row_ok M (qr_event_id ` set (quarantined_events c)) (delivery_audit c) o'"
      using inv by (simp add: store_inv_def)
    show "P o' \<Longrightarrow> row_ok M (qr_event_id ` set (quarantined_events c')) (delivery_audit c') (f o')"
      using new [OF o' _ ok] .
    show "row_ok M (qr_event_id ` set (quarantined_events c')) (delivery_audit c') o'" if "\<not> P o'"
    proof -
      have "row_ok M (qr_event_id ` set (quarantined_events c')) (delivery_audit c) o'"
        using ok same [OF o' that] by (simp add: row_ok_def)
      then show ?thesis unfolding au by (rule row_ok_more_audit)
    qed
  qed
  ultimately show ?thesis using inv ids dq sub by (simp add: store_inv_def)
qed

lemma in_process_row:
  assumes "in_process c e" and "store_inv M c" and "o' \<in> set (outbox c)" and "ev_id o' = ev_id e"
  shows "ev_status o' = Processing" and "ev_attempts o' = ev_attempts e" and "ev_attempts e < M"
    and "ev_id e \<notin> qr_event_id ` set (quarantined_events c)"
proof -
  obtain p where p: "p \<in> set (outbox c)" "ev_id p = ev_id e" "ev_attempts p = ev_attempts e" "ev_status p = Processing"
    using assms(1) by (auto simp: in_process_def)
  have "p = o'"
    using p(1,2) assms(2,3,4) by (auto simp: store_inv_def intro: distinct_map_eq)
  then show "ev_status o' = Processing" and "ev_attempts o' = ev_attempts e" using p by auto
  have "row_ok M (qr_event_id ` set (quarantined_events c)) (delivery_audit c) p"
    using assms(2) p(1) by (simp add: store_inv_def)
  then show "ev_attempts e < M" and "ev_id e \<notin> qr_event_id ` set (quarantined_events c)"
    using p by (auto simp: row_ok_def status_ok_def)
qed

lemma store_inv_deliver:
  assumes "in_process c e" and "store_inv M c" and "outbox c' = update_where (\<lambda>o'. ev_id o' = ev_id e)
      (set_delivered now (ev_attempts e + 1)) (outbox c)"
    and "delivery_audit c' = delivery_audit c @ [audit_accepted e code]"
    and "quarantined_events c' = quarantined_events c"
  shows "store_inv M c'"
proof (rule store_inv_update [OF assms(2,3) _ assms(4)])
  show "distinct (map qr_event_id (quarantined_events c'))"
    "qr_event_id ` set (quarantined_events c') \<subseteq> ev_id ` set (outbox c)"
    using assms(2,5) by (simp_all add: store_inv_def)
  fix o' assume "o' \<in> set (outbox c)" "ev_id o' = ev_id e"
  note r = in_process_row [OF assms(1,2) this]
  then show "row_ok M (qr_event_id ` set (quarantined_events c')) (delivery_audit c')
      (set_delivered now (ev_attempts e + 1) o')"
    using \<open>ev_id o' = ev_id e\<close>
    by (auto simp: assms(4,5) row_ok_def status_ok_def set_delivered_def audited_def audit_accepted_def)
qed (simp_all add: set_delivered_def assms(5))

lemma store_inv_retry:
  assumes "in_process c e" and "store_inv M c"
  shows "store_inv M (retry_or_dead_letter now c e err M)"
proof (rule store_inv_update [OF assms(2)])
  show "distinct (map qr_event_id (quarantined_events (retry_or_dead_letter now c e err M)))"
    "qr_event_id ` set (quarantined_events (retry_or_dead_letter now c e err M)) \<subseteq> ev_id ` set (outbox c)"
    using assms(2) by (simp_all add: store_inv_def retry_or_dead_letter_def Let_def)
  show "outbox (retry_or_dead_letter now c e err M) = update_where (\<lambda>o'. ev_id o' = ev_id e)
      (\<lambda>o'. o'\<lparr>ev_status := (if ev_attempts e + 1 \<ge> M then DeadLetter else Retry), ev_attempts := ev_attempts e + 1,
         ev_available_at := now + delay_seconds (ev_attempts e + 1) * 1000000,
         ev_processed_at := (if ev_attempts e + 1 \<ge> M then Some now else None),
         ev_error_code := Some ''TRANSPORT'', ev_error_message := Some (take 2000 err)\<rparr>) (outbox c)"
    by (simp add: retry_or_dead_letter_def Let_def)
  show "delivery_audit (retry_or_dead_letter now c e err M) = delivery_audit c @
      [\<lparr>au_event_id = ev_id e, au_attempt = ev_attempts e + 1, au_outcome = ''transport_error'',
        au_code = ''TRANSPORT'', au_message = Some (take 2000 err)\<rparr>]"
    by (simp add: retry_or_dead_letter_def Let_def)
  fix o' assume "o' \<in> set (outbox c)" "ev_id o' = ev_id e"
  note r = in_process_row [OF assms this]
  then show "row_ok M (qr_event_id ` set (quarantined_events (retry_or_dead_letter now c e err M)))
      (delivery_audit (retry_or_dead_letter now c e err M))
      (o'\<lparr>ev_status := (if ev_attempts e + 1 \<ge> M then DeadLetter else Retry), ev_attempts := ev_attempts e + 1,
         ev_available_at := now + delay_seconds (ev_attempts e + 1) * 1000000,
         ev_processed_at := (if ev_attempts e + 1 \<ge> M then Some now else None),
         ev_error_code := Some ''TRANSPORT'', ev_error_message := Some (take 2000 err)\<rparr>)"
    using \<open>ev_id o' = ev_id e\<close>
    by (auto simp: retry_or_dead_letter_def Let_def row_ok_def status_ok_def audited_def)
qed (simp_all add: retry_or_dead_letter_def Let_def)

lemma store_inv_quarantine:
  assumes "in_process c e" and "store_inv M c"
  shows "store_inv M (quarantine now c e errors mid)"
proof -
  let ?c' = "quarantine now c e errors mid"
  have q: "qr_event_id ` set (quarantined_events ?c') = insert (ev_id e) (qr_event_id ` set (quarantined_events c))"
    unfolding quarantine_def by (simp, subst keys_upsert) simp_all
  have e: "ev_id e \<in> ev_id ` set (outbox c)"
    using assms(1) unfolding in_process_def by (metis imageI)
  show ?thesis
  proof (rule store_inv_update [OF assms(2)])
    show "outbox ?c' = update_where (\<lambda>o'. ev_id o' = ev_id e)
      (\<lambda>o'. o'\<lparr>ev_status := Quarantined, ev_processed_at := Some now,
         ev_error_code := Some ''VALIDATION'', ev_error_message := Some (join ''; '' errors)\<rparr>) (outbox c)"
      by (simp add: quarantine_def)
    show "delivery_audit ?c' = delivery_audit c @ []" by (simp add: quarantine_def)
    show "distinct (map qr_event_id (quarantined_events ?c'))"
      using assms(2) by (auto simp: quarantine_def store_inv_def intro!: distinct_upsert)
    show "qr_event_id ` set (quarantined_events ?c') \<subseteq> ev_id ` set (outbox c)"
      using assms(2) e by (simp add: q store_inv_def)
    fix o' assume o': "o' \<in> set (outbox c)"
    show "ev_id o' \<in> qr_event_id ` set (quarantined_events ?c') \<longleftrightarrow> ev_id o' \<in> qr_event_id ` set (quarantined_events c)"
      if "ev_id o' \<noteq> ev_id e" using that by (simp add: q)
    assume i: "ev_id o' = ev_id e"
    note r = in_process_row [OF assms o' i]
    then show "row_ok M (qr_event_id ` set (quarantined_events ?c')) (delivery_audit ?c')
      (o'\<lparr>ev_status := Quarantined, ev_processed_at := Some now,
         ev_error_code := Some ''VALIDATION'', ev_error_message := Some (join ''; '' errors)\<rparr>)"
      unfolding q using i by (simp add: row_ok_def status_ok_def)
  qed simp
qed

lemma store_inv_replay:
  assumes "replay now c i = Inr c'" and "store_inv M c"
  shows "store_inv M c'"
proof -
  have c': "c' = c\<lparr>outbox := update_where (replayable i)
              (\<lambda>o'. o'\<lparr>ev_status := Pending, ev_attempts := 0, ev_available_at := now,
                   ev_processed_at := None, ev_error_code := None, ev_error_message := None\<rparr>) (outbox c),
            quarantined_events := delete_where (\<lambda>q. qr_event_id q = i) (quarantined_events c)\<rparr>"
    and one: "row_count (replayable i) (outbox c) = 1"
    using assms(1) by (auto simp: replay_def split: if_splits)
  obtain p where p: "p \<in> set (outbox c)" "replayable i p"
    using row_count_1_ex [OF one] by blast
  have q: "qr_event_id ` set (quarantined_events c') = qr_event_id ` set (quarantined_events c) - {i}"
    by (auto simp: c' delete_where_def)
  show ?thesis
  proof (rule store_inv_update [OF assms(2)])
    show "outbox c' = update_where (replayable i)
              (\<lambda>o'. o'\<lparr>ev_status := Pending, ev_attempts := 0, ev_available_at := now,
                   ev_processed_at := None, ev_error_code := None, ev_error_message := None\<rparr>) (outbox c)"
      by (simp add: c')
    show "delivery_audit c' = delivery_audit c @ []" by (simp add: c')
    show "distinct (map qr_event_id (quarantined_events c'))"
      using assms(2) by (auto simp: c' store_inv_def delete_where_def distinct_map_filter)
    show "qr_event_id ` set (quarantined_events c') \<subseteq> ev_id ` set (outbox c)"
      using assms(2) by (auto simp: q store_inv_def)
    fix o' assume o': "o' \<in> set (outbox c)"
    show "ev_id o' \<in> qr_event_id ` set (quarantined_events c') \<longleftrightarrow> ev_id o' \<in> qr_event_id ` set (quarantined_events c)"
      if n: "\<not> replayable i o'"
    proof -
      have "ev_id o' \<noteq> i"
        using p n o' assms(2) distinct_map_eq [of ev_id "outbox c" o' p]
        by (auto simp: replayable_def store_inv_def)
      then show ?thesis by (simp add: q)
    qed
    assume "replayable i o'"
    then show "row_ok M (qr_event_id ` set (quarantined_events c')) (delivery_audit c')
      (o'\<lparr>ev_status := Pending, ev_attempts := 0, ev_available_at := now,
         ev_processed_at := None, ev_error_code := None, ev_error_message := None\<rparr>)"
      unfolding q by (simp add: row_ok_def status_ok_def replayable_def)
  qed simp
qed

lemma store_inv_claim:
  assumes cl: "claim_events now locked c sys n = (events, c')" and inv: "store_inv M c" and "1 \<le> M"
  shows "store_inv M c'"
proof (rule store_inv_update [OF inv claim_events_outbox(1) [OF cl]])
  note cs = claim_events_outbox(2-4) [OF cl]
  show "delivery_audit c' = delivery_audit c @ []" by (simp add: cs)
  show "distinct (map qr_event_id (quarantined_events c'))"
    "qr_event_id ` set (quarantined_events c') \<subseteq> ev_id ` set (outbox c)"
    using inv by (simp_all add: cs store_inv_def)
  fix o' assume o': "o' \<in> set (outbox c)" and ids: "ev_id o' \<in> set (map ev_id events)"
    and ok: "row_ok M (qr_event_id ` set (quarantined_events c)) (delivery_audit c) o'"
  obtain e where e: "e \<in> set events" "ev_id e = ev_id o'" using ids by auto
  then have "e = o'"
    using claim_events_members [OF cl e(1)] o' inv
    by (auto simp: store_inv_def intro: distinct_map_eq)
  then have "ev_status o' = Pending \<or> ev_status o' = Retry"
    using claim_events_members [OF cl e(1)] by (simp add: claimable_def)
  then show "row_ok M (qr_event_id ` set (quarantined_events c')) (delivery_audit c')
      (o'\<lparr>ev_status := Processing\<rparr>)"
    using ok assms(3) by (auto simp: cs row_ok_def status_ok_def)
qed (simp_all add: claim_events_outbox [OF cl])

lemma store_inv_step:
  assumes "store_step M c c'" and "store_inv M c" and "1 \<le> M"
  shows "store_inv M c'"
  using assms(1)
proof (cases rule: store_step.cases)
  case (enqueue o')
  with assms(2) show ?thesis
    by (auto simp: store_inv_def row_ok_def status_ok_def)
next
  case (claim now locked sys n events)
  then show ?thesis using store_inv_claim assms(2,3) by blast
next
  case (deliver e now)
  then show ?thesis
    using store_inv_deliver [OF _ assms(2)] by (simp add: mark_event_delivered_def)
next
  case (deliver_single e now mapping target_id)
  then show ?thesis
    using store_inv_deliver [OF _ assms(2)] by (simp add: delivered_def)
next
  case (fail e now err)
  then show ?thesis using store_inv_retry assms(2) by blast
next
  case (reject e now errors mid)
  then show ?thesis using store_inv_quarantine assms(2) by blast
next
  case (replay now i)
  then show ?thesis using store_inv_replay assms(2) by blast
next
  case other
  then show ?thesis using assms(2) by (simp add: store_inv_def)
qed

text \<open>
  C1: in every reachable database each event's status agrees with its attempts, its processing
  time, the quarantine table and the audit: attempts stay below the maximum until the event is
  delivered or dead-lettered, exactly the quarantined events are in the quarantine table, and a
  delivered (dead-lettered) event has its accepted (failed) attempt on record.
\<close>

theorem store_reachable_inv:
  assumes "store_reachable M c" and "1 \<le> M"
  shows "store_inv M c"
  using assms
proof (induction rule: store_reachable.induct)
  case start
  show ?case by (rule store_inv_empty)
next
  case (step c c')
  then show ?case using store_inv_step by blast
qed

text \<open>
  Replay accepts exactly a present event that is quarantined, dead-lettered or delivered,
  and puts it back to the start: pending, no attempts, due now, no error, not in quarantine;
  the other events keep their rows.
\<close>

theorem replay_spec:
  assumes "distinct (map ev_id (outbox c))"
  shows "((\<exists>o' \<in> set (outbox c). replayable i o') \<longleftrightarrow> (\<exists>c'. replay now c i = Inr c'))
    \<and> (\<forall>c'. replay now c i = Inr c' \<longrightarrow>
        (\<forall>o' \<in> set (outbox c'). ev_id o' = i \<longrightarrow> ev_status o' = Pending \<and> ev_attempts o' = 0
           \<and> ev_available_at o' = now \<and> ev_processed_at o' = None \<and> ev_error_code o' = None)
        \<and> i \<notin> qr_event_id ` set (quarantined_events c')
        \<and> filter (\<lambda>o'. ev_id o' \<noteq> i) (outbox c') = filter (\<lambda>o'. ev_id o' \<noteq> i) (outbox c))"
proof -
  have le: "row_count (replayable i) (outbox c) \<le> 1"
    by (rule row_count_distinct [OF assms]) (simp add: replayable_def)
  have ex: "(\<exists>o' \<in> set (outbox c). replayable i o') \<longleftrightarrow> row_count (replayable i) (outbox c) = 1"
    using le row_count_0 [of "replayable i" "outbox c"] row_count_1_ex [of "replayable i" "outbox c"]
    by (metis One_nat_def le_SucE le_zero_eq)
  have "(\<forall>o' \<in> set (outbox c'). ev_id o' = i \<longrightarrow> ev_status o' = Pending \<and> ev_attempts o' = 0
           \<and> ev_available_at o' = now \<and> ev_processed_at o' = None \<and> ev_error_code o' = None)
        \<and> i \<notin> qr_event_id ` set (quarantined_events c')
        \<and> filter (\<lambda>o'. ev_id o' \<noteq> i) (outbox c') = filter (\<lambda>o'. ev_id o' \<noteq> i) (outbox c)"
    if r: "replay now c i = Inr c'" for c'
  proof -
    have c': "outbox c' = update_where (replayable i)
              (\<lambda>o'. o'\<lparr>ev_status := Pending, ev_attempts := 0, ev_available_at := now,
                   ev_processed_at := None, ev_error_code := None, ev_error_message := None\<rparr>) (outbox c)"
      "quarantined_events c' = delete_where (\<lambda>q. qr_event_id q = i) (quarantined_events c)"
      and one: "row_count (replayable i) (outbox c) = 1"
      using r by (auto simp: replay_def split: if_splits)
    obtain p where p: "p \<in> set (outbox c)" "replayable i p" using row_count_1_ex [OF one] by blast
    have all: "replayable i o'" if "o' \<in> set (outbox c)" "ev_id o' = i" for o'
      using p that distinct_map_eq [OF assms, of o' p] by (simp add: replayable_def)
    have 1: "\<forall>o' \<in> set (outbox c'). ev_id o' = i \<longrightarrow> ev_status o' = Pending \<and> ev_attempts o' = 0
           \<and> ev_available_at o' = now \<and> ev_processed_at o' = None \<and> ev_error_code o' = None"
      unfolding c' by (rule update_where_all) (auto dest: all)
    have 2: "filter (\<lambda>o'. ev_id o' \<noteq> i) (outbox c') = filter (\<lambda>o'. ev_id o' \<noteq> i) (outbox c)"
      unfolding c' by (rule update_where_frame) (auto simp: replayable_def)
    show ?thesis using 1 2 by (auto simp: c' delete_where_def)
  qed
  moreover have "(\<exists>c'. replay now c i = Inr c') \<longleftrightarrow> row_count (replayable i) (outbox c) = 1"
    by (simp add: replay_def)
  ultimately show ?thesis using ex by blast
qed

section \<open>Examples\<close>

definition sample_event :: "string \<Rightarrow> int \<Rightarrow> delivery_status \<Rightarrow> outbox_row" where
  "sample_event i t st = \<lparr>ev_id = i, ev_source_system = ''IRIMSV_REGION_V'', ev_source_entity = ''schools'',
     ev_external_reference = ''ref-'' @ i, ev_operation = ''update'', ev_payload = PDict [],
     ev_payload_checksum = [], ev_target_system = ''LRMIS'', ev_mapping_version_id = None,
     ev_status = st, ev_attempts = 0, ev_available_at = 0, ev_source_updated_at = 0, ev_created_at = t,
     ev_processed_at = None, ev_error_code = None, ev_error_message = None\<rparr>"

definition sample_store :: central where
  "sample_store = empty_central\<lparr>
     outbox := [sample_event ''a'' 9 Pending, sample_event ''b'' 3 Pending, sample_event ''c'' 5 Pending],
     entity_control := [\<lparr>ct_source_entity = ''schools'', ct_target_system = ''LRMIS'', ct_enabled = True,
       ct_paused_reason = None, ct_updated_at = 0\<rparr>]\<rparr>"

theorem claim_events_spec_witness:
  "map ev_id (fst (claim_events 10 {} sample_store ''LRMIS'' 2)) = [''b'', ''c''] \<and>
   length (fst (claim_events 10 {} sample_store ''LRMIS'' 2)) \<le> 2"
proof -
  let ?r = "claim_events 10 {} sample_store ''LRMIS'' 2"
  have eq: "?r = (fst ?r, snd ?r)" by simp
  have d: "distinct (map ev_id (outbox sample_store))" by code_simp
  have "map ev_id (fst ?r) = [''b'', ''c'']" by code_simp
  then show ?thesis using claim_events_spec [OF eq d] by blast
qed

theorem claims_disjoint_witness:
  "set (map ev_id (fst (claim_events 10 {} sample_store ''LRMIS'' 2)))
   \<inter> set (map ev_id (fst (claim_events 10 {} (snd (claim_events 10 {} sample_store ''LRMIS'' 2)) ''LRMIS'' 2))) = {}"
proof -
  let ?r = "claim_events 10 {} sample_store ''LRMIS'' 2"
  let ?s = "claim_events 10 {} (snd ?r) ''LRMIS'' 2"
  let ?t = "claim_events 10 ({} \<union> set (map ev_id (fst ?r))) sample_store ''LRMIS'' 2"
  have 1: "?r = (fst ?r, snd ?r)" "?s = (fst ?s, snd ?s)" "?t = (fst ?t, snd ?t)" by simp_all
  show ?thesis using claims_disjoint [OF 1] by blast
qed

lemma sample_reachable: "store_reachable 8 (empty_central\<lparr>outbox := [sample_event ''a'' 9 Pending]\<rparr>)"
proof -
  have "store_step 8 empty_central (empty_central\<lparr>outbox := outbox empty_central @ [sample_event ''a'' 9 Pending]\<rparr>)"
    by (rule store_step.enqueue) (simp_all add: sample_event_def empty_central_def)
  then have "store_step 8 empty_central (empty_central\<lparr>outbox := [sample_event ''a'' 9 Pending]\<rparr>)"
    by (simp add: empty_central_def)
  with store_reachable.start show ?thesis by (rule store_reachable.step)
qed

theorem store_reachable_inv_witness:
  "store_reachable 8 (empty_central\<lparr>outbox := [sample_event ''a'' 9 Pending]\<rparr>) \<and>
   store_inv 8 (empty_central\<lparr>outbox := [sample_event ''a'' 9 Pending]\<rparr>)"
  using sample_reachable store_reachable_inv [OF sample_reachable] by simp

theorem replay_spec_witness:
  "\<exists>c'. replay 10 (empty_central\<lparr>outbox := [sample_event ''a'' 9 DeadLetter]\<rparr>) ''a'' = Inr c'"
proof -
  let ?c = "empty_central\<lparr>outbox := [sample_event ''a'' 9 DeadLetter]\<rparr>"
  have d: "distinct (map ev_id (outbox ?c))" by simp
  have "\<exists>o' \<in> set (outbox ?c). replayable ''a'' o'" by (simp add: replayable_def sample_event_def)
  then show ?thesis using replay_spec [OF d, of "''a''" 10] by blast
qed

end
