(* ===== verification/Mapping_Repository.thy ===== *)
theory Mapping_Repository
  imports Schema_Drift
begin

text \<open>
  \<open>src/mapping_repository.py\<close>: immutable, reviewed mapping versions. \<open>propose\<close> adds the next
  draft version of an entity, \<open>approve\<close> makes one draft or paused version the approved one.
  The invariant is that of the unique indexes in \<open>sql/001_integration_foundation.sql\<close>: version
  numbers are unique per entity and target, and at most one version is approved.
\<close>

definition of_pair :: "string \<Rightarrow> string \<Rightarrow> mapping_version_row \<Rightarrow> bool" where
  "of_pair e t m = (mv_source_entity m = e \<and> mv_target_system m = t)"

text \<open>\<open>COALESCE(MAX(version), 0) + 1\<close>.\<close>

definition next_version :: "central \<Rightarrow> string \<Rightarrow> string \<Rightarrow> int" where
  "next_version c e t =
     (case map mv_version (filter (of_pair e t) (mapping_version c)) of
        [] \<Rightarrow> 1
      | v # vs \<Rightarrow> fold max vs v + 1)"

definition propose ::
  "central \<Rightarrow> string \<Rightarrow> string \<Rightarrow> string \<Rightarrow> string \<Rightarrow> mapping_entry list \<Rightarrow> int \<times> central" where
  "propose c source_entity target_system target_table fingerprint mappings =
     (let version = next_version c source_entity target_system;
          (i, c1) = next_serial ''mapping_version'' c
      in (i, c1\<lparr>mapping_version := mapping_version c1 @
           [\<lparr>mv_id = i, mv_source_entity = source_entity, mv_target_system = target_system,
             mv_target_table = target_table, mv_fingerprint = fingerprint, mv_version = version,
             mv_status = MDraft, mv_mappings = mappings, mv_approved_at = None,
             mv_approved_by = None\<rparr>]\<rparr>))"

definition approve :: "int \<Rightarrow> central \<Rightarrow> int \<Rightarrow> string \<Rightarrow> central res" where
  "approve now c mapping_id approved_by =
     (case select_one (\<lambda>m. mv_id m = mapping_id) (mapping_version c) of
        None \<Rightarrow> Inl (ValueError ''mapping version not found'')
      | Some m \<Rightarrow>
          (let e = mv_source_entity m; t = mv_target_system m;
               ms1 = update_where (\<lambda>m. of_pair e t m \<and> mv_status m = MApproved)
                       (\<lambda>m. m\<lparr>mv_status := MSuperseded\<rparr>) (mapping_version c);
               pick = (\<lambda>m. mv_id m = mapping_id \<and> mv_status m \<in> {MDraft, MPaused})
           in if row_count pick ms1 \<noteq> 1
              then Inl (ValueError ''only draft or paused mappings can be approved'')
              else Inr (c\<lparr>mapping_version := update_where pick
                      (\<lambda>m. m\<lparr>mv_status := MApproved, mv_approved_at := Some now,
                           mv_approved_by := Some approved_by\<rparr>) ms1,
                    entity_control := upsert (\<lambda>r. ct_source_entity r = e \<and> ct_target_system r = t)
                      (\<lambda>r. r\<lparr>ct_enabled := True, ct_paused_reason := None, ct_updated_at := now\<rparr>)
                      \<lparr>ct_source_entity = e, ct_target_system = t, ct_enabled = True,
                       ct_paused_reason = None, ct_updated_at = now\<rparr> (entity_control c)\<rparr>)))"

section \<open>The invariant\<close>

definition approved_key :: "mapping_version_row \<Rightarrow> string \<times> string" where
  "approved_key m = (mv_source_entity m, mv_target_system m)"

definition version_key :: "mapping_version_row \<Rightarrow> string \<times> string \<times> int" where
  "version_key m = (mv_source_entity m, mv_target_system m, mv_version m)"

definition mapping_inv :: "central \<Rightarrow> bool" where
  "mapping_inv c =
     (distinct (map mv_id (mapping_version c))
      \<and> distinct (map version_key (mapping_version c))
      \<and> distinct (map approved_key (filter (\<lambda>m. mv_status m = MApproved) (mapping_version c)))
      \<and> (\<forall>m \<in> set (mapping_version c). mv_id m < serials c ''mapping_version''))"

lemma fold_max_ge: "x \<in> set (v # vs) \<Longrightarrow> x \<le> fold max vs (v::int)"
proof (induction vs arbitrary: v)
  case (Cons w ws)
  then have "x \<le> fold max ws (max w v) \<or> x \<in> {v, w}" by auto
  moreover have "max w v \<le> fold max ws (max w v)" using Cons.IH [of "max w v"]
    by (metis Max.set_eq_fold Max_ge finite_set list.set_intros(1))
  ultimately show ?case by auto
qed auto

lemma next_version_gt: "m \<in> set (mapping_version c) \<Longrightarrow> of_pair e t m \<Longrightarrow> mv_version m < next_version c e t"
proof -
  assume "m \<in> set (mapping_version c)" "of_pair e t m"
  then have "mv_version m \<in> set (map mv_version (filter (of_pair e t) (mapping_version c)))" by auto
  then show ?thesis
    using fold_max_ge [of "mv_version m"]
    by (cases "map mv_version (filter (of_pair e t) (mapping_version c))") (auto simp: next_version_def)
qed

text \<open>
  Proposing adds one draft with a fresh id and the next version number, keeps the
  invariant and changes no mapping that was there.
\<close>

theorem propose_inv:
  assumes "propose c e t tab fp ms = (i, c')" and "mapping_inv c"
  shows "mapping_inv c' \<and> (\<exists>m. mapping_version c' = mapping_version c @ [m] \<and> mv_id m = i \<and> mv_status m = MDraft
      \<and> (\<forall>m' \<in> set (mapping_version c). mv_id m' \<noteq> i \<and> (of_pair e t m' \<longrightarrow> mv_version m' < mv_version m)))"
proof -
  let ?m = "\<lparr>mv_id = serials c ''mapping_version'', mv_source_entity = e, mv_target_system = t,
     mv_target_table = tab, mv_fingerprint = fp, mv_version = next_version c e t, mv_status = MDraft,
     mv_mappings = ms, mv_approved_at = None, mv_approved_by = None\<rparr>"
  have new: "mapping_version c' = mapping_version c @ [?m]" "i = serials c ''mapping_version''"
    "serials c' ''mapping_version'' = serials c ''mapping_version'' + 1"
    using assms(1) by (auto simp: propose_def next_serial_def Let_def)
  have lt: "\<forall>m \<in> set (mapping_version c). mv_id m < serials c ''mapping_version''"
    using assms(2) by (simp add: mapping_inv_def)
  have fresh: "\<forall>m \<in> set (mapping_version c). mv_id m \<noteq> i" using lt new(2) by auto
  have ver: "\<forall>m \<in> set (mapping_version c). of_pair e t m \<longrightarrow> mv_version m < mv_version ?m"
    using next_version_gt by simp
  have "mv_id ?m \<notin> mv_id ` set (mapping_version c)" using fresh new(2) by force
  moreover have "version_key ?m \<notin> version_key ` set (mapping_version c)"
    using ver by (force simp: version_key_def of_pair_def)
  moreover have "\<forall>m \<in> set (mapping_version c'). mv_id m < serials c' ''mapping_version''"
    using lt unfolding new by force
  ultimately have "mapping_inv c'"
    using assms(2) unfolding mapping_inv_def new(1) by simp
  then show ?thesis using new fresh ver by auto
qed

lemma approve_Inr:
  assumes "approve now c i by' = Inr c'"
  obtains m ms1 where "select_one (\<lambda>m. mv_id m = i) (mapping_version c) = Some m"
    and "ms1 = update_where (\<lambda>x. of_pair (mv_source_entity m) (mv_target_system m) x \<and> mv_status x = MApproved)
          (\<lambda>m. m\<lparr>mv_status := MSuperseded\<rparr>) (mapping_version c)"
    and "row_count (\<lambda>m. mv_id m = i \<and> mv_status m \<in> {MDraft, MPaused}) ms1 = 1"
    and "mapping_version c' = update_where (\<lambda>m. mv_id m = i \<and> mv_status m \<in> {MDraft, MPaused})
          (\<lambda>m. m\<lparr>mv_status := MApproved, mv_approved_at := Some now, mv_approved_by := Some by'\<rparr>) ms1"
    and "serials c' = serials c"
    and "entity_control c' = upsert (\<lambda>r. ct_source_entity r = mv_source_entity m \<and> ct_target_system r = mv_target_system m)
                      (\<lambda>r. r\<lparr>ct_enabled := True, ct_paused_reason := None, ct_updated_at := now\<rparr>)
                      \<lparr>ct_source_entity = mv_source_entity m, ct_target_system = mv_target_system m, ct_enabled = True,
                       ct_paused_reason = None, ct_updated_at = now\<rparr> (entity_control c)"
  using assms by (auto simp: approve_def Let_def split: option.splits if_splits)

lemma approved_after_supersede:
  "m \<in> set (update_where (\<lambda>x. of_pair e t x \<and> mv_status x = MApproved) (\<lambda>m. m\<lparr>mv_status := MSuperseded\<rparr>) ms) \<Longrightarrow>
   of_pair e t m \<Longrightarrow> mv_status m \<noteq> MApproved"
proof -
  have "\<forall>m \<in> set (update_where (\<lambda>x. of_pair e t x \<and> mv_status x = MApproved) (\<lambda>m. m\<lparr>mv_status := MSuperseded\<rparr>) ms).
      of_pair e t m \<longrightarrow> mv_status m \<noteq> MApproved"
    by (rule update_where_all) (auto simp: of_pair_def)
  then show "m \<in> set (update_where (\<lambda>x. of_pair e t x \<and> mv_status x = MApproved) (\<lambda>m. m\<lparr>mv_status := MSuperseded\<rparr>) ms) \<Longrightarrow>
   of_pair e t m \<Longrightarrow> mv_status m \<noteq> MApproved" by blast
qed

lemma approved_of_pair_unique:
  assumes "mapping_inv c" and "m \<in> set (mapping_version c)" and "m' \<in> set (mapping_version c)"
    and "mv_status m = MApproved" and "mv_status m' = MApproved" and "approved_key m = approved_key m'"
  shows "m = m'"
  using assms distinct_map_eq [of approved_key "filter (\<lambda>m. mv_status m = MApproved) (mapping_version c)" m m']
  by (simp add: mapping_inv_def)

lemma distinct_approvedI:
  assumes "distinct (map mv_id ms)"
    and "\<And>m m'. m \<in> set ms \<Longrightarrow> m' \<in> set ms \<Longrightarrow> mv_status m = MApproved \<Longrightarrow> mv_status m' = MApproved \<Longrightarrow>
      approved_key m = approved_key m' \<Longrightarrow> m = m'"
  shows "distinct (map approved_key (filter (\<lambda>m. mv_status m = MApproved) ms))"
proof -
  have "distinct ms" using assms(1) by (simp add: distinct_map)
  then show ?thesis using assms(2) by (auto simp: distinct_map inj_on_def)
qed

text \<open>The rows after the old approved versions of the pair are superseded and version \<open>i\<close> is promoted.\<close>

definition superseded :: "mapping_version_row \<Rightarrow> mapping_version_row list \<Rightarrow> mapping_version_row list" where
  "superseded m rows = update_where (\<lambda>x. of_pair (mv_source_entity m) (mv_target_system m) x \<and> mv_status x = MApproved)
     (\<lambda>m. m\<lparr>mv_status := MSuperseded\<rparr>) rows"

definition promoted :: "int \<Rightarrow> string \<Rightarrow> int \<Rightarrow> mapping_version_row list \<Rightarrow> mapping_version_row list" where
  "promoted now by' i rows = update_where (\<lambda>m. mv_id m = i \<and> mv_status m \<in> {MDraft, MPaused})
     (\<lambda>m. m\<lparr>mv_status := MApproved, mv_approved_at := Some now, mv_approved_by := Some by'\<rparr>) rows"

lemma promoted_keys:
  "map mv_id (promoted now by' i (superseded m rows)) = map mv_id rows"
  "map version_key (promoted now by' i (superseded m rows)) = map version_key rows"
  "map (\<lambda>x. (mv_id x, approved_key x)) (promoted now by' i (superseded m rows)) = map (\<lambda>x. (mv_id x, approved_key x)) rows"
  by (simp_all add: promoted_def superseded_def map_update_where version_key_def approved_key_def)

lemma promoted_key:
  assumes "distinct (map mv_id rows)" and "m \<in> set rows" and "mv_id m = i"
    and "x \<in> set (promoted now by' i (superseded m rows))" and "mv_id x = i"
  shows "approved_key x = approved_key m"
proof -
  have "(mv_id x, approved_key x) \<in> set (map (\<lambda>x. (mv_id x, approved_key x)) (promoted now by' i (superseded m rows)))"
    using assms(4) by simp
  then obtain x0 where "x0 \<in> set rows" "mv_id x0 = mv_id x" "approved_key x0 = approved_key x"
    unfolding promoted_keys(3) by auto
  then show ?thesis using distinct_map_eq [OF assms(1), of x0 m] assms(2,3,5) by simp
qed

lemma promoted_approved_of_pair:
  assumes "x \<in> set (promoted now by' i (superseded m rows))" and "mv_status x = MApproved" and "approved_key x = approved_key m"
  shows "mv_id x = i"
  using assms(1) unfolding promoted_def
proof (cases rule: update_where_cases)
  case (changed r0)
  then show ?thesis by simp
next
  case kept
  then show ?thesis
    using approved_after_supersede [of x "mv_source_entity m" "mv_target_system m" rows] assms(2,3)
    by (simp add: superseded_def of_pair_def approved_key_def)
qed

lemma promoted_approved_other:
  assumes "x \<in> set (promoted now by' i (superseded m rows))" and "mv_status x = MApproved" and "mv_id x \<noteq> i"
  shows "x \<in> set rows"
proof -
  have "x \<in> set (superseded m rows)"
    using assms(1) unfolding promoted_def by (cases rule: update_where_cases) (use assms(3) in auto)
  then show ?thesis
    unfolding superseded_def by (cases rule: update_where_cases) (use assms(2) in auto)
qed

lemma promoted_exists:
  assumes "row_count (\<lambda>m. mv_id m = i \<and> mv_status m \<in> {MDraft, MPaused}) rows = 1"
  shows "\<exists>n \<in> set (promoted now by' i rows). mv_id n = i \<and> mv_status n = MApproved"
proof -
  obtain p where p: "p \<in> set rows" "mv_id p = i \<and> mv_status p \<in> {MDraft, MPaused}"
    using row_count_1_ex [OF assms] by blast
  let ?n = "p\<lparr>mv_status := MApproved, mv_approved_at := Some now, mv_approved_by := Some by'\<rparr>"
  have "?n \<in> set (promoted now by' i rows)" unfolding promoted_def in_update_where using p by (intro bexI [of _ p]) simp_all
  then show ?thesis using p(2) by (intro bexI [of _ ?n]) simp_all
qed

lemma approve_promotes:
  assumes "approve now c i by' = Inr c'"
  obtains m where "m \<in> set (mapping_version c)" and "mv_id m = i"
    and "mapping_version c' = promoted now by' i (superseded m (mapping_version c))"
    and "\<exists>n \<in> set (mapping_version c'). mv_id n = i \<and> mv_status n = MApproved" and "serials c' = serials c"
    and "\<exists>r \<in> set (entity_control c'). ct_source_entity r = mv_source_entity m \<and> ct_target_system r = mv_target_system m \<and> ct_enabled r"
proof (rule approve_Inr [OF assms])
  fix m ms1 assume sel: "select_one (\<lambda>m. mv_id m = i) (mapping_version c) = Some m"
    and ms1: "ms1 = update_where (\<lambda>x. of_pair (mv_source_entity m) (mv_target_system m) x \<and> mv_status x = MApproved)
          (\<lambda>m. m\<lparr>mv_status := MSuperseded\<rparr>) (mapping_version c)"
    and one: "row_count (\<lambda>m. mv_id m = i \<and> mv_status m \<in> {MDraft, MPaused}) ms1 = 1"
    and ms2: "mapping_version c' = update_where (\<lambda>m. mv_id m = i \<and> mv_status m \<in> {MDraft, MPaused})
          (\<lambda>m. m\<lparr>mv_status := MApproved, mv_approved_at := Some now, mv_approved_by := Some by'\<rparr>) ms1"
    and ser: "serials c' = serials c"
    and ctl: "entity_control c' = upsert (\<lambda>r. ct_source_entity r = mv_source_entity m \<and> ct_target_system r = mv_target_system m)
                      (\<lambda>r. r\<lparr>ct_enabled := True, ct_paused_reason := None, ct_updated_at := now\<rparr>)
                      \<lparr>ct_source_entity = mv_source_entity m, ct_target_system = mv_target_system m, ct_enabled = True,
                       ct_paused_reason = None, ct_updated_at = now\<rparr> (entity_control c)"
  have m: "m \<in> set (mapping_version c)" "mv_id m = i" using select_one_Some [OF sel] by auto
  have vs: "mapping_version c' = promoted now by' i (superseded m (mapping_version c))"
    using ms1 ms2 by (simp add: promoted_def superseded_def)
  have n: "\<exists>n \<in> set (mapping_version c'). mv_id n = i \<and> mv_status n = MApproved"
    unfolding vs by (rule promoted_exists) (use one ms1 in \<open>simp add: superseded_def\<close>)
  let ?P = "\<lambda>r. ct_source_entity r = mv_source_entity m \<and> ct_target_system r = mv_target_system m"
  have "\<exists>r. select_one ?P (entity_control c') = Some r \<and> ct_enabled r"
    unfolding ctl by (subst select_one_upsert) (auto split: option.split)
  then have "\<exists>r \<in> set (entity_control c'). ?P r \<and> ct_enabled r" using select_one_Some by fastforce
  then show thesis using that [OF m vs n ser] by blast
qed

text \<open>
  Approval keeps the invariant; afterwards the approved version is the only approved one
  of its entity and target, the previous one is superseded, and delivery of the entity is on.
\<close>

theorem approve_spec:
  assumes "approve now c i by' = Inr c'" and "mapping_inv c"
  shows "mapping_inv c' \<and> (\<exists>m \<in> set (mapping_version c'). mv_id m = i \<and> mv_status m = MApproved
      \<and> (\<forall>m' \<in> set (mapping_version c'). approved_key m' = approved_key m \<and> mv_status m' = MApproved \<longrightarrow> m' = m)
      \<and> (\<exists>r \<in> set (entity_control c'). ct_source_entity r = mv_source_entity m
           \<and> ct_target_system r = mv_target_system m \<and> ct_enabled r))"
proof -
  obtain m n where m: "m \<in> set (mapping_version c)" "mv_id m = i"
    and vs: "mapping_version c' = promoted now by' i (superseded m (mapping_version c))"
    and n: "n \<in> set (mapping_version c')" "mv_id n = i" "mv_status n = MApproved" and ser: "serials c' = serials c"
    and ctl: "\<exists>r \<in> set (entity_control c'). ct_source_entity r = mv_source_entity m \<and> ct_target_system r = mv_target_system m \<and> ct_enabled r"
    by (rule approve_promotes [OF assms(1)]) blast
  note ids = promoted_keys(1) [of now by' i m "mapping_version c", folded vs]
    and vks = promoted_keys(2) [of now by' i m "mapping_version c", folded vs]
  have dist0: "distinct (map mv_id (mapping_version c))" using assms(2) by (simp add: mapping_inv_def)
  then have dist: "distinct (map mv_id (mapping_version c'))" unfolding ids .
  have nk: "approved_key n = approved_key m"
    using promoted_key [OF dist0 m, of n now by'] n unfolding vs by blast
  have uniq: "x = n" if "x \<in> set (mapping_version c')" "approved_key x = approved_key n" "mv_status x = MApproved" for x
    using promoted_approved_of_pair [of x now by' i m "mapping_version c"] that nk n dist distinct_map_eq [of mv_id "mapping_version c'" x n]
    unfolding vs by simp
  have old: "x \<in> set (mapping_version c)" if "x \<in> set (mapping_version c')" "mv_status x = MApproved" "approved_key x \<noteq> approved_key n" for x
    using promoted_approved_other [of x now by' i m "mapping_version c"] promoted_key [OF dist0 m, of x now by'] that nk
    unfolding vs by metis
  have "distinct (map approved_key (filter (\<lambda>m. mv_status m = MApproved) (mapping_version c')))"
  proof (rule distinct_approvedI [OF dist])
    fix x y assume xy: "x \<in> set (mapping_version c')" "y \<in> set (mapping_version c')"
      "mv_status x = MApproved" "mv_status y = MApproved" "approved_key x = approved_key y"
    show "x = y"
    proof (cases "approved_key x = approved_key n")
      case True
      then show ?thesis using uniq [of x] uniq [of y] xy by simp
    next
      case False
      then show ?thesis using old [of x] old [of y] xy approved_of_pair_unique [OF assms(2)] by simp
    qed
  qed
  moreover have "\<forall>k \<in> set (map mv_id (mapping_version c')). k < serials c' ''mapping_version''"
    unfolding ids ser using assms(2) by (simp add: mapping_inv_def)
  ultimately have inv: "mapping_inv c'" using assms(2) dist vks by (simp add: mapping_inv_def)
  have "\<exists>r \<in> set (entity_control c'). ct_source_entity r = mv_source_entity n \<and> ct_target_system r = mv_target_system n \<and> ct_enabled r"
    using ctl nk by (simp add: approved_key_def)
  with inv n uniq show ?thesis by blast
qed

text \<open>
  A recorded drift keeps the invariant of the mapping versions, so a paused version can be
  approved again.
\<close>

theorem record_drift_mapping_inv:
  assumes "mapping_inv c"
  shows "mapping_inv (snd (record_drift now c sys prev obs ds pair))"
proof -
  let ?c' = "snd (record_drift now c sys prev obs ds pair)"
  let ?imp = "impacted_entities c sys ds"
  let ?P = "\<lambda>m. mv_target_system m = sys \<and> mv_source_entity m \<in> set ?imp \<and> mv_status m = MApproved"
  have mv: "mapping_version ?c' = (if ?imp = [] then mapping_version c
      else update_where ?P (\<lambda>m. m\<lparr>mv_status := MPaused\<rparr>) (mapping_version c))"
    and ser: "serials ?c' = serials c"
    by (auto simp: record_drift_def Let_def)
  show ?thesis
  proof (cases "?imp = []")
    case True
    then show ?thesis using assms mv ser by (simp add: mapping_inv_def)
  next
    case False
    have ids: "map mv_id (mapping_version ?c') = map mv_id (mapping_version c)"
      and vks: "map version_key (mapping_version ?c') = map version_key (mapping_version c)"
      unfolding mv if_not_P [OF False] by (simp_all add: map_update_where version_key_def)
    have dist: "distinct (map mv_id (mapping_version ?c'))"
      using assms ids by (simp add: mapping_inv_def)
    have old: "m \<in> set (mapping_version c)" if "m \<in> set (mapping_version ?c')" "mv_status m = MApproved" for m
      using that(1) unfolding mv if_not_P [OF False]
      by (cases rule: update_where_cases) (use that(2) in auto)
    have "distinct (map approved_key (filter (\<lambda>m. mv_status m = MApproved) (mapping_version ?c')))"
      by (rule distinct_approvedI [OF dist]) (use old approved_of_pair_unique [OF assms] in blast)
    moreover have "\<forall>k \<in> set (map mv_id (mapping_version ?c')). k < serials c ''mapping_version''"
      unfolding ids using assms by (simp add: mapping_inv_def)
    ultimately show ?thesis using assms dist vks ser by (simp add: mapping_inv_def)
  qed
qed

section \<open>Examples\<close>

lemma sample_mapping_inv: "mapping_inv (sample_drift_db\<lparr>serials := (\<lambda>_. 3)\<rparr>)"
  by (simp add: mapping_inv_def sample_drift_db_def sample_mapping_def version_key_def approved_key_def)

theorem propose_inv_witness:
  "fst (propose (sample_drift_db\<lparr>serials := (\<lambda>_. 3)\<rparr>) ''customer'' ''LRMIS'' ''customers'' ''f2'' []) = 3 \<and>
   mapping_inv (snd (propose (sample_drift_db\<lparr>serials := (\<lambda>_. 3)\<rparr>) ''customer'' ''LRMIS'' ''customers'' ''f2'' []))"
proof -
  let ?r = "propose (sample_drift_db\<lparr>serials := (\<lambda>_. 3)\<rparr>) ''customer'' ''LRMIS'' ''customers'' ''f2'' []"
  have "?r = (fst ?r, snd ?r)" by simp
  from propose_inv [OF this sample_mapping_inv] show ?thesis
    by (simp add: propose_def next_serial_def Let_def)
qed

theorem approve_spec_witness:
  "\<exists>c'. approve 9 (snd (propose (sample_drift_db\<lparr>serials := (\<lambda>_. 3)\<rparr>) ''customer'' ''LRMIS'' ''customers'' ''f2'' []))
      3 ''admin'' = Inr c' \<and> mapping_inv c' \<and> map mv_status (mapping_version c') = [MSuperseded, MApproved, MApproved]"
proof -
  let ?c = "snd (propose (sample_drift_db\<lparr>serials := (\<lambda>_. 3)\<rparr>) ''customer'' ''LRMIS'' ''customers'' ''f2'' [])"
  have inv: "mapping_inv ?c"
    by (auto simp: propose_def next_serial_def Let_def mapping_inv_def sample_drift_db_def sample_mapping_def
        version_key_def approved_key_def next_version_def of_pair_def)
  have "case approve 9 ?c 3 ''admin'' of Inl _ \<Rightarrow> False
      | Inr c' \<Rightarrow> map mv_status (mapping_version c') = [MSuperseded, MApproved, MApproved]" by code_simp
  from case_res_InrD [OF this] obtain c' where c': "approve 9 ?c 3 ''admin'' = Inr c'
      \<and> map mv_status (mapping_version c') = [MSuperseded, MApproved, MApproved]" ..
  from approve_spec [OF conjunct1 [OF c'] inv] have "mapping_inv c'" ..
  with c' show ?thesis by (intro exI [of _ c'] conjI) (erule conjunct1, assumption, erule conjunct2)
qed

theorem record_drift_mapping_inv_witness:
  "mapping_inv (snd (record_drift 5 (sample_drift_db\<lparr>serials := (\<lambda>_. 3)\<rparr>) ''LRMIS'' None ''abc''
     [TableRemoved ''customers''] ''source->target''))"
  by (rule record_drift_mapping_inv [OF sample_mapping_inv])

end
