(* ===== verification/Transform_Engine.thy ===== *)
theory Transform_Engine
  imports Central_Db
begin

text \<open>
  \<open>src/transform_engine.py\<close>: one source row, the active mapping config and the target
  schema give a target row and the list of validation errors. A mapping entry is a
  \<open>mapping_entry\<close>; its \<open>m_table\<close>, \<open>m_column\<close> and \<open>m_transform\<close> are None where the key is
  absent. \<open>datetime.now(timezone.utc)\<close> is the argument \<open>now\<close>. Results hold for any runtime.
\<close>

section \<open>Transforms\<close>

definition t_trim :: "pyval \<Rightarrow> pyval" where
  "t_trim v = (case v of PStr s \<Rightarrow> PStr (str_strip s) | _ \<Rightarrow> v)"

text \<open>
  \<open>datetime.combine(v, datetime.min.time())\<close>. A datetime is an instance of date, so it
  is combined too: its time of day and its offset are dropped.
\<close>

definition t_date_to_datetime :: "pyval \<Rightarrow> pyval" where
  "t_date_to_datetime v = (case v of
       PDate d \<Rightarrow> PDateTime d (0, 0, 0, 0) None
     | PDateTime d t z \<Rightarrow> PDateTime d (0, 0, 0, 0) None
     | _ \<Rightarrow> v)"

definition t_str_to_int :: "runtime \<Rightarrow> pyval \<Rightarrow> pyval res" where
  "t_str_to_int P v = (if none_or_empty v then Inr PNone else res_bind (py_int P v) (\<lambda>i. Inr (PInt i)))"

definition t_int_to_str :: "runtime \<Rightarrow> pyval \<Rightarrow> pyval" where
  "t_int_to_str P v = (if is_none v then PNone else PStr (py_str P v))"

text \<open>\<open>mapping.get(value, value)\<close> on the parsed remap document: the keys of a JSON object are
  strings; a list or dict is not hashable, and a document that is no object has no \<open>get\<close>.\<close>

definition enum_remap :: "pyval \<Rightarrow> pyval \<Rightarrow> pyval res" where
  "enum_remap doc v = (case doc of
       PDict kvs \<Rightarrow> (case v of
           PStr s \<Rightarrow> Inr (case dget kvs s of None \<Rightarrow> v | Some w \<Rightarrow> w)
         | PList vs \<Rightarrow> Inl (TypeError (''unhashable type: '' @ quoted ''list''))
         | PDict d \<Rightarrow> Inl (TypeError (''unhashable type: '' @ quoted ''dict''))
         | _ \<Rightarrow> Inr v)
     | _ \<Rightarrow> Inl (AttributeError (quoted (type_name doc) @ '' object has no attribute '' @ quoted ''get'')))"

definition apply_transform :: "runtime \<Rightarrow> pyval \<Rightarrow> string \<Rightarrow> pyval res" where
  "apply_transform P v t =
     (if starts_with ''enum_remap:'' t
      then res_bind (rt_json_loads P (after_prefix ''enum_remap:'' t)) (\<lambda>doc. enum_remap doc v)
      else if t = ''trim'' then Inr (t_trim v)
      else if t = ''cast:date->datetime'' then Inr (t_date_to_datetime v)
      else if t = ''cast:str->int'' then t_str_to_int P v
      else if t = ''cast:int->str'' then Inr (t_int_to_str P v)
      else Inr v)"

section \<open>One row\<close>

definition envelope_fields :: "string list" where
  "envelope_fields = [''event_id'', ''external_reference'', ''source_system'', ''operation'',
     ''source_updated_at'', ''mapping_version'', ''payload_checksum'', ''accepted_at'', ''active'']"

text \<open>\<open>not x\<close> on an optional string: None and the empty string are both falsy.\<close>

definition blank :: "string option \<Rightarrow> bool" where
  "blank x = (case x of None \<Rightarrow> True | Some s \<Rightarrow> s = [])"

text \<open>The mappings the loop does not skip.\<close>

definition applies :: "row \<Rightarrow> mapping_entry \<Rightarrow> bool" where
  "applies src m = (\<not> blank (m_column m) \<and> \<not> blank (m_table m) \<and> dhas src (m_source m))"

definition defaulted :: "pyval \<Rightarrow> string \<Rightarrow> pyval \<Rightarrow> pyval" where
  "defaulted now col v =
     (if (col = ''source_updated_at'' \<or> col = ''accepted_at'') \<and> is_none v then now else v)"

definition m_transform_of :: "mapping_entry \<Rightarrow> string" where
  "m_transform_of m = (case m_transform m of None \<Rightarrow> ''none'' | Some t \<Rightarrow> t)"

definition mapped_value :: "runtime \<Rightarrow> pyval \<Rightarrow> row \<Rightarrow> mapping_entry \<Rightarrow> pyval res" where
  "mapped_value P now src m =
     apply_transform P (defaulted now (the (m_column m)) (row_get src (m_source m))) (m_transform_of m)"

record row_state =
  rs_errors :: "string list"
  rs_row :: row
  rs_table :: "string option"

definition map_column :: "runtime \<Rightarrow> pyval \<Rightarrow> row \<Rightarrow> mapping_entry \<Rightarrow> row_state \<Rightarrow> row_state" where
  "map_column P now src m st =
     (if applies src m then
        (let st = st\<lparr>rs_table := m_table m\<rparr> in
         case mapped_value P now src m of
           Inl e \<Rightarrow> st\<lparr>rs_errors := rs_errors st @ [''transform failed for '' @ m_source m @ '' -> ''
              @ the (m_column m) @ '': '' @ exn_str e]\<rparr>
         | Inr v \<Rightarrow> st\<lparr>rs_row := dput (the (m_column m)) v (rs_row st)\<rparr>)
      else st)"

text \<open>The checks of one target column.\<close>

definition enum_ok :: "column \<Rightarrow> pyval \<Rightarrow> bool" where
  "enum_ok c v = (case col_enum c of None \<Rightarrow> True | Some vs \<Rightarrow> vs = [] \<or> is_none v \<or> v \<in> PStr ` set vs)"

definition check_column :: "runtime \<Rightarrow> row \<Rightarrow> column \<Rightarrow> string list" where
  "check_column P r c =
     (if col_name c \<in> set envelope_fields then []
      else (if \<not> col_nullable c \<and> none_or_empty (row_get r (col_name c))
            then [''required target field '' @ quoted (col_name c) @ '' is missing or null''] else [])
         @ (if enum_ok c (row_get r (col_name c)) then []
            else [quoted (py_str P (row_get r (col_name c))) @ '' is not a valid value for enum ''
               @ quoted (col_name c)]))"

definition check_table :: "runtime \<Rightarrow> schema \<Rightarrow> row \<Rightarrow> string option \<Rightarrow> string list" where
  "check_table P target r tn = (case tn of
       None \<Rightarrow> []
     | Some n \<Rightarrow> (case get_table target n of
          None \<Rightarrow> [''target table '' @ quoted n @ '' not found in target schema'']
        | Some t \<Rightarrow> concat (map (check_column P r) (tab_columns t))))"

definition transform_row ::
  "runtime \<Rightarrow> pyval \<Rightarrow> row \<Rightarrow> mapping_entry list \<Rightarrow> schema \<Rightarrow> row \<times> string list" where
  "transform_row P now src mappings target =
     (let st = fold (map_column P now src) mappings \<lparr>rs_errors = [], rs_row = [], rs_table = None\<rparr>
      in (rs_row st, rs_errors st @ check_table P target (rs_row st) (rs_table st)))"

text \<open>\<open>transform_batch\<close>: the good target rows, and the failed source rows with their errors.\<close>

definition transform_batch ::
  "runtime \<Rightarrow> pyval \<Rightarrow> row list \<Rightarrow> mapping_entry list \<Rightarrow> schema \<Rightarrow> row list \<times> (row \<times> string list) list" where
  "transform_batch P now rows mappings target =
     fold (\<lambda>r (good, failed).
        let (tr, errs) = transform_row P now r mappings target
        in if errs \<noteq> [] then (good, failed @ [(r, errs)]) else (good @ [tr], failed)) rows ([], [])"

section \<open>Facts\<close>

abbreviation applicable :: "row \<Rightarrow> mapping_entry list \<Rightarrow> mapping_entry list" where
  "applicable src ms \<equiv> filter (applies src) ms"

text \<open>The assignments the loop makes, in order.\<close>

definition assignments :: "runtime \<Rightarrow> pyval \<Rightarrow> row \<Rightarrow> mapping_entry list \<Rightarrow> (string \<times> pyval) list" where
  "assignments P now src ms = concat (map (\<lambda>m. case mapped_value P now src m of
      Inl e \<Rightarrow> [] | Inr v \<Rightarrow> [(the (m_column m), v)]) (applicable src ms))"

definition last_table :: "row \<Rightarrow> mapping_entry list \<Rightarrow> string option" where
  "last_table src ms = (case rev (applicable src ms) of [] \<Rightarrow> None | m # _ \<Rightarrow> m_table m)"

abbreviation start_state :: row_state where
  "start_state \<equiv> \<lparr>rs_errors = [], rs_row = [], rs_table = None\<rparr>"

lemma map_column_loop:
  "rs_row (fold (map_column P now src) ms start_state) = dict_of (assignments P now src ms)
   \<and> rs_table (fold (map_column P now src) ms start_state) = last_table src ms
   \<and> (rs_errors (fold (map_column P now src) ms start_state) = []
        \<longleftrightarrow> (\<forall>m \<in> set (applicable src ms). \<exists>v. mapped_value P now src m = Inr v))"
proof (induction ms rule: rev_induct)
  case Nil
  show ?case by (simp add: assignments_def last_table_def dict_of_def)
next
  case (snoc m ms)
  then show ?case
    by (cases "mapped_value P now src m"; cases "applies src m")
      (auto simp: map_column_def assignments_def last_table_def dict_of_snoc Let_def)
qed

lemma check_column_ok:
  "check_column P r c = [] \<longleftrightarrow> col_name c \<in> set envelope_fields \<or>
     ((col_nullable c \<or> \<not> none_or_empty (row_get r (col_name c))) \<and> enum_ok c (row_get r (col_name c)))"
  by (simp add: check_column_def)

text \<open>
  A row is accepted (no errors) exactly when every applicable mapping's transform
  succeeds, the target table exists, and the row satisfies that table's contract: every
  required column outside the envelope has a value, every enum column one of its values.
\<close>

theorem transform_row_accepts_iff:
  "snd (transform_row P now src ms target) = [] \<longleftrightarrow>
     (\<forall>m \<in> set (filter (applies src) ms). \<exists>v. mapped_value P now src m = Inr v) \<and>
     (last_table src ms = None \<or>
      (\<exists>n t. last_table src ms = Some n \<and> get_table target n = Some t \<and>
        (\<forall>c \<in> set (tab_columns t). col_name c \<in> set envelope_fields \<or>
           ((col_nullable c \<or> \<not> none_or_empty (row_get (fst (transform_row P now src ms target)) (col_name c)))
            \<and> enum_ok c (row_get (fst (transform_row P now src ms target)) (col_name c))))))"
  using map_column_loop [of P now src ms]
  by (auto simp: transform_row_def Let_def check_table_def check_column_ok split: option.splits)

text \<open>
  The target row holds, for each target column, the transformed value of the last
  applicable mapping onto it whose transform succeeded, and nothing else.
\<close>

theorem transform_row_values:
  "wf_dict (fst (transform_row P now src ms target)) \<and>
   dget (fst (transform_row P now src ms target)) col
     = (case rev (concat (map (\<lambda>m. case mapped_value P now src m of Inl e \<Rightarrow> [] | Inr v \<Rightarrow> [v])
          (filter (\<lambda>m. applies src m \<and> m_column m = Some col) ms))) of [] \<Rightarrow> None | v # _ \<Rightarrow> Some v)"
proof -
  have r: "fst (transform_row P now src ms target) = dict_of (assignments P now src ms)"
    using map_column_loop [of P now src ms] by (simp add: transform_row_def Let_def)
  have "dget (dict_of (assignments P now src ms)) col
     = (case rev (concat (map (\<lambda>m. case mapped_value P now src m of Inl e \<Rightarrow> [] | Inr v \<Rightarrow> [v])
          (filter (\<lambda>m. applies src m \<and> m_column m = Some col) ms))) of [] \<Rightarrow> None | v # _ \<Rightarrow> Some v)"
  proof (induction ms rule: rev_induct)
    case Nil
    show ?case by (simp add: assignments_def dict_of_def)
  next
    case (snoc m ms)
    show ?case
    proof (cases "applies src m")
      case True
      then obtain k where "m_column m = Some k" by (auto simp: applies_def blank_def split: option.splits)
      with True snoc show ?thesis
        by (cases "mapped_value P now src m") (auto simp: assignments_def dict_of_snoc)
    next
      case False
      with snoc show ?thesis by (simp add: assignments_def)
    qed
  qed
  then show ?thesis by (simp add: r)
qed

text \<open>
  A batch is split without loss: the good rows are the target rows of the accepted
  source rows, the failed ones the rejected source rows with their errors, both in order.
\<close>

theorem transform_batch_split:
  "transform_batch P now rows ms target =
     (map (\<lambda>r. fst (transform_row P now r ms target)) (filter (\<lambda>r. snd (transform_row P now r ms target) = []) rows),
      map (\<lambda>r. (r, snd (transform_row P now r ms target))) (filter (\<lambda>r. snd (transform_row P now r ms target) \<noteq> []) rows))"
  unfolding transform_batch_def
  by (induction rows rule: rev_induct) (auto split: prod.splits)

section \<open>Examples\<close>

definition sample_target :: schema where
  "sample_target = \<lparr>sch_system = ''LRMIS'',
     sch_tables = [\<lparr>tab_name = ''station'', tab_columns =
       [(mk_column ''name'' ''string'')\<lparr>col_nullable := False\<rparr>,
        (mk_column ''sex'' ''enum'')\<lparr>col_enum := Some [''Male'', ''Female'']\<rparr>,
        (mk_column ''event_id'' ''string'')\<lparr>col_nullable := False\<rparr>]\<rparr>],
     sch_version = ''1''\<rparr>"

definition sample_mappings :: "mapping_entry list" where
  "sample_mappings =
     [\<lparr>m_source = ''school'', m_table = Some ''station'', m_column = Some ''name'', m_transform = Some ''trim''\<rparr>,
      \<lparr>m_source = ''gender'', m_table = Some ''station'', m_column = Some ''sex'', m_transform = Some ''enum_remap:{}''\<rparr>,
      \<lparr>m_source = ''junk'', m_table = None, m_column = None, m_transform = None\<rparr>]"

theorem transform_row_accepts_iff_witness:
  "snd (transform_row sample_runtime PNone [(''school'', PStr '' A ''), (''gender'', PStr ''M'')]
       sample_mappings sample_target) = [] \<and>
   map (\<lambda>m. mapped_value sample_runtime PNone [(''school'', PStr '' A ''), (''gender'', PStr ''M'')] m)
     (filter (applies [(''school'', PStr '' A ''), (''gender'', PStr ''M'')]) sample_mappings)
     = [Inr (PStr ''A''), Inr (PStr ''Male'')] \<and>
   snd (transform_row sample_runtime PNone [(''school'', PStr ''  ''), (''gender'', PStr ''X'')]
       sample_mappings sample_target) \<noteq> []"
proof -
  let ?s = "[(''school'', PStr '' A ''), (''gender'', PStr ''M'')]"
  have v: "map (mapped_value sample_runtime PNone ?s) (filter (applies ?s) sample_mappings)
     = [Inr (PStr ''A''), Inr (PStr ''Male'')]" by code_simp
  have "last_table ?s sample_mappings = Some ''station''" by code_simp
  moreover have "get_table sample_target ''station'' \<noteq> None" by code_simp
  moreover have "list_all (\<lambda>c. check_column sample_runtime (fst (transform_row sample_runtime PNone ?s
      sample_mappings sample_target)) c = []) (tab_columns (the (get_table sample_target ''station'')))"
    by code_simp
  moreover have "\<forall>m \<in> set (filter (applies ?s) sample_mappings). \<exists>v. mapped_value sample_runtime PNone ?s m = Inr v"
  proof
    fix m assume "m \<in> set (filter (applies ?s) sample_mappings)"
    then have "mapped_value sample_runtime PNone ?s m \<in> {Inr (PStr ''A''), Inr (PStr ''Male'')}"
      using arg_cong [OF v, of set] by auto
    then show "\<exists>v. mapped_value sample_runtime PNone ?s m = Inr v" by auto
  qed
  ultimately have "snd (transform_row sample_runtime PNone ?s sample_mappings sample_target) = []"
    unfolding transform_row_accepts_iff by (auto simp: list_all_iff check_column_ok)
  moreover have "snd (transform_row sample_runtime PNone [(''school'', PStr ''  ''), (''gender'', PStr ''X'')]
       sample_mappings sample_target) \<noteq> []" by code_simp
  ultimately show ?thesis using v by simp
qed

end
