(* ===== verification/Lrmis_Ddl.thy ===== *)
theory Lrmis_Ddl
  imports Schema_Ingest
begin

text \<open>
  The parser of \<open>src/lrmis_registry.py\<close>: CREATE TABLE blocks are cut out of a MySQL dump line
  by line and read into columns, primary keys and foreign keys. The regular expressions are
  matchers written out on character lists; each reads what the backtracking matcher of
  Python's \<open>re\<close> finds first.
\<close>

section \<open>Tables, columns and foreign keys\<close>

record lrmis_column =
  lc_name :: string
  lc_type :: string
  lc_nullable :: bool
  lc_pk :: bool
  lc_auto :: bool
  lc_enum :: "string list"
  lc_default :: "string option"

record lrmis_fk =
  fk_column :: string
  fk_ref_table :: string
  fk_ref_column :: string

record lrmis_table =
  lt_name :: string
  lt_columns :: "lrmis_column list"
  lt_fks :: "lrmis_fk list"
  lt_create_sql :: string

definition base_type :: "lrmis_column \<Rightarrow> string" where
  "base_type c = str_lower (str_strip (takeWhile (\<lambda>x. x \<noteq> CHR ''('') (lc_type c)))"

definition has_default :: "lrmis_column \<Rightarrow> bool" where
  "has_default c = (lc_default c \<noteq> None)"

definition is_required :: "lrmis_column \<Rightarrow> bool" where
  "is_required c = (\<not> lc_nullable c \<and> lc_default c = None \<and> \<not> lc_auto c)"

definition primary_key :: "lrmis_table \<Rightarrow> string list" where
  "primary_key t = map lc_name (filter lc_pk (lt_columns t))"

definition auto_increment_column :: "lrmis_table \<Rightarrow> string option" where
  "auto_increment_column t = map_option lc_name (find lc_auto (lt_columns t))"

definition lt_get_column :: "lrmis_table \<Rightarrow> string \<Rightarrow> lrmis_column option" where
  "lt_get_column t n = find (\<lambda>c. lc_name c = n) (lt_columns t)"

section \<open>Matching\<close>

text \<open>\<open>re.search\<close>: the matcher at the first position where it succeeds.\<close>

fun search :: "(string \<Rightarrow> 'a option) \<Rightarrow> string \<Rightarrow> 'a option" where
  "search f [] = f []"
| "search f (c # cs) = (case f (c # cs) of Some x \<Rightarrow> Some x | None \<Rightarrow> search f cs)"

text \<open>A literal, and a non-empty name up to the character that ends it.\<close>

definition lit :: "string \<Rightarrow> string \<Rightarrow> string option" where
  "lit p s = (if starts_with p s then Some (drop (length p) s) else None)"

definition lit_ci :: "string \<Rightarrow> string \<Rightarrow> string option" where
  "lit_ci p s = (if str_upper (take (length p) s) = p then Some (drop (length p) s) else None)"

definition until :: "char \<Rightarrow> string \<Rightarrow> (string \<times> string) option" where
  "until e s = (let n = takeWhile (\<lambda>c. c \<noteq> e) s in
     case dropWhile (\<lambda>c. c \<noteq> e) s of [] \<Rightarrow> None | c # r \<Rightarrow> if n = [] then None else Some (n, r))"

definition create_name :: "string \<Rightarrow> string option" where
  "create_name line = Option.bind (lit (''CREATE TABLE '' @ [bt]) line) (\<lambda>r. map_option fst (until bt r))"

definition match_pk :: "string \<Rightarrow> string option" where
  "match_pk s = Option.bind (lit ''PRIMARY KEY ('' s) (\<lambda>r. map_option fst (until (CHR '')'') r))"

definition match_fk :: "string \<Rightarrow> (lrmis_fk \<times> string) option" where
  "match_fk s =
     Option.bind (lit (''FOREIGN KEY ('' @ [bt]) s) (\<lambda>s1.
     Option.bind (until bt s1) (\<lambda>(c, s2).
     Option.bind (lit ('') REFERENCES '' @ [bt]) s2) (\<lambda>s3.
     Option.bind (until bt s3) (\<lambda>(t, s4).
     Option.bind (lit ('' ('' @ [bt]) s4) (\<lambda>s5.
     Option.bind (until bt s5) (\<lambda>(r, s6).
     map_option (\<lambda>rest. (\<lparr>fk_column = c, fk_ref_table = t, fk_ref_column = r\<rparr>, rest)) (lit '')'' s6)))))))"

lemma lit_length: "lit p s = Some r \<Longrightarrow> length r + length p = length s"
  by (auto simp: lit_def starts_with_iff split: if_splits)

lemma until_length: "until e s = Some (n, r) \<Longrightarrow> length r < length s"
proof -
  assume a: "until e s = Some (n, r)"
  then obtain c where c: "dropWhile (\<lambda>c. c \<noteq> e) s = c # r"
    by (auto simp: until_def Let_def split: list.splits if_splits)
  have "length (c # r) \<le> length s" unfolding c [symmetric] by (rule length_dropWhile_le)
  then show ?thesis by simp
qed

lemma match_fk_length: "match_fk s = Some (k, r) \<Longrightarrow> length r < length s"
  by (auto simp: match_fk_def bind_eq_Some_conv dest!: lit_length until_length)

function find_fks :: "string \<Rightarrow> lrmis_fk list" where
  "find_fks [] = []"
| "find_fks (c # cs) = (case match_fk (c # cs) of
     None \<Rightarrow> find_fks cs | Some (k, rest) \<Rightarrow> k # find_fks rest)"
  by pat_completeness auto
termination by (relation "measure length") (auto dest: match_fk_length)

text \<open>\<open>'(?:[^']|'')*'\<close> after the opening quote: a doubled quote belongs to the text, unless no
  closing quote follows it; then its first half is the closing quote.\<close>

fun quoted_token :: "string \<Rightarrow> string option" where
  "quoted_token [] = None"
| "quoted_token [c] = (if c = sq then Some [c] else None)"
| "quoted_token (c # d # r) =
     (if c \<noteq> sq then map_option ((#) c) (quoted_token (d # r))
      else if d = sq then (case quoted_token r of Some t \<Rightarrow> Some (c # d # t) | None \<Rightarrow> Some [c])
      else Some [c])"

definition bare_token :: "string \<Rightarrow> string option" where
  "bare_token s = (let t = takeWhile (\<lambda>c. \<not> is_space c \<and> c \<noteq> CHR '','') s in if t = [] then None else Some t)"

definition default_token :: "string \<Rightarrow> string option" where
  "default_token s =
     Option.bind (Option.bind (lit_ci ''DEFAULT'' s) skip_spaces1) (\<lambda>r. case r of
         [] \<Rightarrow> None
       | c # cs \<Rightarrow> (case (if c = sq then map_option ((#) c) (quoted_token cs) else None) of
           Some t \<Rightarrow> Some t | None \<Rightarrow> bare_token r))"

text \<open>\<open>_DEFAULT_RE.search\<close>: \<open>prev\<close> says whether the character before is a word character.\<close>

fun find_default :: "bool \<Rightarrow> string \<Rightarrow> string option" where
  "find_default prev [] = None"
| "find_default prev (c # cs) =
     (case (if prev then None else default_token (c # cs)) of
        Some t \<Rightarrow> Some t
      | None \<Rightarrow> find_default (is_word c) cs)"

definition parse_default :: "string \<Rightarrow> string option" where
  "parse_default line = (case find_default False line of
     None \<Rightarrow> None | Some t \<Rightarrow> if str_upper t = ''NULL'' then None else Some t)"

section \<open>Columns\<close>

text \<open>\<open>_COLUMN_RE.match\<close>: the quoted name and the type with its bracketed arguments and an
  \<open>unsigned\<close> that may follow.\<close>

definition match_lrmis_column :: "string \<Rightarrow> (string \<times> string) option" where
  "match_lrmis_column line =
     Option.bind (lit [bt] (dropWhile is_space line)) (\<lambda>s1.
       let name = takeWhile is_word s1 in
       if name = [] then None
       else Option.bind (Option.bind (lit [bt] (dropWhile is_word s1)) skip_spaces1) (\<lambda>s2.
         let ty = takeWhile is_alpha s2;
             s3 = dropWhile is_alpha s2;
             args = (case s3 of
                CHR ''('' # r \<Rightarrow> (if CHR '')'' \<in> set r
                    then CHR ''('' # takeWhile (\<lambda>c. c \<noteq> CHR '')'') r @ [CHR '')''] else [])
              | _ \<Rightarrow> []);
             s4 = drop (length args) s3;
             ws = takeWhile is_space s4;
             s5 = dropWhile is_space s4;
             uns = (if ws \<noteq> [] \<and> lit_ci ''UNSIGNED'' s5 \<noteq> None then ws @ take 8 s5 else [])
         in if ty = [] then None else Some (name, ty @ args @ uns)))"

text \<open>\<open>enum\((.*)\)\<close> on one line: up to the last closing bracket.\<close>

definition match_enum :: "string \<Rightarrow> string option" where
  "match_enum s = Option.bind (lit_ci ''ENUM('' s) (\<lambda>r.
     if CHR '')'' \<in> set r then Some (rev (drop 1 (dropWhile (\<lambda>c. c \<noteq> CHR '')'') (rev r)))) else None)"

definition parse_column :: "string \<Rightarrow> string list \<Rightarrow> lrmis_column option" where
  "parse_column line pk_columns = (case match_lrmis_column line of
       None \<Rightarrow> None
     | Some (name, ty) \<Rightarrow>
         (let lowered = str_lower line;
              en = (if starts_with ([bt] @ str_lower name @ [bt] @ '' enum'') (str_lstrip lowered)
                    then search match_enum line else None)
          in Some \<lparr>lc_name = name,
               lc_type = (case en of None \<Rightarrow> ty | Some g \<Rightarrow> ''enum('' @ g @ '')''),
               lc_nullable = \<not> str_in ''not null'' lowered,
               lc_pk = (name \<in> set pk_columns),
               lc_auto = str_in ''auto_increment'' lowered,
               lc_enum = (case en of None \<Rightarrow> []
                  | Some g \<Rightarrow> map (\<lambda>v. strip_chars [sq] (str_strip v)) (split_on (CHR '','') g)),
               lc_default = parse_default line\<rparr>))"

section \<open>Blocks\<close>

definition is_line_end :: "char \<Rightarrow> bool" where
  "is_line_end c = (let n = (of_char c :: nat) in (10 \<le> n \<and> n \<le> 13) \<or> (28 \<le> n \<and> n \<le> 30) \<or> n = 133)"

text \<open>\<open>splitlines(keepends=True)\<close>: \<open>acc\<close> is the line read so far.\<close>

fun splitlines_keep :: "string \<Rightarrow> string \<Rightarrow> string list" where
  "splitlines_keep acc [] = (if acc = [] then [] else [acc])"
| "splitlines_keep acc (c # cs) =
     (if of_char c = (13::nat) \<and> starts_with [char_of (10::nat)] cs then splitlines_keep (acc @ [c]) cs
      else if is_line_end c then (acc @ [c]) # splitlines_keep [] cs
      else splitlines_keep (acc @ [c]) cs)"

definition splitlines :: "string \<Rightarrow> string list" where
  "splitlines s = map (\<lambda>l. rev (dropWhile is_line_end (rev l))) (splitlines_keep [] s)"

text \<open>mysqldump closes a table with \<open>) ENGINE=...;\<close>.\<close>

definition closes_block :: "string \<Rightarrow> bool" where
  "closes_block line = (starts_with '')'' (str_lstrip line) \<and> str_in ''ENGINE'' line)"

fun iter_create_blocks :: "string list option \<Rightarrow> string list \<Rightarrow> string list" where
  "iter_create_blocks inside [] = []"
| "iter_create_blocks None (line # lines) =
     (if create_name line \<noteq> None then iter_create_blocks (Some [line]) lines
      else iter_create_blocks None lines)"
| "iter_create_blocks (Some buf) (line # lines) =
     (if closes_block line then concat (buf @ [line]) # iter_create_blocks None lines
      else iter_create_blocks (Some (buf @ [line])) lines)"

definition is_key_line :: "string \<Rightarrow> bool" where
  "is_key_line line = list_ex (\<lambda>kw. starts_with kw (str_upper (str_strip line)))
     [''PRIMARY KEY'', ''KEY '', ''UNIQUE KEY'', ''CONSTRAINT'']"

definition pk_columns_of :: "string \<Rightarrow> string list" where
  "pk_columns_of block = (case search match_pk block of
     None \<Rightarrow> [] | Some g \<Rightarrow> map (strip_chars ('' '' @ [bt])) (split_on (CHR '','') g))"

definition parse_block :: "string \<Rightarrow> lrmis_table" where
  "parse_block block =
     \<lparr>lt_name = the (create_name block),
      lt_columns = List.map_filter (\<lambda>line. parse_column line (pk_columns_of block))
        (filter (\<lambda>line. \<not> is_key_line line) (splitlines block)),
      lt_fks = find_fks block,
      lt_create_sql = str_strip block\<rparr>"

type_synonym registry = "(string, lrmis_table) dict"

definition tables_of_blocks :: "string list \<Rightarrow> registry" where
  "tables_of_blocks blocks = dict_of (map (\<lambda>b. (lt_name (parse_block b), parse_block b)) blocks)"

definition parse_dump :: "string \<Rightarrow> registry" where
  "parse_dump text = tables_of_blocks (iter_create_blocks None (splitlines_keep [] text))"

text \<open>\<open>from_sql_file\<close> on the lines of the file.\<close>

definition from_sql_lines :: "string \<Rightarrow> string list \<Rightarrow> registry res" where
  "from_sql_lines path lines =
     (let tables = tables_of_blocks (iter_create_blocks None lines)
      in if tables = [] then Inl (ValueError (''no CREATE TABLE blocks found in '' @ path)) else Inr tables)"

section \<open>Facts\<close>

lemma blocks_noise:
  "\<forall>l \<in> set noise. create_name l = None \<Longrightarrow>
   iter_create_blocks None (noise @ lines) = iter_create_blocks None lines"
  by (induction noise) auto

lemma blocks_body:
  "\<forall>l \<in> set body. \<not> closes_block l \<Longrightarrow> closes_block close \<Longrightarrow>
   iter_create_blocks (Some buf) (body @ close # lines)
     = concat (buf @ body @ [close]) # iter_create_blocks None lines"
  by (induction body arbitrary: buf) auto

text \<open>
  Streaming a dump yields exactly its CREATE TABLE statements, each whole and in order:
  the lines between them (the seed INSERTs) are never kept.
\<close>

theorem blocks_of_dump:
  assumes "\<forall>(noise, start, body, close) \<in> set segs.
      (\<forall>l \<in> set noise. create_name l = None) \<and> create_name start \<noteq> None
      \<and> (\<forall>l \<in> set body. \<not> closes_block l) \<and> closes_block close"
    and "\<forall>l \<in> set trail. create_name l = None"
  shows "iter_create_blocks None
      (concat (map (\<lambda>(noise, start, body, close). noise @ start # body @ [close]) segs) @ trail)
    = map (\<lambda>(noise, start, body, close). concat (start # body @ [close])) segs"
  using assms(1)
proof (induction segs)
  case Nil
  show ?case using blocks_noise [OF assms(2), of "[]"] by simp
next
  case (Cons seg segs)
  obtain noise start body close where seg: "seg = (noise, start, body, close)" by (cases seg)
  have "iter_create_blocks None (noise @ start # body @ close # rest)
      = concat (start # body @ [close]) # iter_create_blocks None rest" for rest
    using Cons.prems blocks_noise [of noise] blocks_body [of body close "[start]"] by (auto simp: seg)
  with Cons show ?case by (simp add: seg)
qed

section \<open>Example\<close>

definition tick :: "string \<Rightarrow> string" where
  "tick n = [bt] @ n @ [bt]"

definition sample_lines :: "string list" where
  "sample_lines =
     [''CREATE TABLE '' @ tick ''district'' @ '' (\<newline>'',
      ''  '' @ tick ''id'' @ '' int unsigned NOT NULL AUTO_INCREMENT,\<newline>'',
      ''  '' @ tick ''name'' @ '' varchar(75) NOT NULL DEFAULT '' @ quoted ''a'' @ '',\<newline>'',
      ''  '' @ tick ''division_id'' @ '' int DEFAULT NULL,\<newline>'',
      ''  PRIMARY KEY ('' @ tick ''id'' @ ''),\<newline>'',
      ''  CONSTRAINT '' @ tick ''f'' @ '' FOREIGN KEY ('' @ tick ''division_id'' @ '') REFERENCES ''
        @ tick ''division'' @ '' ('' @ tick ''id'' @ '')\<newline>'',
      '') ENGINE=InnoDB;\<newline>'']"

lemma sample_column_parse:
  "match_lrmis_column (sample_lines ! 1) = Some (''id'', ''int unsigned'')"
  "parse_default (sample_lines ! 2) = Some (quoted ''a'')"
  "match_pk (''PRIMARY KEY ('' @ tick ''id'' @ '')'') = Some (tick ''id'')"
  by code_simp+

theorem blocks_of_dump_witness:
  "iter_create_blocks None ([''INSERT 1;'', ''INSERT 2;''] @ sample_lines @ [''INSERT 3;''])
     = [concat sample_lines] \<and> length sample_lines = 7"
proof -
  let ?b = "tl (butlast sample_lines)"
  have s: "sample_lines = hd sample_lines # ?b @ [last sample_lines]" by code_simp
  have "iter_create_blocks None
      (concat (map (\<lambda>(noise, start, body, close). noise @ start # body @ [close])
         [([''INSERT 1;'', ''INSERT 2;''], hd sample_lines, ?b, last sample_lines)]) @ [''INSERT 3;''])
    = map (\<lambda>(noise, start, body, close). concat (start # body @ [close]))
        [([''INSERT 1;'', ''INSERT 2;''], hd sample_lines, ?b, last sample_lines)]"
  proof (rule blocks_of_dump)
    have "list_all (\<lambda>l. create_name l = None) [''INSERT 1;'', ''INSERT 2;''] \<and>
        create_name (hd sample_lines) \<noteq> None \<and> list_all (\<lambda>l. \<not> closes_block l) ?b
        \<and> closes_block (last sample_lines)"
      by code_simp
    then show "\<forall>(noise, start, body, close) \<in> set [([''INSERT 1;'', ''INSERT 2;''], hd sample_lines, ?b, last sample_lines)].
      (\<forall>l \<in> set noise. create_name l = None) \<and> create_name start \<noteq> None
      \<and> (\<forall>l \<in> set body. \<not> closes_block l) \<and> closes_block close"
      by (simp add: list_all_iff)
    have "create_name ''INSERT 3;'' = None" by code_simp
    then show "\<forall>l \<in> set [''INSERT 3;'']. create_name l = None" by simp
  qed
  then have "iter_create_blocks None (([''INSERT 1;'', ''INSERT 2;''] @ hd sample_lines # ?b @ [last sample_lines]) @ [''INSERT 3;''])
     = [concat (hd sample_lines # ?b @ [last sample_lines])]"
    by (simp del: iter_create_blocks.simps)
  then have "iter_create_blocks None ([''INSERT 1;'', ''INSERT 2;''] @ sample_lines @ [''INSERT 3;''])
     = [concat sample_lines]"
    unfolding s [symmetric] by (simp only: append_assoc)
  moreover have "length sample_lines = 7" by code_simp
  ultimately show ?thesis by simp
qed

end
