(* ===== verification/Lrmis_Registry.thy ===== *)
theory Lrmis_Registry
  imports Lrmis_Ddl
begin

text \<open>
  \<open>src/lrmis_registry.py\<close>, class \<open>LrmisRegistry\<close>: construction from discovered metadata, the
  lookups, the foreign-key closure, the seed tables and the parents-first ordering (Kahn's
  algorithm with a sorted queue). A registry is the dictionary of its tables. Both loops
  are total functions: the closure because every round finishes a table or sees a new one,
  the ordering because every round takes one table off the queue and a table enters it
  only when its indegree drops from one to zero.
\<close>

section \<open>Lookups\<close>

definition has_table :: "registry \<Rightarrow> string \<Rightarrow> bool" where
  "has_table R n = dhas R n"

definition reg_table :: "registry \<Rightarrow> string \<Rightarrow> lrmis_table res" where
  "reg_table R n = (case dget R n of
     None \<Rightarrow> Inl (KeyError (str_repr n @ '' is not an LRMIS table'')) | Some t \<Rightarrow> Inr t)"

definition reg_table_names :: "registry \<Rightarrow> string list" where
  "reg_table_names R = sort (dkeys R)"

definition get_column_type :: "registry \<Rightarrow> string \<Rightarrow> string \<Rightarrow> string res" where
  "get_column_type R t n = res_bind (reg_table R t) (\<lambda>m. case lt_get_column m n of
     None \<Rightarrow> Inl (KeyError (t @ ''.'' @ n @ '' does not exist'')) | Some c \<Rightarrow> Inr (lc_type c))"

definition get_create_sql :: "registry \<Rightarrow> string \<Rightarrow> string res" where
  "get_create_sql R t = res_bind (reg_table R t) (\<lambda>m. Inr (lt_create_sql m))"

definition foreign_keys :: "registry \<Rightarrow> string \<Rightarrow> lrmis_fk list res" where
  "foreign_keys R t = res_bind (reg_table R t) (\<lambda>m. Inr (lt_fks m))"

definition get_fk_column :: "registry \<Rightarrow> string \<Rightarrow> string \<Rightarrow> string option res" where
  "get_fk_column R t ref = res_bind (reg_table R t) (\<lambda>m.
     Inr (map_option fk_column (find (\<lambda>k. fk_ref_table k = ref) (lt_fks m))))"

definition get_parent_tables :: "registry \<Rightarrow> string \<Rightarrow> string list res" where
  "get_parent_tables R t = res_bind (reg_table R t) (\<lambda>m.
     Inr (sorted_set (filter (\<lambda>p. p \<noteq> t) (map fk_ref_table (lt_fks m)))))"

definition get_referencing_tables :: "registry \<Rightarrow> string \<Rightarrow> string list" where
  "get_referencing_tables R t = sorted_set (map lt_name
     (filter (\<lambda>m. lt_name m \<noteq> t \<and> list_ex (\<lambda>k. fk_ref_table k = t) (lt_fks m)) (dvalues R)))"

definition reg_auto_increment :: "registry \<Rightarrow> string \<Rightarrow> string option res" where
  "reg_auto_increment R t = res_bind (reg_table R t) (\<lambda>m. Inr (auto_increment_column m))"

definition is_reference_table :: "registry \<Rightarrow> string \<Rightarrow> bool res" where
  "is_reference_table R t = res_bind (reg_table R t) (\<lambda>m. Inr (auto_increment_column m = None))"

definition required_columns :: "registry \<Rightarrow> string \<Rightarrow> string list res" where
  "required_columns R t = res_bind (reg_table R t) (\<lambda>m.
     Inr (map lc_name (filter is_required (lt_columns m))))"

definition station_write_set :: "registry \<Rightarrow> string list" where
  "station_write_set R = ''station'' # get_referencing_tables R ''station''"

definition reference_tables :: "registry \<Rightarrow> string list" where
  "reference_tables R = sort (map fst (filter (\<lambda>(n, m). auto_increment_column m = None) R))"

definition self_referencing_tables :: "registry \<Rightarrow> string list" where
  "self_referencing_tables R = sort (map lt_name
     (filter (\<lambda>m. list_ex (\<lambda>k. fk_ref_table k = lt_name m) (lt_fks m)) (dvalues R)))"

section \<open>Construction from discovered metadata\<close>

text \<open>Truthiness: \<open>bool(v)\<close>.\<close>

definition truthy :: "pyval \<Rightarrow> bool" where
  "truthy v = (case v of PNone \<Rightarrow> False | PBool b \<Rightarrow> b | PInt i \<Rightarrow> i \<noteq> 0 | PFloat (Fin q) \<Rightarrow> q \<noteq> 0
     | PStr s \<Rightarrow> s \<noteq> [] | PList vs \<Rightarrow> vs \<noteq> [] | PDict kvs \<Rightarrow> kvs \<noteq> [] | _ \<Rightarrow> True)"

definition as_int :: "pyval \<Rightarrow> int res" where
  "as_int v = (case v of PInt i \<Rightarrow> Inr i | _ \<Rightarrow> Inl (TypeError ''expected int''))"

definition str_item :: "row \<Rightarrow> string \<Rightarrow> string res" where
  "str_item r k = res_bind (item r k) as_str"

definition discovered_column :: "runtime \<Rightarrow> row \<Rightarrow> lrmis_column res" where
  "discovered_column P r =
     res_bind (str_item r ''column_name'') (\<lambda>n. res_bind (str_item r ''data_type'') (\<lambda>ty.
       Inr \<lparr>lc_name = n, lc_type = ty,
            lc_nullable = str_upper (py_str P (row_get r ''is_nullable'')) \<in> {''YES'', ''1'', ''TRUE''},
            lc_pk = (row_get r ''column_key'' = PStr ''PRI''),
            lc_auto = str_in ''auto_increment'' (str_lower
              (if truthy (row_get r ''extra'') then py_str P (row_get r ''extra'') else [])),
            lc_enum = [],
            lc_default = (if row_get r ''column_default'' \<in> {PNone, PStr ''NULL''} then None
              else Some (py_str P (row_get r ''column_default'')))\<rparr>))"

definition discovered_table :: "runtime \<Rightarrow> string \<times> row list \<Rightarrow> (string \<times> lrmis_table) res" where
  "discovered_table P g =
     res_bind (map_res (\<lambda>r. res_bind (res_bind (item r ''ordinal_position'') as_int) (\<lambda>i. Inr (i, r))) (snd g)) (\<lambda>irs.
     res_bind (map_res (discovered_column P) (map snd (sort_key fst irs))) (\<lambda>cols.
       Inr (fst g, \<lparr>lt_name = fst g, lt_columns = cols, lt_fks = [], lt_create_sql = []\<rparr>)))"

definition add_discovered_fk :: "row \<Rightarrow> registry \<Rightarrow> registry res" where
  "add_discovered_fk fr R =
     (let r = lower_keys fr in
      res_bind (str_item r ''table_name'') (\<lambda>tn. case dget R tn of
        None \<Rightarrow> Inr R
      | Some t \<Rightarrow>
          res_bind (str_item r ''column_name'') (\<lambda>c. res_bind (str_item r ''ref_table'') (\<lambda>rt.
          res_bind (str_item r ''ref_column'') (\<lambda>rc.
            Inr (dput tn (t\<lparr>lt_fks := lt_fks t @
              [\<lparr>fk_column = c, fk_ref_table = rt, fk_ref_column = rc\<rparr>]\<rparr>) R))))))"

definition from_discovery :: "runtime \<Rightarrow> row list \<Rightarrow> row list \<Rightarrow> registry res" where
  "from_discovery P column_rows fk_rows =
     res_bind (map_res (\<lambda>row. let r = lower_keys row in
         res_bind (str_item r ''table_name'') (\<lambda>t. Inr (t, r))) column_rows) (\<lambda>trs.
     res_bind (map_res (discovered_table P)
         (map (\<lambda>(t, g). (t, map snd g)) (group_by fst trs))) (\<lambda>tables.
     res_bind (fold_res add_discovered_fk fk_rows tables) (\<lambda>R.
       if R = [] then Inl (ValueError ''no tables found in discovery rows'') else Inr R)))"

section \<open>The foreign-key closure\<close>

definition all_ref_tables :: "registry \<Rightarrow> string list" where
  "all_ref_tables R = concat (map (\<lambda>m. map fk_ref_table (lt_fks m)) (dvalues R))"

definition new_parents :: "lrmis_table \<Rightarrow> string \<Rightarrow> string list \<Rightarrow> string list" where
  "new_parents m t seen = remdups (filter (\<lambda>p. p \<noteq> t \<and> p \<notin> set seen) (map fk_ref_table (lt_fks m)))"

lemma reg_table_Inr: "reg_table R t = Inr m \<longleftrightarrow> dget R t = Some m"
  by (simp add: reg_table_def split: option.splits)

lemma fk_ref_in_all: "dget R t = Some m \<Longrightarrow> fk_ref_table ` set (lt_fks m) \<subseteq> set (all_ref_tables R)"
  by (force simp: all_ref_tables_def dvalues_def dest: dget_in_set)

text \<open>The frontier is a set: a parent already in it is not added again.\<close>

function closure_loop :: "registry \<Rightarrow> string list \<Rightarrow> string list \<Rightarrow> string list res" where
  "closure_loop R seen [] = Inr seen"
| "closure_loop R seen (t # frontier) = (case reg_table R t of
     Inl e \<Rightarrow> Inl e
   | Inr m \<Rightarrow> closure_loop R (seen @ new_parents m t seen)
       (frontier @ filter (\<lambda>p. p \<notin> set frontier) (new_parents m t seen)))"
  by pat_completeness auto
termination
proof (relation "measures [\<lambda>(R, seen, fr). card (set (all_ref_tables R) - set seen), \<lambda>(R, seen, fr). length fr]")
  fix R seen t frontier m
  assume "reg_table R t = Inr m"
  then have sub: "set (new_parents m t seen) \<subseteq> set (all_ref_tables R) - set seen"
    using fk_ref_in_all [of R t m] by (auto simp: new_parents_def reg_table_Inr)
  show "((R, seen @ new_parents m t seen, frontier @ filter (\<lambda>p. p \<notin> set frontier) (new_parents m t seen)),
      R, seen, t # frontier)
    \<in> measures [\<lambda>(R, seen, fr). card (set (all_ref_tables R) - set seen), \<lambda>(R, seen, fr). length fr]"
  proof (cases "new_parents m t seen = []")
    case False
    then have "set (all_ref_tables R) - set (seen @ new_parents m t seen) \<subset> set (all_ref_tables R) - set seen"
      using sub by (cases "new_parents m t seen") auto
    then have "card (set (all_ref_tables R) - set (seen @ new_parents m t seen))
        < card (set (all_ref_tables R) - set seen)"
      by (intro psubset_card_mono) auto
    then show ?thesis by simp
  qed simp
qed simp

definition fk_closure :: "registry \<Rightarrow> string list \<Rightarrow> string list res" where
  "fk_closure R tables = closure_loop R [] (remdups tables)"

definition seed_tables :: "registry \<Rightarrow> string list \<Rightarrow> string list res" where
  "seed_tables R write_set = res_bind (fk_closure R write_set) (\<lambda>seen.
     Inr (sort (filter (\<lambda>t. t \<notin> set write_set) seen)))"

section \<open>The parents-first ordering\<close>

type_synonym graph = "(string, string list) dict \<times> (string, int) dict"

definition link_fk :: "string list \<Rightarrow> string \<Rightarrow> lrmis_fk \<Rightarrow> graph \<Rightarrow> graph" where
  "link_fk names child k g = (case g of (children, indegree) \<Rightarrow>
     let parent = fk_ref_table k in
     if parent = child \<or> parent \<notin> set names then g
     else (case dget children parent of
         None \<Rightarrow> g
       | Some cs \<Rightarrow> if child \<in> set cs then g
           else (dput parent (cs @ [child]) children,
                 dput child ((case dget indegree child of None \<Rightarrow> 0 | Some d \<Rightarrow> d) + 1) indegree)))"

definition fk_graph :: "registry \<Rightarrow> string list \<Rightarrow> graph" where
  "fk_graph R names =
     fold (\<lambda>child. fold (link_fk names child) (lt_fks (the (dget R child)))) names
       (map (\<lambda>n. (n, [])) names, map (\<lambda>n. (n, 0)) names)"

definition visit_child :: "string \<Rightarrow> (string, int) dict \<times> string list \<Rightarrow> (string, int) dict \<times> string list" where
  "visit_child c s = (case s of (indegree, queue) \<Rightarrow> (case dget indegree c of
       None \<Rightarrow> s
     | Some d \<Rightarrow> (dput c (d - 1) indegree, if d - 1 = 0 then sort (queue @ [c]) else queue)))"

definition pending :: "(string, int) dict \<Rightarrow> nat" where
  "pending indegree = length (filter (\<lambda>kv. 0 < snd kv) indegree)"

lemma pending_decrement:
  "map_of d c = Some v \<Longrightarrow>
   length (filter (\<lambda>kv. 0 < snd kv) (AList.update c (v - 1) d)) + (if v = 1 then 1 else 0)
     = length (filter (\<lambda>kv. (0::int) < snd kv) d)"
  by (induction d) (auto split: if_splits)

lemma visit_child_measure:
  "visit_child c s = (i', q') \<Longrightarrow> length q' + pending i' \<le> length (snd s) + pending (fst s)"
  using pending_decrement [of "fst s" c]
  by (cases s) (auto simp: visit_child_def pending_def dget_def dput_def split: option.splits if_splits)

lemma visit_children_measure:
  "fold visit_child cs s = (i', q') \<Longrightarrow> length q' + pending i' \<le> length (snd s) + pending (fst s)"
proof (induction cs arbitrary: s)
  case (Cons c cs)
  obtain i q where v: "visit_child c s = (i, q)" by fastforce
  from visit_child_measure [OF this] Cons.IH [of "(i, q)"] Cons.prems v show ?case by simp
qed auto

definition children_of :: "(string, string list) dict \<Rightarrow> string \<Rightarrow> string list" where
  "children_of children n = (case dget children n of None \<Rightarrow> [] | Some cs \<Rightarrow> cs)"

function topo_loop ::
  "(string, string list) dict \<Rightarrow> string list \<Rightarrow> (string, int) dict \<Rightarrow> string list \<Rightarrow> string list" where
  "topo_loop children [] indegree ordered = ordered"
| "topo_loop children (node # queue) indegree ordered =
     (case fold visit_child (sort (children_of children node)) (indegree, queue) of
        (indegree', queue') \<Rightarrow> topo_loop children queue' indegree' (ordered @ [node]))"
  by pat_completeness auto
termination
  apply (relation "measure (\<lambda>(c, q, i, o'). length q + pending i)")
  apply simp
  subgoal for children node queue indegree ordered a b
  using visit_children_measure [of "sort (children_of children node)" "(indegree, queue)" a b]
    by (simp add: eq_commute [of "(a, b)"])
  done

definition ready :: "string list \<Rightarrow> (string, int) dict \<Rightarrow> string list" where
  "ready names indegree = sort (filter (\<lambda>n. dget indegree n = Some 0) names)"

definition topological_order :: "registry \<Rightarrow> string list option \<Rightarrow> string list res" where
  "topological_order R sel =
     (let names = (case sel of None \<Rightarrow> dkeys R | Some ns \<Rightarrow> ns) in
      res_bind (map_res (reg_table R) names) (\<lambda>_.
        case fk_graph R names of (children, indegree) \<Rightarrow>
          let ordered = topo_loop children (ready names indegree) indegree [] in
          if length ordered \<noteq> length names
          then Inl (SchemaCycleError (sort (filter (\<lambda>n. n \<notin> set ordered) (remdups names))))
          else Inr ordered))"

section \<open>Facts\<close>

text \<open>The edges of the ordering and of the closure: a foreign key to another table.\<close>

definition fk_edge :: "registry \<Rightarrow> string \<Rightarrow> string \<Rightarrow> bool" where
  "fk_edge R c p = (p \<noteq> c \<and> (case dget R c of None \<Rightarrow> False | Some m \<Rightarrow> p \<in> fk_ref_table ` set (lt_fks m)))"

subsection \<open>The closure\<close>

lemma set_new_parents:
  "dget R t = Some m \<Longrightarrow> set (new_parents m t seen) = {p. fk_edge R t p} - set seen"
  by (auto simp: new_parents_def fk_edge_def)

text \<open>Tables whose parents have all been seen: everything known but the frontier.\<close>

definition closure_inv :: "registry \<Rightarrow> string list \<Rightarrow> string list \<Rightarrow> string list \<Rightarrow> bool" where
  "closure_inv R T seen fr = (distinct seen \<and> set fr \<subseteq> set T \<union> set seen
     \<and> (\<forall>p \<in> set seen. \<exists>t \<in> set T. (fk_edge R)\<^sup>+\<^sup>+ t p)
     \<and> (\<forall>t \<in> set T \<union> set seen - set fr. dget R t \<noteq> None \<and> (\<forall>p. fk_edge R t p \<longrightarrow> p \<in> set seen)))"

lemma closure_invD:
  assumes "closure_inv R T seen fr"
  shows "distinct seen" and "set fr \<subseteq> set T \<union> set seen"
    and "\<And>p. p \<in> set seen \<Longrightarrow> \<exists>t \<in> set T. (fk_edge R)\<^sup>+\<^sup>+ t p"
    and "\<And>u. u \<in> set T \<union> set seen - set fr \<Longrightarrow> dget R u \<noteq> None"
    and "\<And>u p. u \<in> set T \<union> set seen - set fr \<Longrightarrow> fk_edge R u p \<Longrightarrow> p \<in> set seen"
  using assms unfolding closure_inv_def by blast+

lemma closure_inv_step:
  assumes inv: "closure_inv R T seen (t # fr)" and m: "dget R t = Some m"
  shows "closure_inv R T (seen @ new_parents m t seen)
           (fr @ filter (\<lambda>p. p \<notin> set fr) (new_parents m t seen))"
proof -
  have np: "set (new_parents m t seen) = {p. fk_edge R t p} - set seen"
    by (rule set_new_parents [OF m])
  have t: "t \<in> set T \<union> set seen" using closure_invD(2) [OF inv] by auto
  have d: "distinct seen" and fr: "set (t # fr) \<subseteq> set T \<union> set seen"
    and r: "\<And>p. p \<in> set seen \<Longrightarrow> \<exists>t \<in> set T. (fk_edge R)\<^sup>+\<^sup>+ t p"
    and fin: "\<And>u. u \<in> set T \<union> set seen - set (t # fr) \<Longrightarrow>
      dget R u \<noteq> None \<and> (\<forall>p. fk_edge R u p \<longrightarrow> p \<in> set seen)"
    using closure_invD [OF inv] by blast+
  have reach: "\<exists>u \<in> set T. (fk_edge R)\<^sup>+\<^sup>+ u p" if e: "fk_edge R t p" for p
  proof (cases "t \<in> set T")
    case True
    then show ?thesis using tranclp.r_into_trancl [of "fk_edge R", OF e] by (intro bexI [of _ t])
  next
    case False
    then obtain u where "u \<in> set T" "(fk_edge R)\<^sup>+\<^sup>+ u t" using t r by blast
    then show ?thesis using e by (intro bexI [of _ u]) (rule tranclp.trancl_into_trancl)
  qed
  let ?seen = "seen @ new_parents m t seen" and ?fr = "fr @ filter (\<lambda>p. p \<notin> set fr) (new_parents m t seen)"
  have fr_set: "set ?fr = set fr \<union> set (new_parents m t seen)" by auto
  have "distinct ?seen"
    using d np by (auto simp: new_parents_def)
  moreover have "set ?fr \<subseteq> set T \<union> set ?seen"
    using fr unfolding fr_set by auto
  moreover have "\<exists>t \<in> set T. (fk_edge R)\<^sup>+\<^sup>+ t p" if "p \<in> set ?seen" for p
    using that r reach np by auto
  moreover have "dget R u \<noteq> None \<and> (\<forall>p. fk_edge R u p \<longrightarrow> p \<in> set ?seen)"
    if u: "u \<in> set T \<union> set ?seen - set ?fr" for u
  proof (cases "u = t")
    case True
    then show ?thesis using m np by auto
  next
    case False
    then have "u \<in> set T \<union> set seen - set (t # fr)" using u unfolding fr_set by auto
    from fin [OF this] show ?thesis by auto
  qed
  ultimately show ?thesis unfolding closure_inv_def by blast
qed

lemma closure_loop_spec:
  assumes "closure_inv R T seen fr"
  shows "case closure_loop R seen fr of
      Inr s \<Rightarrow> closure_inv R T s []
    | Inl e \<Rightarrow> \<exists>t. (t \<in> set T \<or> (\<exists>u \<in> set T. (fk_edge R)\<^sup>+\<^sup>+ u t)) \<and> dget R t = None"
  using assms
proof (induction R seen fr rule: closure_loop.induct)
  case (1 R seen)
  then show ?case by simp
next
  case (2 R seen t fr)
  show ?case
  proof (cases "dget R t")
    case None
    then have l: "closure_loop R seen (t # fr) = Inl (KeyError (str_repr t @ '' is not an LRMIS table''))"
      by (simp add: reg_table_def)
    have "t \<in> set T \<union> set seen" using closure_invD(2) [OF 2(2)] by auto
    then have "t \<in> set T \<or> (\<exists>u \<in> set T. (fk_edge R)\<^sup>+\<^sup>+ u t)"
      using closure_invD(3) [OF 2(2)] by blast
    then show ?thesis unfolding l using None by (auto intro!: exI [of _ t])
  next
    case (Some m)
    then have m: "reg_table R t = Inr m" by (simp add: reg_table_def)
    from 2(1) [OF m closure_inv_step [OF 2(2) Some]] m show ?thesis by simp
  qed
qed

lemma closure_inv_start: "closure_inv R T [] (remdups T)"
  by (simp add: closure_inv_def)

lemma fk_closure_Inr:
  assumes "fk_closure R T = Inr seen"
  shows "distinct seen \<and> set seen = {p. \<exists>t \<in> set T. (fk_edge R)\<^sup>+\<^sup>+ t p} \<and> set T \<union> set seen \<subseteq> set (dkeys R)"
proof -
  have inv: "closure_inv R T seen []"
    using closure_loop_spec [OF closure_inv_start [of R T]] assms by (simp add: fk_closure_def)
  have "p \<in> set seen" if "(fk_edge R)\<^sup>+\<^sup>+ t p" "t \<in> set T" for t p
    using that
  proof (induction rule: tranclp_induct)
    case (base p)
    then show ?case using closure_invD(5) [OF inv, of t p] by auto
  next
    case (step p q)
    then show ?case using closure_invD(5) [OF inv, of p q] by auto
  qed
  then have eq: "set seen = {p. \<exists>t \<in> set T. (fk_edge R)\<^sup>+\<^sup>+ t p}"
    using closure_invD(3) [OF inv] by blast
  have "set T \<union> set seen \<subseteq> set (dkeys R)"
    using closure_invD(4) [OF inv] by (auto simp: set_dkeys_iff)
  then show ?thesis using closure_invD(1) [OF inv] eq by simp
qed

text \<open>
  C37: \<open>fk_closure\<close> always ends and returns exactly the tables reachable over foreign keys
  (self-references aside), each once; it raises only when a table on the way is unknown.
\<close>

theorem fk_closure_spec:
  "case fk_closure R T of
     Inr seen \<Rightarrow> distinct seen \<and> set seen = {p. \<exists>t \<in> set T. (fk_edge R)\<^sup>+\<^sup>+ t p}
       \<and> set T \<union> set seen \<subseteq> set (dkeys R)
   | Inl e \<Rightarrow> \<exists>t. (t \<in> set T \<or> (\<exists>u \<in> set T. (fk_edge R)\<^sup>+\<^sup>+ u t)) \<and> dget R t = None"
proof (cases "fk_closure R T")
  case (Inl e)
  then show ?thesis using closure_loop_spec [OF closure_inv_start [of R T]] by (simp add: fk_closure_def)
next
  case (Inr seen)
  show ?thesis unfolding Inr sum.case by (rule fk_closure_Inr [OF Inr])
qed

text \<open>
  The tables to seed are, in name order, the tables the write set depends on that are
  not written themselves.
\<close>

theorem seed_tables_spec:
  assumes "seed_tables R ws = Inr ts"
  shows "sorted ts \<and> distinct ts \<and> set ts = {p. \<exists>t \<in> set ws. (fk_edge R)\<^sup>+\<^sup>+ t p} - set ws"
proof -
  obtain seen where s: "fk_closure R ws = Inr seen" and ts: "ts = sort (filter (\<lambda>t. t \<notin> set ws) seen)"
    using assms by (auto simp: seed_tables_def res_bind_Inr_iff)
  show ?thesis using fk_closure_Inr [OF s] by (auto simp: ts)
qed

subsection \<open>The graph of the ordering\<close>

definition parents_in :: "registry \<Rightarrow> string list \<Rightarrow> string \<Rightarrow> string set" where
  "parents_in R names c = {p \<in> set names. fk_edge R c p}"

text \<open>After the foreign keys \<open>es\<close> (child, parent), children and indegrees count the distinct
  edges among the selected tables.\<close>

definition graph_of :: "string list \<Rightarrow> (string \<times> string) list \<Rightarrow> graph \<Rightarrow> bool" where
  "graph_of names es g = (\<forall>n \<in> set names.
     (\<exists>cs. dget (fst g) n = Some cs \<and> distinct cs \<and> set cs = {c. (c, n) \<in> set es \<and> c \<noteq> n})
     \<and> dget (snd g) n = Some (int (card {p \<in> set names. (n, p) \<in> set es \<and> p \<noteq> n})))"

lemma graph_of_link:
  assumes g: "graph_of names es g" and c: "c \<in> set names"
  shows "graph_of names (es @ [(c, fk_ref_table k)]) (link_fk names c k g)"
proof -
  obtain ch ind where gd: "g = (ch, ind)" by (cases g)
  let ?p = "fk_ref_table k" and ?es = "es @ [(c, fk_ref_table k)]"
  show ?thesis
  proof (cases "?p = c \<or> ?p \<notin> set names")
    case True
    then have "link_fk names c k g = g" by (simp add: link_fk_def gd)
    moreover have "{c'. (c', n) \<in> set ?es \<and> c' \<noteq> n} = {c'. (c', n) \<in> set es \<and> c' \<noteq> n}"
        "{p \<in> set names. (n, p) \<in> set ?es \<and> p \<noteq> n} = {p \<in> set names. (n, p) \<in> set es \<and> p \<noteq> n}"
      if "n \<in> set names" for n using True that by auto
    ultimately show ?thesis using g by (simp add: graph_of_def)
  next
    case False
    then have p: "?p \<noteq> c" "?p \<in> set names" by auto
    then obtain cs where cs: "dget ch ?p = Some cs" "distinct cs" "set cs = {c'. (c', ?p) \<in> set es \<and> c' \<noteq> ?p}"
      and ind: "dget ind c = Some (int (card {p \<in> set names. (c, p) \<in> set es \<and> p \<noteq> c}))"
      using g c by (auto simp: graph_of_def gd)
    show ?thesis
    proof (cases "c \<in> set cs")
      case True
      then have "link_fk names c k g = g" using p cs by (simp add: link_fk_def gd)
      moreover have "set ?es = set es" using True cs(3) by auto
      ultimately show ?thesis using g by (simp add: graph_of_def)
    next
      case new: False
      then have link: "link_fk names c k g = (dput ?p (cs @ [c]) ch,
          dput c (int (card {p \<in> set names. (c, p) \<in> set es \<and> p \<noteq> c}) + 1) ind)"
        using p cs ind by (simp add: link_fk_def gd Let_def)
      have fresh: "(c, ?p) \<notin> set es" using new cs(3) p(1) by auto
      have 1: "\<exists>cs'. dget (fst (link_fk names c k g)) n = Some cs' \<and> distinct cs'
          \<and> set cs' = {c'. (c', n) \<in> set ?es \<and> c' \<noteq> n}" if n: "n \<in> set names" for n
      proof (cases "n = ?p")
        case True
        have "distinct (cs @ [c])" using cs(2) new by simp
        moreover have "set (cs @ [c]) = {c'. (c', n) \<in> set ?es \<and> c' \<noteq> n}"
          using cs(3) p(1) True by auto
        ultimately show ?thesis using True by (auto simp: link)
      next
        case False
        then have "{c'. (c', n) \<in> set ?es \<and> c' \<noteq> n} = {c'. (c', n) \<in> set es \<and> c' \<noteq> n}" by auto
        moreover have "dget (fst (link_fk names c k g)) n = dget (fst g) n"
          unfolding link using False by (simp add: gd)
        ultimately show ?thesis using g n by (simp add: graph_of_def)
      qed
      have 2: "dget (snd (link_fk names c k g)) n
          = Some (int (card {p \<in> set names. (n, p) \<in> set ?es \<and> p \<noteq> n}))" if n: "n \<in> set names" for n
      proof (cases "n = c")
        case True
        have "{p \<in> set names. (c, p) \<in> set ?es \<and> p \<noteq> c}
            = insert ?p {p \<in> set names. (c, p) \<in> set es \<and> p \<noteq> c}" using p by auto
        moreover have "?p \<notin> {p \<in> set names. (c, p) \<in> set es \<and> p \<noteq> c}" using fresh by simp
        ultimately have "card {p \<in> set names. (c, p) \<in> set ?es \<and> p \<noteq> c}
            = Suc (card {p \<in> set names. (c, p) \<in> set es \<and> p \<noteq> c})" by simp
        then show ?thesis using True by (simp add: link)
      next
        case False
        then have "{p \<in> set names. (n, p) \<in> set ?es \<and> p \<noteq> n} = {p \<in> set names. (n, p) \<in> set es \<and> p \<noteq> n}"
          by auto
        moreover have "dget (snd (link_fk names c k g)) n = dget (snd g) n"
          unfolding link using False by (simp add: gd)
        ultimately show ?thesis using g n by (simp add: graph_of_def)
      qed
      show ?thesis using 1 2 by (simp add: graph_of_def)
    qed
  qed
qed

lemma graph_of_links:
  assumes "graph_of names es g" and "c \<in> set names"
  shows "graph_of names (es @ map (\<lambda>k. (c, fk_ref_table k)) ks) (fold (link_fk names c) ks g)"
  using assms(1)
proof (induction ks arbitrary: es g)
  case (Cons k ks)
  from Cons.IH [OF graph_of_link [OF Cons.prems assms(2)]] show ?case by simp
qed simp

definition fk_pairs :: "registry \<Rightarrow> string list \<Rightarrow> (string \<times> string) list" where
  "fk_pairs R cs = concat (map (\<lambda>c. map (\<lambda>k. (c, fk_ref_table k)) (lt_fks (the (dget R c)))) cs)"

lemma graph_of_fold:
  "set cs \<subseteq> set names \<Longrightarrow> graph_of names es g \<Longrightarrow>
   graph_of names (es @ fk_pairs R cs)
     (fold (\<lambda>child. fold (link_fk names child) (lt_fks (the (dget R child)))) cs g)"
proof (induction cs arbitrary: es g)
  case (Cons c cs)
  then show ?case
    using Cons.IH [OF _ graph_of_links [OF Cons.prems(2), of c]] by (simp add: fk_pairs_def)
qed (simp add: fk_pairs_def)

lemma graph_of_start: "graph_of names [] (map (\<lambda>n. (n, [])) names, map (\<lambda>n. (n, 0)) names)"
  by (auto simp: graph_of_def dget_def map_of_map_restrict)

lemma fk_graph_spec:
  assumes known: "\<forall>n \<in> set names. dget R n \<noteq> None" and g: "fk_graph R names = (children, indegree)"
    and n: "n \<in> set names"
  shows "distinct (children_of children n)"
    and "set (children_of children n) = {c \<in> set names. n \<in> parents_in R names c}"
    and "dget indegree n = Some (int (card (parents_in R names n)))"
proof -
  have "graph_of names (fk_pairs R names) (children, indegree)"
    using graph_of_fold [where R = R and cs = names and names = names, OF _ graph_of_start] g
    by (simp add: fk_graph_def)
  moreover have pairs: "(c, p) \<in> set (fk_pairs R names) \<and> p \<noteq> c \<longleftrightarrow> c \<in> set names \<and> fk_edge R c p" for c p
    using known by (fastforce simp: fk_pairs_def fk_edge_def split: option.splits)
  ultimately obtain cs where cs: "dget children n = Some cs" "distinct cs"
      "set cs = {c. (c, n) \<in> set (fk_pairs R names) \<and> c \<noteq> n}"
    and ind: "dget indegree n = Some (int (card {p \<in> set names. (n, p) \<in> set (fk_pairs R names) \<and> p \<noteq> n}))"
    using n by (auto simp: graph_of_def)
  show "distinct (children_of children n)" using cs by (simp add: children_of_def)
  show "set (children_of children n) = {c \<in> set names. n \<in> parents_in R names c}"
    using cs pairs n by (auto simp: children_of_def parents_in_def)
  have "{p \<in> set names. (n, p) \<in> set (fk_pairs R names) \<and> p \<noteq> n} = parents_in R names n"
    using pairs n by (auto simp: parents_in_def)
  then show "dget indegree n = Some (int (card (parents_in R names n)))" using ind by simp
qed

subsection \<open>Kahn's loop\<close>

lemma visit_children_spec:
  assumes "fold visit_child cs (i, q) = (i', q')" and "distinct cs"
  shows "(\<forall>c. dget i' c = (if c \<in> set cs then map_option (\<lambda>d. d - 1) (dget i c) else dget i c))
    \<and> set q' = set q \<union> {c \<in> set cs. dget i c = Some 1}
    \<and> (distinct q \<and> set q \<inter> {c \<in> set cs. dget i c = Some 1} = {} \<longrightarrow> distinct q')"
  using assms
proof (induction cs arbitrary: i q)
  case (Cons c cs)
  obtain i1 q1 where v: "visit_child c (i, q) = (i1, q1)" by fastforce
  have one: "dget i1 x = (if x = c then map_option (\<lambda>d. d - 1) (dget i c) else dget i x)" for x
    using v by (auto simp: visit_child_def split: option.splits)
  have q1: "set q1 = set q \<union> {x. x = c \<and> dget i c = Some 1}"
    "distinct q \<Longrightarrow> c \<notin> set q \<or> dget i c \<noteq> Some 1 \<Longrightarrow> distinct q1"
    using v by (auto simp: visit_child_def split: option.splits if_splits)
  have c: "c \<notin> set cs" and rest: "fold visit_child cs (i1, q1) = (i', q')" "distinct cs"
    using Cons.prems v by auto
  have same: "{x \<in> set cs. dget i1 x = Some 1} = {x \<in> set cs. dget i x = Some 1}"
    using c one by auto
  note IH = Cons.IH [OF rest, unfolded same]
  have 1: "\<forall>x. dget i' x = (if x \<in> set (c # cs) then map_option (\<lambda>d. d - 1) (dget i x) else dget i x)"
    using IH c one by simp
  have 2: "set q' = set q \<union> {x \<in> set (c # cs). dget i x = Some 1}"
    using IH q1(1) by auto
  have 3: "distinct q'" if "distinct q" "set q \<inter> {x \<in> set (c # cs). dget i x = Some 1} = {}"
  proof -
    have "distinct q1" using q1(2) that by auto
    moreover have "set q1 \<inter> {x \<in> set cs. dget i x = Some 1} = {}" using that q1(1) c by auto
    ultimately show ?thesis using IH by blast
  qed
  from 1 2 3 show ?case by blast
qed simp

definition kahn_inv :: "registry \<Rightarrow> string list \<Rightarrow> string list \<Rightarrow> (string, int) dict \<Rightarrow> string list \<Rightarrow> bool" where
  "kahn_inv R names q i os = (distinct (os @ q) \<and> set (os @ q) \<subseteq> set names
     \<and> (\<forall>c \<in> set names. dget i c = Some (int (card (parents_in R names c - set os))))
     \<and> (\<forall>c \<in> set names. c \<in> set (os @ q) \<longleftrightarrow> parents_in R names c \<subseteq> set os)
     \<and> (\<forall>k < length os. parents_in R names (os ! k) \<subseteq> set (take k os)))"

lemma finite_parents [simp]: "finite (parents_in R names c)"
  by (simp add: parents_in_def)

lemma kahn_step:
  assumes inv: "kahn_inv R names (n # q) i os"
    and cs: "distinct cs" "set cs = {c \<in> set names. n \<in> parents_in R names c}"
    and v: "fold visit_child cs (i, q) = (i', q')"
  shows "kahn_inv R names q' i' (os @ [n])"
proof -
  have d: "distinct (os @ n # q)" and sub: "set (os @ n # q) \<subseteq> set names"
    and ind: "\<And>c. c \<in> set names \<Longrightarrow> dget i c = Some (int (card (parents_in R names c - set os)))"
    and rdy: "\<And>c. c \<in> set names \<Longrightarrow> c \<in> set (os @ n # q) \<longleftrightarrow> parents_in R names c \<subseteq> set os"
    and ord: "\<And>k. k < length os \<Longrightarrow> parents_in R names (os ! k) \<subseteq> set (take k os)"
    using inv unfolding kahn_inv_def by blast+
  note vs = visit_children_spec [OF v cs(1)]
  have n_out: "n \<notin> set os" using d by simp
  have drop: "card (parents_in R names c - set (os @ [n])) = card (parents_in R names c - set os) - 1
      \<and> 0 < card (parents_in R names c - set os)" if "n \<in> parents_in R names c" for c
  proof -
    have "parents_in R names c - set (os @ [n]) = (parents_in R names c - set os) - {n}" by auto
    moreover have "n \<in> parents_in R names c - set os" using that n_out by simp
    ultimately show ?thesis by (auto simp: card_gt_0_iff)
  qed
  have keep: "parents_in R names c - set (os @ [n]) = parents_in R names c - set os"
    if "n \<notin> parents_in R names c" for c using that by auto
  have ind': "dget i' c = Some (int (card (parents_in R names c - set (os @ [n]))))" if "c \<in> set names" for c
    using vs ind [OF that] drop [of c] keep [of c] cs(2) that
    by (cases "n \<in> parents_in R names c") (simp_all add: of_nat_diff)
  have fresh: "{c \<in> set cs. dget i c = Some 1}
      = {c \<in> set names. n \<in> parents_in R names c \<and> parents_in R names c \<subseteq> set (os @ [n])}"
  proof -
    have "dget i c = Some 1 \<longleftrightarrow> parents_in R names c \<subseteq> set (os @ [n])"
      if c: "c \<in> set names" "n \<in> parents_in R names c" for c
    proof -
      have "dget i c = Some 1 \<longleftrightarrow> card (parents_in R names c - set (os @ [n])) = 0"
        using ind [OF c(1)] drop [OF c(2)] by auto
      also have "\<dots> \<longleftrightarrow> parents_in R names c - set (os @ [n]) = {}" by simp
      finally show ?thesis by blast
    qed
    then show ?thesis using cs(2) by blast
  qed
  have disj: "c \<notin> set (os @ n # q)" if "c \<in> set cs" for c
    using that cs(2) rdy [of c] n_out by auto
  have q': "set q' = set q \<union> {c \<in> set cs. dget i c = Some 1}" using vs by blast
  have "set q \<inter> {c \<in> set cs. dget i c = Some 1} = {}" using disj by auto
  then have "distinct q'" using vs d by auto
  moreover have "set (os @ [n]) \<inter> set q' = {}" using d disj q' by auto
  ultimately have 1: "distinct ((os @ [n]) @ q')" using d by simp
  have 2: "set ((os @ [n]) @ q') \<subseteq> set names" using sub cs(2) q' by auto
  have 3: "c \<in> set ((os @ [n]) @ q') \<longleftrightarrow> parents_in R names c \<subseteq> set (os @ [n])" if c: "c \<in> set names" for c
  proof (cases "n \<in> parents_in R names c")
    case True
    then have "c \<notin> set (os @ n # q)" using disj cs(2) c by blast
    then show ?thesis using q' fresh c True by auto
  next
    case False
    then have "c \<notin> set cs" using cs(2) by blast
    then have "c \<in> set ((os @ [n]) @ q') \<longleftrightarrow> c \<in> set (os @ n # q)" using q' by auto
    then show ?thesis using rdy [OF c] False by auto
  qed
  have 4: "parents_in R names ((os @ [n]) ! k) \<subseteq> set (take k (os @ [n]))" if "k < length (os @ [n])" for k
  proof (cases "k < length os")
    case True
    then show ?thesis using ord [of k] by (simp add: nth_append)
  next
    case False
    then have "k = length os" using that by simp
    moreover have "n \<in> set names" using sub by simp
    ultimately show ?thesis using rdy [of n] by (simp add: nth_append)
  qed
  show ?thesis unfolding kahn_inv_def using 1 2 3 4 ind' by blast
qed

lemma topo_loop_spec:
  assumes "\<And>n. n \<in> set names \<Longrightarrow> distinct (children_of ch n)
      \<and> set (children_of ch n) = {c \<in> set names. n \<in> parents_in R names c}"
    and "kahn_inv R names q i os"
  shows "\<exists>i'. kahn_inv R names [] i' (topo_loop ch q i os)"
  using assms
proof (induction ch q i os rule: topo_loop.induct)
  case (1 ch i os)
  then show ?case by auto
next
  case (2 ch n q i os)
  have n: "n \<in> set names" using 2(3) by (simp add: kahn_inv_def)
  obtain i' q' where v: "fold visit_child (sort (children_of ch n)) (i, q) = (i', q')" by fastforce
  have "kahn_inv R names q' i' (os @ [n])"
    using kahn_step [OF 2(3) _ _ v] 2(2) [OF n] by simp
  from 2(1) [OF v [symmetric] 2(2) this] v show ?case by simp
qed

lemma kahn_start:
  assumes "distinct names" and "\<forall>n \<in> set names. dget R n \<noteq> None" and "fk_graph R names = (ch, i)"
  shows "kahn_inv R names (ready names i) i []"
  using fk_graph_spec(3) [OF assms(2,3)] assms(1)
  by (auto simp: kahn_inv_def ready_def)

text \<open>At the end every table left over has a parent left over.\<close>

lemma topological_order_cases:
  assumes d: "distinct names" and known: "\<forall>n \<in> set names. dget R n \<noteq> None"
  obtains os i where "kahn_inv R names [] i os"
    and "topological_order R (Some names) = (if length os \<noteq> length names
       then Inl (SchemaCycleError (sort (filter (\<lambda>n. n \<notin> set os) names))) else Inr os)"
proof -
  obtain ch i where g: "fk_graph R names = (ch, i)" by fastforce
  obtain i' where inv: "kahn_inv R names [] i' (topo_loop ch (ready names i) i [])"
    using topo_loop_spec [OF _ kahn_start [OF d known g]] fk_graph_spec(1,2) [OF known g] by blast
  have "\<exists>ts. map_res (reg_table R) names = Inr ts"
    using known by (induction names) (auto simp: reg_table_def)
  then have "topological_order R (Some names) = (if length (topo_loop ch (ready names i) i []) \<noteq> length names
       then Inl (SchemaCycleError (sort (filter (\<lambda>n. n \<notin> set (topo_loop ch (ready names i) i [])) names)))
       else Inr (topo_loop ch (ready names i) i []))"
    using d by (auto simp: topological_order_def g Let_def distinct_remdups_id)
  with inv show thesis by (rule that)
qed

lemma kahn_end:
  assumes inv: "kahn_inv R names [] i os" and d: "distinct names"
  shows "length os = length names \<longleftrightarrow> set os = set names"
    and "c \<in> set names \<Longrightarrow> c \<notin> set os \<Longrightarrow> \<exists>p \<in> set names. p \<notin> set os \<and> fk_edge R c p"
proof -
  have os: "distinct os" "set os \<subseteq> set names" using inv by (auto simp: kahn_inv_def)
  show "length os = length names \<longleftrightarrow> set os = set names"
    using os d distinct_card [of os] distinct_card [of names] card_subset_eq [of "set names" "set os"]
    by (metis List.finite_set)
  assume c: "c \<in> set names" "c \<notin> set os"
  then have "\<not> parents_in R names c \<subseteq> set os" using inv unfolding kahn_inv_def by auto
  then show "\<exists>p \<in> set names. p \<notin> set os \<and> fk_edge R c p" unfolding parents_in_def by blast
qed

lemma topological_order_Inr:
  assumes "distinct names" and "set names \<subseteq> set (dkeys R)" and "topological_order R (Some names) = Inr os"
  shows "distinct os" and "set os = set names"
    and "k < length os \<Longrightarrow> p \<in> set names \<Longrightarrow> fk_edge R (os ! k) p \<Longrightarrow> p \<in> set (take k os)"
proof -
  have known: "\<forall>n \<in> set names. dget R n \<noteq> None" using assms(2) by (auto simp: set_dkeys_iff subset_iff)
  obtain os' i where inv: "kahn_inv R names [] i os'"
    and eq: "topological_order R (Some names) = (if length os' \<noteq> length names
       then Inl (SchemaCycleError (sort (filter (\<lambda>n. n \<notin> set os') names))) else Inr os')"
    using topological_order_cases [OF assms(1) known] .
  have os: "os' = os" "length os = length names" using eq assms(3) by (auto split: if_splits)
  show "set os = set names" using kahn_end(1) [OF inv assms(1)] os by simp
  have "distinct os \<and> (\<forall>k < length os. \<forall>p \<in> set names. fk_edge R (os ! k) p \<longrightarrow> p \<in> set (take k os))"
    using inv os(1) unfolding kahn_inv_def parents_in_def by auto
  then show "distinct os" and "k < length os \<Longrightarrow> p \<in> set names \<Longrightarrow> fk_edge R (os ! k) p \<Longrightarrow> p \<in> set (take k os)"
    by blast+
qed

text \<open>
  C12: the ordering of a set of known tables always ends. Either it is a permutation of them
  in which every table comes after all its selected parents, or the error names tables of
  which each has a parent among them, that is, a real cycle.
\<close>

theorem topological_order_spec:
  assumes "distinct names" and "set names \<subseteq> set (dkeys R)"
  shows "case topological_order R (Some names) of
      Inr os \<Rightarrow> distinct os \<and> set os = set names
        \<and> (\<forall>k < length os. \<forall>p \<in> set names. fk_edge R (os ! k) p \<longrightarrow> p \<in> set (take k os))
    | Inl e \<Rightarrow> \<exists>stuck. e = SchemaCycleError stuck \<and> stuck \<noteq> [] \<and> set stuck \<subseteq> set names
        \<and> (\<forall>c \<in> set stuck. \<exists>p \<in> set stuck. fk_edge R c p)"
proof -
  have known: "\<forall>n \<in> set names. dget R n \<noteq> None" using assms(2) by (auto simp: set_dkeys_iff subset_iff)
  obtain os i where inv: "kahn_inv R names [] i os"
    and eq: "topological_order R (Some names) = (if length os \<noteq> length names
       then Inl (SchemaCycleError (sort (filter (\<lambda>n. n \<notin> set os) names))) else Inr os)"
    using topological_order_cases [OF assms(1) known] .
  show ?thesis
  proof (cases "length os = length names")
    case True
    then have "topological_order R (Some names) = Inr os" by (simp add: eq)
    then show ?thesis using topological_order_Inr [OF assms] by simp
  next
    case False
    then have "set os \<noteq> set names" "set os \<subseteq> set names"
      using kahn_end(1) [OF inv assms(1)] inv by (auto simp: kahn_inv_def)
    then have "set (sort (filter (\<lambda>n. n \<notin> set os) names)) \<noteq> {}" by auto
    then have "sort (filter (\<lambda>n. n \<notin> set os) names) \<noteq> []" by (metis set_empty)
    moreover have "\<exists>p \<in> set names. p \<notin> set os \<and> fk_edge R c p" if "c \<in> set names" "c \<notin> set os" for c
      using kahn_end(2) [OF inv assms(1) that] .
    ultimately show ?thesis using False by (auto simp: eq)
  qed
qed

text \<open>
  C36: the ordering succeeds exactly when the foreign keys among the tables form no cycle
  (a reference of a table to itself is no cycle).
\<close>

theorem topological_order_iff_acyclic:
  assumes "distinct names" and "set names \<subseteq> set (dkeys R)"
  shows "(\<exists>os. topological_order R (Some names) = Inr os)
    \<longleftrightarrow> acyclic {(c, p). c \<in> set names \<and> p \<in> set names \<and> fk_edge R c p}"
proof -
  let ?E = "{(c, p). c \<in> set names \<and> p \<in> set names \<and> fk_edge R c p}"
  have known: "\<forall>n \<in> set names. dget R n \<noteq> None" using assms(2) by (auto simp: set_dkeys_iff subset_iff)
  obtain os i where inv: "kahn_inv R names [] i os"
    and eq: "topological_order R (Some names) = (if length os \<noteq> length names
       then Inl (SchemaCycleError (sort (filter (\<lambda>n. n \<notin> set os) names))) else Inr os)"
    using topological_order_cases [OF assms(1) known] .
  have "acyclic ?E" if full: "set os = set names"
  proof (rule acyclicI_order [where f = "\<lambda>c. LEAST k. k < length os \<and> os ! k = c"])
    fix a b assume "(a, b) \<in> ?E"
    then have ab: "a \<in> set names" "b \<in> set names" "fk_edge R a b" by auto
    define pos where "pos = (\<lambda>c. LEAST k. k < length os \<and> os ! k = c)"
    have "\<exists>k. k < length os \<and> os ! k = a" using ab(1) unfolding full [symmetric] by (simp add: in_set_conv_nth)
    then have "pos a < length os \<and> os ! pos a = a" unfolding pos_def by (rule LeastI_ex)
    then have pos: "pos a < length os" "os ! pos a = a" by simp_all
    have "b \<in> parents_in R names (os ! pos a)" using ab pos(2) by (simp add: parents_in_def)
    then have "b \<in> set (take (pos a) os)" using inv pos(1) unfolding kahn_inv_def by blast
    then obtain j where j: "j < pos a" "os ! j = b"
      by (auto simp: in_set_conv_nth)
    have "j < length os \<and> os ! j = b" using j pos(1) by simp
    then have "pos b \<le> j" unfolding pos_def by (rule Least_le)
    with j(1) show "(LEAST k. k < length os \<and> os ! k = b) < (LEAST k. k < length os \<and> os ! k = a)"
      unfolding pos_def by linarith
  qed
  moreover have "\<not> acyclic ?E" if part: "set os \<noteq> set names"
  proof
    assume "acyclic ?E"
    moreover have "finite ?E" by (rule finite_subset [of _ "set names \<times> set names"]) auto
    ultimately have "wf (?E\<inverse>)" by (intro finite_acyclic_wf_converse)
    moreover have "set os \<subseteq> set names" using inv by (simp add: kahn_inv_def)
    then obtain c where "c \<in> set names - set os" using part by blast
    ultimately obtain z where z: "z \<in> set names - set os"
      and least: "\<And>y. (y, z) \<in> ?E\<inverse> \<Longrightarrow> y \<notin> set names - set os"
      by (rule wfE_min) blast
    then obtain p where "p \<in> set names" "p \<notin> set os" "fk_edge R z p"
      using kahn_end(2) [OF inv assms(1), of z] by blast
    with z least [of p] show False by blast
  qed
  moreover have "(\<exists>os'. topological_order R (Some names) = Inr os') \<longleftrightarrow> length os = length names"
    unfolding eq by (cases "length os = length names") simp_all
  ultimately show ?thesis
    using kahn_end(1) [OF inv assms(1)] by (cases "set os = set names") (simp_all only: simp_thms)
qed

section \<open>Examples\<close>

definition mk_table :: "string \<Rightarrow> (string \<times> bool) list \<Rightarrow> (string \<times> string) list \<Rightarrow> string \<times> lrmis_table" where
  "mk_table n cols fks = (n, \<lparr>lt_name = n,
     lt_columns = map (\<lambda>(c, auto). \<lparr>lc_name = c, lc_type = ''int'', lc_nullable = c \<noteq> ''id'',
        lc_pk = (c = ''id''), lc_auto = auto, lc_enum = [], lc_default = None\<rparr>) cols,
     lt_fks = map (\<lambda>(c, r). \<lparr>fk_column = c, fk_ref_table = r, fk_ref_column = ''id''\<rparr>) fks,
     lt_create_sql = []\<rparr>)"

text \<open>A station refers to its parent station and to a place; a school refers to a station.\<close>

definition sample_registry :: registry where
  "sample_registry =
     [mk_table ''school'' [(''id'', True), (''station_id'', False), (''name'', False)] [(''station_id'', ''station'')],
      mk_table ''station'' [(''id'', False), (''parent'', False), (''psgc_id'', False), (''label'', False)]
        [(''parent'', ''station''), (''psgc_id'', ''psgc'')],
      mk_table ''psgc'' [(''id'', False), (''code'', False)] []]"

definition cyclic_registry :: registry where
  "cyclic_registry =
     [mk_table ''a'' [(''id'', True)] [(''x'', ''b'')], mk_table ''b'' [(''id'', True)] [(''y'', ''a'')]]"

theorem topological_order_spec_witness:
  "topological_order sample_registry (Some [''school'', ''psgc'', ''station''])
      = Inr [''psgc'', ''station'', ''school''] \<and>
   fk_edge sample_registry ([''psgc'', ''station'', ''school''] ! 2) ''station'' \<and>
   ''station'' \<in> set (take 2 [''psgc'', ''station'', ''school''])"
proof -
  let ?ns = "[''school'', ''psgc'', ''station'']"
  have e: "topological_order sample_registry (Some ?ns) = Inr [''psgc'', ''station'', ''school'']" by code_simp
  have d: "distinct ?ns" "set ?ns \<subseteq> set (dkeys sample_registry)" by code_simp+
  have edge: "fk_edge sample_registry ([''psgc'', ''station'', ''school''] ! 2) ''station''" by code_simp
  from topological_order_spec [OF d] e
  have "\<forall>k < length [''psgc'', ''station'', ''school'']. \<forall>p \<in> set ?ns.
      fk_edge sample_registry ([''psgc'', ''station'', ''school''] ! k) p
      \<longrightarrow> p \<in> set (take k [''psgc'', ''station'', ''school''])"
    by simp
  then have "''station'' \<in> set (take 2 [''psgc'', ''station'', ''school''])"
    using edge by (elim allE [of _ 2]) simp
  with e edge show ?thesis by simp
qed

theorem topological_order_iff_acyclic_witness:
  "topological_order cyclic_registry (Some [''b'', ''a'']) = Inl (SchemaCycleError [''a'', ''b'']) \<and>
   \<not> acyclic {(c, p). c \<in> set [''b'', ''a''] \<and> p \<in> set [''b'', ''a''] \<and> fk_edge cyclic_registry c p}"
proof -
  have e: "topological_order cyclic_registry (Some [''b'', ''a'']) = Inl (SchemaCycleError [''a'', ''b''])"
    by code_simp
  have d: "distinct [''b'', ''a'']" "set [''b'', ''a''] \<subseteq> set (dkeys cyclic_registry)" by code_simp+
  from topological_order_iff_acyclic [OF d] e show ?thesis by auto
qed

theorem fk_closure_spec_witness:
  "fk_closure sample_registry [''school''] = Inr [''station'', ''psgc''] \<and>
   {p. \<exists>t \<in> set [''school'']. (fk_edge sample_registry)\<^sup>+\<^sup>+ t p} = {''station'', ''psgc''}"
proof -
  have e: "fk_closure sample_registry [''school''] = Inr [''station'', ''psgc'']" by code_simp
  then show ?thesis using fk_closure_spec [where R = sample_registry and T = "[''school'']"] by simp
qed

theorem seed_tables_spec_witness:
  "seed_tables sample_registry [''school'', ''station''] = Inr [''psgc''] \<and>
   {p. \<exists>t \<in> set [''school'', ''station'']. (fk_edge sample_registry)\<^sup>+\<^sup>+ t p} - set [''school'', ''station'']
     = {''psgc''}"
proof -
  have e: "seed_tables sample_registry [''school'', ''station''] = Inr [''psgc'']" by code_simp
  then show ?thesis using seed_tables_spec [OF e] by simp
qed

end
