(* ===== verification/Dialect.thy ===== *)
theory Dialect
  imports Lrmis_Registry
begin

text \<open>
  \<open>src/dialect/types.py\<close>, \<open>src/dialect/builder.py\<close>, \<open>src/delivery/schema.py\<close> and the
  identifier check of \<open>src/connectors.py\<close>: the generic type system, the coercion of a value
  toward a column's type, and the SQL text each engine's dialect builds. A dialect is a
  record of what the Python subclasses override. The text of a float and the parsing of
  one are runtime parameters.
\<close>

section \<open>Generic types\<close>

datatype generic_type = GString | GInteger | GFloat | GBoolean | GDate | GDateTime | GBinary | GJson | GUuid

instantiation generic_type :: enum
begin

definition "enum_generic_type = [GString, GInteger, GFloat, GBoolean, GDate, GDateTime, GBinary, GJson, GUuid]"

definition "enum_all_generic_type P =
  (P GString \<and> P GInteger \<and> P GFloat \<and> P GBoolean \<and> P GDate \<and> P GDateTime \<and> P GBinary \<and> P GJson \<and> P GUuid)"

definition "enum_ex_generic_type P =
  (P GString \<or> P GInteger \<or> P GFloat \<or> P GBoolean \<or> P GDate \<or> P GDateTime \<or> P GBinary \<or> P GJson \<or> P GUuid)"

instance
proof
  show "(UNIV :: generic_type set) = set enum_class.enum"
    by (auto simp: enum_generic_type_def intro: generic_type.exhaust)
  show "distinct (enum_class.enum :: generic_type list)" by (simp add: enum_generic_type_def)
  fix P :: "generic_type \<Rightarrow> bool"
  show "enum_class.enum_all P = Ball UNIV P"
    by (auto simp: enum_all_generic_type_def) (metis generic_type.exhaust)
  show "enum_class.enum_ex P = Bex UNIV P"
    by (auto simp: enum_ex_generic_type_def) (metis generic_type.exhaust)
qed

end

definition generic_value :: "generic_type \<Rightarrow> string" where
  "generic_value g = (case g of GString \<Rightarrow> ''string'' | GInteger \<Rightarrow> ''integer'' | GFloat \<Rightarrow> ''float''
     | GBoolean \<Rightarrow> ''boolean'' | GDate \<Rightarrow> ''date'' | GDateTime \<Rightarrow> ''datetime'' | GBinary \<Rightarrow> ''binary''
     | GJson \<Rightarrow> ''json'' | GUuid \<Rightarrow> ''uuid'')"

definition mysql_types :: "(string, generic_type) dict" where
  "mysql_types =
    [(''varchar'', GString), (''char'', GString), (''text'', GString), (''tinytext'', GString),
     (''mediumtext'', GString), (''longtext'', GString), (''enum'', GString), (''set'', GString),
     (''int'', GInteger), (''integer'', GInteger), (''bigint'', GInteger), (''smallint'', GInteger),
     (''mediumint'', GInteger), (''tinyint'', GInteger), (''year'', GInteger),
     (''bool'', GBoolean), (''boolean'', GBoolean), (''bit'', GBoolean),
     (''decimal'', GFloat), (''numeric'', GFloat), (''float'', GFloat), (''double'', GFloat), (''real'', GFloat),
     (''date'', GDate), (''datetime'', GDateTime), (''timestamp'', GDateTime),
     (''blob'', GBinary), (''tinyblob'', GBinary), (''mediumblob'', GBinary), (''longblob'', GBinary),
     (''binary'', GBinary), (''varbinary'', GBinary), (''json'', GJson)]"

definition postgres_types :: "(string, generic_type) dict" where
  "postgres_types =
    [(''character varying'', GString), (''varchar'', GString), (''character'', GString), (''char'', GString),
     (''text'', GString), (''citext'', GString), (''name'', GString),
     (''integer'', GInteger), (''int'', GInteger), (''int4'', GInteger), (''bigint'', GInteger),
     (''int8'', GInteger), (''smallint'', GInteger), (''int2'', GInteger), (''serial'', GInteger),
     (''bigserial'', GInteger), (''boolean'', GBoolean), (''bool'', GBoolean),
     (''numeric'', GFloat), (''decimal'', GFloat), (''real'', GFloat), (''double precision'', GFloat),
     (''float4'', GFloat), (''float8'', GFloat), (''date'', GDate),
     (''timestamp without time zone'', GDateTime), (''timestamp with time zone'', GDateTime),
     (''timestamptz'', GDateTime), (''timestamp'', GDateTime), (''bytea'', GBinary),
     (''json'', GJson), (''jsonb'', GJson), (''uuid'', GUuid)]"

text \<open>\<open>(engine or "").strip().lower()\<close>.\<close>

definition engine_key :: "string option \<Rightarrow> string" where
  "engine_key e = str_lower (str_strip (case e of None \<Rightarrow> [] | Some s \<Rightarrow> s))"

definition engine_repr :: "string option \<Rightarrow> string" where
  "engine_repr e = (case e of None \<Rightarrow> ''None'' | Some s \<Rightarrow> str_repr s)"

definition types_by_engine :: "(string, (string, generic_type) dict) dict" where
  "types_by_engine = [(''mysql'', mysql_types), (''mariadb'', mysql_types), (''postgres'', postgres_types),
     (''postgresql'', postgres_types), (''pg'', postgres_types)]"

definition base_name :: "string \<Rightarrow> string" where
  "base_name t = str_lower (str_strip (takeWhile (\<lambda>c. c \<noteq> CHR ''('') t))"

definition native_to_generic :: "string option \<Rightarrow> string \<Rightarrow> generic_type res" where
  "native_to_generic engine t = (case dget types_by_engine (engine_key engine) of
     None \<Rightarrow> Inl (ValueError (''no type map for engine '' @ engine_repr engine))
   | Some m \<Rightarrow> Inr (case dget m (base_name t) of None \<Rightarrow> GString | Some g \<Rightarrow> g))"

definition native_to_generic_any :: "string option \<Rightarrow> generic_type" where
  "native_to_generic_any t =
     (let base = base_name (case t of None \<Rightarrow> [] | Some s \<Rightarrow> s) in
      case dget postgres_types base of
        Some g \<Rightarrow> g
      | None \<Rightarrow> (case dget mysql_types base of Some g \<Rightarrow> g | None \<Rightarrow> GString))"

section \<open>Casting a value\<close>

definition lstrip_minus :: "string \<Rightarrow> string" where
  "lstrip_minus s = dropWhile (\<lambda>c. c = CHR ''-'') s"

definition cast_integer :: "runtime \<Rightarrow> pyval \<Rightarrow> pyval" where
  "cast_integer P v = (case v of
       PBool b \<Rightarrow> PInt (if b then 1 else 0)
     | PInt i \<Rightarrow> v
     | PFloat (Fin q) \<Rightarrow> (if q = of_int \<lfloor>q\<rfloor> then PInt \<lfloor>q\<rfloor> else v)
     | PFloat f \<Rightarrow> v
     | _ \<Rightarrow> (let s = str_strip (py_str P v) in
            if str_isdigit (lstrip_minus s)
            then (case int_of_str s of Inr i \<Rightarrow> PInt i | Inl e \<Rightarrow> v) else v))"

text \<open>\<open>float(value)\<close> of an int too large raises OverflowError, which the handler does not catch.\<close>

definition cast_float :: "runtime \<Rightarrow> pyval \<Rightarrow> pyval res" where
  "cast_float P v = (case v of
       PInt i \<Rightarrow> (case rt_float_of_int P i of
           None \<Rightarrow> Inl (OverflowError ''int too large to convert to float'') | Some f \<Rightarrow> Inr (PFloat f))
     | PFloat f \<Rightarrow> Inr v
     | _ \<Rightarrow> (case rt_float_of_str P (str_strip (py_str P v)) of None \<Rightarrow> Inr v | Some f \<Rightarrow> Inr (PFloat f)))"

definition bool_token :: "string \<Rightarrow> bool option" where
  "bool_token s = (if s \<in> {''true'', ''t'', ''1'', ''yes'', ''y''} then Some True
     else if s \<in> {''false'', ''f'', ''0'', ''no'', ''n'', []} then Some False
     else None)"

definition cast_boolean :: "runtime \<Rightarrow> pyval \<Rightarrow> pyval" where
  "cast_boolean P v = (case v of
       PBool b \<Rightarrow> v
     | PInt i \<Rightarrow> PBool (i \<noteq> 0)
     | _ \<Rightarrow> (case bool_token (str_lower (str_strip (py_str P v))) of Some b \<Rightarrow> PBool b | None \<Rightarrow> v))"

definition cast_value :: "runtime \<Rightarrow> pyval \<Rightarrow> generic_type \<Rightarrow> pyval res" where
  "cast_value P v g =
     (if is_none v then Inr PNone
      else case g of
          GInteger \<Rightarrow> Inr (cast_integer P v)
        | GFloat \<Rightarrow> cast_float P v
        | GBoolean \<Rightarrow> Inr (cast_boolean P v)
        | GString \<Rightarrow> Inr (PStr (py_str P v))
        | _ \<Rightarrow> Inr v)"

section \<open>Identifiers\<close>

definition safe_identifier :: "string \<Rightarrow> string res" where
  "safe_identifier name =
     (if name = [] \<or> \<not> str_isalnum (replace_char (CHR ''_'') [] name)
      then Inl (ValueError (''unsafe identifier: '' @ str_repr name)) else Inr name)"

definition is_safe :: "string \<Rightarrow> bool" where
  "is_safe name = (name \<noteq> [] \<and> str_isalnum (replace_char (CHR ''_'') [] name))"

section \<open>Dialects\<close>

datatype engine_kind = MySQL | Postgres | MSSQL

record dialect =
  d_kind :: engine_kind
  d_engine :: string
  d_returning :: bool
  d_open :: string
  d_close :: string
  d_mark :: string
  d_ddl :: "generic_type \<Rightarrow> string"

definition mysql_ddl :: "generic_type \<Rightarrow> string" where
  "mysql_ddl g = (case g of GString \<Rightarrow> ''TEXT'' | GInteger \<Rightarrow> ''INT'' | GFloat \<Rightarrow> ''DOUBLE''
     | GBoolean \<Rightarrow> ''TINYINT(1)'' | GDate \<Rightarrow> ''DATE'' | GDateTime \<Rightarrow> ''DATETIME'' | GBinary \<Rightarrow> ''BLOB''
     | GJson \<Rightarrow> ''JSON'' | GUuid \<Rightarrow> ''CHAR(36)'')"

definition postgres_ddl :: "generic_type \<Rightarrow> string" where
  "postgres_ddl g = (case g of GString \<Rightarrow> ''TEXT'' | GInteger \<Rightarrow> ''INTEGER'' | GFloat \<Rightarrow> ''DOUBLE PRECISION''
     | GBoolean \<Rightarrow> ''BOOLEAN'' | GDate \<Rightarrow> ''DATE'' | GDateTime \<Rightarrow> ''TIMESTAMP'' | GBinary \<Rightarrow> ''BYTEA''
     | GJson \<Rightarrow> ''JSONB'' | GUuid \<Rightarrow> ''UUID'')"

definition mssql_ddl :: "generic_type \<Rightarrow> string" where
  "mssql_ddl g = (case g of GString \<Rightarrow> ''NVARCHAR(MAX)'' | GInteger \<Rightarrow> ''INT'' | GFloat \<Rightarrow> ''FLOAT''
     | GBoolean \<Rightarrow> ''BIT'' | GDate \<Rightarrow> ''DATE'' | GDateTime \<Rightarrow> ''DATETIME2'' | GBinary \<Rightarrow> ''VARBINARY(MAX)''
     | GJson \<Rightarrow> ''NVARCHAR(MAX)'' | GUuid \<Rightarrow> ''UNIQUEIDENTIFIER'')"

definition mysql_dialect :: dialect where
  "mysql_dialect = \<lparr>d_kind = MySQL, d_engine = ''mysql'', d_returning = False,
     d_open = [bt], d_close = [bt], d_mark = ''%s'', d_ddl = mysql_ddl\<rparr>"

definition postgres_dialect :: dialect where
  "postgres_dialect = \<lparr>d_kind = Postgres, d_engine = ''postgres'', d_returning = True,
     d_open = [dq], d_close = [dq], d_mark = ''%s'', d_ddl = postgres_ddl\<rparr>"

definition mssql_dialect :: dialect where
  "mssql_dialect = \<lparr>d_kind = MSSQL, d_engine = ''mssql'', d_returning = False,
     d_open = ''['', d_close = '']'', d_mark = ''?'', d_ddl = mssql_ddl\<rparr>"

definition get_dialect :: "string option \<Rightarrow> dialect res" where
  "get_dialect engine = (case dget [(''mysql'', mysql_dialect), (''mariadb'', mysql_dialect),
       (''postgres'', postgres_dialect), (''postgresql'', postgres_dialect), (''pg'', postgres_dialect),
       (''mssql'', mssql_dialect), (''sqlserver'', mssql_dialect)] (engine_key engine) of
     None \<Rightarrow> Inl (ValueError (''no dialect for engine '' @ engine_repr engine)) | Some d \<Rightarrow> Inr d)"

definition quote :: "dialect \<Rightarrow> string \<Rightarrow> string res" where
  "quote d n = res_bind (safe_identifier n) (\<lambda>n. Inr (d_open d @ n @ d_close d))"

definition quote_all :: "dialect \<Rightarrow> string list \<Rightarrow> string list res" where
  "quote_all d ns = map_res (quote d) ns"

definition marks :: "dialect \<Rightarrow> string list \<Rightarrow> string" where
  "marks d cols = join '', '' (replicate (length cols) (d_mark d))"

definition insert_sql :: "dialect \<Rightarrow> string \<Rightarrow> string list \<Rightarrow> string res" where
  "insert_sql d table cols =
     res_bind (quote d table) (\<lambda>t. res_bind (quote_all d cols) (\<lambda>cs.
       Inr (''INSERT INTO '' @ t @ '' ('' @ join '', '' cs @ '') VALUES ('' @ marks d cols @ '')'')))"

definition insert_returning_sql :: "dialect \<Rightarrow> string \<Rightarrow> string list \<Rightarrow> string \<Rightarrow> string res" where
  "insert_returning_sql d table cols pk = (case d_kind d of
       Postgres \<Rightarrow> res_bind (insert_sql d table cols) (\<lambda>s. res_bind (quote d pk) (\<lambda>p.
          Inr (s @ '' RETURNING '' @ p)))
     | _ \<Rightarrow> insert_sql d table cols)"

definition truncate_sql :: "dialect \<Rightarrow> string \<Rightarrow> string res" where
  "truncate_sql d table = res_bind (quote d table) (\<lambda>t. Inr (''TRUNCATE TABLE '' @ t))"

definition assign_all :: "(string \<Rightarrow> string) \<Rightarrow> dialect \<Rightarrow> string list \<Rightarrow> string list res" where
  "assign_all f d cols = res_bind (quote_all d cols) (\<lambda>qs. Inr (map f qs))"

definition mysql_upsert :: "dialect \<Rightarrow> string \<Rightarrow> string list \<Rightarrow> string list \<Rightarrow> string res" where
  "mysql_upsert d table cols keys =
     res_bind (assign_all (\<lambda>q. q @ '' = VALUES('' @ q @ '')'') d (filter (\<lambda>c. c \<notin> set keys) cols)) (\<lambda>ups.
     res_bind (if ups \<noteq> [] then Inr ups else (case keys of
         [] \<Rightarrow> Inl (IndexError ''list index out of range'')
       | k # _ \<Rightarrow> res_bind (quote d k) (\<lambda>q. Inr [q @ '' = '' @ q]))) (\<lambda>ups.
     res_bind (insert_sql d table cols) (\<lambda>s.
       Inr (s @ '' ON DUPLICATE KEY UPDATE '' @ join '', '' ups))))"

definition postgres_upsert :: "dialect \<Rightarrow> string \<Rightarrow> string list \<Rightarrow> string list \<Rightarrow> string res" where
  "postgres_upsert d table cols keys =
     (if keys = [] then Inl (ValueError ''Postgres upsert needs at least one conflict key column'')
      else res_bind (quote_all d keys) (\<lambda>ks.
        res_bind (assign_all (\<lambda>q. q @ '' = EXCLUDED.'' @ q) d (filter (\<lambda>c. c \<notin> set keys) cols)) (\<lambda>ups.
        res_bind (insert_sql d table cols) (\<lambda>s.
          Inr (if ups = [] then s @ '' ON CONFLICT ('' @ join '', '' ks @ '') DO NOTHING''
               else s @ '' ON CONFLICT ('' @ join '', '' ks @ '') DO UPDATE SET '' @ join '', '' ups)))))"

definition mssql_upsert :: "dialect \<Rightarrow> string \<Rightarrow> string list \<Rightarrow> string list \<Rightarrow> string res" where
  "mssql_upsert d table cols keys =
     (if keys = [] then Inl (ValueError ''MSSQL MERGE needs at least one key column'')
      else res_bind (quote_all d cols) (\<lambda>cs.
        res_bind (assign_all (\<lambda>q. ''tgt.'' @ q @ '' = src.'' @ q) d keys) (\<lambda>on.
        res_bind (assign_all (\<lambda>q. ''tgt.'' @ q @ '' = src.'' @ q) d (filter (\<lambda>c. c \<notin> set keys) cols)) (\<lambda>ups.
        res_bind (quote d table) (\<lambda>t.
          Inr (''MERGE INTO '' @ t @ '' AS tgt USING (VALUES ('' @ marks d cols @ '')) AS src (''
            @ join '', '' cs @ '') ON '' @ join '' AND '' on @ '' ''
            @ (if ups = [] then [] else ''WHEN MATCHED THEN UPDATE SET '' @ join '', '' ups @ '' '')
            @ ''WHEN NOT MATCHED THEN INSERT ('' @ join '', '' cs @ '') VALUES (''
            @ join '', '' (map (\<lambda>q. ''src.'' @ q) cs) @ '');''))))))"

definition upsert_sql :: "dialect \<Rightarrow> string \<Rightarrow> string list \<Rightarrow> string list \<Rightarrow> string res" where
  "upsert_sql d table cols keys = (case d_kind d of
       MySQL \<Rightarrow> mysql_upsert d table cols keys
     | Postgres \<Rightarrow> postgres_upsert d table cols keys
     | MSSQL \<Rightarrow> mssql_upsert d table cols keys)"

definition uuid_sql :: "dialect \<Rightarrow> string" where
  "uuid_sql d = (case d_kind d of MySQL \<Rightarrow> ''UUID()'' | Postgres \<Rightarrow> ''gen_random_uuid()'' | MSSQL \<Rightarrow> ''NEWID()'')"

section \<open>CREATE TABLE\<close>

record column_spec =
  cs_name :: string
  cs_type :: generic_type
  cs_nullable :: bool

definition nl :: char where "nl = char_of (10 :: nat)"

definition spec_sql :: "dialect \<Rightarrow> column_spec \<Rightarrow> string res" where
  "spec_sql d c = res_bind (quote d (cs_name c)) (\<lambda>q.
     Inr (q @ '' '' @ d_ddl d (cs_type c) @ (if cs_nullable c then [] else '' NOT NULL'')))"

definition create_table_sql ::
  "dialect \<Rightarrow> string \<Rightarrow> column_spec list \<Rightarrow> string list \<Rightarrow> bool \<Rightarrow> string res" where
  "create_table_sql d table cols pks if_not_exists =
     res_bind (map_res (spec_sql d) cols) (\<lambda>parts.
     res_bind (if pks = [] then Inr parts
        else res_bind (quote_all d pks) (\<lambda>qs. Inr (parts @ [''PRIMARY KEY ('' @ join '', '' qs @ '')'']))) (\<lambda>parts.
     res_bind (quote d table) (\<lambda>t.
       Inr (''CREATE TABLE '' @ (if if_not_exists then ''IF NOT EXISTS '' else []) @ t @ '' ('' @ [nl] @ ''  ''
         @ join ('','' @ [nl] @ ''  '') parts @ [nl] @ '')''))))"

definition audit_columns :: "column_spec list" where
  "audit_columns = map (\<lambda>(n, g, nu). \<lparr>cs_name = n, cs_type = g, cs_nullable = nu\<rparr>)
     [(''event_id'', GString, False), (''external_reference'', GString, False),
      (''source_system'', GString, True), (''operation'', GString, True),
      (''source_updated_at'', GDateTime, True), (''mapping_version'', GInteger, True),
      (''payload_checksum'', GString, True), (''active'', GInteger, True), (''accepted_at'', GDateTime, True)]"

definition create_delivery_audit_sql :: "dialect \<Rightarrow> string res" where
  "create_delivery_audit_sql d = create_table_sql d ''delivery_audit'' audit_columns [''event_id''] True"

definition generic_spec :: "string \<Rightarrow> lrmis_column \<Rightarrow> column_spec res" where
  "generic_spec source_engine c =
     res_bind (native_to_generic (Some source_engine) (lc_type c)) (\<lambda>g.
       Inr \<lparr>cs_name = lc_name c, cs_type = g, cs_nullable = lc_nullable c\<rparr>)"

definition table_ddl :: "dialect \<Rightarrow> registry \<Rightarrow> string \<Rightarrow> string \<Rightarrow> string res" where
  "table_ddl d R source_engine name =
     res_bind (reg_table R name) (\<lambda>t.
     res_bind (map_res (generic_spec source_engine) (lt_columns t)) (\<lambda>cols.
       create_table_sql d name cols (primary_key t) True))"

definition create_target_ddl :: "dialect \<Rightarrow> registry \<Rightarrow> string \<Rightarrow> string list res" where
  "create_target_ddl d R source_engine =
     res_bind (topological_order R None) (map_res (table_ddl d R source_engine))"

text \<open>The statements \<open>create_target_schema\<close> executes, in order; it returns their number.\<close>

definition create_target_schema :: "dialect \<Rightarrow> registry \<Rightarrow> string \<Rightarrow> bool \<Rightarrow> string list res" where
  "create_target_schema d R source_engine with_audit =
     res_bind (create_target_ddl d R source_engine) (\<lambda>sts.
       if with_audit then res_bind (create_delivery_audit_sql d) (\<lambda>a. Inr (sts @ [a])) else Inr sts)"

section \<open>Facts\<close>

subsection \<open>Identifiers\<close>

lemma safe_identifier_Inr [simp]: "safe_identifier n = Inr m \<longleftrightarrow> m = n \<and> is_safe n"
  by (auto simp: safe_identifier_def is_safe_def)

lemma set_replace_char: "set (replace_char c [] s) = set s - {c}"
  by (auto simp: replace_char_def)

lemma is_safe_chars: "is_safe n \<Longrightarrow> \<forall>c \<in> set n. is_word c"
  by (auto simp: is_safe_def str_isalnum_def list_all_iff set_replace_char is_word_def)

lemma is_word_quotes: "\<not> is_word bt" "\<not> is_word dq" "\<not> is_word sq" "\<not> is_word (CHR '';'')" "\<not> is_word (CHR '']'')"
  by code_simp+

lemma quote_Inr [simp]: "quote d n = Inr q \<longleftrightarrow> is_safe n \<and> q = d_open d @ n @ d_close d"
  by (auto simp: quote_def res_bind_Inr_iff)

lemma quote_all_Inr: "quote_all d ns = Inr qs \<longleftrightarrow> (\<forall>n \<in> set ns. is_safe n) \<and> qs = map (\<lambda>n. d_open d @ n @ d_close d) ns"
  unfolding quote_all_def
  by (induction ns arbitrary: qs) (auto simp: res_bind_Inr_iff)

lemma quote_all_ex: "(\<exists>qs. quote_all d ns = Inr qs) \<longleftrightarrow> (\<forall>n \<in> set ns. is_safe n)"
  by (simp add: quote_all_Inr)

lemma assign_all_Inr: "assign_all f d ns = Inr qs \<longleftrightarrow> (\<forall>n \<in> set ns. is_safe n)
    \<and> qs = map (\<lambda>n. f (d_open d @ n @ d_close d)) ns"
  by (auto simp: assign_all_def res_bind_Inr_iff quote_all_Inr comp_def)

lemma insert_sql_Inr: "insert_sql d t cols = Inr s \<longleftrightarrow> is_safe t \<and> (\<forall>c \<in> set cols. is_safe c)
    \<and> s = ''INSERT INTO '' @ (d_open d @ t @ d_close d) @ '' (''
      @ join '', '' (map (\<lambda>n. d_open d @ n @ d_close d) cols) @ '') VALUES ('' @ marks d cols @ '')''"
  by (auto simp: insert_sql_def res_bind_Inr_iff quote_all_Inr)

text \<open>
  A name a dialect quotes consists of letters, digits and underscores only, so no quote
  character, bracket or semicolon of it can end the quoted identifier.
\<close>

theorem quote_cannot_escape:
  "quote d n = Inr q \<longleftrightarrow> n \<noteq> [] \<and> (\<exists>c \<in> set n. c \<noteq> CHR ''_'') \<and> (\<forall>c \<in> set n. is_word c)
     \<and> q = d_open d @ n @ d_close d"
proof -
  have "is_safe n \<longleftrightarrow> n \<noteq> [] \<and> (\<exists>c \<in> set n. c \<noteq> CHR ''_'') \<and> (\<forall>c \<in> set n. is_word c)"
    using set_replace_char [of "CHR ''_''" n]
    by (auto simp: is_safe_def str_isalnum_def list_all_iff is_word_def set_empty [symmetric] simp del: set_empty)
  then show ?thesis by auto
qed

text \<open>
  An upsert statement is built exactly when every name it would contain is safe and the
  engine has the conflict key it needs; otherwise the call raises and no SQL exists.
\<close>

theorem upsert_sql_iff_safe:
  "(\<exists>s. upsert_sql d t cols keys = Inr s) \<longleftrightarrow>
     is_safe t \<and> (\<forall>c \<in> set cols. is_safe c)
     \<and> (if d_kind d = MySQL then set cols \<subseteq> set keys \<longrightarrow> keys \<noteq> [] \<and> is_safe (hd keys)
        else keys \<noteq> [] \<and> (\<forall>k \<in> set keys. is_safe k))"
proof -
  have mysql: "(\<exists>s. mysql_upsert d t cols keys = Inr s) \<longleftrightarrow>
     is_safe t \<and> (\<forall>c \<in> set cols. is_safe c) \<and> (set cols \<subseteq> set keys \<longrightarrow> keys \<noteq> [] \<and> is_safe (hd keys))"
    by (cases keys; cases "set cols \<subseteq> set keys")
      (auto simp: mysql_upsert_def res_bind_Inr_iff assign_all_Inr insert_sql_Inr filter_empty_conv subset_iff
        intro: exI split: if_splits)
  show ?thesis
    using mysql
    by (cases "d_kind d")
      (auto simp: upsert_sql_def postgres_upsert_def mssql_upsert_def res_bind_Inr_iff assign_all_Inr
        insert_sql_Inr quote_all_Inr)
qed

subsection \<open>Types\<close>

lemma engine_keys:
  "engine_key (Some ''postgres'') = ''postgres''" "engine_key (Some ''mysql'') = ''mysql''"
  by code_simp+

lemma base_names:
  "base_name ''TEXT'' = ''text''" "base_name ''INTEGER'' = ''integer''" "base_name ''INT'' = ''int''"
  "base_name ''DOUBLE PRECISION'' = ''double precision''" "base_name ''DOUBLE'' = ''double''"
  "base_name ''BOOLEAN'' = ''boolean''" "base_name ''TINYINT(1)'' = ''tinyint''" "base_name ''DATE'' = ''date''"
  "base_name ''TIMESTAMP'' = ''timestamp''" "base_name ''DATETIME'' = ''datetime''"
  "base_name ''BYTEA'' = ''bytea''" "base_name ''BLOB'' = ''blob''" "base_name ''JSONB'' = ''jsonb''"
  "base_name ''JSON'' = ''json''" "base_name ''UUID'' = ''uuid''" "base_name ''CHAR(36)'' = ''char''"
  by code_simp+

text \<open>
  Creating a column and discovering it again keeps its generic type on Postgres for
  every type, and on MySQL for every type but BOOLEAN (read back as INTEGER) and UUID
  (read back as STRING).
\<close>

theorem generic_ddl_roundtrip:
  "native_to_generic (Some ''postgres'') (d_ddl postgres_dialect g) = Inr g \<and>
   native_to_generic (Some ''mysql'') (d_ddl mysql_dialect g)
     = Inr (case g of GBoolean \<Rightarrow> GInteger | GUuid \<Rightarrow> GString | _ \<Rightarrow> g)"
  by (cases g) (simp_all add: native_to_generic_def engine_keys base_names types_by_engine_def
      postgres_types_def mysql_types_def dget_def postgres_dialect_def mysql_dialect_def
      postgres_ddl_def mysql_ddl_def)

text \<open>No engine name that has a type map lacks a dialect, but the MSSQL dialect has no type map.\<close>

lemma mssql_has_no_types:
  "native_to_generic (Some (d_engine mssql_dialect)) t = Inl (ValueError (''no type map for engine '' @ str_repr ''mssql''))"
proof -
  have "dget types_by_engine (engine_key (Some (d_engine mssql_dialect))) = None" by code_simp
  then show ?thesis by (simp add: native_to_generic_def engine_repr_def mssql_dialect_def)
qed

lemma cast_integer_cases: "cast_integer P v = v \<or> (\<exists>i. cast_integer P v = PInt i)"
  by (auto simp: cast_integer_def Let_def split: pyval.splits pyfloat.splits sum.splits)

lemma cast_boolean_cases: "cast_boolean P v = v \<or> (\<exists>b. cast_boolean P v = PBool b)"
  by (auto simp: cast_boolean_def split: pyval.splits option.splits)

text \<open>
  Casting toward a column type is idempotent: a value already cast is left alone, so a
  row may pass through the cast any number of times.
\<close>

theorem cast_value_idem:
  assumes "cast_value P v g = Inr w"
  shows "cast_value P w g = Inr w"
proof (cases g)
  case GInteger
  have i: "cast_integer P (PInt i) = PInt i" for i by (simp add: cast_integer_def)
  show ?thesis using assms GInteger cast_integer_cases [of P v] i
    by (auto simp: cast_value_def is_none_def split: if_splits)
next
  case GBoolean
  have b: "cast_boolean P (PBool b) = PBool b" for b by (simp add: cast_boolean_def)
  show ?thesis using assms GBoolean cast_boolean_cases [of P v] b
    by (auto simp: cast_value_def is_none_def split: if_splits)
next
  case GFloat
  then show ?thesis using assms
    by (cases v) (auto simp: cast_value_def is_none_def cast_float_def split: if_splits option.splits)
next
  case GString
  then show ?thesis using assms by (auto simp: cast_value_def is_none_def split: if_splits)
qed (use assms in \<open>auto simp: cast_value_def is_none_def split: if_splits\<close>)

text \<open>
  The integer cast never changes what a value says: the result is the value itself or
  the integer it denotes (a bool, an integral float, or text that \<open>int()\<close> reads).
\<close>

theorem cast_integer_lossless:
  "cast_value P v GInteger = Inr v \<or>
   (\<exists>i. cast_value P v GInteger = Inr (PInt i) \<and>
     (v = PBool (i = 1) \<and> i \<in> {0, 1} \<or> v = PFloat (Fin (of_int i)) \<or> int_of_str (str_strip (py_str P v)) = Inr i))"
  by (auto simp: cast_value_def is_none_def cast_integer_def Let_def split: pyval.splits pyfloat.splits sum.splits)

subsection \<open>CREATE TABLE\<close>

definition create_head :: "dialect \<Rightarrow> string \<Rightarrow> string" where
  "create_head d t = ''CREATE TABLE IF NOT EXISTS '' @ d_open d @ t @ d_close d @ '' (''"

lemma create_table_sql_prefix:
  "create_table_sql d t cols pks True = Inr s \<Longrightarrow> starts_with (create_head d t) s"
  unfolding create_table_sql_def starts_with_iff create_head_def by (auto simp: res_bind_Inr_iff)

text \<open>
  The target DDL has one CREATE TABLE per table of the registry, and a table comes after
  every table its foreign keys refer to.
\<close>

theorem create_target_ddl_order:
  assumes "wf_dict R" and "create_target_ddl d R e = Inr sts"
  shows "\<exists>os. distinct os \<and> set os = set (dkeys R) \<and> length sts = length os
    \<and> (\<forall>k < length os. starts_with (create_head d (os ! k)) (sts ! k)
        \<and> (\<forall>p \<in> set os. fk_edge R (os ! k) p \<longrightarrow> p \<in> set (take k os)))"
proof -
  obtain os where os: "topological_order R None = Inr os"
    and m: "map_res (table_ddl d R e) os = Inr sts"
    using assms(2) by (auto simp: create_target_ddl_def res_bind_Inr_iff)
  have "topological_order R (Some (dkeys R)) = Inr os" using os by (simp add: topological_order_def)
  then have spec: "distinct os \<and> set os = set (dkeys R)
      \<and> (\<forall>k < length os. \<forall>p \<in> set (dkeys R). fk_edge R (os ! k) p \<longrightarrow> p \<in> set (take k os))"
    using topological_order_Inr [of "dkeys R" R os] assms(1) by (simp add: wf_dict_def dkeys_def)
  have "starts_with (create_head d (os ! k)) (sts ! k)"
    if "k < length os" for k
  proof -
    from m that obtain x xa where "create_table_sql d (os ! k) xa (primary_key x) True = Inr (sts ! k)"
      unfolding map_res_Inr_iff list_all2_conv_all_nth table_ddl_def res_bind_Inr_iff by blast
    then show ?thesis by (rule create_table_sql_prefix)
  qed
  with spec map_res_length [OF m] show ?thesis by (intro exI [of _ os]) auto
qed

section \<open>Examples\<close>

theorem quote_cannot_escape_witness:
  "quote mysql_dialect ''school_id'' = Inr ([bt] @ ''school_id'' @ [bt]) \<and>
   (\<nexists>q. quote mysql_dialect ([bt] @ ''; DROP'') = Inr q)"
proof -
  have a: "''school_id'' \<noteq> [] \<and> list_ex (\<lambda>c. c \<noteq> CHR ''_'') ''school_id'' \<and> list_all is_word ''school_id''"
    and b: "\<not> list_all is_word ([bt] @ ''; DROP'')" and m: "d_open mysql_dialect = [bt]" "d_close mysql_dialect = [bt]"
    by code_simp+
  show ?thesis
    using a b quote_cannot_escape [of mysql_dialect] unfolding m list_ex_iff list_all_iff by blast
qed

theorem upsert_sql_iff_safe_witness:
  "(\<exists>s. upsert_sql postgres_dialect ''delivery_audit'' [''event_id'', ''active''] [''event_id''] = Inr s) \<and>
   (\<nexists>s. upsert_sql postgres_dialect ''delivery_audit'' [''event_id'', ''active''] [] = Inr s)"
proof -
  have a: "is_safe ''delivery_audit'' \<and> is_safe ''event_id'' \<and> is_safe ''active''" and k: "d_kind postgres_dialect = Postgres"
    by code_simp+
  show ?thesis
    unfolding upsert_sql_iff_safe k using a by (simp del: char.inject)
qed

theorem cast_value_idem_witness:
  "cast_value sample_runtime (PStr '' -12 '') GInteger = Inr (PInt (- 12)) \<and>
   cast_value sample_runtime (PInt (- 12)) GInteger = Inr (PInt (- 12))"
proof -
  have e: "cast_value sample_runtime (PStr '' -12 '') GInteger = Inr (PInt (- 12))" by code_simp
  then show ?thesis using cast_value_idem [OF e] by simp
qed

definition small_registry :: registry where
  "small_registry = [mk_table ''b'' [(''id'', True)] [(''id'', ''a'')], mk_table ''a'' [(''id'', True)] []]"

lemma sample_ddl_ok: "\<exists>sts. create_target_ddl postgres_dialect small_registry ''mysql'' = Inr sts"
proof -
  have "case create_target_ddl postgres_dialect small_registry ''mysql'' of Inl e \<Rightarrow> False | Inr sts \<Rightarrow> True"
    by code_simp
  then show ?thesis by (auto dest: case_res_InrD)
qed

theorem create_target_ddl_order_witness:
  "\<exists>sts os. create_target_ddl postgres_dialect small_registry ''mysql'' = Inr sts \<and> distinct os
     \<and> set os = {''b'', ''a''} \<and> length sts = length os
     \<and> starts_with (create_head postgres_dialect (os ! 0)) (sts ! 0)"
proof -
  obtain sts where s: "create_target_ddl postgres_dialect small_registry ''mysql'' = Inr sts"
    using sample_ddl_ok by blast
  have w: "wf_dict small_registry" and k: "dkeys small_registry = [''b'', ''a'']" by code_simp+
  have keys: "set (dkeys small_registry) = {''b'', ''a''}" unfolding k by (simp only: set_simps)
  obtain os where os: "distinct os \<and> set os = {''b'', ''a''} \<and> length sts = length os
      \<and> (\<forall>k < length os. starts_with (create_head postgres_dialect (os ! k)) (sts ! k)
        \<and> (\<forall>p \<in> set os. fk_edge small_registry (os ! k) p \<longrightarrow> p \<in> set (take k os)))"
    using create_target_ddl_order [OF w s, unfolded keys] ..
  have "os \<noteq> []" using os [THEN conjunct2, THEN conjunct1] by (metis empty_not_insert set_empty)
  then have "0 < length os" by simp
  with os [THEN conjunct2, THEN conjunct2, THEN conjunct2]
  have "starts_with (create_head postgres_dialect (os ! 0)) (sts ! 0)" by (elim allE [of _ 0]) (simp only: simp_thms)
  then show ?thesis using s os [THEN conjunct1] os [THEN conjunct2, THEN conjunct1]
      os [THEN conjunct2, THEN conjunct2, THEN conjunct1] by (intro exI [of _ sts] exI [of _ os] conjI)
qed

end
