(* ===== verification/Mapping_Engine.thy ===== *)
theory Mapping_Engine
  imports Dialect Transform_Engine
begin

text \<open>
  \<open>src/mapping_engine.py\<close>: the prompt, the reading of a provider's answer, the rate-limit
  retry of an OpenAI-compatible call, the provider order with its failover, the offline
  name-similarity mapping and the cache. The services behind the providers are parameters:
  a provider is a function from the prompt to its parsed answer or its exception, an HTTP
  endpoint a function from the attempt number to its reply; the environment is a lookup.
\<close>

section \<open>Field mappings\<close>

record field_mapping =
  fm_source :: pyval
  fm_table :: pyval
  fm_column :: pyval
  fm_confidence :: pyfloat
  fm_transform :: pyval
  fm_reasoning :: pyval

definition fm_to_dict :: "field_mapping \<Rightarrow> pyval" where
  "fm_to_dict m = PDict [(''source_column'', fm_source m), (''target_table'', fm_table m),
     (''target_column'', fm_column m), (''confidence'', PFloat (fm_confidence m)),
     (''transform'', fm_transform m), (''reasoning'', fm_reasoning m)]"

definition mapping_to_dicts :: "field_mapping list \<Rightarrow> pyval list" where
  "mapping_to_dicts ms = map fm_to_dict ms"

section \<open>The prompt\<close>

definition format_column :: "column \<Rightarrow> string" where
  "format_column c = ''  - '' @ col_name c @ '': '' @ col_type c @ '' [''
     @ generic_value (native_to_generic_any (Some (col_type c))) @ '']''
     @ (if col_nullable c then [] else '' NOT NULL'')
     @ (if col_description c = [] then [] else '' -- '' @ col_description c)"

definition format_columns :: "table \<Rightarrow> string" where
  "format_columns t = join [nl] (map format_column (tab_columns t))"

definition format_target_tables :: "schema \<Rightarrow> string" where
  "format_target_tables s =
     join [nl, nl] (map (\<lambda>t. ''Table: '' @ tab_name t @ [nl] @ format_columns t) (sch_tables s))"

definition prompt_text :: "table \<Rightarrow> schema \<Rightarrow> string" where
  "prompt_text source target = join [nl]
     [''You are mapping fields between two database schemas for a data migration.'', [],
      ''SOURCE TABLE (ours): '' @ tab_name source, ''Columns:'', format_columns source, [],
      ''CANDIDATE TARGET TABLES (theirs):'', format_target_tables target, [],
      ''For EACH source column, propose the single best matching target table + column,'',
      ''a confidence score from 0.0 to 1.0, any transform needed (type cast, date format,'',
      ''enum value remap, unit conversion), and a one-sentence reason.'', [],
      ''If no reasonable match exists for a column, set target_table and target_column to null'',
      ''and confidence to 0.0.'', [],
      ''Use only these transform forms: none, trim, cast:date->datetime,'',
      ''cast:str->int, cast:int->str, or enum_remap:<JSON object>.'', []]"

section \<open>Reading an answer\<close>

definition get_or :: "row \<Rightarrow> string \<Rightarrow> pyval \<Rightarrow> pyval" where
  "get_or it k d = (if truthy (row_get it k) then row_get it k else d)"

text \<open>\<open>float(v)\<close>: TypeError and ValueError give 0.0, OverflowError is not caught.\<close>

definition coerce_confidence :: "runtime \<Rightarrow> pyval \<Rightarrow> pyfloat res" where
  "coerce_confidence P v = (case v of
       PFloat f \<Rightarrow> Inr f
     | PBool b \<Rightarrow> Inr (Fin (if b then 1 else 0))
     | PInt i \<Rightarrow> (case rt_float_of_int P i of
           None \<Rightarrow> Inl (OverflowError ''int too large to convert to float'') | Some f \<Rightarrow> Inr f)
     | PStr s \<Rightarrow> Inr (case rt_float_of_str P s of None \<Rightarrow> Fin 0 | Some f \<Rightarrow> f)
     | _ \<Rightarrow> Inr (Fin 0))"

definition coerce_item :: "runtime \<Rightarrow> pyval \<Rightarrow> field_mapping res" where
  "coerce_item P v = (case v of
       PDict it \<Rightarrow> res_bind (coerce_confidence P (get_or it ''confidence'' (PFloat (Fin 0)))) (\<lambda>conf.
         Inr \<lparr>fm_source = row_get it ''source_column'', fm_table = row_get it ''target_table'',
              fm_column = row_get it ''target_column'', fm_confidence = conf,
              fm_transform = get_or it ''transform'' (PStr ''none''),
              fm_reasoning = get_or it ''reasoning'' (PStr [])\<rparr>)
     | _ \<Rightarrow> Inl (AttributeError (quoted (type_name v) @ '' object has no attribute '' @ quoted ''get'')))"

text \<open>What a \<open>for\<close> loop over the parsed answer sees.\<close>

definition answer_items :: "pyval \<Rightarrow> pyval list res" where
  "answer_items v = (case v of
       PList vs \<Rightarrow> Inr vs
     | PStr s \<Rightarrow> Inr (map (\<lambda>c. PStr [c]) s)
     | PDict kvs \<Rightarrow> Inr (map (\<lambda>kv. PStr (fst kv)) kvs)
     | _ \<Rightarrow> Inl (TypeError (quoted (type_name v) @ '' object is not iterable'')))"

definition fence :: string where "fence = [bt, bt, bt]"

text \<open>The text before the first occurrence of \<open>p\<close>.\<close>

fun before_sub :: "string \<Rightarrow> string \<Rightarrow> string option" where
  "before_sub p [] = (if p = [] then Some [] else None)"
| "before_sub p (c # cs) = (if starts_with p (c # cs) then Some [] else map_option ((#) c) (before_sub p cs))"

definition unfence :: "string \<Rightarrow> string" where
  "unfence text =
     (if starts_with fence text then
        (let inner = (case before_sub fence (drop 3 text) of
             Some m \<Rightarrow> m | None \<Rightarrow> strip_chars [bt] text)
         in str_strip (if starts_with ''json'' inner then drop 4 inner else inner))
      else text)"

definition extract_array :: "runtime \<Rightarrow> string \<Rightarrow> pyval res" where
  "extract_array P content =
     res_bind (rt_json_loads P (unfence (str_strip content))) (\<lambda>data. case data of
         PDict kvs \<Rightarrow> Inr (case find (\<lambda>v. case v of PList vs \<Rightarrow> True | _ \<Rightarrow> False) (map snd kvs) of
             Some v \<Rightarrow> v | None \<Rightarrow> PList [])
       | _ \<Rightarrow> Inr data)"

section \<open>An OpenAI-compatible call\<close>

datatype http_reply = HttpOk pyval | HttpError int "string option" | HttpFail exn

definition at_index0 :: "pyval \<Rightarrow> pyval res" where
  "at_index0 v = (case v of
       PList (x # xs) \<Rightarrow> Inr x
     | PList [] \<Rightarrow> Inl (IndexError ''list index out of range'')
     | PDict kvs \<Rightarrow> Inl (KeyError ''0'')
     | _ \<Rightarrow> Inl (TypeError (quoted (type_name v) @ '' object is not subscriptable'')))"

text \<open>\<open>out["choices"][0]["message"]["content"]\<close>.\<close>

definition reply_content :: "pyval \<Rightarrow> string res" where
  "reply_content out =
     res_bind (as_dict out) (\<lambda>d1. res_bind (item d1 ''choices'') (\<lambda>c. res_bind (at_index0 c) (\<lambda>m.
     res_bind (as_dict m) (\<lambda>d2. res_bind (item d2 ''message'') (\<lambda>m2. res_bind (as_dict m2) (\<lambda>d3.
     res_bind (item d3 ''content'') as_str))))))"

definition float_less :: "pyfloat \<Rightarrow> pyfloat \<Rightarrow> bool" where
  "float_less a b = (case (a, b) of
       (Fin x, Fin y) \<Rightarrow> x < y
     | (Inf n, Inf m) \<Rightarrow> n \<and> \<not> m
     | (Inf n, Fin y) \<Rightarrow> n
     | (Fin x, Inf m) \<Rightarrow> \<not> m
     | _ \<Rightarrow> False)"

definition float_ge :: "pyfloat \<Rightarrow> pyfloat \<Rightarrow> bool" where
  "float_ge a b = (a \<noteq> NaN \<and> b \<noteq> NaN \<and> \<not> float_less a b)"

text \<open>\<open>min(wait, 30)\<close> with the wait the server asks for, or 8 seconds more for each attempt.\<close>

definition retry_wait :: "runtime \<Rightarrow> nat \<Rightarrow> string option \<Rightarrow> pyfloat" where
  "retry_wait P attempt header =
     (let wait = (case Option.bind header (rt_float_of_str P) of
          Some f \<Rightarrow> f | None \<Rightarrow> Fin (8 * (of_nat attempt + 1)))
      in if float_less (Fin 30) wait then Fin 30 else wait)"

text \<open>\<open>fuel\<close> is the number of retries left; the second component lists the waits.\<close>

fun call_loop :: "runtime \<Rightarrow> (nat \<Rightarrow> http_reply) \<Rightarrow> nat \<Rightarrow> nat \<Rightarrow> pyval res \<times> pyfloat list" where
  "call_loop P http attempt 0 = (case http attempt of
       HttpOk out \<Rightarrow> (res_bind (reply_content out) (extract_array P), [])
     | HttpError code h \<Rightarrow> (Inl (RuntimeError (''HTTP Error '' @ int_str code)), [])
     | HttpFail e \<Rightarrow> (Inl e, []))"
| "call_loop P http attempt (Suc left) = (case http attempt of
       HttpOk out \<Rightarrow> (res_bind (reply_content out) (extract_array P), [])
     | HttpError code h \<Rightarrow>
         (if code = 429
          then (case call_loop P http (Suc attempt) left of (r, ws) \<Rightarrow> (r, retry_wait P attempt h # ws))
          else (Inl (RuntimeError (''HTTP Error '' @ int_str code)), []))
     | HttpFail e \<Rightarrow> (Inl e, []))"

definition call_openai_compatible :: "runtime \<Rightarrow> (nat \<Rightarrow> http_reply) \<Rightarrow> nat \<Rightarrow> pyval res \<times> pyfloat list" where
  "call_openai_compatible P http retries = call_loop P http 0 retries"

section \<open>Providers\<close>

datatype provider_config = GeminiProvider | OpenAICompatible string string string

type_synonym environment = "string \<Rightarrow> string option"

definition provider_defaults :: "(string, string \<times> string) dict" where
  "provider_defaults =
     [(''groq'', (''https://api.groq.com/openai/v1'', ''llama-3.3-70b-versatile'')),
      (''cerebras'', (''https://api.cerebras.ai/v1'', ''llama-3.3-70b'')),
      (''openrouter'', (''https://openrouter.ai/api/v1'', ''meta-llama/llama-3.3-70b-instruct'')),
      (''mistral'', (''https://api.mistral.ai/v1'', ''mistral-small-latest'')),
      (''fallback'', (''https://api.groq.com/openai/v1'', ''llama-3.3-70b-versatile''))]"

text \<open>\<open>a or b\<close> on environment values: unset and empty both count as absent.\<close>

definition env_or :: "string option \<Rightarrow> string option \<Rightarrow> string option" where
  "env_or a b = (if blank a then b else a)"

definition rstrip_slash :: "string \<Rightarrow> string" where
  "rstrip_slash s = rev (dropWhile (\<lambda>c. c = CHR ''/'') (rev s))"

definition make_provider :: "environment \<Rightarrow> string \<Rightarrow> bool \<Rightarrow> provider_config option" where
  "make_provider env name0 has_client =
     (let name = str_lower (str_strip name0) in
      if name = ''gemini'' then
        (if \<not> has_client \<and> blank (env_or (env ''GOOGLE_API_KEY'') (env ''GEMINI_API_KEY''))
         then None else Some GeminiProvider)
      else
        (let e = str_upper name;
             fb = (\<lambda>k. if name = ''fallback'' then env k else None);
             key = env_or (env (e @ ''_API_KEY'')) (fb ''FALLBACK_LLM_API_KEY'');
             dflt = dget provider_defaults name;
             base = env_or (env (e @ ''_BASE_URL'')) (env_or (fb ''FALLBACK_LLM_BASE_URL'')
               (env_or (map_option fst dflt) (Some ''https://api.groq.com/openai/v1'')));
             model = env_or (env (e @ ''_MODEL'')) (env_or (fb ''FALLBACK_LLM_MODEL'')
               (env_or (map_option snd dflt) (Some ''llama-3.3-70b-versatile'')))
         in if blank key then None
            else Some (OpenAICompatible (rstrip_slash (the base)) (the key) (the model))))"

section \<open>The offline mapping\<close>

definition norm_name :: "string \<Rightarrow> string" where
  "norm_name n = replace_char (CHR '' '') [] (replace_char (CHR ''_'') [] (str_lower n))"

definition target_columns :: "schema \<Rightarrow> (string \<times> string \<times> string) list" where
  "target_columns s = concat (map (\<lambda>t. map (\<lambda>c. (tab_name t, col_name c, norm_name (col_name c))) (tab_columns t)) (sch_tables s))"

definition exact_match :: "string \<Rightarrow> (string \<times> string \<times> string) list \<Rightarrow> (string \<times> string) option" where
  "exact_match n targets = map_option (\<lambda>(t, c, _). (t, c)) (find (\<lambda>(t, c, nc). nc = n) targets)"

definition near_match :: "string \<Rightarrow> (string \<times> string \<times> string) list \<Rightarrow> (string \<times> string) option" where
  "near_match n targets = map_option (\<lambda>(t, c, _). (t, c))
     (find (\<lambda>(t, c, nc). n \<noteq> [] \<and> (str_in n nc \<or> str_in nc n)) targets)"

definition heuristic_column :: "(string \<times> string \<times> string) list \<Rightarrow> column \<Rightarrow> field_mapping" where
  "heuristic_column targets col =
     (let n = norm_name (col_name col);
          exact = exact_match n targets;
          near = (case exact of Some m \<Rightarrow> Some m | None \<Rightarrow> near_match n targets)
      in case near of
           Some (tn, cn) \<Rightarrow> \<lparr>fm_source = PStr (col_name col), fm_table = PStr tn, fm_column = PStr cn,
             fm_confidence = Fin (if exact \<noteq> None then 6 / 10 else 5 / 10),
             fm_transform = PStr ''none'', fm_reasoning = PStr ''heuristic name match''\<rparr>
         | None \<Rightarrow> \<lparr>fm_source = PStr (col_name col), fm_table = PNone, fm_column = PNone,
             fm_confidence = Fin 0, fm_transform = PStr ''none'', fm_reasoning = PStr ''no heuristic match''\<rparr>)"

definition heuristic_mapping :: "table \<Rightarrow> schema \<Rightarrow> field_mapping list" where
  "heuristic_mapping source target = map (heuristic_column (target_columns target)) (tab_columns source)"

section \<open>Proposing a mapping\<close>

type_synonym provider = "string \<Rightarrow> pyval res"

definition read_answer :: "runtime \<Rightarrow> pyval res \<Rightarrow> field_mapping list res" where
  "read_answer P a = res_bind (res_bind a answer_items) (map_res (coerce_item P))"

definition is_heuristic :: "string \<Rightarrow> bool" where
  "is_heuristic name = (str_lower (str_strip name) = ''heuristic'')"

text \<open>The dashes of the messages are written in ASCII.\<close>

definition no_provider_error :: exn where
  "no_provider_error = RuntimeError (''no LLM provider configured -- set LLM_PROVIDER_ORDER and the matching ''
     @ ''<NAME>_API_KEY (e.g. GROQ_API_KEY), or add '' @ quoted ''heuristic''
     @ '' to LLM_PROVIDER_ORDER to map offline without an API key'')"

fun try_providers ::
  "runtime \<Rightarrow> (string \<Rightarrow> provider option) \<Rightarrow> table \<Rightarrow> schema \<Rightarrow> string list \<Rightarrow> nat \<Rightarrow> string list
    \<Rightarrow> field_mapping list res" where
  "try_providers P mk src tgt errors tried [] =
     (if tried = 0 then Inl no_provider_error
      else Inl (RuntimeError (''all mapping providers failed -- '' @ join '' | '' errors)))"
| "try_providers P mk src tgt errors tried (name # names) =
     (if is_heuristic name then Inr (heuristic_mapping src tgt)
      else case mk name of
          None \<Rightarrow> try_providers P mk src tgt errors tried names
        | Some p \<Rightarrow> (case read_answer P (p (prompt_text src tgt)) of
              Inr ms \<Rightarrow> Inr ms
            | Inl e \<Rightarrow> try_providers P mk src tgt
                (errors @ [str_strip name @ '': '' @ exn_str e]) (tried + 1) names))"

definition provider_order :: "environment \<Rightarrow> string list" where
  "provider_order env = filter (\<lambda>n. str_strip n \<noteq> [])
     (split_on (CHR '','') (case env ''LLM_PROVIDER_ORDER'' of None \<Rightarrow> ''gemini,fallback'' | Some o' \<Rightarrow> o'))"

text \<open>The cache key hashes names and types only; the hash is the parameter \<open>h\<close>.\<close>

type_synonym key_parts = "(string \<times> (string \<times> string) list) \<times> (string \<times> (string \<times> string) list) list"

definition table_key :: "table \<Rightarrow> string \<times> (string \<times> string) list" where
  "table_key t = (tab_name t, map (\<lambda>c. (col_name c, col_type c)) (tab_columns t))"

definition cache_key :: "(key_parts \<Rightarrow> int) \<Rightarrow> table \<Rightarrow> schema \<Rightarrow> int" where
  "cache_key h src tgt = h (table_key src, map table_key (sch_tables tgt))"

definition propose_mapping ::
  "runtime \<Rightarrow> (key_parts \<Rightarrow> int) \<Rightarrow> environment \<Rightarrow> (string \<Rightarrow> provider option) \<Rightarrow> table \<Rightarrow> schema
    \<Rightarrow> (int, field_mapping list) dict option \<Rightarrow> (field_mapping list \<times> (int, field_mapping list) dict option) res" where
  "propose_mapping P h env mk src tgt cache = (case cache of
       None \<Rightarrow> res_bind (try_providers P mk src tgt [] 0 (provider_order env)) (\<lambda>ms. Inr (ms, None))
     | Some d \<Rightarrow> (case dget d (cache_key h src tgt) of
          Some ms \<Rightarrow> Inr (ms, cache)
        | None \<Rightarrow> res_bind (try_providers P mk src tgt [] 0 (provider_order env)) (\<lambda>ms.
            Inr (ms, Some (dput (cache_key h src tgt) ms d)))))"

section \<open>Facts\<close>

text \<open>Removing every sample value from a schema.\<close>

definition no_samples :: "table \<Rightarrow> table" where
  "no_samples t = t\<lparr>tab_columns := map (\<lambda>c. c\<lparr>col_samples := []\<rparr>) (tab_columns t)\<rparr>"

lemma format_columns_no_samples [simp]: "format_columns (no_samples t) = format_columns t"
proof -
  have "format_column (c\<lparr>col_samples := []\<rparr>) = format_column c" for c
    by (cases "col_description c = []") (simp_all add: format_column_def)
  then show ?thesis by (simp add: format_columns_def no_samples_def comp_def)
qed

text \<open>
  The prompt sent to a provider never depends on row data: it is the same for the
  schemas with every sample value removed.
\<close>

theorem prompt_carries_no_samples:
  "prompt_text (no_samples src) (tgt\<lparr>sch_tables := map no_samples (sch_tables tgt)\<rparr>) = prompt_text src tgt"
proof -
  have n: "tab_name (no_samples t) = tab_name t" for t by (simp add: no_samples_def)
  have t: "format_target_tables (tgt\<lparr>sch_tables := map no_samples (sch_tables tgt)\<rparr>) = format_target_tables tgt"
    by (simp add: format_target_tables_def comp_def n)
  show ?thesis unfolding prompt_text_def t n format_columns_no_samples ..
qed

lemma find_someD: "find Q xs = Some x \<Longrightarrow> x \<in> set xs \<and> Q x"
  by (induction xs) (auto split: if_splits)

lemma heuristic_column_cases:
  obtains (matched) t c where "t \<in> set (sch_tables s)" and "c \<in> set (tab_columns t)"
      and "fm_table (heuristic_column (target_columns s) col) = PStr (tab_name t)"
      and "fm_column (heuristic_column (target_columns s) col) = PStr (col_name c)"
      and "fm_confidence (heuristic_column (target_columns s) col) = Fin (6 / 10) \<longleftrightarrow> norm_name (col_name c) = norm_name (col_name col)"
      and "fm_confidence (heuristic_column (target_columns s) col) \<in> {Fin (5 / 10), Fin (6 / 10)}"
    | (unmatched) "fm_table (heuristic_column (target_columns s) col) = PNone"
      and "fm_column (heuristic_column (target_columns s) col) = PNone"
      and "fm_confidence (heuristic_column (target_columns s) col) = Fin 0"
      and "\<And>t c. t \<in> set (sch_tables s) \<Longrightarrow> c \<in> set (tab_columns t) \<Longrightarrow> norm_name (col_name c) \<noteq> norm_name (col_name col)"
proof -
  let ?n = "norm_name (col_name col)" and ?ts = "target_columns s"
  have mem: "\<exists>t \<in> set (sch_tables s). \<exists>c \<in> set (tab_columns t). x = (tab_name t, col_name c, norm_name (col_name c))"
    if "x \<in> set ?ts" for x using that by (auto simp: target_columns_def)
  show thesis
  proof (cases "exact_match ?n ?ts")
    case (Some m)
    then obtain x where x: "find (\<lambda>(t, c, nc). nc = ?n) ?ts = Some x" "m = (fst x, fst (snd x))"
      by (auto simp: exact_match_def)
    have xs: "x \<in> set ?ts" "snd (snd x) = ?n" using find_someD [OF x(1)] by auto
    then obtain t c where tc: "t \<in> set (sch_tables s)" "c \<in> set (tab_columns t)"
        "x = (tab_name t, col_name c, norm_name (col_name c))"
      using mem by blast
    have h: "heuristic_column ?ts col = \<lparr>fm_source = PStr (col_name col), fm_table = PStr (tab_name t),
        fm_column = PStr (col_name c), fm_confidence = Fin (6 / 10),
        fm_transform = PStr ''none'', fm_reasoning = PStr ''heuristic name match''\<rparr>"
      using Some by (simp add: heuristic_column_def Let_def x(2) tc(3))
    have n: "norm_name (col_name c) = ?n" using xs(2) tc(3) by simp
    show thesis by (rule matched [OF tc(1,2)]) (simp_all add: h n)
  next
    case None
    then have no: "find (\<lambda>(t, c, nc). nc = ?n) ?ts = None" by (simp add: exact_match_def)
    have ne: "norm_name (col_name c) \<noteq> ?n" if "t \<in> set (sch_tables s)" "c \<in> set (tab_columns t)" for t c
    proof -
      have "(tab_name t, col_name c, norm_name (col_name c)) \<in> set ?ts"
        using that by (auto simp: target_columns_def)
      then show ?thesis using no unfolding find_None_iff by blast
    qed
    show thesis
    proof (cases "near_match ?n ?ts")
      case (Some m)
      then obtain x where x: "find (\<lambda>(t, c, nc). ?n \<noteq> [] \<and> (str_in ?n nc \<or> str_in nc ?n)) ?ts = Some x"
          "m = (fst x, fst (snd x))" by (auto simp: near_match_def)
      have "x \<in> set ?ts" using find_someD [OF x(1)] by simp
      then obtain t c where tc: "t \<in> set (sch_tables s)" "c \<in> set (tab_columns t)"
          "x = (tab_name t, col_name c, norm_name (col_name c))"
        using mem by blast
      have h: "heuristic_column ?ts col = \<lparr>fm_source = PStr (col_name col), fm_table = PStr (tab_name t),
          fm_column = PStr (col_name c), fm_confidence = Fin (5 / 10),
          fm_transform = PStr ''none'', fm_reasoning = PStr ''heuristic name match''\<rparr>"
        using Some None by (simp add: heuristic_column_def Let_def x(2) tc(3))
      show thesis by (rule matched [OF tc(1,2)]) (simp_all add: h ne [OF tc(1,2)])
    next
      case none2: None
      show thesis
        using None none2 by (intro unmatched ne) (simp_all add: heuristic_column_def Let_def)
    qed
  qed
qed

lemma heuristic_column_confidence:
  "\<exists>q. fm_confidence (heuristic_column (target_columns s) col) = Fin q \<and> 0 \<le> q \<and> q < 7 / 10"
  by (cases s col rule: heuristic_column_cases) auto

text \<open>
  The offline mapping has one entry per source column in column order; an entry names
  a column that exists in the target or none, and its confidence stays below the 0.7 gate.
\<close>

theorem heuristic_mapping_spec:
  "map fm_source (heuristic_mapping src tgt) = map (\<lambda>c. PStr (col_name c)) (tab_columns src) \<and>
   (\<forall>m \<in> set (heuristic_mapping src tgt). (\<exists>q. fm_confidence m = Fin q \<and> 0 \<le> q \<and> q < 7 / 10) \<and>
      (fm_table m = PNone \<and> fm_column m = PNone \<or>
       (\<exists>t \<in> set (sch_tables tgt). \<exists>c \<in> set (tab_columns t).
          fm_table m = PStr (tab_name t) \<and> fm_column m = PStr (col_name c))))"
proof -
  have src: "fm_source (heuristic_column ts c) = PStr (col_name c)" for ts c
    by (auto simp: heuristic_column_def Let_def split: option.splits)
  have one: "(\<exists>q. fm_confidence (heuristic_column (target_columns tgt) col) = Fin q \<and> 0 \<le> q \<and> q < 7 / 10) \<and>
      (fm_table (heuristic_column (target_columns tgt) col) = PNone
        \<and> fm_column (heuristic_column (target_columns tgt) col) = PNone \<or>
       (\<exists>t \<in> set (sch_tables tgt). \<exists>c \<in> set (tab_columns t).
          fm_table (heuristic_column (target_columns tgt) col) = PStr (tab_name t)
          \<and> fm_column (heuristic_column (target_columns tgt) col) = PStr (col_name c)))" for col
    by (cases tgt col rule: heuristic_column_cases) auto
  show ?thesis using one by (auto simp: heuristic_mapping_def src comp_def)
qed

text \<open>
  A run whose provider order contains the offline provider never fails for lack of a
  working service: it returns the first answer that reads well, or the offline mapping.
\<close>

theorem propose_with_heuristic_total:
  assumes "list_ex is_heuristic (provider_order env)"
  shows "\<exists>ms. try_providers P mk src tgt [] 0 (provider_order env) = Inr ms \<and>
    (ms = heuristic_mapping src tgt \<or>
     (\<exists>name p. name \<in> set (provider_order env) \<and> mk name = Some p \<and> read_answer P (p (prompt_text src tgt)) = Inr ms))"
proof -
  have "\<exists>ms. try_providers P mk src tgt errors tried names = Inr ms \<and>
    (ms = heuristic_mapping src tgt \<or>
     (\<exists>name p. name \<in> set names \<and> mk name = Some p \<and> read_answer P (p (prompt_text src tgt)) = Inr ms))"
    if "list_ex is_heuristic names" for names errors tried
    using that
  proof (induction names arbitrary: errors tried)
    case (Cons name names)
    show ?case
    proof (cases "is_heuristic name")
      case False
      then have rest: "list_ex is_heuristic names" using Cons.prems by simp
      show ?thesis
      proof (cases "mk name")
        case None
        obtain ms where "try_providers P mk src tgt errors tried names = Inr ms"
          "ms = heuristic_mapping src tgt \<or> (\<exists>name p. name \<in> set names \<and> mk name = Some p
             \<and> read_answer P (p (prompt_text src tgt)) = Inr ms)"
          using Cons.IH [OF rest] by blast
        then show ?thesis using None False by (intro exI [of _ ms]) auto
      next
        case (Some p)
        show ?thesis
        proof (cases "read_answer P (p (prompt_text src tgt))")
          case (Inl e)
          obtain ms where "try_providers P mk src tgt (errors @ [str_strip name @ '': '' @ exn_str e]) (tried + 1) names = Inr ms"
            "ms = heuristic_mapping src tgt \<or> (\<exists>name p. name \<in> set names \<and> mk name = Some p
               \<and> read_answer P (p (prompt_text src tgt)) = Inr ms)"
            using Cons.IH [OF rest] by blast
          then show ?thesis using Some Inl False by (intro exI [of _ ms]) auto
        next
          case (Inr ms)
          then show ?thesis using Some False by (intro exI [of _ ms]) auto
        qed
      qed
    qed simp
  qed simp
  then show ?thesis using assms by blast
qed

text \<open>
  An OpenAI-compatible call sends at most one request more than the allowed retries and
  never waits longer than 30 seconds; a reply other than a rate limit ends it at once.
\<close>

theorem call_openai_compatible_bounds:
  "length (snd (call_openai_compatible P http retries)) \<le> retries \<and>
   (\<forall>w \<in> set (snd (call_openai_compatible P http retries)). \<not> float_less (Fin 30) w) \<and>
   (\<forall>k < length (snd (call_openai_compatible P http retries)). \<exists>h. http k = HttpError 429 h)"
proof -
  have w: "\<not> float_less (Fin 30) (retry_wait P a h)" for a h
    by (simp add: retry_wait_def Let_def float_less_def)
  have "length (snd (call_loop P http a n)) \<le> n \<and>
    (\<forall>w \<in> set (snd (call_loop P http a n)). \<not> float_less (Fin 30) w) \<and>
    (\<forall>k < length (snd (call_loop P http a n)). \<exists>h. http (a + k) = HttpError 429 h)" for a n
  proof (induction n arbitrary: a)
    case 0
    show ?case by (cases "http a") simp_all
  next
    case (Suc n)
    show ?case
    proof (cases "http a")
      case (HttpError code h)
      show ?thesis
      proof (cases "code = 429")
        case True
        have "\<exists>h. http (a + k) = HttpError 429 h"
          if "k < Suc (length (snd (call_loop P http (Suc a) n)))" for k
          using that Suc.IH [of "Suc a"] HttpError True by (cases k) auto
        with True HttpError Suc.IH [of "Suc a"] w show ?thesis by (simp add: case_prod_beta)
      qed (simp add: HttpError)
    qed simp_all
  qed
  from this [of 0 retries] show ?thesis by (simp add: call_openai_compatible_def)
qed

section \<open>Examples\<close>

definition sample_source :: table where
  "sample_source = \<lparr>tab_name = ''schools'', tab_columns =
     [mk_column ''School_Name'' ''varchar'', mk_column ''name'' ''varchar'', mk_column ''xyz'' ''int'']\<rparr>"

definition sample_dest :: schema where
  "sample_dest = \<lparr>sch_system = ''T'', sch_tables = [\<lparr>tab_name = ''station'', tab_columns =
     [mk_column ''name'' ''varchar'', mk_column ''schoolname'' ''varchar'']\<rparr>], sch_version = ''1''\<rparr>"

theorem heuristic_mapping_spec_witness:
  "map (\<lambda>m. (fm_column m, fm_confidence m)) (heuristic_mapping sample_source sample_dest)
     = [(PStr ''schoolname'', Fin (6 / 10)), (PStr ''name'', Fin (6 / 10)), (PNone, Fin 0)] \<and>
   map fm_source (heuristic_mapping sample_source sample_dest) = [PStr ''School_Name'', PStr ''name'', PStr ''xyz'']"
proof -
  have "map (\<lambda>m. (fm_column m, fm_confidence m)) (heuristic_mapping sample_source sample_dest)
     = [(PStr ''schoolname'', Fin (6 / 10)), (PStr ''name'', Fin (6 / 10)), (PNone, Fin 0)]" by code_simp
  moreover have "map (\<lambda>c. PStr (col_name c)) (tab_columns sample_source)
     = [PStr ''School_Name'', PStr ''name'', PStr ''xyz'']" by code_simp
  ultimately show ?thesis using heuristic_mapping_spec [THEN conjunct1, of sample_source sample_dest] by simp
qed

definition offline_env :: environment where
  "offline_env k = (if k = ''LLM_PROVIDER_ORDER'' then Some ''gemini, Heuristic'' else None)"

theorem propose_with_heuristic_total_witness:
  "\<exists>ms. try_providers sample_runtime (\<lambda>_. Some (\<lambda>_. Inl (RuntimeError ''quota''))) sample_source sample_dest
     [] 0 (provider_order offline_env) = Inr ms"
proof -
  have "list_ex is_heuristic (provider_order offline_env)" by code_simp
  from propose_with_heuristic_total [OF this] show ?thesis by blast
qed

theorem call_openai_compatible_bounds_witness:
  "snd (call_openai_compatible sample_runtime (\<lambda>_. HttpError 429 None) 3) = [Fin 8, Fin 16, Fin 24] \<and>
   length (snd (call_openai_compatible sample_runtime (\<lambda>_. HttpError 429 None) 3)) \<le> 3"
proof -
  have "snd (call_openai_compatible sample_runtime (\<lambda>_. HttpError 429 None) 3) = [Fin 8, Fin 16, Fin 24]"
    by code_simp
  then show ?thesis using call_openai_compatible_bounds [THEN conjunct1, of sample_runtime "\<lambda>_. HttpError 429 None" 3] by simp
qed

end
