(* ===== verification/Mapping_Store.thy ===== *)
theory Mapping_Store
  imports Mapping_Engine
begin

text \<open>
  \<open>src/mapping_store.py\<close>: the active mapping config and the review queue, JSON documents in
  files. The file system is a dictionary from paths to parsed documents: writing a file and
  reading it back yields the document. \<open>time.time()\<close> is the argument \<open>now\<close>.
\<close>

definition auto_apply_threshold :: pyfloat where
  "auto_apply_threshold = Fin (85 / 100)"

text \<open>Two passes over the list: automatic matches, and what a human must look at.\<close>

definition split_by_confidence :: "field_mapping list \<Rightarrow> pyfloat \<Rightarrow> field_mapping list \<times> field_mapping list" where
  "split_by_confidence ms threshold =
     (filter (\<lambda>m. float_ge (fm_confidence m) threshold \<and> truthy (fm_table m)) ms,
      filter (\<lambda>m. float_less (fm_confidence m) threshold \<or> \<not> truthy (fm_table m)) ms)"

type_synonym files = "(string, pyval) dict"

definition load_active_config :: "files \<Rightarrow> string \<Rightarrow> row res" where
  "load_active_config fs path = (case dget fs path of
     None \<Rightarrow> Inr [(''version'', PInt 0), (''mappings'', PList []), (''source_table'', PNone)]
   | Some v \<Rightarrow> as_dict v)"

definition save_active_config :: "pyval \<Rightarrow> string \<Rightarrow> row \<Rightarrow> files \<Rightarrow> row \<times> files" where
  "save_active_config now path config fs =
     (let config = dput ''updated_at'' now config in (config, dput path (PDict config) fs))"

text \<open>A dictionary key must be hashable. Keys are compared as values; the documents use strings.\<close>

definition hash_key :: "pyval \<Rightarrow> pyval res" where
  "hash_key v = (case v of
       PList vs \<Rightarrow> Inl (TypeError (''unhashable type: '' @ quoted ''list''))
     | PDict kvs \<Rightarrow> Inl (TypeError (''unhashable type: '' @ quoted ''dict''))
     | _ \<Rightarrow> Inr v)"

definition entry_key :: "pyval \<Rightarrow> (pyval \<times> pyval) res" where
  "entry_key m = res_bind (as_dict m) (\<lambda>d. res_bind (res_bind (item d ''source_column'') hash_key) (\<lambda>k. Inr (k, m)))"

text \<open>\<open>{m["source_column"]: m for m in config.get("mappings", [])}\<close>.\<close>

definition existing_entries :: "row \<Rightarrow> (pyval, pyval) dict res" where
  "existing_entries config =
     res_bind (case dget config ''mappings'' of None \<Rightarrow> Inr [] | Some v \<Rightarrow> as_list v) (\<lambda>ms.
     res_bind (map_res entry_key ms) (\<lambda>kvs. Inr (dict_of kvs)))"

definition next_config_version :: "row \<Rightarrow> pyval res" where
  "next_config_version config = (case dget config ''version'' of
     None \<Rightarrow> Inr (PInt 1) | Some v \<Rightarrow> res_bind (as_int v) (\<lambda>i. Inr (PInt (i + 1))))"

definition mapping_doc :: "pyval \<Rightarrow> pyval \<Rightarrow> pyval \<Rightarrow> pyfloat \<Rightarrow> pyval \<Rightarrow> string \<Rightarrow> pyval" where
  "mapping_doc src table col conf transform by =
     PDict [(''source_column'', src), (''target_table'', table), (''target_column'', col),
       (''confidence'', PFloat conf), (''transform'', transform), (''approved_by'', PStr by)]"

definition auto_doc :: "field_mapping \<Rightarrow> pyval" where
  "auto_doc m = mapping_doc (fm_source m) (fm_table m) (fm_column m) (fm_confidence m) (fm_transform m) ''auto''"

definition auto_entry :: "field_mapping \<Rightarrow> (pyval \<times> pyval) res" where
  "auto_entry m = res_bind (hash_key (fm_source m)) (\<lambda>k. Inr (k, auto_doc m))"

text \<open>Replace the entries of some source columns and count the version up.\<close>

definition put_entries :: "row \<Rightarrow> (pyval \<times> pyval) list res \<Rightarrow> row res" where
  "put_entries config new =
     res_bind (existing_entries config) (\<lambda>existing.
     res_bind new (\<lambda>kvs.
     res_bind (next_config_version config) (\<lambda>v.
       Inr (dput ''version'' v
         (dput ''mappings'' (PList (dvalues (fold (\<lambda>(k, m). dput k m) kvs existing))) config)))))"

definition apply_auto_matches ::
  "pyval \<Rightarrow> files \<Rightarrow> string \<Rightarrow> string \<Rightarrow> field_mapping list \<Rightarrow> (row \<times> files) res" where
  "apply_auto_matches now fs path source_table matches =
     res_bind (load_active_config fs path) (\<lambda>config.
     res_bind (put_entries (dput ''source_table'' (PStr source_table) config) (map_res auto_entry matches)) (\<lambda>config.
       Inr (save_active_config now path config fs)))"

definition review_item :: "string \<Rightarrow> field_mapping \<Rightarrow> pyval" where
  "review_item source_table m =
     PDict [(''source_table'', PStr source_table), (''source_column'', fm_source m),
       (''suggested_target_table'', fm_table m), (''suggested_target_column'', fm_column m),
       (''confidence'', PFloat (fm_confidence m)), (''reasoning'', fm_reasoning m),
       (''status'', PStr ''pending'')]"

definition push_to_review_queue ::
  "files \<Rightarrow> string \<Rightarrow> string \<Rightarrow> field_mapping list \<Rightarrow> (pyval list \<times> files) res" where
  "push_to_review_queue fs path source_table ms =
     res_bind (case dget fs path of None \<Rightarrow> Inr [] | Some v \<Rightarrow> as_list v) (\<lambda>queue.
       let queue = queue @ map (review_item source_table) ms
       in Inr (queue, dput path (PList queue) fs))"

definition is_pending_for :: "string \<Rightarrow> pyval \<Rightarrow> bool res" where
  "is_pending_for col q =
     res_bind (as_dict q) (\<lambda>d. res_bind (item d ''source_column'') (\<lambda>c.
       if c = PStr col then res_bind (item d ''status'') (\<lambda>s. Inr (s = PStr ''pending'')) else Inr False))"

definition drop_pending :: "string \<Rightarrow> pyval list \<Rightarrow> pyval list res" where
  "drop_pending col queue = res_bind (map_res (is_pending_for col) queue) (\<lambda>bs.
     Inr (map snd (filter (\<lambda>bq. \<not> fst bq) (zip bs queue))))"

definition resolve_review_item ::
  "pyval \<Rightarrow> files \<Rightarrow> string \<Rightarrow> string \<Rightarrow> string \<Rightarrow> string \<Rightarrow> string \<Rightarrow> string \<Rightarrow> (row \<times> files) res" where
  "resolve_review_item now fs config_path queue_path src table col transform =
     res_bind (load_active_config fs config_path) (\<lambda>config.
     res_bind (put_entries config
        (Inr [(PStr src, mapping_doc (PStr src) (PStr table) (PStr col) (Fin 1) (PStr transform) ''human'')])) (\<lambda>config.
       case save_active_config now config_path config fs of
         (config, fs) \<Rightarrow> (case dget fs queue_path of
            None \<Rightarrow> Inr (config, fs)
          | Some v \<Rightarrow> res_bind (res_bind (as_list v) (drop_pending src)) (\<lambda>queue.
              Inr (config, dput queue_path (PList queue) fs)))))"

section \<open>Facts\<close>

lemma float_ge_less: "b \<noteq> NaN \<Longrightarrow> float_ge a b \<longleftrightarrow> a \<noteq> NaN \<and> \<not> float_less a b"
  by (simp add: float_ge_def)

text \<open>
  No mapping is both applied automatically and queued for review, an applied one has a
  target table and reaches the threshold, and the only mappings in neither list are those
  whose confidence is NaN (both comparisons with NaN are false).
\<close>

theorem split_by_confidence_spec:
  "split_by_confidence ms auto_apply_threshold = (auto, review) \<Longrightarrow>
   set auto \<inter> set review = {} \<and>
   set auto \<union> set review = {m \<in> set ms. fm_confidence m \<noteq> NaN \<or> \<not> truthy (fm_table m)} \<and>
   (\<forall>m \<in> set auto. truthy (fm_table m) \<and> \<not> float_less (fm_confidence m) auto_apply_threshold)"
proof -
  assume "split_by_confidence ms auto_apply_threshold = (auto, review)"
  moreover have t: "auto_apply_threshold \<noteq> NaN" by (simp add: auto_apply_threshold_def)
  moreover have "\<not> float_less NaN f" for f by (simp add: float_less_def)
  ultimately show ?thesis by (auto simp: split_by_confidence_def float_ge_less [OF t])
qed

text \<open>
  Nothing the offline provider proposes is applied without a human: every heuristic
  mapping goes to the review queue.
\<close>

theorem heuristic_never_auto_applied:
  "split_by_confidence (heuristic_mapping src tgt) auto_apply_threshold = ([], heuristic_mapping src tgt)"
proof -
  have "float_less (fm_confidence m) auto_apply_threshold \<and> \<not> float_ge (fm_confidence m) auto_apply_threshold"
    if m: "m \<in> set (heuristic_mapping src tgt)" for m
  proof -
    obtain q :: rat where q: "fm_confidence m = Fin q" "q < 7 / 10"
      using heuristic_column_confidence m by (auto simp: heuristic_mapping_def)
    then have "q < 85 / 100" by simp
    then show ?thesis using q(1) by (simp add: auto_apply_threshold_def float_ge_def float_less_def)
  qed
  then show ?thesis by (simp add: split_by_confidence_def filter_False filter_True)
qed

lemma map_of_rev_append_dict: "dget (fold (\<lambda>(k, m). dput k m) kvs d) k = (case map_of (rev kvs) k of Some v \<Rightarrow> Some v | None \<Rightarrow> dget d k)"
  by (induction kvs arbitrary: d rule: rev_induct) (auto split: option.splits)

lemma wf_fold_dput: "wf_dict d \<Longrightarrow> wf_dict (fold (\<lambda>(k, m). dput k m) kvs d)"
  by (induction kvs arbitrary: d) auto

definition keyed :: "(pyval, pyval) dict \<Rightarrow> bool" where
  "keyed d = (wf_dict d \<and> (\<forall>kv \<in> set d. entry_key (snd kv) = Inr kv))"

lemma keyed_dput:
  assumes "keyed d" and "entry_key m = Inr (k, m)"
  shows "keyed (dput k m d)"
proof -
  have "entry_key m' = Inr (k', m')" if "(k', m') \<in> set (dput k m d)" for k' m'
  proof -
    have "dget (dput k m d) k' = Some m'" using that assms(1) by (intro in_set_dget) (auto simp: keyed_def)
    then show ?thesis using assms by (auto simp: keyed_def split: if_splits dest!: dget_in_set)
  qed
  then show ?thesis using assms(1) by (auto simp: keyed_def)
qed

lemma keyed_fold:
  "keyed d \<Longrightarrow> \<forall>kv \<in> set kvs. entry_key (snd kv) = Inr kv \<Longrightarrow> keyed (fold (\<lambda>(k, m). dput k m) kvs d)"
  by (induction kvs arbitrary: d) (auto simp: keyed_dput)

lemma entry_key_snd: "entry_key m = Inr kv \<Longrightarrow> snd kv = m"
  by (auto simp: entry_key_def res_bind_Inr_iff)

lemma keyed_existing: "existing_entries config = Inr d \<Longrightarrow> keyed d"
proof -
  assume "existing_entries config = Inr d"
  then obtain ms kvs where m: "map_res entry_key ms = Inr kvs" and d: "d = dict_of kvs"
    by (auto simp: existing_entries_def res_bind_Inr_iff)
  have "\<forall>kv \<in> set kvs. entry_key (snd kv) = Inr kv"
    using m entry_key_snd by (fastforce simp: map_res_Inr_iff list_all2_conv_all_nth in_set_conv_nth)
  then show ?thesis
    unfolding d dict_of_def by (intro keyed_fold) (simp_all add: keyed_def)
qed

lemma keyed_read_back:
  assumes "keyed d"
  shows "map_res entry_key (dvalues d) = Inr d"
  using assms unfolding map_res_Inr_iff dvalues_def keyed_def
  by (auto simp: list_all2_conv_all_nth)

lemma put_entries_spec:
  assumes "put_entries config (Inr kvs) = Inr config'" and "\<forall>kv \<in> set kvs. entry_key (snd kv) = Inr kv"
  obtains old d i where "existing_entries config = Inr old" and "existing_entries config' = Inr d"
    and "\<And>k. dget d k = (case map_of (rev kvs) k of Some m \<Rightarrow> Some m | None \<Rightarrow> dget old k)"
    and "dget config' ''version'' = Some (PInt (i + 1))"
    and "dget config ''version'' = Some (PInt i) \<or> (dget config ''version'' = None \<and> i = 0)"
proof -
  obtain old v where old: "existing_entries config = Inr old" and v: "next_config_version config = Inr v"
    and c: "config' = dput ''version'' v
      (dput ''mappings'' (PList (dvalues (fold (\<lambda>(k, m). dput k m) kvs old))) config)"
    using assms(1) by (auto simp: put_entries_def res_bind_Inr_iff)
  let ?d = "fold (\<lambda>(k, m). dput k m) kvs old"
  have k: "keyed ?d" by (rule keyed_fold [OF keyed_existing [OF old] assms(2)])
  have "existing_entries config' = Inr ?d"
    using keyed_read_back [OF k] k
    by (simp add: existing_entries_def c as_list_def keyed_def wf_dict_def dict_of_distinct)
  moreover obtain i where "v = PInt (i + 1)"
      "dget config ''version'' = Some (PInt i) \<or> (dget config ''version'' = None \<and> i = 0)"
    using v by (auto simp: next_config_version_def res_bind_Inr_iff as_int_def split: option.splits pyval.splits)
  ultimately show thesis
    using old by (intro that [of old ?d i]) (simp_all add: map_of_rev_append_dict c)
qed

text \<open>
  Applying automatic matches replaces exactly the entries of their source columns (the
  last match of a column wins), keeps every other entry, counts the version up by one and
  stores what it returns.
\<close>

theorem apply_auto_matches_spec:
  assumes "load_active_config fs path = Inr config"
    and "apply_auto_matches now fs path st matches = Inr (config', fs')"
  shows "\<exists>old d. existing_entries config = Inr old \<and> existing_entries config' = Inr d
    \<and> (\<forall>k. dget d k = (case find (\<lambda>m. fm_source m = k) (rev matches) of
          Some m \<Rightarrow> Some (auto_doc m) | None \<Rightarrow> dget old k))
    \<and> fs' = dput path (PDict config') fs
    \<and> (\<exists>i. dget config' ''version'' = Some (PInt (i + 1))
        \<and> (dget config ''version'' = Some (PInt i) \<or> dget config ''version'' = None \<and> i = 0))"
proof -
  let ?c = "dput ''source_table'' (PStr st) config"
  obtain kvs c where kvs: "map_res auto_entry matches = Inr kvs"
    and c: "put_entries ?c (Inr kvs) = Inr c" and r: "config' = dput ''updated_at'' now c" "fs' = dput path (PDict config') fs"
    using assms by (auto simp: apply_auto_matches_def res_bind_Inr_iff save_active_config_def Let_def put_entries_def)
  have h: "hash_key v = Inr k \<Longrightarrow> k = v" for v k by (auto simp: hash_key_def split: pyval.splits)
  have kv: "kvs = map (\<lambda>m. (fm_source m, auto_doc m)) matches" and ok: "\<forall>m \<in> set matches. hash_key (fm_source m) = Inr (fm_source m)"
    using kvs h by (induction matches arbitrary: kvs) (auto simp: auto_entry_def res_bind_Inr_iff)
  have e: "\<forall>kv \<in> set kvs. entry_key (snd kv) = Inr kv"
    using ok by (auto simp: kv entry_key_def auto_doc_def mapping_doc_def as_dict_def item_def dget_def)
  have find: "map_of (rev kvs) k = map_option auto_doc (find (\<lambda>m. fm_source m = k) (rev matches))" for k
  proof -
    have "map_of (map (\<lambda>m. (fm_source m, auto_doc m)) ms) k = map_option auto_doc (find (\<lambda>m. fm_source m = k) ms)" for ms
      by (induction ms) auto
    then show ?thesis unfolding kv rev_map .
  qed
  have same: "existing_entries ?c = existing_entries config" "existing_entries config' = existing_entries c"
    by (simp_all add: existing_entries_def r)
  show ?thesis
    using c e
  proof (rule put_entries_spec)
    fix old d i
    assume "existing_entries ?c = Inr old" and "existing_entries c = Inr d"
      and d: "\<And>k. dget d k = (case map_of (rev kvs) k of Some m \<Rightarrow> Some m | None \<Rightarrow> dget old k)"
      and v: "dget c ''version'' = Some (PInt (i + 1))"
      and v0: "dget ?c ''version'' = Some (PInt i) \<or> (dget ?c ''version'' = None \<and> i = 0)"
    then have "existing_entries config = Inr old" "existing_entries config' = Inr d" by (simp_all add: same)
    moreover have "\<forall>k. dget d k = (case find (\<lambda>m. fm_source m = k) (rev matches) of
          Some m \<Rightarrow> Some (auto_doc m) | None \<Rightarrow> dget old k)"
      unfolding d find by (simp split: option.splits)
    moreover have "\<exists>i. dget config' ''version'' = Some (PInt (i + 1))
        \<and> (dget config ''version'' = Some (PInt i) \<or> dget config ''version'' = None \<and> i = 0)"
      using v v0 r(1) by (intro exI [of _ i]) simp
    ultimately show ?thesis using r(2) by blast
  qed
qed

text \<open>
  Resolving a review item makes the human's choice the entry of the source column and
  removes exactly that column's pending items from the queue, in a queue file of its own.
\<close>

theorem resolve_review_item_spec:
  assumes "resolve_review_item now fs config_path queue_path src table col transform = Inr (config', fs')"
    and "dget fs queue_path = Some (PList queue)" and "config_path \<noteq> queue_path"
  shows "\<exists>d q'. existing_entries config' = Inr d \<and>
      dget d (PStr src) = Some (mapping_doc (PStr src) (PStr table) (PStr col) (Fin 1) (PStr transform) ''human'')
      \<and> dget fs' config_path = Some (PDict config') \<and> dget fs' queue_path = Some (PList q')
      \<and> q' = filter (\<lambda>q. is_pending_for src q \<noteq> Inr True) queue"
proof -
  let ?m = "mapping_doc (PStr src) (PStr table) (PStr col) (Fin 1) (PStr transform) ''human''"
  obtain config c q where "load_active_config fs config_path = Inr config"
    and c: "put_entries config (Inr [(PStr src, ?m)]) = Inr c"
    and q: "drop_pending src queue = Inr q" and r: "config' = dput ''updated_at'' now c"
      "fs' = dput queue_path (PList q) (dput config_path (PDict config') fs)"
    using assms by (auto simp: resolve_review_item_def res_bind_Inr_iff save_active_config_def Let_def as_list_def)
  have e: "\<forall>kv \<in> set [(PStr src, ?m)]. entry_key (snd kv) = Inr kv"
    by (simp add: entry_key_def mapping_doc_def as_dict_def item_def dget_def hash_key_def)
  obtain bs where bs: "map_res (is_pending_for src) queue = Inr bs"
    and q': "q = map snd (filter (\<lambda>bq. \<not> fst bq) (zip bs queue))"
    using q by (auto simp: drop_pending_def res_bind_Inr_iff)
  have "q = filter (\<lambda>q. is_pending_for src q \<noteq> Inr True) queue"
    using bs unfolding q' by (induction queue arbitrary: bs) (auto simp: res_bind_Inr_iff)
  moreover have "existing_entries config' = existing_entries c" by (simp add: existing_entries_def r)
  moreover obtain old d i where "existing_entries c = Inr d"
    and "\<And>k. dget d k = (case map_of (rev [(PStr src, ?m)]) k of Some m \<Rightarrow> Some m | None \<Rightarrow> dget old k)"
    using put_entries_spec [OF c e] by metis
  then have "existing_entries c = Inr d" "dget d (PStr src) = Some ?m" by simp_all
  ultimately show ?thesis using r assms(3) by auto
qed

section \<open>Examples\<close>

definition mk_mapping :: "string \<Rightarrow> string \<Rightarrow> string \<Rightarrow> pyfloat \<Rightarrow> field_mapping" where
  "mk_mapping src table col conf = \<lparr>fm_source = PStr src, fm_table = PStr table, fm_column = PStr col,
     fm_confidence = conf, fm_transform = PStr ''none'', fm_reasoning = PStr []\<rparr>"

theorem split_by_confidence_spec_witness:
  "split_by_confidence [mk_mapping ''a'' ''t'' ''x'' (Fin 1), mk_mapping ''b'' ''t'' ''y'' (Fin (1/2)),
      mk_mapping ''c'' ''t'' ''z'' NaN] auto_apply_threshold
     = ([mk_mapping ''a'' ''t'' ''x'' (Fin 1)], [mk_mapping ''b'' ''t'' ''y'' (Fin (1/2))]) \<and>
   set [mk_mapping ''a'' ''t'' ''x'' (Fin 1)] \<inter> set [mk_mapping ''b'' ''t'' ''y'' (Fin (1/2))] = {}"
proof -
  have e: "split_by_confidence [mk_mapping ''a'' ''t'' ''x'' (Fin 1), mk_mapping ''b'' ''t'' ''y'' (Fin (1/2)),
      mk_mapping ''c'' ''t'' ''z'' NaN] auto_apply_threshold
     = ([mk_mapping ''a'' ''t'' ''x'' (Fin 1)], [mk_mapping ''b'' ''t'' ''y'' (Fin (1/2))])" by code_simp
  from split_by_confidence_spec [OF e] e show ?thesis by blast
qed

definition old_entry :: pyval where
  "old_entry = mapping_doc (PStr ''a'') (PStr ''t'') (PStr ''old'') (Fin 1) (PStr ''none'') ''human''"

definition sample_files :: files where
  "sample_files = [(''cfg'', PDict [(''version'', PInt 4), (''mappings'', PList [old_entry])]),
     (''queue'', PList [review_item ''s'' (mk_mapping ''a'' ''t'' ''x'' (Fin 0)), review_item ''s'' (mk_mapping ''b'' ''t'' ''y'' (Fin 0))])]"

theorem apply_auto_matches_spec_witness:
  "\<exists>config' fs' d. apply_auto_matches (PInt 9) sample_files ''cfg'' ''s'' [mk_mapping ''a'' ''t'' ''x'' (Fin 1)] = Inr (config', fs')
     \<and> existing_entries config' = Inr d \<and> dget d (PStr ''a'') = Some (auto_doc (mk_mapping ''a'' ''t'' ''x'' (Fin 1)))"
proof -
  have "case apply_auto_matches (PInt 9) sample_files ''cfg'' ''s'' [mk_mapping ''a'' ''t'' ''x'' (Fin 1)] of
      Inl e \<Rightarrow> False | Inr x \<Rightarrow> True" by code_simp
  then obtain config' fs' where e: "apply_auto_matches (PInt 9) sample_files ''cfg'' ''s''
      [mk_mapping ''a'' ''t'' ''x'' (Fin 1)] = Inr (config', fs')" by (auto dest!: case_res_InrD)
  have l: "load_active_config sample_files ''cfg'' = Inr [(''version'', PInt 4), (''mappings'', PList [old_entry])]"
    by code_simp
  from apply_auto_matches_spec [OF l e] obtain d old where "existing_entries config' = Inr d"
    and d: "\<forall>k. dget d k = (case find (\<lambda>m. fm_source m = k) (rev [mk_mapping ''a'' ''t'' ''x'' (Fin 1)]) of
          Some m \<Rightarrow> Some (auto_doc m) | None \<Rightarrow> dget old k)"
    by blast
  moreover have "dget d (PStr ''a'') = Some (auto_doc (mk_mapping ''a'' ''t'' ''x'' (Fin 1)))"
    using d by (simp add: mk_mapping_def)
  ultimately show ?thesis using e by blast
qed

theorem resolve_review_item_spec_witness:
  "\<exists>config' fs' d. resolve_review_item (PInt 9) sample_files ''cfg'' ''queue'' ''a'' ''t'' ''x'' ''none'' = Inr (config', fs')
     \<and> existing_entries config' = Inr d
     \<and> dget fs' ''queue'' = Some (PList [review_item ''s'' (mk_mapping ''b'' ''t'' ''y'' (Fin 0))])"
proof -
  let ?q = "[review_item ''s'' (mk_mapping ''a'' ''t'' ''x'' (Fin 0)), review_item ''s'' (mk_mapping ''b'' ''t'' ''y'' (Fin 0))]"
  have "case resolve_review_item (PInt 9) sample_files ''cfg'' ''queue'' ''a'' ''t'' ''x'' ''none'' of
      Inl e \<Rightarrow> False | Inr x \<Rightarrow> True" by code_simp
  then obtain config' fs' where e: "resolve_review_item (PInt 9) sample_files ''cfg'' ''queue'' ''a'' ''t'' ''x'' ''none''
      = Inr (config', fs')" by (auto dest!: case_res_InrD)
  have q: "dget sample_files ''queue'' = Some (PList ?q)" by code_simp
  have ne: "''cfg'' \<noteq> ''queue''" by simp
  have f: "filter (\<lambda>q. is_pending_for ''a'' q \<noteq> Inr True) ?q = [review_item ''s'' (mk_mapping ''b'' ''t'' ''y'' (Fin 0))]"
    by code_simp
  show ?thesis using resolve_review_item_spec [OF e q ne] e unfolding f by blast
qed

end
