(* ===== verification/Target_Db.thy ===== *)
theory Target_Db
  imports Dialect Central_Db
begin

text \<open>
  The target database and the state in which a delivery runs. A table is its rows in
  insertion order, with a counter for the generated key. What the engine decides by itself
  is a parameter: which stored value a bound parameter equals (\<open>eng_eq\<close>) and whether it
  refuses to store or to delete a row or to commit (\<open>eng_refuses\<close>, \<open>eng_keeps\<close>,
  \<open>eng_commit\<close>: constraints, lock timeouts, a lost connection).
  Column defaults are not represented: a column an INSERT leaves out reads as NULL.

  A computation takes the world (central database and target database) and returns a value
  or an exception together with the world it leaves: an exception undoes nothing by itself,
  only the caller's rollback does.
\<close>

section \<open>Computations\<close>

type_synonym ('s, 'a) comp = "'s \<Rightarrow> 'a res \<times> 's"

definition ret :: "'a \<Rightarrow> ('s, 'a) comp" where
  "ret x s = (Inr x, s)"

definition throw :: "exn \<Rightarrow> ('s, 'a) comp" where
  "throw e s = (Inl e, s)"

definition lift_res :: "'a res \<Rightarrow> ('s, 'a) comp" where
  "lift_res r s = (r, s)"

definition bind :: "('s, 'a) comp \<Rightarrow> ('a \<Rightarrow> ('s, 'b) comp) \<Rightarrow> ('s, 'b) comp" where
  "bind m f s = (case m s of (Inl e, s') \<Rightarrow> (Inl e, s') | (Inr x, s') \<Rightarrow> f x s')"

text \<open>A loop over a list that carries a value; the first exception ends it.\<close>

fun fold_comp :: "('x \<Rightarrow> 'a \<Rightarrow> ('s, 'a) comp) \<Rightarrow> 'x list \<Rightarrow> 'a \<Rightarrow> ('s, 'a) comp" where
  "fold_comp f [] a = ret a"
| "fold_comp f (x # xs) a = bind (f x a) (fold_comp f xs)"

named_theorems comp_simps \<open>running a computation\<close>

lemma ret_apply [comp_simps, simp]: "ret x s = (Inr x, s)"
  by (simp add: ret_def)

lemma throw_apply [comp_simps, simp]: "throw e s = (Inl e, s)"
  by (simp add: throw_def)

lemma lift_res_apply [comp_simps, simp]: "lift_res r s = (r, s)"
  by (simp add: lift_res_def)

lemma bind_Inr [comp_simps]: "m s = (Inr x, s') \<Longrightarrow> bind m f s = f x s'"
  by (simp add: bind_def)

lemma bind_Inl [comp_simps]: "m s = (Inl e, s') \<Longrightarrow> bind m f s = (Inl e, s')"
  by (simp add: bind_def)

lemma bind_InrE:
  assumes "bind m f s = (Inr y, t)"
  obtains x s' where "m s = (Inr x, s')" and "f x s' = (Inr y, t)"
  using assms by (auto simp: bind_def split: prod.splits sum.splits)

lemma bind_Inr_iff: "bind m f s = (Inr y, t) \<longleftrightarrow> (\<exists>x s'. m s = (Inr x, s') \<and> f x s' = (Inr y, t))"
  by (auto simp: bind_def split: prod.splits sum.splits)

text \<open>An invariant of the state and the carried value, kept by every round of a loop.\<close>

lemma fold_comp_inv:
  assumes "fold_comp f xs a s = (Inr b, t)" and "I [] a s"
    and "\<And>pre x a s b t. x \<in> set xs \<Longrightarrow> I pre a s \<Longrightarrow> f x a s = (Inr b, t) \<Longrightarrow> I (pre @ [x]) b t"
  shows "I xs b t"
proof -
  have "I (pre @ xs) b t" if "fold_comp f xs a s = (Inr b, t)" "I pre a s"
    "\<And>pre x a s b t. x \<in> set xs \<Longrightarrow> I pre a s \<Longrightarrow> f x a s = (Inr b, t) \<Longrightarrow> I (pre @ [x]) b t" for pre xs a s
    using that
  proof (induction xs arbitrary: pre a s)
    case (Cons x xs)
    from Cons.prems(1) obtain a' s' where "f x a s = (Inr a', s')" "fold_comp f xs a' s' = (Inr b, t)"
      by (auto elim: bind_InrE)
    with Cons.IH [of a' s' "pre @ [x]"] Cons.prems(2,3) show ?case by simp
  qed simp
  from this [of xs a s "[]"] assms show ?thesis by simp
qed

text \<open>The same when the loop may also end with an exception.\<close>

lemma fold_comp_always:
  assumes "I s" and "\<And>x a s. x \<in> set xs \<Longrightarrow> I s \<Longrightarrow> I (snd (f x a s))"
  shows "I (snd (fold_comp f xs a s))"
  using assms
proof (induction xs arbitrary: a s)
  case (Cons x xs)
  obtain r s' where r: "f x a s = (r, s')" by fastforce
  then have "I s'" using Cons.prems(2) [of x s a] Cons.prems(1) by simp
  then show ?case using Cons r by (cases r) (simp_all add: bind_def)
qed simp

section \<open>The target database\<close>

record target_db =
  tg_tables :: "(string, row list) dict"
  tg_next :: "(string, int) dict"

record engine =
  eng_eq :: "pyval \<Rightarrow> pyval \<Rightarrow> bool"
  eng_refuses :: "target_db \<Rightarrow> string \<Rightarrow> row \<Rightarrow> exn option"
  eng_keeps :: "target_db \<Rightarrow> string \<Rightarrow> row \<Rightarrow> exn option"
  eng_commit :: "target_db \<Rightarrow> exn option"

record world =
  w_central :: central
  w_target :: target_db

definition t_rows :: "target_db \<Rightarrow> string \<Rightarrow> row list" where
  "t_rows T t = (case dget (tg_tables T) t of None \<Rightarrow> [] | Some rs \<Rightarrow> rs)"

definition set_rows :: "string \<Rightarrow> row list \<Rightarrow> target_db \<Rightarrow> target_db" where
  "set_rows t rs T = T\<lparr>tg_tables := dput t rs (tg_tables T)\<rparr>"

definition next_key :: "target_db \<Rightarrow> string \<Rightarrow> int" where
  "next_key T t = (case dget (tg_next T) t of None \<Rightarrow> 1 | Some n \<Rightarrow> n)"

text \<open>\<open>WHERE col = %s\<close>: NULL equals nothing.\<close>

definition col_eq :: "engine \<Rightarrow> string \<Rightarrow> pyval \<Rightarrow> row \<Rightarrow> bool" where
  "col_eq E c v r = (row_get r c \<noteq> PNone \<and> v \<noteq> PNone \<and> eng_eq E (row_get r c) v)"

text \<open>
  INSERT. When the table has a generated key and the statement gives none, the engine
  fills it from its counter. The result is the stored row.
\<close>

definition sql_insert :: "engine \<Rightarrow> string option \<Rightarrow> string \<Rightarrow> row \<Rightarrow> target_db \<Rightarrow> (row \<times> target_db) res" where
  "sql_insert E auto t values T =
     (let generated = (case auto of None \<Rightarrow> None | Some c \<Rightarrow> if is_none (row_get values c) then Some c else None);
          stored = (case generated of None \<Rightarrow> values | Some c \<Rightarrow> dput c (PInt (next_key T t)) values);
          T' = set_rows t (t_rows T t @ [stored]) T
      in case eng_refuses E T t stored of
           Some e \<Rightarrow> Inl e
         | None \<Rightarrow> Inr (stored, if generated = None then T'
              else T'\<lparr>tg_next := dput t (next_key T t + 1) (tg_next T')\<rparr>))"

definition assign_row :: "row \<Rightarrow> row \<Rightarrow> row" where
  "assign_row new r = fold (\<lambda>(c, v). dput c v) new r"

text \<open>UPDATE \<dots> WHERE pk = v: a statement that touches no row changes nothing and is no error.\<close>

definition sql_update :: "engine \<Rightarrow> string \<Rightarrow> string \<Rightarrow> pyval \<Rightarrow> row \<Rightarrow> target_db \<Rightarrow> target_db res" where
  "sql_update E t pk v new T =
     (let rs' = update_where (col_eq E pk v) (assign_row new) (t_rows T t) in
      case List.map_filter (\<lambda>r. eng_refuses E T t (assign_row new r)) (filter (col_eq E pk v) (t_rows T t)) of
        e # _ \<Rightarrow> Inl e
      | [] \<Rightarrow> Inr (set_rows t rs' T))"

text \<open>SELECT col \<dots> WHERE \<dots> LIMIT 1, and DELETE \<dots> WHERE pk IN (\<dots>) with its row count.\<close>

definition sql_select :: "string \<Rightarrow> (row \<Rightarrow> bool) \<Rightarrow> string \<Rightarrow> target_db \<Rightarrow> pyval option" where
  "sql_select t P c T = map_option (\<lambda>r. row_get r c) (find P (t_rows T t))"

definition sql_delete :: "engine \<Rightarrow> string \<Rightarrow> string \<Rightarrow> pyval list \<Rightarrow> target_db \<Rightarrow> (nat \<times> target_db) res" where
  "sql_delete E t pk ids T =
     (let hit = (\<lambda>r. list_ex (\<lambda>v. col_eq E pk v r) ids) in
      case List.map_filter (eng_keeps E T t) (filter hit (t_rows T t)) of
        e # _ \<Rightarrow> Inl e
      | [] \<Rightarrow> Inr (row_count hit (t_rows T t), set_rows t (delete_where hit (t_rows T t)) T))"

text \<open>An upsert on the key column \<open>key\<close> that sets the columns \<open>ups\<close> of a present row.\<close>

definition sql_upsert :: "engine \<Rightarrow> string \<Rightarrow> string \<Rightarrow> string list \<Rightarrow> row \<Rightarrow> target_db \<Rightarrow> (unit \<times> target_db) res" where
  "sql_upsert E t key ups values T =
     (if list_ex (col_eq E key (row_get values key)) (t_rows T t)
      then res_bind (sql_update E t key (row_get values key) (filter (\<lambda>(c, _). c \<in> set ups) values) T) (\<lambda>T'. Inr ((), T'))
      else res_bind (sql_insert E None t values T) (\<lambda>(stored, T'). Inr ((), T')))"

text \<open>Rollback restores the rows; a generated-key counter does not go back.\<close>

definition rollback_to :: "target_db \<Rightarrow> target_db \<Rightarrow> target_db" where
  "rollback_to saved T = T\<lparr>tg_tables := tg_tables saved\<rparr>"

section \<open>Facts\<close>

lemma t_rows_set_rows [simp]: "t_rows (set_rows t rs T) t' = (if t' = t then rs else t_rows T t')"
  by (simp add: t_rows_def set_rows_def)

lemma next_key_set_rows [simp]: "next_key (set_rows t rs T) t' = next_key T t'"
  by (simp add: next_key_def set_rows_def)

lemma t_rows_tg_next [simp]: "t_rows (T\<lparr>tg_next := n\<rparr>) t = t_rows T t"
  by (simp add: t_rows_def)

lemma t_rows_rollback [simp]: "t_rows (rollback_to T0 T) t = t_rows T0 t"
  by (simp add: t_rows_def rollback_to_def)

lemma sql_insert_rows:
  assumes "sql_insert E auto t values T = Inr (stored, T')"
  shows "t_rows T' t' = (if t' = t then t_rows T t @ [stored] else t_rows T t')"
  using assms by (auto simp: sql_insert_def Let_def split: option.splits if_splits)

lemma sql_insert_stored:
  assumes "sql_insert E auto t values T = Inr (stored, T')"
  shows "row_get stored c = (if auto = Some c \<and> row_get values c = PNone then PInt (next_key T t) else row_get values c)"
  using assms by (auto simp: sql_insert_def Let_def is_none_def split: option.splits if_splits)

lemma sql_update_rows:
  assumes "sql_update E t pk v new T = Inr T'"
  shows "t_rows T' t' = (if t' = t then update_where (col_eq E pk v) (assign_row new) (t_rows T t) else t_rows T t')"
  using assms by (auto simp: sql_update_def Let_def split: list.splits)

lemma sql_delete_rows:
  assumes "sql_delete E t pk ids T = Inr (n, T')"
  shows "t_rows T' t' = (if t' = t then delete_where (\<lambda>r. list_ex (\<lambda>v. col_eq E pk v r) ids) (t_rows T t) else t_rows T t')"
  using assms by (auto simp: sql_delete_def Let_def split: list.splits)

lemma row_get_assign:
  "row_get (assign_row new r) c = (case map_of (rev new) c of Some v \<Rightarrow> v | None \<Rightarrow> row_get r c)"
  unfolding assign_row_def
  by (induction new arbitrary: r rule: rev_induct) (auto split: option.splits)

lemma row_get_assign_other: "c \<notin> fst ` set new \<Longrightarrow> row_get (assign_row new r) c = row_get r c"
  by (force simp: row_get_assign split: option.splits dest: map_of_SomeD)

lemma sql_upsert_other:
  assumes "sql_upsert E t key ups values T = Inr (u, T')" and "t' \<noteq> t"
  shows "t_rows T' t' = t_rows T t'"
  using assms by (auto simp: sql_upsert_def res_bind_Inr_iff sql_update_rows sql_insert_rows split: if_splits)

end
