(* ===== verification/Fan_Out.thy ===== *)
theory Fan_Out
  imports Target_Db
begin

text \<open>
  What \<open>src/lrmis_writer.py\<close> and \<open>src/delivery/writer.py\<close> share: the crosswalk and the id
  sequence of the central database, foreign-key propagation, the loop that writes one source
  row table by table, parents first, and the deletion of the rows an entity wrote. The
  writer of a single table is a parameter: the locales below state what the loop needs of it,
  and both writers interpret them. The central statements succeed; \<open>now\<close> is its clock.
\<close>

section \<open>The crosswalk\<close>

record delivery_key =
  dk_system :: string
  dk_entity :: string
  dk_reference :: string
  dk_target :: string

definition cw_match :: "delivery_key \<Rightarrow> string \<Rightarrow> crosswalk_row \<Rightarrow> bool" where
  "cw_match k t r = (cw_source_system r = dk_system k \<and> cw_source_entity r = dk_entity k
     \<and> cw_external_reference r = dk_reference k \<and> cw_target_system r = dk_target k \<and> cw_target_table r = t)"

definition crosswalk_lookup :: "delivery_key \<Rightarrow> string \<Rightarrow> central \<Rightarrow> string option" where
  "crosswalk_lookup k t c = Option.bind (select_one (cw_match k t) (id_crosswalk c)) cw_target_id"

definition crosswalk_record ::
  "int \<Rightarrow> delivery_key \<Rightarrow> string \<Rightarrow> string \<Rightarrow> string option \<Rightarrow> central \<Rightarrow> central" where
  "crosswalk_record now k t tid event c = c\<lparr>id_crosswalk := upsert (cw_match k t)
     (\<lambda>r. r\<lparr>cw_target_id := Some tid, cw_last_event_id := event, cw_updated_at := now\<rparr>)
     \<lparr>cw_source_system = dk_system k, cw_source_entity = dk_entity k, cw_external_reference = dk_reference k,
      cw_target_system = dk_target k, cw_target_table = t, cw_target_id = Some tid,
      cw_last_event_id = event, cw_updated_at = now\<rparr> (id_crosswalk c)\<rparr>"

definition crosswalk_rows_for_entity :: "string \<Rightarrow> string \<Rightarrow> central \<Rightarrow> (string \<times> string option) list" where
  "crosswalk_rows_for_entity entity sys c =
     map (\<lambda>r. (cw_target_table r, cw_target_id r))
       (filter (\<lambda>r. cw_source_entity r = entity \<and> cw_target_system r = sys) (id_crosswalk c))"

definition allocate_id :: "string \<Rightarrow> int \<Rightarrow> central \<Rightarrow> int \<times> central" where
  "allocate_id t start c =
     (let v = (case dget (id_sequence c) t of None \<Rightarrow> start | Some n \<Rightarrow> n + 1)
      in (v, c\<lparr>id_sequence := dput t v (id_sequence c)\<rparr>))"

section \<open>Access to the two databases\<close>

definition safe_all :: "string list \<Rightarrow> unit res" where
  "safe_all names = res_bind (map_res safe_identifier names) (\<lambda>_. Inr ())"

definition first_pk :: "registry \<Rightarrow> string \<Rightarrow> string option res" where
  "first_pk R t = res_bind (reg_table R t) (\<lambda>m.
     Inr (case primary_key m of [] \<Rightarrow> None | p # _ \<Rightarrow> Some p))"

definition on_target :: "(target_db \<Rightarrow> ('a \<times> target_db) res) \<Rightarrow> (world, 'a) comp" where
  "on_target f w = (case f (w_target w) of
     Inl e \<Rightarrow> (Inl e, w) | Inr (x, T) \<Rightarrow> (Inr x, w\<lparr>w_target := T\<rparr>))"

definition on_central :: "(central \<Rightarrow> 'a \<times> central) \<Rightarrow> (world, 'a) comp" where
  "on_central f w = (case f (w_central w) of (x, c) \<Rightarrow> (Inr x, w\<lparr>w_central := c\<rparr>))"

lemma on_target_cases:
  assumes "on_target f w = (r, w')"
  obtains (refused) e where "f (w_target w) = Inl e" and "r = Inl e" and "w' = w"
    | (ok) x T where "f (w_target w) = Inr (x, T)" and "r = Inr x" and "w' = w\<lparr>w_target := T\<rparr>"
  using assms by (auto simp: on_target_def split: sum.splits prod.splits)

section \<open>Foreign keys and the loop over the tables\<close>

text \<open>\<open>_apply_foreign_keys\<close>: an empty FK column takes the id of a parent written before.\<close>

definition apply_fk :: "string \<Rightarrow> row \<Rightarrow> lrmis_fk \<Rightarrow> row \<Rightarrow> row" where
  "apply_fk t ids k values =
     (if fk_ref_table k \<noteq> t \<and> row_get ids (fk_ref_table k) \<noteq> PNone \<and> row_get values (fk_column k) = PNone
      then dput (fk_column k) (row_get ids (fk_ref_table k)) values else values)"

definition apply_foreign_keys :: "registry \<Rightarrow> string \<Rightarrow> row \<Rightarrow> row \<Rightarrow> row res" where
  "apply_foreign_keys R t values ids =
     res_bind (foreign_keys R t) (\<lambda>ks. Inr (fold (apply_fk t ids) ks values))"

text \<open>Record the id in the crosswalk and hand it on.\<close>

definition record_id ::
  "runtime \<Rightarrow> int \<Rightarrow> delivery_key \<Rightarrow> string \<Rightarrow> string option \<Rightarrow> pyval \<Rightarrow> (world, pyval) comp" where
  "record_id P now k t event tid = on_central (\<lambda>c. (tid, crosswalk_record now k t (py_str P tid) event c))"

text \<open>The loop over the tables, parents first; \<open>ids\<close> are the ids written so far.\<close>

type_synonym table_write = "string \<Rightarrow> row \<Rightarrow> (world, pyval) comp"

definition write_step :: "registry \<Rightarrow> table_write \<Rightarrow> (string, row) dict \<Rightarrow> string \<Rightarrow> row \<Rightarrow> (world, row) comp" where
  "write_step R wt vbt t ids =
     bind (lift_res (apply_foreign_keys R t (the (dget vbt t)) ids)) (\<lambda>values.
     bind (wt t values) (\<lambda>tid. ret (dput t tid ids)))"

definition check_tables :: "string \<Rightarrow> registry \<Rightarrow> (string, row) dict \<Rightarrow> unit res" where
  "check_tables sname R vbt = (case find (\<lambda>t. \<not> has_table R t) (dkeys vbt) of
     None \<Rightarrow> Inr ()
   | Some t \<Rightarrow> Inl (UnknownTargetTable (str_repr t @ '' is not part of the '' @ sname @ '' schema'')))"

definition fan_out :: "string \<Rightarrow> registry \<Rightarrow> table_write \<Rightarrow> (string, row) dict \<Rightarrow> (world, row) comp" where
  "fan_out sname R wt vbt =
     bind (lift_res (check_tables sname R vbt)) (\<lambda>_.
     bind (lift_res (topological_order R (Some (dkeys vbt)))) (\<lambda>order.
       fold_comp (write_step R wt vbt) order []))"

section \<open>Deleting what was written\<close>

definition deletable_ids :: "registry \<Rightarrow> (string \<times> string option) list \<Rightarrow> (string, pyval list) dict" where
  "deletable_ids R rows = map (\<lambda>(t, g). (t, map (\<lambda>x. opt_str (snd x)) g))
     (group_by fst (filter (\<lambda>(t, _). has_table R t \<and> is_reference_table R t = Inr False) rows))"

text \<open>The dialect's quoting of the names a statement mentions is \<open>chk\<close>: it raises for an unsafe name.\<close>

definition delete_table ::
  "(string list \<Rightarrow> unit res) \<Rightarrow> engine \<Rightarrow> registry \<Rightarrow> (string, pyval list) dict \<Rightarrow> string \<Rightarrow> (string, nat) dict
   \<Rightarrow> (world, (string, nat) dict) comp" where
  "delete_table chk E R by_table t deleted =
     bind (lift_res (first_pk R t)) (\<lambda>pko. case pko of
       None \<Rightarrow> ret deleted
     | Some pk \<Rightarrow> bind (lift_res (chk [t, pk])) (\<lambda>_.
         bind (on_target (sql_delete E t pk (the (dget by_table t)))) (\<lambda>n. ret (dput t n deleted))))"

definition forget_entity :: "string \<Rightarrow> string \<Rightarrow> string list \<Rightarrow> central \<Rightarrow> central" where
  "forget_entity entity sys tables c = c\<lparr>id_crosswalk := delete_where (\<lambda>r. cw_source_entity r = entity
     \<and> cw_target_system r = sys \<and> cw_target_table r \<in> set tables) (id_crosswalk c)\<rparr>"

definition delete_owned_rows ::
  "(string list \<Rightarrow> unit res) \<Rightarrow> engine \<Rightarrow> registry \<Rightarrow> string \<Rightarrow> string \<Rightarrow> (world, (string, nat) dict) comp" where
  "delete_owned_rows chk E R entity sys w =
     (let rows = crosswalk_rows_for_entity entity sys (w_central w); by_table = deletable_ids R rows in
      if rows = [] then (Inr [], w)
      else bind (lift_res (topological_order R (Some (dkeys by_table)))) (\<lambda>order.
        bind (fold_comp (delete_table chk E R by_table) (rev order) []) (\<lambda>deleted.
        bind (on_central (\<lambda>c. ((), forget_entity entity sys (dkeys by_table) c))) (\<lambda>_.
          ret deleted))) w)"

section \<open>Facts about the crosswalk\<close>

lemma cw_match_record:
  "cw_match k t (r\<lparr>cw_target_id := i, cw_last_event_id := e, cw_updated_at := n\<rparr>) = cw_match k t r"
  by (simp add: cw_match_def)

lemma cw_match_unique: "cw_match k t r \<Longrightarrow> cw_match k' t' r \<Longrightarrow> k = k' \<and> t = t'"
  by (simp add: cw_match_def delivery_key.equality)

lemma crosswalk_lookup_record [simp]:
  "crosswalk_lookup k' t' (crosswalk_record now k t i e c)
     = (if k' = k \<and> t' = t then Some i else crosswalk_lookup k' t' c)"
proof (cases "k' = k \<and> t' = t")
  case True
  have "cw_match k t \<lparr>cw_source_system = dk_system k, cw_source_entity = dk_entity k,
      cw_external_reference = dk_reference k, cw_target_system = dk_target k, cw_target_table = t,
      cw_target_id = Some i, cw_last_event_id = e, cw_updated_at = now\<rparr>"
    by (simp add: cw_match_def)
  note new = select_one_upsert [where P = "cw_match k t", OF this, of "\<lambda>r. r\<lparr>cw_target_id := Some i, cw_last_event_id := e, cw_updated_at := now\<rparr>"]
  show ?thesis
    using True new by (auto simp: crosswalk_lookup_def crosswalk_record_def cw_match_record split: option.splits)
next
  case False
  then have n: "cw_match k t r \<Longrightarrow> \<not> cw_match k' t' r" for r using cw_match_unique by blast
  have "\<not> cw_match k' t' \<lparr>cw_source_system = dk_system k, cw_source_entity = dk_entity k,
      cw_external_reference = dk_reference k, cw_target_system = dk_target k, cw_target_table = t,
      cw_target_id = Some i, cw_last_event_id = e, cw_updated_at = now\<rparr>"
    by (rule n) (simp add: cw_match_def)
  then show ?thesis
    unfolding if_not_P [OF False]
    using n by (simp add: crosswalk_lookup_def crosswalk_record_def cw_match_record select_one_upsert_other)
qed

lemma crosswalk_lookup_sequence [simp]:
  "crosswalk_lookup k t (c\<lparr>id_sequence := q\<rparr>) = crosswalk_lookup k t c"
  by (simp add: crosswalk_lookup_def)

lemma crosswalk_lookup_allocate [simp]:
  "crosswalk_lookup k t (snd (allocate_id t' s c)) = crosswalk_lookup k t c"
  by (simp add: allocate_id_def Let_def)

text \<open>What a delivery may change in the central database: the crosswalk and the id sequence.\<close>

definition central_rest :: "central \<Rightarrow> central" where
  "central_rest c = c\<lparr>id_crosswalk := [], id_sequence := []\<rparr>"

lemma central_rest_record [simp]: "central_rest (crosswalk_record now k t i e c) = central_rest c"
  by (simp add: central_rest_def crosswalk_record_def)

lemma central_rest_allocate [simp]: "central_rest (snd (allocate_id t s c)) = central_rest c"
  by (simp add: central_rest_def allocate_id_def Let_def)

text \<open>
  The ids handed out for a table count up one by one from the reserved start, so no id
  is handed out twice, and allocating for one table does not touch another's sequence.
\<close>

theorem allocate_id_sequence:
  "allocate_id t s c = (v, c') \<Longrightarrow> fst (allocate_id t s' c') = v + 1
     \<and> (dget (id_sequence c) t = None \<longrightarrow> v = s) \<and> (\<forall>u. u \<noteq> t \<longrightarrow> fst (allocate_id u s' c') = fst (allocate_id u s' c))"
  by (auto simp: allocate_id_def Let_def split: option.splits)

section \<open>The contract of writing one table\<close>

text \<open>
  What the loop over the tables needs of the writer of one table: it changes rows of that
  table only, it changes the crosswalk at its own key and table only, for a table whose rows
  the pipeline creates (\<open>tracked\<close>) the crosswalk ends up holding the id it returns, and it
  leaves the rows of a reference table (\<open>readonly\<close>) alone. All but the third hold when it
  raises, too.
\<close>

locale table_writer =
  fixes P :: runtime and R :: registry and k :: delivery_key
    and wt :: table_write and tracked :: "string \<Rightarrow> bool" and readonly :: "string \<Rightarrow> bool"
  assumes rows_other: "wt t vs w = (r, w') \<Longrightarrow> t' \<noteq> t \<Longrightarrow> t_rows (w_target w') t' = t_rows (w_target w) t'"
    and cw_other: "wt t vs w = (r, w') \<Longrightarrow> k' \<noteq> k \<or> t' \<noteq> t \<Longrightarrow>
      crosswalk_lookup k' t' (w_central w') = crosswalk_lookup k' t' (w_central w)"
    and cw_self: "wt t vs w = (Inr x, w') \<Longrightarrow> tracked t \<Longrightarrow>
      crosswalk_lookup k t (w_central w') = Some (py_str P x)"
    and rest: "wt t vs w = (r, w') \<Longrightarrow> central_rest (w_central w') = central_rest (w_central w)"
    and read_only: "wt t vs w = (r, w') \<Longrightarrow> readonly t \<Longrightarrow> t_rows (w_target w') t = t_rows (w_target w) t"
begin

lemma step_cases:
  assumes "write_step R wt vbt t ids w = (r, w')"
  obtains (failed) e where "r = Inl e" and "w' = w"
    | (ran) vals r0 where "apply_foreign_keys R t (the (dget vbt t)) ids = Inr vals"
      and "wt t vals w = (r0, w')" and "r = (case r0 of Inl e \<Rightarrow> Inl e | Inr x \<Rightarrow> Inr (dput t x ids))"
proof (cases "apply_foreign_keys R t (the (dget vbt t)) ids")
  case (Inl e)
  then show thesis using assms by (intro failed [of e]) (auto simp: write_step_def bind_def)
next
  case (Inr vals)
  obtain r0 w0 where "wt t vals w = (r0, w0)" by fastforce
  then show thesis
    using assms Inr by (intro ran [of vals r0]) (auto simp: write_step_def bind_def split: sum.splits)
qed

lemma steps_frame:
  "(\<forall>t'. t' \<notin> set ts \<longrightarrow> t_rows (w_target (snd (fold_comp (write_step R wt vbt) ts ids w))) t' = t_rows (w_target w) t')
   \<and> (\<forall>k' t'. k' \<noteq> k \<or> t' \<notin> set ts \<longrightarrow>
        crosswalk_lookup k' t' (w_central (snd (fold_comp (write_step R wt vbt) ts ids w)))
          = crosswalk_lookup k' t' (w_central w))
   \<and> central_rest (w_central (snd (fold_comp (write_step R wt vbt) ts ids w))) = central_rest (w_central w)
   \<and> (\<forall>t'. readonly t' \<longrightarrow> t_rows (w_target (snd (fold_comp (write_step R wt vbt) ts ids w))) t' = t_rows (w_target w) t')"
proof (induction ts arbitrary: ids w)
  case Nil
  show ?case by simp
next
  case (Cons t ts)
  obtain r w1 where step: "write_step R wt vbt t ids w = (r, w1)" by fastforce
  have f: "t' \<noteq> t \<Longrightarrow> t_rows (w_target w1) t' = t_rows (w_target w) t'"
      "k' \<noteq> k \<or> t' \<noteq> t \<Longrightarrow> crosswalk_lookup k' t' (w_central w1) = crosswalk_lookup k' t' (w_central w)"
      "central_rest (w_central w1) = central_rest (w_central w)"
      "readonly t' \<Longrightarrow> t_rows (w_target w1) t' = t_rows (w_target w) t'" for t' k'
    using step rows_other cw_other rest read_only by (cases rule: step_cases; metis)+
  show ?case
  proof (cases r)
    case (Inl e)
    then have "snd (fold_comp (write_step R wt vbt) (t # ts) ids w) = w1" using step by (simp add: bind_def)
    then show ?thesis using f by simp
  next
    case (Inr ids1)
    then have "snd (fold_comp (write_step R wt vbt) (t # ts) ids w) = snd (fold_comp (write_step R wt vbt) ts ids1 w1)"
      using step by (simp add: bind_def)
    then show ?thesis using f Cons.IH [of ids1 w1] by simp
  qed
qed

lemma steps_ok:
  assumes "fold_comp (write_step R wt vbt) ts ids w = (Inr ids', w')"
    and "distinct ts" and "set ts \<inter> set (dkeys ids) = {}"
  shows "dkeys ids' = dkeys ids @ ts \<and> (\<forall>t. t \<notin> set ts \<longrightarrow> row_get ids' t = row_get ids t)
    \<and> (\<forall>t \<in> set ts. tracked t \<longrightarrow> crosswalk_lookup k t (w_central w') = Some (py_str P (row_get ids' t)))"
  using assms
proof (induction ts arbitrary: ids w)
  case Nil
  then show ?case by simp
next
  case (Cons t ts)
  obtain ids1 w1 where step: "write_step R wt vbt t ids w = (Inr ids1, w1)"
    and more: "fold_comp (write_step R wt vbt) ts ids1 w1 = (Inr ids', w')"
    using Cons.prems(1) by (auto simp: bind_Inr_iff)
  obtain vals x where x: "wt t vals w = (Inr x, w1)" and ids1: "ids1 = dput t x ids"
    using step by (cases rule: step_cases) (auto split: sum.splits)
  have keys: "dkeys ids1 = dkeys ids @ [t]"
    using Cons.prems(3) unfolding ids1 by (subst dkeys_dput_new) (auto simp: dkeys_def)
  have IH: "dkeys ids' = dkeys ids1 @ ts" "\<forall>u. u \<notin> set ts \<longrightarrow> row_get ids' u = row_get ids1 u"
    "\<forall>u \<in> set ts. tracked u \<longrightarrow> crosswalk_lookup k u (w_central w') = Some (py_str P (row_get ids' u))"
    using Cons.IH [OF more] Cons.prems(2,3) keys by auto
  have t: "row_get ids' t = x" using IH(2) Cons.prems(2) by (simp add: ids1)
  have "crosswalk_lookup k t (w_central w') = Some (py_str P x)" if "tracked t"
  proof -
    have "crosswalk_lookup k t (w_central w') = crosswalk_lookup k t (w_central w1)"
      using steps_frame [of ts vbt ids1 w1] more Cons.prems(2) by simp
    then show ?thesis using cw_self [OF x that] by simp
  qed
  then show ?case using IH keys t by (simp add: ids1)
qed

lemma fold_comp_append_Inr:
  "fold_comp f (xs @ ys) a s = (Inr b, u) \<longleftrightarrow>
   (\<exists>c v. fold_comp f xs a s = (Inr c, v) \<and> fold_comp f ys c v = (Inr b, u))"
  by (induction xs arbitrary: a s) (auto simp: bind_Inr_iff)

lemma fan_outE:
  assumes "fan_out sname R wt vbt w = (Inr ids, w')"
  obtains order where "topological_order R (Some (dkeys vbt)) = Inr order"
    and "set (dkeys vbt) \<subseteq> set (dkeys R)" and "fold_comp (write_step R wt vbt) order [] w = (Inr ids, w')"
proof -
  have "set (dkeys vbt) \<subseteq> set (dkeys R)" if "check_tables sname R vbt = Inr ()"
    using that by (auto simp: check_tables_def find_None_iff has_table_def dhas_def dkeys_def split: option.splits)
  then show thesis using assms that by (auto simp: fan_out_def bind_Inr_iff)
qed

text \<open>Whatever the outcome, a fan-out touches only its own tables and its own crosswalk entries.\<close>

lemma fan_out_frame:
  assumes "fan_out sname R wt vbt w = (r, w')" and "wf_dict vbt"
  shows "(\<forall>t. t \<notin> set (dkeys vbt) \<or> readonly t \<longrightarrow> t_rows (w_target w') t = t_rows (w_target w) t)
    \<and> (\<forall>k' t. k' \<noteq> k \<or> t \<notin> set (dkeys vbt) \<longrightarrow>
        crosswalk_lookup k' t (w_central w') = crosswalk_lookup k' t (w_central w))
    \<and> central_rest (w_central w') = central_rest (w_central w)"
proof (cases "\<exists>order. check_tables sname R vbt = Inr () \<and> topological_order R (Some (dkeys vbt)) = Inr order")
  case False
  then have "w' = w" using assms(1) by (auto simp: fan_out_def bind_def split: sum.splits)
  then show ?thesis by simp
next
  case True
  then obtain order where order: "check_tables sname R vbt = Inr ()" "topological_order R (Some (dkeys vbt)) = Inr order" by blast
  then have "set (dkeys vbt) \<subseteq> set (dkeys R)"
    by (auto simp: check_tables_def find_None_iff has_table_def dhas_def dkeys_def split: option.splits)
  then have "set order = set (dkeys vbt)"
    using topological_order_Inr(2) [of "dkeys vbt" R] assms(2) order(2) by (simp add: wf_dict_def dkeys_def)
  moreover have "w' = snd (fold_comp (write_step R wt vbt) order [] w)"
    using assms(1) order by (simp add: fan_out_def bind_def)
  ultimately show ?thesis using steps_frame [of order vbt "[]" w] by metis
qed

lemma fan_out_ok:
  assumes "fan_out sname R wt vbt w = (Inr ids, w')" and "wf_dict vbt"
  shows "topological_order R (Some (dkeys vbt)) = Inr (dkeys ids)"
    and "tracked t \<Longrightarrow> t \<in> set (dkeys vbt) \<Longrightarrow> crosswalk_lookup k t (w_central w') = Some (py_str P (row_get ids t))"
proof -
  obtain order where o: "topological_order R (Some (dkeys vbt)) = Inr order"
    and known: "set (dkeys vbt) \<subseteq> set (dkeys R)" and f: "fold_comp (write_step R wt vbt) order [] w = (Inr ids, w')"
    using assms(1) by (rule fan_outE)
  have d: "distinct order" "set order = set (dkeys vbt)"
    using topological_order_Inr [of "dkeys vbt" R] assms(2) known o by (simp_all add: wf_dict_def dkeys_def)
  have "dkeys ids = order" and "\<forall>t \<in> set order. tracked t \<longrightarrow> crosswalk_lookup k t (w_central w') = Some (py_str P (row_get ids t))"
    using steps_ok [OF f d(1)] by (auto simp: dkeys_def)
  then show "topological_order R (Some (dkeys vbt)) = Inr (dkeys ids)"
    and "tracked t \<Longrightarrow> t \<in> set (dkeys vbt) \<Longrightarrow> crosswalk_lookup k t (w_central w') = Some (py_str P (row_get ids t))"
    using o d by auto
qed

text \<open>The call that wrote one table of the fan-out: its parents' ids are the final ones.\<close>

lemma fan_out_table:
  assumes "fan_out sname R wt vbt w = (Inr ids, w')" and "wf_dict vbt" and "t \<in> set (dkeys vbt)"
  obtains pre ids0 vals w0 w1 where "dkeys ids0 = pre" and "\<And>u. u \<in> set pre \<Longrightarrow> row_get ids0 u = row_get ids u"
    and "\<And>p. fk_edge R t p \<Longrightarrow> p \<in> set (dkeys vbt) \<Longrightarrow> p \<in> set pre"
    and "apply_foreign_keys R t (the (dget vbt t)) ids0 = Inr vals"
    and "wt t vals w0 = (Inr (row_get ids t), w1)"
    and "t_rows (w_target w') t = t_rows (w_target w1) t"
    and "t_rows (w_target w0) t = t_rows (w_target w) t"
    and "crosswalk_lookup k t (w_central w0) = crosswalk_lookup k t (w_central w)"
proof -
  obtain order where o: "topological_order R (Some (dkeys vbt)) = Inr order"
    and known: "set (dkeys vbt) \<subseteq> set (dkeys R)" and f: "fold_comp (write_step R wt vbt) order [] w = (Inr ids, w')"
    using assms(1) by (rule fan_outE)
  have d: "distinct order" "set order = set (dkeys vbt)"
    and par: "\<And>i p. i < length order \<Longrightarrow> p \<in> set (dkeys vbt) \<Longrightarrow> fk_edge R (order ! i) p \<Longrightarrow> p \<in> set (take i order)"
  proof -
    have "distinct (dkeys vbt)" using assms(2) by (simp add: wf_dict_def dkeys_def)
    from topological_order_Inr [OF this known o]
    show "distinct order" "set order = set (dkeys vbt)"
      "\<And>i p. i < length order \<Longrightarrow> p \<in> set (dkeys vbt) \<Longrightarrow> fk_edge R (order ! i) p \<Longrightarrow> p \<in> set (take i order)"
      by blast+
  qed
  obtain pre post where split: "order = pre @ t # post" using assms(3) d(2) by (metis split_list)
  obtain ids0 w0 ids1 w1 where f0: "fold_comp (write_step R wt vbt) pre [] w = (Inr ids0, w0)"
    and st: "write_step R wt vbt t ids0 w0 = (Inr ids1, w1)"
    and f1: "fold_comp (write_step R wt vbt) post ids1 w1 = (Inr ids, w')"
    using f unfolding split by (auto simp: fold_comp_append_Inr bind_Inr_iff)
  obtain vals x where v: "apply_foreign_keys R t (the (dget vbt t)) ids0 = Inr vals"
    and x: "wt t vals w0 = (Inr x, w1)" and ids1: "ids1 = dput t x ids0"
    using st by (cases rule: step_cases) (auto split: sum.splits)
  have dis: "distinct pre" "distinct post" "t \<notin> set pre" "t \<notin> set post" "set pre \<inter> set post = {}"
    using d(1) by (auto simp: split)
  have k0: "dkeys ids0 = pre" using steps_ok [OF f0 dis(1)] by (simp add: dkeys_def)
  have k1: "dkeys ids1 = pre @ [t]" using dis(3) k0 unfolding ids1 by (subst dkeys_dput_new) (auto simp: dkeys_def)
  have post: "row_get ids u = row_get ids1 u" if "u \<notin> set post" for u
    using steps_ok [OF f1 dis(2)] k1 dis that by auto
  have "row_get ids0 u = row_get ids u" if "u \<in> set pre" for u
  proof -
    have "u \<notin> set post" "u \<noteq> t" using that dis by auto
    then show ?thesis using post [of u] by (simp add: ids1)
  qed
  moreover have "row_get ids t = x" using post [of t] dis by (simp add: ids1)
  moreover have "p \<in> set pre" if "fk_edge R t p" "p \<in> set (dkeys vbt)" for p
    using par [of "length pre" p] that by (simp add: split)
  moreover have "t_rows (w_target w') t = t_rows (w_target w1) t"
    using steps_frame [of post vbt ids1 w1] f1 dis(4) by simp
  moreover have "t_rows (w_target w0) t = t_rows (w_target w) t"
      "crosswalk_lookup k t (w_central w0) = crosswalk_lookup k t (w_central w)"
    using steps_frame [of pre vbt "[]" w] f0 dis(3) by simp_all
  ultimately show thesis using k0 v x by (intro that [of ids0 pre vals w0 w1]) auto
qed

end

lemma fold_apply_fk_get:
  assumes "q \<in> set ks" "distinct (map fk_column ks)" "fk_ref_table q \<noteq> t" "row_get ids (fk_ref_table q) \<noteq> PNone"
    and "row_get vs (fk_column q) = PNone"
  shows "row_get (fold (apply_fk t ids) ks vs) (fk_column q) = row_get ids (fk_ref_table q)"
  using assms
proof (induction ks arbitrary: vs)
  case (Cons k ks)
  have other: "row_get (fold (apply_fk t ids) ks vs') c = row_get vs' c" if "c \<notin> fk_column ` set ks" for c ks vs'
    using that by (induction ks arbitrary: vs') (auto simp: apply_fk_def)
  show ?case
  proof (cases "q = k")
    case True
    then show ?thesis using Cons.prems other [of "fk_column q" ks] by (simp add: apply_fk_def [of t ids k vs])
  next
    case False
    then have "fk_column q \<noteq> fk_column k" using Cons.prems(1,2) by (metis distinct.simps(2) imageI list.set_map list.simps(9) set_ConsD)
    then show ?thesis using Cons False by (auto simp: apply_fk_def [of t ids k vs])
  qed
qed simp

lemma fold_apply_fk_keep: "row_get vs c \<noteq> PNone \<Longrightarrow> row_get (fold (apply_fk t ids) ks vs) c = row_get vs c"
  by (induction ks arbitrary: vs) (auto simp: apply_fk_def)

lemma fold_apply_fk_dict:
  "wf_dict vs \<Longrightarrow> wf_dict (fold (apply_fk t ids) ks vs) \<and> set (dkeys vs) \<subseteq> set (dkeys (fold (apply_fk t ids) ks vs))"
proof (induction ks arbitrary: vs)
  case (Cons k ks)
  have "wf_dict (apply_fk t ids k vs)" "set (dkeys vs) \<subseteq> set (dkeys (apply_fk t ids k vs))"
    using Cons.prems by (auto simp: apply_fk_def)
  then show ?case using Cons.IH [of "apply_fk t ids k vs"] by auto
qed simp

lemma row_get_in_dkeys: "row_get vs c \<noteq> PNone \<Longrightarrow> c \<in> set (dkeys vs)"
  by (auto simp: row_get_def set_dkeys_iff split: option.splits)

text \<open>
  A writer that stores: after it returns, the table holds a row with the image of every
  given column it does not manage itself.
\<close>

locale storing_writer = table_writer +
  fixes stores :: "string \<Rightarrow> bool" and keeps :: "string \<Rightarrow> string \<Rightarrow> bool" and image :: "string \<Rightarrow> string \<Rightarrow> pyval \<Rightarrow> pyval"
  assumes stored: "wt t vs w = (Inr x, w') \<Longrightarrow> stores t \<Longrightarrow> wf_dict vs \<Longrightarrow>
    \<exists>r \<in> set (t_rows (w_target w') t). \<forall>c. c \<in> set (dkeys vs) \<longrightarrow> keeps t c \<longrightarrow> row_get r c = image t c (row_get vs c)"
begin

lemma fan_out_stored:
  assumes "fan_out sname R wt vbt w = (Inr ids, w')" and "wf_dict vbt" and "t \<in> set (dkeys vbt)" and "stores t"
    and "wf_dict (the (dget vbt t))" and "foreign_keys R t = Inr ks" and "distinct (map fk_column ks)"
  shows "\<exists>r \<in> set (t_rows (w_target w') t).
     (\<forall>c. keeps t c \<longrightarrow> row_get (the (dget vbt t)) c \<noteq> PNone \<longrightarrow> row_get r c = image t c (row_get (the (dget vbt t)) c))
     \<and> (\<forall>q. q \<in> set ks \<longrightarrow> fk_ref_table q \<noteq> t \<longrightarrow> fk_ref_table q \<in> set (dkeys vbt) \<longrightarrow> keeps t (fk_column q) \<longrightarrow>
          row_get (the (dget vbt t)) (fk_column q) = PNone \<longrightarrow> row_get ids (fk_ref_table q) \<noteq> PNone \<longrightarrow>
          row_get r (fk_column q) = image t (fk_column q) (row_get ids (fk_ref_table q)))"
proof -
  let ?vs = "the (dget vbt t)"
  obtain pre ids0 vals w0 w1 where k: "dkeys ids0 = pre" "\<And>u. u \<in> set pre \<Longrightarrow> row_get ids0 u = row_get ids u"
    and par: "\<And>p. fk_edge R t p \<Longrightarrow> p \<in> set (dkeys vbt) \<Longrightarrow> p \<in> set pre"
    and v: "apply_foreign_keys R t ?vs ids0 = Inr vals" and run: "wt t vals w0 = (Inr (row_get ids t), w1)"
    and same: "t_rows (w_target w') t = t_rows (w_target w1) t"
    using assms(1,2,3) by (rule fan_out_table) blast
  have vals: "vals = fold (apply_fk t ids0) ks ?vs" using v assms(6) by (simp add: apply_foreign_keys_def)
  have wf: "wf_dict vals" using fold_apply_fk_dict [OF assms(5)] vals by simp
  obtain r where r: "r \<in> set (t_rows (w_target w1) t)"
    and st: "\<And>c. c \<in> set (dkeys vals) \<Longrightarrow> keeps t c \<Longrightarrow> row_get r c = image t c (row_get vals c)"
    using stored [OF run assms(4) wf] by blast
  have st': "row_get r c = image t c (row_get vals c)" if "keeps t c" "row_get vals c \<noteq> PNone" for c
    using st [of c] row_get_in_dkeys [of vals c] that by blast
  have edge: "fk_edge R t (fk_ref_table q)" if "q \<in> set ks" "fk_ref_table q \<noteq> t" for q
    using that assms(6) by (auto simp: fk_edge_def foreign_keys_def res_bind_Inr_iff reg_table_Inr)
  show ?thesis
  proof (intro bexI [of _ r] conjI allI impI)
    fix c assume "keeps t c" "row_get ?vs c \<noteq> PNone"
    then show "row_get r c = image t c (row_get ?vs c)"
      using st' [of c] fold_apply_fk_keep [of ?vs c t ids0 ks] vals by simp
  next
    fix q assume q: "q \<in> set ks" "fk_ref_table q \<noteq> t" "fk_ref_table q \<in> set (dkeys vbt)" "keeps t (fk_column q)"
      "row_get ?vs (fk_column q) = PNone" "row_get ids (fk_ref_table q) \<noteq> PNone"
    have "row_get ids0 (fk_ref_table q) = row_get ids (fk_ref_table q)"
      using par [OF edge [OF q(1,2)] q(3)] k(2) by simp
    then have "row_get vals (fk_column q) = row_get ids (fk_ref_table q)"
      using fold_apply_fk_get [OF q(1) assms(7) q(2), of ids0 ?vs] q(5,6) vals by simp
    then show "row_get r (fk_column q) = image t (fk_column q) (row_get ids (fk_ref_table q))"
      using st' [OF q(4)] q(6) by simp
  qed (use r same in simp)
qed

end

text \<open>
  A writer that updates in place: where the row is known already (\<open>alive\<close>, which depends on
  the table and its crosswalk entry only), it returns the known id and adds no row.
\<close>

locale updating_writer = table_writer +
  fixes alive :: "string \<Rightarrow> string \<Rightarrow> world \<Rightarrow> bool"
  assumes alive_local: "t_rows (w_target w) t = t_rows (w_target w0) t \<Longrightarrow>
      crosswalk_lookup k t (w_central w) = crosswalk_lookup k t (w_central w0) \<Longrightarrow> alive t s w0 \<Longrightarrow> alive t s w"
    and in_place: "wt t vs w = (Inr x, w') \<Longrightarrow> alive t s w \<Longrightarrow>
      x = PStr s \<and> length (t_rows (w_target w') t) = length (t_rows (w_target w) t)"
begin

lemma fan_out_in_place:
  assumes "fan_out sname R wt vbt w = (Inr ids, w')" and "wf_dict vbt" and "t \<in> set (dkeys vbt)" and "alive t s w"
  shows "row_get ids t = PStr s \<and> length (t_rows (w_target w') t) = length (t_rows (w_target w) t)"
proof -
  obtain vals w0 w1 where run: "wt t vals w0 = (Inr (row_get ids t), w1)"
    and same: "t_rows (w_target w') t = t_rows (w_target w1) t"
      "t_rows (w_target w0) t = t_rows (w_target w) t"
      "crosswalk_lookup k t (w_central w0) = crosswalk_lookup k t (w_central w)"
    using assms(1,2,3) by (rule fan_out_table) blast
  show ?thesis using in_place [OF run alive_local [OF same(2,3) assms(4)]] same by simp
qed

end

section \<open>What a deletion removes\<close>

text \<open>A row an entity owns: its key is recorded in the crosswalk and its table is writable.\<close>

definition deletable :: "registry \<Rightarrow> string \<Rightarrow> bool" where
  "deletable R t = (has_table R t \<and> is_reference_table R t = Inr False)"

definition owned_row :: "engine \<Rightarrow> registry \<Rightarrow> string \<Rightarrow> string \<Rightarrow> central \<Rightarrow> string \<Rightarrow> row \<Rightarrow> bool" where
  "owned_row E R entity sys c t r = (deletable R t \<and> (case first_pk R t of Inr (Some pk) \<Rightarrow>
     (\<exists>x \<in> set (crosswalk_rows_for_entity entity sys c). fst x = t \<and> col_eq E pk (opt_str (snd x)) r) | _ \<Rightarrow> False))"

lemma dget_map_value: "dget (map (\<lambda>(k, v). (k, f v)) d) k = map_option f (dget d k)"
  by (induction d) (auto simp: dget_def)

lemma dget_deletable_ids:
  "dget (deletable_ids R rows) t =
     (if deletable R t \<and> t \<in> fst ` set rows then Some (map (\<lambda>x. opt_str (snd x)) (filter (\<lambda>x. fst x = t) rows)) else None)"
proof -
  have "filter (\<lambda>x. fst x = t) (filter (\<lambda>(t, _). deletable R t) rows) = filter (\<lambda>x. fst x = t) rows" if "deletable R t"
    using that by (induction rows) auto
  moreover have "t \<in> fst ` set (filter (\<lambda>(t, _). deletable R t) rows) \<longleftrightarrow> deletable R t \<and> t \<in> fst ` set rows"
    by force
  ultimately show ?thesis
    unfolding deletable_ids_def dget_map_value dget_group_by by (simp add: deletable_def)
qed

lemma set_dkeys_deletable_ids:
  "set (dkeys (deletable_ids R rows)) = {t \<in> fst ` set rows. deletable R t}"
  by (intro set_eqI) (simp add: set_dkeys_iff dget_deletable_ids conj_commute)

lemma distinct_dkeys_deletable_ids: "distinct (dkeys (deletable_ids R rows))"
proof -
  let ?xs = "filter (\<lambda>(t, _). has_table R t \<and> is_reference_table R t = Inr False) rows"
  have "dkeys (deletable_ids R rows) = dkeys (group_by fst ?xs)"
    unfolding deletable_ids_def dkeys_def by (simp add: case_prod_beta comp_def)
  moreover have "distinct (dkeys (group_by fst ?xs))"
    using wf_group_by [of fst ?xs] unfolding wf_dict_def dkeys_def .
  ultimately show ?thesis by (simp only:)
qed

text \<open>The rows a table keeps when the owned ones are removed.\<close>

definition kept_rows :: "engine \<Rightarrow> registry \<Rightarrow> string \<Rightarrow> string \<Rightarrow> central \<Rightarrow> target_db \<Rightarrow> string \<Rightarrow> row list" where
  "kept_rows E R entity sys c T t = filter (\<lambda>r. \<not> owned_row E R entity sys c t r) (t_rows T t)"

lemma delete_table_cases:
  assumes "delete_table chk E R (deletable_ids R (crosswalk_rows_for_entity entity sys c)) t d w = (r, w')"
    and "deletable R t" and "t \<in> fst ` set (crosswalk_rows_for_entity entity sys c)"
  obtains (failed) e where "r = Inl e" and "w' = w"
    | (ran) d' where "r = Inr d'" and "w_central w' = w_central w"
      and "\<And>t'. t_rows (w_target w') t' = (if t' = t then kept_rows E R entity sys c (w_target w) t else t_rows (w_target w) t')"
proof -
  let ?xs = "crosswalk_rows_for_entity entity sys c"
  let ?ids = "map (\<lambda>x. opt_str (snd x)) (filter (\<lambda>x. fst x = t) ?xs)"
  have ids: "the (dget (deletable_ids R ?xs) t) = ?ids" using assms(2,3) by (simp add: dget_deletable_ids)
  have run: "delete_table chk E R (deletable_ids R ?xs) t d w = (r, w')" by (rule assms(1))
  show thesis
  proof (cases "first_pk R t")
    case (Inl e)
    then show thesis using run by (intro failed [of e]) (auto simp: delete_table_def bind_def)
  next
    case (Inr pko)
    show thesis
    proof (cases pko)
      case None
      then have "kept_rows E R entity sys c (w_target w) t = t_rows (w_target w) t"
        using Inr by (simp add: kept_rows_def owned_row_def)
      moreover have "r = Inr d" "w' = w" using run Inr None by (auto simp: delete_table_def bind_def)
      ultimately show thesis by (intro ran [of d]) auto
    next
      case (Some pk)
      have owned: "owned_row E R entity sys c t row = list_ex (\<lambda>v. col_eq E pk v row) ?ids" for row
        using assms(2) Inr Some by (auto simp: owned_row_def list_ex_iff Bex_def)
      show thesis
      proof (cases "chk [t, pk]")
        case (Inl e)
        then show thesis using run Inr Some by (intro failed [of e]) (auto simp: delete_table_def bind_def)
      next
        case chk: (Inr u)
        obtain r0 w0 where o: "on_target (sql_delete E t pk ?ids) w = (r0, w0)" by fastforce
        then show thesis
        proof (cases rule: on_target_cases)
          case (refused e)
          then show thesis using run Inr Some chk o
            by (intro failed [of e]) (auto simp: delete_table_def bind_def ids)
        next
          case (ok n T)
          then have "r = Inr (dput t n d)" "w' = w\<lparr>w_target := T\<rparr>"
            using run Inr Some chk o by (auto simp: delete_table_def bind_def ids)
          then show thesis using sql_delete_rows [OF ok(1)]
            by (intro ran [of "dput t n d"]) (auto simp: kept_rows_def owned delete_where_def)
        qed
      qed
    qed
  qed
qed

lemma kept_rows_cong:
  "t_rows T' t = t_rows T t \<Longrightarrow> kept_rows E R entity sys c T' t = kept_rows E R entity sys c T t"
  by (simp add: kept_rows_def)

lemma kept_rows_idem:
  "t_rows T' t = kept_rows E R entity sys c T t \<Longrightarrow> kept_rows E R entity sys c T' t = kept_rows E R entity sys c T t"
  by (simp add: kept_rows_def)

lemma forget_entity_cong: "set ts = set us \<Longrightarrow> forget_entity entity sys ts c = forget_entity entity sys us c"
  by (simp add: forget_entity_def)

lemma forget_entity_Nil [simp]: "forget_entity entity sys [] c = c"
  by (simp add: forget_entity_def delete_where_def)

text \<open>
  Every table ends up unchanged or without exactly its owned rows, whatever the outcome; when
  the deletion returns, every table is without them and the crosswalk has forgotten them.
\<close>

lemma delete_owned_rows_effect:
  assumes "delete_owned_rows chk E R entity sys w = (r, w')"
  shows "t_rows (w_target w') t \<in> {t_rows (w_target w) t, kept_rows E R entity sys (w_central w) (w_target w) t}"
    and "r = Inl e \<Longrightarrow> w_central w' = w_central w"
    and "r = Inr d \<Longrightarrow> t_rows (w_target w') t = kept_rows E R entity sys (w_central w) (w_target w) t
      \<and> w_central w' = forget_entity entity sys (filter (deletable R) (map fst (crosswalk_rows_for_entity entity sys (w_central w)))) (w_central w)"
proof -
  let ?xs = "crosswalk_rows_for_entity entity sys (w_central w)"
  let ?b = "deletable_ids R ?xs"
  let ?kept = "kept_rows E R entity sys (w_central w) (w_target w)"
  let ?old = "t_rows (w_target w)"
  have none: "?kept t = ?old t" if "\<not> (deletable R t \<and> t \<in> fst ` set ?xs)" for t
    using that by (force simp: kept_rows_def owned_row_def filter_id_conv split: sum.splits option.splits)
  have step: "(t' = t \<and> (\<exists>d. r = Inr d) \<longrightarrow> t_rows (w_target w1) t' = kept_rows E R entity sys (w_central w) (w_target w0) t')
      \<and> (t' \<noteq> t \<longrightarrow> t_rows (w_target w1) t' = t_rows (w_target w0) t') \<and> w_central w1 = w_central w0 \<and> (\<forall>e. r = Inl e \<longrightarrow> w1 = w0)"
    if "delete_table chk E R ?b t d w0 = (r, w1)" "t \<in> set (dkeys ?b)" for t d w0 r w1 t'
    using that(1) by (rule delete_table_cases) (use that(2) in \<open>auto simp: set_dkeys_deletable_ids\<close>)
  have all: "w_central (snd (fold_comp (delete_table chk E R ?b) ts [] w)) = w_central w
      \<and> (\<forall>t. t_rows (w_target (snd (fold_comp (delete_table chk E R ?b) ts [] w))) t \<in> {?old t, ?kept t})"
    if "set ts \<subseteq> set (dkeys ?b)" for ts
  proof (rule fold_comp_always)
    fix t d and w0 :: world assume t: "t \<in> set ts" and I: "w_central w0 = w_central w \<and> (\<forall>t. t_rows (w_target w0) t \<in> {?old t, ?kept t})"
    obtain r w1 where run: "delete_table chk E R ?b t d w0 = (r, w1)" by fastforce
    note st = step [OF run subsetD [OF that t]]
    have "t_rows (w_target w1) t' \<in> {?old t', ?kept t'}" for t'
    proof (cases "t' = t \<and> (\<exists>d. r = Inr d)")
      case True
      then have "t_rows (w_target w1) t' = kept_rows E R entity sys (w_central w) (w_target w0) t'" using st by blast
      moreover have "kept_rows E R entity sys (w_central w) (w_target w0) t' = ?kept t'"
        using conjunct2 [OF I, THEN spec, of t'] by (auto intro: kept_rows_cong kept_rows_idem)
      ultimately show ?thesis by simp
    next
      case False
      then have "t_rows (w_target w1) t' = t_rows (w_target w0) t'" using st by (cases r) auto
      then show ?thesis using conjunct2 [OF I, THEN spec, of t'] by simp
    qed
    moreover have "w_central w1 = w_central w" using st I by simp
    ultimately show "w_central (snd (delete_table chk E R ?b t d w0)) = w_central w
      \<and> (\<forall>t'. t_rows (w_target (snd (delete_table chk E R ?b t d w0))) t' \<in> {?old t', ?kept t'})"
      unfolding run by simp
  qed simp
  have ok: "t_rows (w_target w1) t = (if t \<in> set ts then ?kept t else ?old t)"
    if "fold_comp (delete_table chk E R ?b) ts [] w = (Inr d, w1)" "set ts \<subseteq> set (dkeys ?b)" for ts d w1 t
  proof -
    have "\<forall>t. t_rows (w_target w1) t = (if t \<in> set ts then ?kept t else ?old t)"
    proof (rule fold_comp_inv [OF that(1), where I = "\<lambda>pre d v. \<forall>t. t_rows (w_target v) t = (if t \<in> set pre then ?kept t else ?old t)"])
      fix pre x d0 v0 d1 v1 assume x: "x \<in> set ts" and I: "\<forall>t. t_rows (w_target v0) t = (if t \<in> set pre then ?kept t else ?old t)"
        and run: "delete_table chk E R ?b x d0 v0 = (Inr d1, v1)"
      note st = step [OF run subsetD [OF that(2) x]]
      have "kept_rows E R entity sys (w_central w) (w_target v0) t = ?kept t" for t
        using I [THEN spec, of t] by (cases "t \<in> set pre") (auto intro: kept_rows_cong kept_rows_idem)
      moreover have "t_rows (w_target v1) t = (if t = x then kept_rows E R entity sys (w_central w) (w_target v0) t
          else t_rows (w_target v0) t)" for t
        using st [of t] by simp
      ultimately show "\<forall>t. t_rows (w_target v1) t = (if t \<in> set (pre @ [x]) then ?kept t else ?old t)"
        using I by simp
    qed simp
    then show ?thesis ..
  qed
  have "(t_rows (w_target w') t \<in> {?old t, ?kept t} \<and> (\<exists>e. r = Inl e) \<and> w_central w' = w_central w) \<or>
      ((\<exists>d. r = Inr d) \<and> t_rows (w_target w') t = ?kept t
        \<and> w_central w' = forget_entity entity sys (filter (deletable R) (map fst ?xs)) (w_central w))"
  proof (cases "?xs = []")
    case True
    then show ?thesis using assms none [of t] by (auto simp: delete_owned_rows_def)
  next
    case False
    show ?thesis
    proof (cases "topological_order R (Some (dkeys ?b))")
      case (Inl e)
      then have "r = Inl e" "w' = w" using assms False by (auto simp: delete_owned_rows_def Let_def bind_def)
      then show ?thesis by auto
    next
      case (Inr order)
      have known: "set (dkeys ?b) \<subseteq> set (dkeys R)"
        by (intro subsetI) (simp add: set_dkeys_iff dget_deletable_ids deletable_def has_table_def dhas_iff split: if_splits)
      have order: "set (rev order) = set (dkeys ?b)"
        using topological_order_Inr(2) [OF distinct_dkeys_deletable_ids known Inr] by simp
      let ?run = "fold_comp (delete_table chk E R ?b) (rev order) []"
      obtain r0 w0 where run: "?run w = (r0, w0)" by fastforce
      show ?thesis
      proof (cases r0)
        case (Inl e)
        then have "r = Inl e" "w' = w0"
          using assms False Inr run by (auto simp: delete_owned_rows_def Let_def bind_def)
        then show ?thesis using all [of "rev order"] order run by simp
      next
        case r0: (Inr d)
        then have w': "r = Inr d" "w' = w0\<lparr>w_central := forget_entity entity sys (dkeys ?b) (w_central w0)\<rparr>"
          using assms False Inr run by (auto simp: delete_owned_rows_def Let_def bind_def on_central_def)
        have "w_central w0 = w_central w" using all [of "rev order"] order run by simp
        moreover have "t_rows (w_target w0) t = ?kept t"
          using ok [of "rev order" d w0 t] run r0 order none [of t] by (auto simp: set_dkeys_deletable_ids)
        moreover have "forget_entity entity sys (dkeys ?b) (w_central w)
            = forget_entity entity sys (filter (deletable R) (map fst ?xs)) (w_central w)"
          by (rule forget_entity_cong) (auto simp: set_dkeys_deletable_ids)
        ultimately show ?thesis using w' by simp
      qed
    qed
  qed
  then show "t_rows (w_target w') t \<in> {?old t, ?kept t}" and "r = Inl e \<Longrightarrow> w_central w' = w_central w"
    and "r = Inr d \<Longrightarrow> t_rows (w_target w') t = ?kept t
      \<and> w_central w' = forget_entity entity sys (filter (deletable R) (map fst ?xs)) (w_central w)"
    by auto
qed

end
