(* ===== verification/Lrmis_Writer.thy ===== *)
theory Lrmis_Writer
  imports Fan_Out
begin

text \<open>
  \<open>src/lrmis_writer.py\<close> and the plugin record of \<open>src/adapters/lrmis_plugin.py\<close>: one source
  row is written across several target tables, parents first, each table once, with the
  crosswalk of the central database making a second delivery of the same row an update.
  The central statements succeed; the target engine may refuse any statement. \<open>now\<close> is the
  database clock, the registry an argument.
\<close>

section \<open>The plugin\<close>

record plugin =
  tp_name :: string
  tp_app_assigned :: "string list"
  tp_id_start :: int
  tp_anchor :: "string option"
  tp_non_autoinc :: bool
  tp_reference :: "string list"

definition lrmis_plugin :: plugin where
  "lrmis_plugin = \<lparr>tp_name = ''LRMIS'', tp_app_assigned = [''station''], tp_id_start = 10000000,
     tp_anchor = Some ''station'', tp_non_autoinc = False, tp_reference = [''psgc'']\<rparr>"

definition old_lrmis_plugin :: plugin where
  "old_lrmis_plugin = \<lparr>tp_name = ''OLD_LRMIS'', tp_app_assigned = [], tp_id_start = 1000000,
     tp_anchor = None, tp_non_autoinc = False, tp_reference =
      [''geo_level'', ''gender'', ''psgc'', ''region'', ''province'', ''city_mun'', ''barangay'',
       ''legislative_dristrict'', ''grade_level'', ''subject'', ''school_type'', ''school_year'',
       ''circular_class'', ''contact_type'', ''station_type'', ''user_type'', ''user_status'',
       ''status'', ''position'', ''categories'', ''brand'', ''type_name'', ''crud_type'']\<rparr>"

definition get_plugin :: "string option \<Rightarrow> plugin" where
  "get_plugin name = (case name of
       None \<Rightarrow> lrmis_plugin
     | Some n \<Rightarrow> (if n = [] then lrmis_plugin
          else case dget [(''LRMIS'', lrmis_plugin), (''OLD_LRMIS'', old_lrmis_plugin)] (str_upper (str_strip n)) of
            None \<Rightarrow> lrmis_plugin | Some p \<Rightarrow> p))"

section \<open>Grouping\<close>

definition group_by_table :: "mapping_entry list \<Rightarrow> (string, mapping_entry list) dict" where
  "group_by_table ms = group_by (\<lambda>m. the (m_table m)) (filter (\<lambda>m. m_table m \<noteq> None \<and> m_table m \<noteq> Some []) ms)"

section \<open>Statements on the target\<close>

definition auto_of :: "registry \<Rightarrow> string \<Rightarrow> string option" where
  "auto_of R t = Option.bind (dget R t) auto_increment_column"

text \<open>\<open>_insert\<close>: the driver's \<open>lastrowid\<close> is the generated key, 0 for a table without one.\<close>

definition insert_row :: "engine \<Rightarrow> registry \<Rightarrow> string \<Rightarrow> row \<Rightarrow> target_db \<Rightarrow> (pyval \<times> target_db) res" where
  "insert_row E R t values T =
     res_bind (safe_all (t # dkeys values)) (\<lambda>_.
     res_bind (sql_insert E (auto_of R t) t values T) (\<lambda>(stored, T').
       Inr (case auto_of R t of None \<Rightarrow> PInt 0 | Some c \<Rightarrow> row_get stored c, T')))"

definition update_row :: "engine \<Rightarrow> string \<Rightarrow> string \<Rightarrow> pyval \<Rightarrow> row \<Rightarrow> target_db \<Rightarrow> (unit \<times> target_db) res" where
  "update_row E t pk v values T =
     (let assignable = filter (\<lambda>(c, _). c \<noteq> pk) values in
      if assignable = [] then Inr ((), T)
      else res_bind (safe_all (dkeys assignable @ [t, pk])) (\<lambda>_.
        res_bind (sql_update E t pk v assignable T) (\<lambda>T'. Inr ((), T'))))"

definition row_exists :: "engine \<Rightarrow> string \<Rightarrow> string \<Rightarrow> pyval \<Rightarrow> target_db \<Rightarrow> bool res" where
  "row_exists E t pk v T =
     res_bind (safe_all [t, pk]) (\<lambda>_. Inr (\<exists>r \<in> set (t_rows T t). col_eq E pk v r))"

definition missing_reference :: "runtime \<Rightarrow> string \<Rightarrow> row \<Rightarrow> exn" where
  "missing_reference P t criteria = ReferenceRowNotFound (''no row in reference table '' @ t @ '' matches ''
     @ py_repr P (PDict criteria) @ ''; the pipeline never inserts into '' @ t)"

definition resolve_reference_id ::
  "engine \<Rightarrow> runtime \<Rightarrow> registry \<Rightarrow> string \<Rightarrow> row \<Rightarrow> target_db \<Rightarrow> pyval res" where
  "resolve_reference_id E P R t values T =
     res_bind (first_pk R t) (\<lambda>pko. case pko of
       None \<Rightarrow> Inl (ReferenceRowNotFound (t @ '' has no primary key to resolve''))
     | Some pk \<Rightarrow>
        (if row_get values pk \<noteq> PNone then
           res_bind (safe_all [pk, t]) (\<lambda>_. case sql_select t (col_eq E pk (row_get values pk)) pk T of
               Some v \<Rightarrow> Inr v
             | None \<Rightarrow> Inl (ReferenceRowNotFound (t @ ''.'' @ pk @ ''='' @ py_repr P (row_get values pk)
                 @ '' does not exist; '' @ t @ '' is a read-only reference table'')))
         else
           (let criteria = filter (\<lambda>(c, v). v \<noteq> PNone \<and> c \<noteq> pk) values in
            if criteria = [] then Inl (ReferenceRowNotFound
              (''cannot resolve a row in reference table '' @ t @ '': no lookup values mapped''))
            else res_bind (safe_all (dkeys criteria @ [pk, t])) (\<lambda>_.
              case sql_select t (\<lambda>r. list_all (\<lambda>(c, v). col_eq E c v r) criteria) pk T of
                None \<Rightarrow> Inl (missing_reference P t criteria)
              | Some v \<Rightarrow> Inr v))))"

section \<open>Writing one row\<close>

definition pk_or_index_error :: "registry \<Rightarrow> string \<Rightarrow> string res" where
  "pk_or_index_error R t = res_bind (first_pk R t) (\<lambda>p. case p of
     None \<Rightarrow> Inl (IndexError ''list index out of range'') | Some pk \<Rightarrow> Inr pk)"

text \<open>The id of a row found by its natural key; only a missing reference row means no match.\<close>

definition match_or_none ::
  "engine \<Rightarrow> runtime \<Rightarrow> registry \<Rightarrow> string \<Rightarrow> row \<Rightarrow> target_db \<Rightarrow> pyval option res" where
  "match_or_none E P R t values T = (case resolve_reference_id E P R t values T of
       Inr v \<Rightarrow> Inr (if is_none v then None else Some v)
     | Inl (ReferenceRowNotFound m) \<Rightarrow> Inr None
     | Inl e \<Rightarrow> Inl e)"

definition find_match :: "engine \<Rightarrow> runtime \<Rightarrow> registry \<Rightarrow> string \<Rightarrow> row \<Rightarrow> (world, pyval option) comp" where
  "find_match E P R t values w = (match_or_none E P R t values (w_target w), w)"

text \<open>The id the crosswalk has for this row, when the target still holds it.\<close>

definition live_id ::
  "engine \<Rightarrow> delivery_key \<Rightarrow> string \<Rightarrow> string \<Rightarrow> (world, string option) comp" where
  "live_id E k t pk w = (case crosswalk_lookup k t (w_central w) of
       None \<Rightarrow> (Inr None, w)
     | Some s \<Rightarrow> (case row_exists E t pk (PStr s) (w_target w) of
          Inl e \<Rightarrow> (Inl e, w)
        | Inr b \<Rightarrow> (Inr (if b then Some s else None), w)))"

definition write_app_assigned_row ::
  "engine \<Rightarrow> runtime \<Rightarrow> registry \<Rightarrow> int \<Rightarrow> delivery_key \<Rightarrow> string option \<Rightarrow> string \<Rightarrow> row \<Rightarrow> (world, pyval) comp" where
  "write_app_assigned_row E P R now k event t values =
     bind (lift_res (pk_or_index_error R t)) (\<lambda>pk.
     bind (live_id E k t pk) (\<lambda>existing. case existing of
       Some s \<Rightarrow> bind (on_target (update_row E t pk (PStr s) values)) (\<lambda>_. ret (PStr s))
     | None \<Rightarrow>
        bind (find_match E P R t values) (\<lambda>matched. case matched of
          Some v \<Rightarrow> record_id P now k t event v
        | None \<Rightarrow>
           bind (on_central (allocate_id t (tp_id_start lrmis_plugin))) (\<lambda>new_id.
           bind (on_target (insert_row E R t (dput pk (PInt new_id) values))) (\<lambda>_.
             record_id P now k t event (PInt new_id))))))"

definition write_table ::
  "engine \<Rightarrow> runtime \<Rightarrow> registry \<Rightarrow> int \<Rightarrow> delivery_key \<Rightarrow> string option \<Rightarrow> string \<Rightarrow> row \<Rightarrow> (world, pyval) comp" where
  "write_table E P R now k event t values =
     (if t \<in> set (tp_app_assigned lrmis_plugin)
      then write_app_assigned_row E P R now k event t values
      else bind (lift_res (is_reference_table R t)) (\<lambda>ref.
        if ref then (\<lambda>w. (resolve_reference_id E P R t values (w_target w), w))
        else bind (lift_res (first_pk R t)) (\<lambda>pko.
          bind (case pko of None \<Rightarrow> ret None | Some pk \<Rightarrow> live_id E k t pk) (\<lambda>existing. case existing of
            Some s \<Rightarrow> bind (on_target (update_row E t (the pko) (PStr s) values)) (\<lambda>_. ret (PStr s))
          | None \<Rightarrow> bind (on_target (insert_row E R t values)) (record_id P now k t event)))))"

definition write_source_row ::
  "engine \<Rightarrow> runtime \<Rightarrow> registry \<Rightarrow> int \<Rightarrow> delivery_key \<Rightarrow> string option \<Rightarrow> (string, row) dict \<Rightarrow> (world, row) comp" where
  "write_source_row E P R now k event vbt = fan_out ''LRMIS'' R (write_table E P R now k event) vbt"

definition delete_entity_rows ::
  "engine \<Rightarrow> registry \<Rightarrow> string \<Rightarrow> string \<Rightarrow> (world, (string, nat) dict) comp" where
  "delete_entity_rows E R entity sys = delete_owned_rows safe_all E R entity sys"

section \<open>The writer keeps the contract\<close>

text \<open>Tables whose rows the pipeline creates, and tables whose key the engine generates.\<close>

definition creates_rows :: "registry \<Rightarrow> string \<Rightarrow> bool" where
  "creates_rows R t = (t \<in> set (tp_app_assigned lrmis_plugin) \<or> is_reference_table R t \<noteq> Inr True)"

lemma update_row_other:
  assumes "update_row E t pk v vs T = Inr (u, T')" and "t' \<noteq> t"
  shows "t_rows T' t' = t_rows T t'"
  using assms by (auto simp: update_row_def Let_def res_bind_Inr_iff sql_update_rows split: if_splits)

lemma insert_row_other:
  assumes "insert_row E R t vs T = Inr (u, T')" and "t' \<noteq> t"
  shows "t_rows T' t' = t_rows T t'"
  using assms by (auto simp: insert_row_def res_bind_Inr_iff sql_insert_rows)

text \<open>
  The two shapes a write of one table takes when it changes anything: the row the crosswalk
  knows is updated, or a row is inserted (or matched) and its id recorded.
\<close>

definition write_effect :: "runtime \<Rightarrow> int \<Rightarrow> delivery_key \<Rightarrow> string option \<Rightarrow> string \<Rightarrow> pyval res \<Rightarrow> world \<Rightarrow> world \<Rightarrow> bool" where
  "write_effect P now k event t r w w' =
     ((\<forall>t'. t' \<noteq> t \<longrightarrow> t_rows (w_target w') t' = t_rows (w_target w) t')
      \<and> (\<exists>c. (c = w_central w \<or> (\<exists>s. c = snd (allocate_id t s (w_central w)))) \<and>
          (case r of
             Inl e \<Rightarrow> w_central w' = c
           | Inr x \<Rightarrow> w_central w' = crosswalk_record now k t (py_str P x) event c
               \<or> w_central w' = c \<and> crosswalk_lookup k t c = Some (py_str P x))))"

lemma write_effect_frame:
  assumes "write_effect P now k event t r w w'"
  shows "t' \<noteq> t \<Longrightarrow> t_rows (w_target w') t' = t_rows (w_target w) t'"
    and "k' \<noteq> k \<or> t' \<noteq> t \<Longrightarrow> crosswalk_lookup k' t' (w_central w') = crosswalk_lookup k' t' (w_central w)"
    and "r = Inr x \<Longrightarrow> crosswalk_lookup k t (w_central w') = Some (py_str P x)"
    and "central_rest (w_central w') = central_rest (w_central w)"
proof -
  obtain c where c: "c = w_central w \<or> (\<exists>s. c = snd (allocate_id t s (w_central w)))"
    and r: "case r of Inl e \<Rightarrow> w_central w' = c
           | Inr x \<Rightarrow> w_central w' = crosswalk_record now k t (py_str P x) event c
               \<or> w_central w' = c \<and> crosswalk_lookup k t c = Some (py_str P x)"
    using assms unfolding write_effect_def by blast
  have same: "crosswalk_lookup k' t' c = crosswalk_lookup k' t' (w_central w)" "central_rest c = central_rest (w_central w)" for k' t'
    using c by auto
  show "t' \<noteq> t \<Longrightarrow> t_rows (w_target w') t' = t_rows (w_target w) t'"
    using assms unfolding write_effect_def by blast
  show "k' \<noteq> k \<or> t' \<noteq> t \<Longrightarrow> crosswalk_lookup k' t' (w_central w') = crosswalk_lookup k' t' (w_central w)"
    using r same by (auto split: sum.splits)
  show "r = Inr x \<Longrightarrow> crosswalk_lookup k t (w_central w') = Some (py_str P x)"
    using r by auto
  show "central_rest (w_central w') = central_rest (w_central w)"
    using r same by (auto split: sum.splits)
qed

lemma write_effect_fail: "write_effect P now k event t (Inl e) w w"
  unfolding write_effect_def by auto

lemma write_effect_update:
  assumes "bind (on_target (update_row E t pk (PStr s) vs)) (\<lambda>_. ret (PStr s)) w = (r, w')"
    and "crosswalk_lookup k t (w_central w) = Some s"
  shows "write_effect P now k event t r w w'"
proof -
  obtain r0 w0 where o: "on_target (update_row E t pk (PStr s) vs) w = (r0, w0)" by fastforce
  then show ?thesis
  proof (cases rule: on_target_cases)
    case (refused e)
    then show ?thesis using assms(1) o by (auto simp: bind_def write_effect_fail)
  next
    case (ok x T)
    then have "r = Inr (PStr s)" "w' = w\<lparr>w_target := T\<rparr>" using assms(1) o by (auto simp: bind_def)
    then show ?thesis using ok(1) assms(2) by (auto simp: write_effect_def update_row_other)
  qed
qed

lemma write_effect_insert:
  assumes "bind (on_target (insert_row E R t vs)) (record_id P now k t event) w = (r, w')"
  shows "write_effect P now k event t r w w'"
proof -
  obtain r0 w0 where o: "on_target (insert_row E R t vs) w = (r0, w0)" by fastforce
  then show ?thesis
  proof (cases rule: on_target_cases)
    case (refused e)
    then show ?thesis using assms(1) o by (auto simp: bind_def write_effect_fail)
  next
    case (ok x T)
    then have "r = Inr x" "w' = w\<lparr>w_target := T, w_central := crosswalk_record now k t (py_str P x) event (w_central w)\<rparr>"
      using assms(1) o by (auto simp: bind_def record_id_def on_central_def)
    then show ?thesis using ok(1) by (auto simp: write_effect_def insert_row_other)
  qed
qed

lemma live_id_cases:
  assumes "live_id E k t pk w = (r, w')"
  shows "w' = w \<and> (\<forall>s. r = Inr (Some s) \<longrightarrow> crosswalk_lookup k t (w_central w) = Some s
           \<and> (\<exists>row \<in> set (t_rows (w_target w) t). col_eq E pk (PStr s) row))"
  using assms by (auto simp: live_id_def row_exists_def res_bind_Inr_iff split: option.splits sum.splits if_splits)

lemma write_effect_allocate:
  assumes "bind (on_central (allocate_id t start)) (\<lambda>n. bind (on_target (insert_row E R t (vs n)))
      (\<lambda>_. record_id P now k t event (PInt n))) w = (r, w')"
  shows "write_effect P now k event t r w w'"
proof -
  let ?n = "fst (allocate_id t start (w_central w))" and ?c = "snd (allocate_id t start (w_central w))"
  let ?w = "w\<lparr>w_central := ?c\<rparr>"
  have run: "bind (on_target (insert_row E R t (vs ?n))) (\<lambda>_. record_id P now k t event (PInt ?n)) ?w = (r, w')"
    using assms by (simp add: bind_def on_central_def case_prod_beta)
  obtain r0 w0 where o: "on_target (insert_row E R t (vs ?n)) ?w = (r0, w0)" by fastforce
  then show ?thesis
  proof (cases rule: on_target_cases)
    case (refused e)
    then show ?thesis using run o by (auto simp: bind_def write_effect_def)
  next
    case (ok x T)
    then have r: "r = Inr (PInt ?n)" "w' = ?w\<lparr>w_target := T, w_central := crosswalk_record now k t (py_str P (PInt ?n)) event ?c\<rparr>"
      using run o by (simp_all add: bind_def record_id_def on_central_def)
    have "t_rows T t' = t_rows (w_target w) t'" if "t' \<noteq> t" for t'
      using insert_row_other [OF ok(1) that] by simp
    then show ?thesis unfolding write_effect_def r by (auto intro!: exI [of _ ?c])
  qed
qed

lemma write_app_assigned_effect:
  assumes "write_app_assigned_row E P R now k event t vs w = (r, w')"
  shows "write_effect P now k event t r w w'"
proof (cases "pk_or_index_error R t")
  case (Inl e)
  then show ?thesis using assms by (auto simp: write_app_assigned_row_def bind_def write_effect_fail)
next
  case (Inr pk)
  obtain r0 w0 where live: "live_id E k t pk w = (r0, w0)" by fastforce
  have w0: "w0 = w" using live_id_cases [OF live] by simp
  show ?thesis
  proof (cases r0)
    case (Inl e)
    then show ?thesis using assms Inr live w0 by (auto simp: write_app_assigned_row_def bind_def write_effect_fail)
  next
    case (Inr found)
    show ?thesis
    proof (cases found)
      case (Some s)
      then have "bind (on_target (update_row E t pk (PStr s) vs)) (\<lambda>_. ret (PStr s)) w = (r, w')"
        using assms \<open>pk_or_index_error R t = Inr pk\<close> live w0 Inr
        by (simp add: write_app_assigned_row_def bind_def [of "lift_res _"] bind_def [of "live_id _ _ _ _"])
      then show ?thesis using live_id_cases [OF live] Inr Some by (intro write_effect_update) auto
    next
      case None
      note here = assms \<open>pk_or_index_error R t = Inr pk\<close> live w0 Inr None
      show ?thesis
      proof (cases "match_or_none E P R t vs (w_target w)")
        case (Inl e)
        then show ?thesis using here by (auto simp: write_app_assigned_row_def bind_def find_match_def write_effect_fail)
      next
        case (Inr m)
        show ?thesis
        proof (cases m)
          case (Some v)
          then have "r = Inr v" "w' = w\<lparr>w_central := crosswalk_record now k t (py_str P v) event (w_central w)\<rparr>"
            using here Inr by (auto simp: write_app_assigned_row_def bind_def find_match_def record_id_def on_central_def)
          then show ?thesis by (auto simp: write_effect_def)
        next
          case nomatch: None
          have "bind (on_central (allocate_id t (tp_id_start lrmis_plugin))) (\<lambda>n. bind (on_target
              (insert_row E R t (dput pk (PInt n) vs))) (\<lambda>_. record_id P now k t event (PInt n))) w = (r, w')"
            using here Inr nomatch by (simp add: write_app_assigned_row_def bind_def [of "lift_res _"]
                bind_def [of "live_id _ _ _ _"] bind_def [of "find_match _ _ _ _ _"] find_match_def)
          then show ?thesis by (rule write_effect_allocate)
        qed
      qed
    qed
  qed
qed

lemma write_table_effect:
  assumes "write_table E P R now k event t vs w = (r, w')" and "creates_rows R t"
  shows "write_effect P now k event t r w w'"
proof (cases "t \<in> set (tp_app_assigned lrmis_plugin)")
  case True
  then show ?thesis using assms(1) by (auto simp: write_table_def intro: write_app_assigned_effect)
next
  case False
  show ?thesis
  proof (cases "is_reference_table R t")
    case (Inl e)
    then show ?thesis using assms False by (auto simp: write_table_def bind_def write_effect_fail)
  next
    case (Inr ref)
    then have "is_reference_table R t = Inr False" using assms(2) False by (auto simp: creates_rows_def)
    moreover then obtain pko where pk: "first_pk R t = Inr pko"
      by (auto simp: is_reference_table_def first_pk_def res_bind_Inr_iff)
    ultimately have run: "bind (case pko of None \<Rightarrow> ret None | Some pk \<Rightarrow> live_id E k t pk) (\<lambda>existing. case existing of
            Some s \<Rightarrow> bind (on_target (update_row E t (the pko) (PStr s) vs)) (\<lambda>_. ret (PStr s))
          | None \<Rightarrow> bind (on_target (insert_row E R t vs)) (record_id P now k t event)) w = (r, w')"
      using assms(1) False by (simp add: write_table_def bind_def [of "lift_res _"])
    show ?thesis
    proof (cases pko)
      case None
      then show ?thesis using run by (intro write_effect_insert) (simp add: bind_def [of "ret _"])
    next
      case (Some pk)
      obtain r0 w0 where live: "live_id E k t pk w = (r0, w0)" by fastforce
      note c = live_id_cases [OF live]
      show ?thesis
      proof (cases r0)
        case (Inl e)
        then show ?thesis using run Some live c by (auto simp: bind_def write_effect_fail)
      next
        case (Inr found)
        show ?thesis
        proof (cases found)
          case None
          then show ?thesis using run Some live c Inr
            by (intro write_effect_insert) (simp add: bind_def [of "live_id _ _ _ _"])
        next
          case found: (Some s)
          then show ?thesis using run Some live c Inr
            by (intro write_effect_update) (auto simp: bind_def [of "live_id _ _ _ _"])
        qed
      qed
    qed
  qed
qed

lemma write_table_reference:
  assumes "write_table E P R now k event t vs w = (r, w')" and "\<not> creates_rows R t"
  shows "w' = w"
  using assms by (auto simp: write_table_def creates_rows_def bind_def)

interpretation legacy: table_writer P R k "write_table E P R now k event" "creates_rows R"
  "\<lambda>t. \<not> creates_rows R t" for P R k E now event
proof
  fix t vs w r w' t' k' x
  assume run: "write_table E P R now k event t vs w = (r, w')"
  have e: "w' = w \<or> write_effect P now k event t r w w'"
    using write_table_effect [OF run] write_table_reference [OF run] by blast
  show "t' \<noteq> t \<Longrightarrow> t_rows (w_target w') t' = t_rows (w_target w) t'"
    using e write_effect_frame(1) by metis
  show "k' \<noteq> k \<or> t' \<noteq> t \<Longrightarrow> crosswalk_lookup k' t' (w_central w') = crosswalk_lookup k' t' (w_central w)"
    using e write_effect_frame(2) by metis
  show "central_rest (w_central w') = central_rest (w_central w)"
    using e write_effect_frame(4) by metis
  show "\<not> creates_rows R t \<Longrightarrow> t_rows (w_target w') t = t_rows (w_target w) t"
    using write_table_reference [OF run] by simp
next
  fix t vs w w' x
  assume "write_table E P R now k event t vs w = (Inr x, w')" and "creates_rows R t"
  from write_effect_frame(3) [OF write_table_effect [OF this] refl]
  show "crosswalk_lookup k t (w_central w') = Some (py_str P x)" .
qed

text \<open>A row the crosswalk knows and the target still holds.\<close>

definition row_alive :: "engine \<Rightarrow> registry \<Rightarrow> delivery_key \<Rightarrow> string \<Rightarrow> string \<Rightarrow> world \<Rightarrow> bool" where
  "row_alive E R k t s w = (crosswalk_lookup k t (w_central w) = Some s \<and> creates_rows R t
     \<and> (case first_pk R t of Inr (Some pk) \<Rightarrow> list_ex (col_eq E pk (PStr s)) (t_rows (w_target w) t) | _ \<Rightarrow> False))"

lemma live_id_alive:
  assumes "row_alive E R k t s w" and "first_pk R t = Inr (Some pk)" and "live_id E k t pk w = (Inr o', w')"
  shows "o' = Some s"
  using assms by (auto simp: row_alive_def live_id_def row_exists_def res_bind_Inr_iff list_ex_iff split: sum.splits if_splits)

lemma write_table_alive:
  assumes "write_table E P R now k event t vs w = (Inr x, w')" and alive: "row_alive E R k t s w"
  obtains pk where "first_pk R t = Inr (Some pk)" and "x = PStr s"
    and "update_row E t pk (PStr s) vs (w_target w) = Inr ((), w_target w')"
proof -
  obtain pk where pk: "first_pk R t = Inr (Some pk)"
    using alive by (auto simp: row_alive_def split: sum.splits option.splits)
  obtain r0 w0 where live: "live_id E k t pk w = (r0, w0)" by fastforce
  have w0: "w0 = w" using live_id_cases [OF live] by simp
  have "\<exists>o'. r0 = Inr o'"
  proof (cases r0)
    case (Inl e)
    then show ?thesis using assms(1) pk live alive
      by (auto simp: write_table_def write_app_assigned_row_def pk_or_index_error_def creates_rows_def row_alive_def bind_def
          split: if_splits sum.splits)
  qed simp
  then obtain o' where r0: "r0 = Inr o'" ..
  have o': "o' = Some s" using live_id_alive [OF alive pk] live r0 by blast
  have up: "bind (on_target (update_row E t pk (PStr s) vs)) (\<lambda>_. ret (PStr s)) w = (Inr x, w')"
  proof (cases "t \<in> set (tp_app_assigned lrmis_plugin)")
    case True
    then show ?thesis using assms(1) live w0 r0 o' pk
      by (simp add: write_table_def write_app_assigned_row_def pk_or_index_error_def bind_def [of "lift_res _"]
          bind_def [of "live_id _ _ _ _"])
  next
    case False
    then have "is_reference_table R t = Inr False"
      using alive pk by (auto simp: row_alive_def creates_rows_def is_reference_table_def first_pk_def res_bind_Inr_iff)
    then show ?thesis using assms(1) live w0 r0 o' pk False
      by (simp add: write_table_def bind_def [of "lift_res _"] bind_def [of "live_id _ _ _ _"])
  qed
  obtain r1 w1 where o1: "on_target (update_row E t pk (PStr s) vs) w = (r1, w1)" by fastforce
  then show thesis
  proof (cases rule: on_target_cases)
    case (refused e)
    then show ?thesis using up o1 by (simp add: bind_def)
  next
    case (ok u T)
    then show ?thesis using up o1 pk by (intro that [of pk]) (auto simp: bind_def)
  qed
qed

lemma write_table_inserts:
  assumes "write_table E P R now k event t vs w = (Inr x, w')" and "t \<notin> set (tp_app_assigned lrmis_plugin)"
    and "is_reference_table R t = Inr False" and "\<And>s. \<not> row_alive E R k t s w"
  shows "insert_row E R t vs (w_target w) = Inr (x, w_target w')"
proof -
  obtain pko where pk: "first_pk R t = Inr pko"
    using assms(3) by (auto simp: is_reference_table_def first_pk_def res_bind_Inr_iff)
  have run: "bind (case pko of None \<Rightarrow> ret None | Some pk \<Rightarrow> live_id E k t pk) (\<lambda>existing. case existing of
            Some s \<Rightarrow> bind (on_target (update_row E t (the pko) (PStr s) vs)) (\<lambda>_. ret (PStr s))
          | None \<Rightarrow> bind (on_target (insert_row E R t vs)) (record_id P now k t event)) w = (Inr x, w')"
    using assms(1,2,3) pk by (simp add: write_table_def bind_def [of "lift_res _"])
  have "bind (on_target (insert_row E R t vs)) (record_id P now k t event) w = (Inr x, w')"
  proof (cases pko)
    case None
    then show ?thesis using run by (simp add: bind_def [of "ret _"])
  next
    case (Some p)
    obtain r0 w0 where live: "live_id E k t p w = (r0, w0)" by fastforce
    note c = live_id_cases [OF live]
    have "r0 \<noteq> Inr (Some s)" for s
      using c assms(3) assms(4) [of s] pk Some by (auto simp: row_alive_def creates_rows_def list_ex_iff)
    then have "r0 = Inr None" using run Some live c
      by (cases r0) (auto simp: bind_def [of "live_id _ _ _ _"] split: option.splits)
    then show ?thesis using run Some live c by (simp add: bind_def [of "live_id _ _ _ _"])
  qed
  then obtain y w1 where o: "on_target (insert_row E R t vs) w = (Inr y, w1)"
    and rec: "record_id P now k t event y w1 = (Inr x, w')"
    by (rule bind_InrE)
  have "x = y" "w_target w' = w_target w1" using rec by (auto simp: record_id_def on_central_def)
  then show ?thesis using o by (auto simp: on_target_def split: sum.splits)
qed

text \<open>What one table holds after it is written, for the tables the pipeline inserts into.\<close>

definition plain_table :: "registry \<Rightarrow> string \<Rightarrow> bool" where
  "plain_table R t = (t \<notin> set (tp_app_assigned lrmis_plugin) \<and> is_reference_table R t = Inr False)"

definition mapped_column :: "registry \<Rightarrow> string \<Rightarrow> string \<Rightarrow> bool" where
  "mapped_column R t c = (first_pk R t \<noteq> Inr (Some c) \<and> auto_of R t \<noteq> Some c)"

lemma map_of_rev_distinct: "distinct (map fst xs) \<Longrightarrow> map_of (rev xs) = map_of xs"
  by (rule map_of_inject_set [THEN iffD2]) (simp_all add: rev_map [symmetric])

lemma row_get_assign_dict:
  assumes "wf_dict vs" and "c \<in> set (dkeys vs)" and "c \<noteq> pk"
  shows "row_get (assign_row (filter (\<lambda>(c, _). c \<noteq> pk) vs) r) c = row_get vs c"
proof -
  let ?new = "filter (\<lambda>(c, _). c \<noteq> pk) vs"
  have d: "distinct (map fst ?new)" using assms(1) by (simp add: wf_dict_def distinct_map_filter)
  have "map_of ?new c = dget vs c"
    using assms(3) by (induction vs) (auto simp: dget_def)
  moreover obtain v where "dget vs c = Some v" using assms(2) by (auto simp: set_dkeys_iff)
  ultimately show ?thesis
    unfolding row_get_assign map_of_rev_distinct [OF d] by (simp add: row_get_def)
qed

lemma update_row_stores:
  assumes "update_row E t pk v vs T = Inr (u, T')" and "wf_dict vs" and "list_ex (col_eq E pk v) (t_rows T t)"
  shows "\<exists>r \<in> set (t_rows T' t). \<forall>c. c \<in> set (dkeys vs) \<longrightarrow> c \<noteq> pk \<longrightarrow> row_get r c = row_get vs c"
proof -
  let ?new = "filter (\<lambda>(c, _). c \<noteq> pk) vs"
  obtain r where r: "r \<in> set (t_rows T t)" "col_eq E pk v r" using assms(3) by (auto simp: list_ex_iff)
  show ?thesis
  proof (cases "?new = []")
    case True
    then have "\<forall>c. c \<in> set (dkeys vs) \<longrightarrow> c = pk" by (auto simp: filter_empty_conv dkeys_def)
    moreover have "T' = T" using assms(1) True by (simp add: update_row_def)
    ultimately show ?thesis using r by auto
  next
    case False
    then have "sql_update E t pk v ?new T = Inr T'" using assms(1) by (auto simp: update_row_def Let_def res_bind_Inr_iff)
    then have "assign_row ?new r \<in> set (t_rows T' t)"
      using r by (auto simp: sql_update_rows update_where_def)
    moreover have "\<forall>c. c \<in> set (dkeys vs) \<longrightarrow> c \<noteq> pk \<longrightarrow> row_get (assign_row ?new r) c = row_get vs c"
      using row_get_assign_dict [OF assms(2)] by blast
    ultimately show ?thesis by blast
  qed
qed

lemma update_row_length:
  "update_row E t pk v vs T = Inr (u, T') \<Longrightarrow> length (t_rows T' t) = length (t_rows T t)"
  by (auto simp: update_row_def Let_def res_bind_Inr_iff sql_update_rows split: if_splits)

interpretation legacy: updating_writer P R k "write_table E P R now k event" "creates_rows R"
  "\<lambda>t. \<not> creates_rows R t" "row_alive E R k"
  for P R k E now event
proof
  fix t vs w w0 w' x s
  show "t_rows (w_target w) t = t_rows (w_target w0) t \<Longrightarrow>
      crosswalk_lookup k t (w_central w) = crosswalk_lookup k t (w_central w0) \<Longrightarrow>
      row_alive E R k t s w0 \<Longrightarrow> row_alive E R k t s w"
    by (simp add: row_alive_def split: sum.splits option.splits)
  assume "write_table E P R now k event t vs w = (Inr x, w')" and "row_alive E R k t s w"
  then show "x = PStr s \<and> length (t_rows (w_target w') t) = length (t_rows (w_target w) t)"
    by (rule write_table_alive) (simp add: update_row_length)
qed

interpretation legacy: storing_writer P R k "write_table E P R now k event" "creates_rows R"
  "\<lambda>t. \<not> creates_rows R t" "plain_table R" "mapped_column R" "\<lambda>t c v. v" for P R k E now event
proof
  fix t vs w w' x
  assume run: "write_table E P R now k event t vs w = (Inr x, w')" and t: "plain_table R t" and wf: "wf_dict vs"
  show "\<exists>r \<in> set (t_rows (w_target w') t). \<forall>c. c \<in> set (dkeys vs) \<longrightarrow> mapped_column R t c \<longrightarrow> row_get r c = row_get vs c"
  proof (cases "\<exists>s. row_alive E R k t s w")
    case True
    then obtain s where a: "row_alive E R k t s w" ..
    obtain pk where pk: "first_pk R t = Inr (Some pk)"
      and up: "update_row E t pk (PStr s) vs (w_target w) = Inr ((), w_target w')"
      using run a by (rule write_table_alive)
    have "list_ex (col_eq E pk (PStr s)) (t_rows (w_target w) t)" using a pk by (simp add: row_alive_def)
    from update_row_stores [OF up wf this] pk show ?thesis by (auto simp: mapped_column_def)
  next
    case False
    then have "insert_row E R t vs (w_target w) = Inr (x, w_target w')"
      using write_table_inserts [OF run] t by (auto simp: plain_table_def)
    then obtain stored where ins: "sql_insert E (auto_of R t) t vs (w_target w) = Inr (stored, w_target w')"
      by (auto simp: insert_row_def res_bind_Inr_iff)
    have "stored \<in> set (t_rows (w_target w') t)" using sql_insert_rows [OF ins, of t] by simp
    moreover have "row_get stored c = row_get vs c" if "mapped_column R t c" for c
      using that sql_insert_stored [OF ins, of c] by (auto simp: mapped_column_def)
    ultimately show ?thesis by blast
  qed
qed

section \<open>One source row across its tables\<close>

lemma write_source_row_frame:
  assumes "write_source_row E P R now k event vbt w = (r, w')" and "wf_dict vbt"
  shows "(\<forall>t. t \<notin> set (dkeys vbt) \<or> \<not> creates_rows R t \<longrightarrow> t_rows (w_target w') t = t_rows (w_target w) t)
    \<and> (\<forall>k' t. k' \<noteq> k \<or> t \<notin> set (dkeys vbt) \<longrightarrow>
          crosswalk_lookup k' t (w_central w') = crosswalk_lookup k' t (w_central w))
    \<and> central_rest (w_central w') = central_rest (w_central w)"
  by (rule legacy.fan_out_frame [OF assms(1) [unfolded write_source_row_def] assms(2)])

text \<open>
  C3: writing a source row touches nothing but its own: whatever the outcome, tables outside
  the mapping and read-only reference tables keep their rows, the crosswalk entries of other
  source rows and tables stay, and no other central table changes. When it returns, it
  returns an id for every table of the mapping, parents first, and the crosswalk holds that
  id for every table whose rows the pipeline creates.
\<close>

theorem write_source_row_effect:
  assumes "write_source_row E P R now k event vbt w = (r, w')"
    and "wf_dict vbt"
  shows "(\<forall>t. t \<notin> set (dkeys vbt) \<or> \<not> creates_rows R t \<longrightarrow> t_rows (w_target w') t = t_rows (w_target w) t)
    \<and> (\<forall>k' t. k' \<noteq> k \<or> t \<notin> set (dkeys vbt) \<longrightarrow>
          crosswalk_lookup k' t (w_central w') = crosswalk_lookup k' t (w_central w))
    \<and> central_rest (w_central w') = central_rest (w_central w)
    \<and> (\<forall>ids. r = Inr ids \<longrightarrow> topological_order R (Some (dkeys vbt)) = Inr (dkeys ids)
          \<and> (\<forall>t \<in> set (dkeys vbt). creates_rows R t \<longrightarrow>
                crosswalk_lookup k t (w_central w') = Some (py_str P (row_get ids t))))"
proof -
  note run = assms(1) [unfolded write_source_row_def]
  have "topological_order R (Some (dkeys vbt)) = Inr (dkeys ids)
      \<and> (\<forall>t \<in> set (dkeys vbt). creates_rows R t \<longrightarrow>
            crosswalk_lookup k t (w_central w') = Some (py_str P (row_get ids t)))" if "r = Inr ids" for ids
    using legacy.fan_out_ok [OF run [unfolded that] assms(2)] by blast
  then show ?thesis using write_source_row_frame [OF assms] by blast
qed



text \<open>
  C17: a refresh deletes exactly what the pipeline wrote: when it returns, every table is
  without the rows whose keys the crosswalk records for the entity, holds all its other rows,
  and reference tables are untouched; when a statement is refused, each table is either
  unchanged or in that state and the crosswalk still knows every row.
\<close>

theorem delete_entity_rows_spec:
  assumes "delete_entity_rows E R entity sys w = (r, w')"
  shows "(case r of
      Inr counts \<Rightarrow> (\<forall>t. t_rows (w_target w') t = kept_rows E R entity sys (w_central w) (w_target w) t)
        \<and> w_central w' = forget_entity entity sys
            (filter (deletable R) (map fst (crosswalk_rows_for_entity entity sys (w_central w)))) (w_central w)
    | Inl e \<Rightarrow> w_central w' = w_central w \<and> (\<forall>t. t_rows (w_target w') t \<in>
          {t_rows (w_target w) t, kept_rows E R entity sys (w_central w) (w_target w) t}))"
  using delete_owned_rows_effect [OF assms [unfolded delete_entity_rows_def]] by (auto split: sum.splits)

section \<open>A small registry\<close>

definition sample_engine :: engine where
  "sample_engine = \<lparr>eng_eq = (\<lambda>a b. py_str sample_runtime a = py_str sample_runtime b),
     eng_refuses = (\<lambda>T t r. None), eng_keeps = (\<lambda>T t r. None), eng_commit = (\<lambda>T. None)\<rparr>"

definition sample_key :: delivery_key where
  "sample_key = \<lparr>dk_system = ''S'', dk_entity = ''schools'', dk_reference = ''r1'', dk_target = ''LRMIS''\<rparr>"

definition sample_values :: "(string, row) dict" where
  "sample_values = [(''school'', [(''name'', PStr ''A'')]), (''station'', [(''label'', PStr ''L'')])]"

definition sample_world :: world where
  "sample_world = \<lparr>w_central = empty_central, w_target = \<lparr>tg_tables = [], tg_next = []\<rparr>\<rparr>"

definition first_delivery :: "row res \<times> world" where
  "first_delivery = write_source_row sample_engine sample_runtime sample_registry 5 sample_key None sample_values sample_world"

lemma sample_values_wf:
  "wf_dict sample_values" "set (dkeys sample_values) \<subseteq> set (dkeys sample_registry)" "''school'' \<in> set (dkeys sample_values)"
  by code_simp+

lemma first_delivery_runs:
  "fst first_delivery = Inr [(''station'', PInt 10000000), (''school'', PInt 1)]"
  "first_pk sample_registry ''school'' = Inr (Some ''id'')" "auto_of sample_registry ''school'' = Some ''id''"
  "is_reference_table sample_registry ''school'' = Inr False"
  by code_simp+

lemma first_delivery_eq:
  "write_source_row sample_engine sample_runtime sample_registry 5 sample_key None sample_values sample_world
     = (Inr [(''station'', PInt 10000000), (''school'', PInt 1)], snd first_delivery)"
  using first_delivery_runs(1) unfolding first_delivery_def by (metis prod.collapse)

theorem write_source_row_effect_witness:
  "crosswalk_lookup sample_key ''school'' (w_central (snd first_delivery)) = Some ''1''
     \<and> t_rows (w_target (snd first_delivery)) ''psgc'' = []"
proof -
  note effect = write_source_row_effect [OF first_delivery_eq sample_values_wf(1)]
  have "creates_rows sample_registry ''school''" by (simp add: creates_rows_def first_delivery_runs)
  moreover have "py_str sample_runtime (row_get [(''station'', PInt 10000000), (''school'', PInt 1)] ''school'') = ''1''" by code_simp
  ultimately have "crosswalk_lookup sample_key ''school'' (w_central (snd first_delivery)) = Some ''1''"
    using effect sample_values_wf(3) by metis
  moreover have "''psgc'' \<notin> set (dkeys sample_values)" "t_rows (w_target sample_world) ''psgc'' = []" by code_simp+
  then have "t_rows (w_target (snd first_delivery)) ''psgc'' = []" using effect by metis
  ultimately show ?thesis ..
qed


text \<open>The second delivery of the same row, with a new name.\<close>

definition second_delivery :: "row res \<times> world" where
  "second_delivery = write_source_row sample_engine sample_runtime sample_registry 6 sample_key None
     [(''school'', [(''name'', PStr ''B'')])] (snd first_delivery)"


definition refresh_delivery :: "(string, nat) dict res \<times> world" where
  "refresh_delivery = delete_entity_rows sample_engine sample_registry ''schools'' ''LRMIS'' (snd first_delivery)"

theorem delete_entity_rows_spec_witness:
  "fst refresh_delivery = Inr [(''school'', 1)] \<and> t_rows (w_target (snd refresh_delivery)) ''school'' = []
     \<and> length (t_rows (w_target (snd refresh_delivery)) ''station'') = 1"
proof -
  have f: "fst refresh_delivery = Inr [(''school'', 1)]" by code_simp
  then have run: "delete_entity_rows sample_engine sample_registry ''schools'' ''LRMIS'' (snd first_delivery)
      = (Inr [(''school'', 1)], snd refresh_delivery)"
    unfolding refresh_delivery_def by (metis prod.collapse)
  have "kept_rows sample_engine sample_registry ''schools'' ''LRMIS'' (w_central (snd first_delivery))
      (w_target (snd first_delivery)) ''school'' = []"
    "length (kept_rows sample_engine sample_registry ''schools'' ''LRMIS'' (w_central (snd first_delivery))
      (w_target (snd first_delivery)) ''station'') = 1"
    by code_simp+
  with delete_entity_rows_spec [OF run] f show ?thesis by simp
qed

end
