(* ===== verification/Generic_Writer.thy ===== *)
theory Generic_Writer
  imports Lrmis_Writer
begin

text \<open>
  \<open>src/delivery/writer.py\<close>: the same fan-out for any engine a dialect covers, configured by a
  plugin. It interprets the contracts of \<open>Fan_Out\<close>; unlike the first writer it trusts a
  crosswalk entry without looking whether the target still holds the row.
\<close>

section \<open>The writer\<close>

record gwriter =
  gw_dialect :: dialect
  gw_registry :: registry
  gw_app_assigned :: "string list"
  gw_id_start :: int
  gw_non_autoinc :: bool
  gw_reference :: "string list"

definition make_writer :: "dialect \<Rightarrow> registry \<Rightarrow> plugin \<Rightarrow> string list option \<Rightarrow> int option \<Rightarrow> gwriter" where
  "make_writer d R plugin app start = \<lparr>gw_dialect = d, gw_registry = R,
     gw_app_assigned = (case app of Some ts \<Rightarrow> ts | None \<Rightarrow> tp_app_assigned plugin),
     gw_id_start = (case start of Some n \<Rightarrow> n | None \<Rightarrow> tp_id_start plugin),
     gw_non_autoinc = tp_non_autoinc plugin, gw_reference = tp_reference plugin\<rparr>"

definition is_app_assigned :: "gwriter \<Rightarrow> string \<Rightarrow> bool res" where
  "is_app_assigned W t =
     (if t \<in> set (gw_app_assigned W) then Inr True
      else if gw_non_autoinc W \<and> t \<notin> set (gw_reference W) then is_reference_table (gw_registry W) t
      else Inr False)"

definition is_reference :: "gwriter \<Rightarrow> string \<Rightarrow> bool res" where
  "is_reference W t =
     (if t \<in> set (gw_reference W) then Inr True
      else res_bind (is_reference_table (gw_registry W) t) (\<lambda>r.
        if r then res_bind (is_app_assigned W t) (\<lambda>a. Inr (\<not> a)) else Inr False))"

section \<open>Statements\<close>

text \<open>Quoting in the order the code does; a missing key (\<open>None\<close>) is no identifier.\<close>

definition quotes :: "dialect \<Rightarrow> string list \<Rightarrow> unit res" where
  "quotes d names = res_bind (quote_all d names) (\<lambda>_. Inr ())"

definition quote_pk :: "dialect \<Rightarrow> string option \<Rightarrow> string res" where
  "quote_pk d pk = (case pk of None \<Rightarrow> Inl (ValueError ''unsafe identifier: None'') | Some p \<Rightarrow> quote d p)"

definition cast_cell :: "runtime \<Rightarrow> gwriter \<Rightarrow> lrmis_table \<Rightarrow> string \<times> pyval \<Rightarrow> (string \<times> pyval) res" where
  "cast_cell P W m kv = (case lt_get_column m (fst kv) of
       None \<Rightarrow> Inr kv
     | Some c \<Rightarrow> res_bind (native_to_generic (Some (d_engine (gw_dialect W))) (lc_type c)) (\<lambda>g.
         res_bind (cast_value P (snd kv) g) (\<lambda>v. Inr (fst kv, v))))"

definition cast_row :: "runtime \<Rightarrow> gwriter \<Rightarrow> string \<Rightarrow> row \<Rightarrow> row res" where
  "cast_row P W t values = res_bind (reg_table (gw_registry W) t) (\<lambda>m. map_res (cast_cell P W m) values)"

text \<open>With RETURNING the key column of the stored row comes back, otherwise \<open>lastrowid\<close>.\<close>

definition insert_returning ::
  "engine \<Rightarrow> runtime \<Rightarrow> gwriter \<Rightarrow> string \<Rightarrow> row \<Rightarrow> target_db \<Rightarrow> (pyval \<times> target_db) res" where
  "insert_returning E P W t values T =
     res_bind (cast_row P W t values) (\<lambda>vs.
     res_bind (first_pk (gw_registry W) t) (\<lambda>pk. case (d_returning (gw_dialect W), pk) of
       (True, Some p) \<Rightarrow>
         res_bind (insert_returning_sql (gw_dialect W) t (dkeys vs) p) (\<lambda>_.
         res_bind (sql_insert E (auto_of (gw_registry W) t) t vs T) (\<lambda>(stored, T').
           Inr (row_get stored p, T')))
     | _ \<Rightarrow>
         res_bind (insert_sql (gw_dialect W) t (dkeys vs)) (\<lambda>_.
         res_bind (sql_insert E (auto_of (gw_registry W) t) t vs T) (\<lambda>(stored, T').
           Inr (case auto_of (gw_registry W) t of None \<Rightarrow> PInt 0 | Some c \<Rightarrow> row_get stored c, T')))))"

definition insert_explicit ::
  "engine \<Rightarrow> runtime \<Rightarrow> gwriter \<Rightarrow> string \<Rightarrow> row \<Rightarrow> target_db \<Rightarrow> (unit \<times> target_db) res" where
  "insert_explicit E P W t values T =
     res_bind (cast_row P W t values) (\<lambda>vs.
     res_bind (insert_sql (gw_dialect W) t (dkeys vs)) (\<lambda>_.
     res_bind (sql_insert E (auto_of (gw_registry W) t) t vs T) (\<lambda>(stored, T'). Inr ((), T'))))"

text \<open>An app-assigned insert under the key \<open>pk\<close>; without a key the statement cannot be built.\<close>

definition insert_with_id ::
  "engine \<Rightarrow> runtime \<Rightarrow> gwriter \<Rightarrow> string \<Rightarrow> string option \<Rightarrow> pyval \<Rightarrow> row \<Rightarrow> target_db \<Rightarrow> (unit \<times> target_db) res" where
  "insert_with_id E P W t pk v values T = (case pk of
       Some p \<Rightarrow> insert_explicit E P W t (dput p v values) T
     | None \<Rightarrow> res_bind (cast_row P W t values) (\<lambda>vs.
         res_bind (quotes (gw_dialect W) (t # dkeys vs)) (\<lambda>_.
         res_bind (quote_pk (gw_dialect W) None) (\<lambda>_. Inr ((), T)))))"

definition g_update ::
  "engine \<Rightarrow> runtime \<Rightarrow> gwriter \<Rightarrow> string \<Rightarrow> string option \<Rightarrow> pyval \<Rightarrow> row \<Rightarrow> target_db \<Rightarrow> (unit \<times> target_db) res" where
  "g_update E P W t pk v values T =
     res_bind (cast_row P W t values) (\<lambda>vs.
       let assignable = filter (\<lambda>(c, _). Some c \<noteq> pk) vs in
       if assignable = [] then Inr ((), T)
       else res_bind (quotes (gw_dialect W) (dkeys assignable @ [t])) (\<lambda>_.
         res_bind (quote_pk (gw_dialect W) pk) (\<lambda>_.
         res_bind (sql_update E t (the pk) v assignable T) (\<lambda>T'. Inr ((), T')))))"

definition g_missing :: "runtime \<Rightarrow> string \<Rightarrow> row \<Rightarrow> exn" where
  "g_missing P t criteria = ReferenceRowNotFound
     (''no row in reference table '' @ t @ '' matches '' @ py_repr P (PDict criteria))"

definition g_resolve_reference_id ::
  "engine \<Rightarrow> runtime \<Rightarrow> gwriter \<Rightarrow> string \<Rightarrow> row \<Rightarrow> target_db \<Rightarrow> pyval res" where
  "g_resolve_reference_id E P W t values T =
     res_bind (first_pk (gw_registry W) t) (\<lambda>pko. case pko of
       None \<Rightarrow> Inl (ReferenceRowNotFound (t @ '' has no primary key to resolve''))
     | Some pk \<Rightarrow>
        (if row_get values pk \<noteq> PNone then
           res_bind (quotes (gw_dialect W) [pk, t]) (\<lambda>_. case sql_select t (col_eq E pk (row_get values pk)) pk T of
               Some v \<Rightarrow> Inr v
             | None \<Rightarrow> Inl (ReferenceRowNotFound (t @ ''.'' @ pk @ ''='' @ py_repr P (row_get values pk)
                 @ '' does not exist; '' @ t @ '' is read-only'')))
         else
           (let criteria = filter (\<lambda>(c, v). v \<noteq> PNone \<and> c \<noteq> pk) values in
            if criteria = [] then Inl (ReferenceRowNotFound
              (''cannot resolve a row in reference table '' @ t @ '': no lookup values mapped''))
            else res_bind (quotes (gw_dialect W) (dkeys criteria @ [pk, t])) (\<lambda>_.
              case sql_select t (\<lambda>r. list_all (\<lambda>(c, v). col_eq E c v r) criteria) pk T of
                None \<Rightarrow> Inl (g_missing P t criteria)
              | Some v \<Rightarrow> Inr v))))"

definition g_row_exists :: "engine \<Rightarrow> gwriter \<Rightarrow> string \<Rightarrow> pyval \<Rightarrow> target_db \<Rightarrow> bool res" where
  "g_row_exists E W t v T = res_bind (first_pk (gw_registry W) t) (\<lambda>pko. case pko of
       None \<Rightarrow> Inr True
     | Some pk \<Rightarrow> res_bind (quotes (gw_dialect W) [t, pk]) (\<lambda>_.
         Inr (list_ex (col_eq E pk v) (t_rows T t))))"

section \<open>Writing one table\<close>

definition g_known_id :: "delivery_key \<Rightarrow> string \<Rightarrow> (world, string option) comp" where
  "g_known_id k t w = (Inr (crosswalk_lookup k t (w_central w)), w)"

definition g_update_known ::
  "engine \<Rightarrow> runtime \<Rightarrow> gwriter \<Rightarrow> string \<Rightarrow> string option \<Rightarrow> row \<Rightarrow> string \<Rightarrow> (world, pyval) comp" where
  "g_update_known E P W t pk values s = bind (on_target (g_update E P W t pk (PStr s) values)) (\<lambda>_. ret (PStr s))"

definition g_match :: "engine \<Rightarrow> runtime \<Rightarrow> gwriter \<Rightarrow> string \<Rightarrow> row \<Rightarrow> (world, pyval option) comp" where
  "g_match E P W t values w = (case g_resolve_reference_id E P W t values (w_target w) of
       Inr v \<Rightarrow> (Inr (if is_none v then None else Some v), w)
     | Inl (ReferenceRowNotFound m) \<Rightarrow> (Inr None, w)
     | Inl e \<Rightarrow> (Inl e, w))"

definition g_insert_allocated ::
  "engine \<Rightarrow> runtime \<Rightarrow> gwriter \<Rightarrow> int \<Rightarrow> delivery_key \<Rightarrow> string option \<Rightarrow> string \<Rightarrow> string option \<Rightarrow> row \<Rightarrow> int
   \<Rightarrow> (world, pyval) comp" where
  "g_insert_allocated E P W now k event t pk values new_id =
     bind (on_target (insert_with_id E P W t pk (PInt new_id) values)) (\<lambda>_. record_id P now k t event (PInt new_id))"

definition g_unmatched ::
  "engine \<Rightarrow> runtime \<Rightarrow> gwriter \<Rightarrow> int \<Rightarrow> delivery_key \<Rightarrow> string option \<Rightarrow> string \<Rightarrow> string option \<Rightarrow> row \<Rightarrow> pyval option
   \<Rightarrow> (world, pyval) comp" where
  "g_unmatched E P W now k event t pk values matched = (case matched of
       Some v \<Rightarrow> record_id P now k t event v
     | None \<Rightarrow> bind (on_central (allocate_id t (gw_id_start W))) (g_insert_allocated E P W now k event t pk values))"

definition write_app_assigned ::
  "engine \<Rightarrow> runtime \<Rightarrow> gwriter \<Rightarrow> int \<Rightarrow> delivery_key \<Rightarrow> string option \<Rightarrow> string \<Rightarrow> row \<Rightarrow> (world, pyval) comp" where
  "write_app_assigned E P W now k event t values =
     bind (lift_res (first_pk (gw_registry W) t)) (\<lambda>pk.
     bind (g_known_id k t) (\<lambda>existing. case existing of
       Some s \<Rightarrow> g_update_known E P W t pk values s
     | None \<Rightarrow> bind (g_match E P W t values) (g_unmatched E P W now k event t pk values)))"

text \<open>A row that carries its own key, and one whose key the engine generates.\<close>

definition write_carried ::
  "engine \<Rightarrow> runtime \<Rightarrow> gwriter \<Rightarrow> int \<Rightarrow> delivery_key \<Rightarrow> string option \<Rightarrow> string \<Rightarrow> string \<Rightarrow> row \<Rightarrow> (world, pyval) comp" where
  "write_carried E P W now k event t pk values =
     bind (g_known_id k t) (\<lambda>existing. case existing of
       Some s \<Rightarrow> g_update_known E P W t (Some pk) values s
     | None \<Rightarrow> bind (on_target (insert_explicit E P W t values)) (\<lambda>_. record_id P now k t event (row_get values pk)))"

definition write_generated ::
  "engine \<Rightarrow> runtime \<Rightarrow> gwriter \<Rightarrow> int \<Rightarrow> delivery_key \<Rightarrow> string option \<Rightarrow> string \<Rightarrow> string option \<Rightarrow> row \<Rightarrow> (world, pyval) comp" where
  "write_generated E P W now k event t pk values =
     bind (g_known_id k t) (\<lambda>existing. case (existing, pk) of
       (Some s, Some p) \<Rightarrow> g_update_known E P W t pk values s
     | _ \<Rightarrow> bind (on_target (insert_returning E P W t values)) (record_id P now k t event))"

definition resolve_only :: "engine \<Rightarrow> runtime \<Rightarrow> gwriter \<Rightarrow> string \<Rightarrow> row \<Rightarrow> (world, pyval) comp" where
  "resolve_only E P W t values w = (g_resolve_reference_id E P W t values (w_target w), w)"

definition carries_key :: "gwriter \<Rightarrow> string \<Rightarrow> string option \<Rightarrow> row \<Rightarrow> bool" where
  "carries_key W t pk values = (case pk of
     None \<Rightarrow> False | Some p \<Rightarrow> row_get values p \<noteq> PNone \<and> auto_of (gw_registry W) t = None)"

definition g_write_other ::
  "engine \<Rightarrow> runtime \<Rightarrow> gwriter \<Rightarrow> int \<Rightarrow> delivery_key \<Rightarrow> string option \<Rightarrow> string \<Rightarrow> row \<Rightarrow> string option \<Rightarrow> (world, pyval) comp" where
  "g_write_other E P W now k event t values pk =
     (if carries_key W t pk values then write_carried E P W now k event t (the pk) values
      else bind (lift_res (is_app_assigned W t)) (\<lambda>app.
        if app then write_app_assigned E P W now k event t values
        else bind (lift_res (is_reference W t)) (\<lambda>ref.
          if ref then resolve_only E P W t values
          else write_generated E P W now k event t pk values)))"

definition g_write_table ::
  "engine \<Rightarrow> runtime \<Rightarrow> gwriter \<Rightarrow> int \<Rightarrow> delivery_key \<Rightarrow> string option \<Rightarrow> table_write" where
  "g_write_table E P W now k event t values =
     (if t \<in> set (gw_reference W) then resolve_only E P W t values
      else bind (lift_res (first_pk (gw_registry W) t)) (g_write_other E P W now k event t values))"

definition write_row ::
  "engine \<Rightarrow> runtime \<Rightarrow> gwriter \<Rightarrow> int \<Rightarrow> delivery_key \<Rightarrow> string option \<Rightarrow> (string, row) dict \<Rightarrow> (world, row) comp" where
  "write_row E P W now k event vbt = fan_out ''target'' (gw_registry W) (g_write_table E P W now k event) vbt"

section \<open>Refresh support\<close>

definition g_delete_entity_rows ::
  "engine \<Rightarrow> gwriter \<Rightarrow> string \<Rightarrow> string \<Rightarrow> (world, (string, nat) dict) comp" where
  "g_delete_entity_rows E W entity sys = delete_owned_rows (quotes (gw_dialect W)) E (gw_registry W) entity sys"

definition truncate_table :: "engine \<Rightarrow> dialect \<Rightarrow> string \<Rightarrow> string list \<Rightarrow> (world, string list) comp" where
  "truncate_table E d t issued =
     bind (lift_res (truncate_sql d t)) (\<lambda>_.
     bind (on_target (\<lambda>T. case List.map_filter (eng_keeps E T t) (t_rows T t) of
        e # _ \<Rightarrow> Inl e | [] \<Rightarrow> Inr ((), set_rows t [] T))) (\<lambda>_. ret (issued @ [t])))"

definition truncate_and_rebuild ::
  "engine \<Rightarrow> gwriter \<Rightarrow> string list option \<Rightarrow> (world, string list) comp" where
  "truncate_and_rebuild E W tables =
     (let R = gw_registry W;
          names = (case tables of Some (t # ts) \<Rightarrow> t # ts | _ \<Rightarrow> reg_table_names R) in
      bind (lift_res (topological_order R (Some names))) (\<lambda>order.
      bind (lift_res (map_res (\<lambda>t. res_bind (is_reference_table R t) (\<lambda>b. Inr (t, b))) (rev order))) (\<lambda>marked.
        fold_comp (truncate_table E (gw_dialect W)) (map fst (filter (\<lambda>(t, b). \<not> b) marked)) [])))"

section \<open>The writer keeps the contracts\<close>

lemma effect_update:
  assumes "bind (on_target f) (\<lambda>_. ret (PStr s)) w = (r, w')" and "crosswalk_lookup k t (w_central w) = Some s"
    and "\<And>T x T' t'. f T = Inr (x, T') \<Longrightarrow> t' \<noteq> t \<Longrightarrow> t_rows T' t' = t_rows T t'"
  shows "write_effect P now k event t r w w'"
proof -
  obtain r0 w0 where o: "on_target f w = (r0, w0)" by fastforce
  then show ?thesis
  proof (cases rule: on_target_cases)
    case (refused e)
    then show ?thesis using assms(1) o by (auto simp: bind_def write_effect_fail)
  next
    case (ok x T)
    then have "r = Inr (PStr s)" "w' = w\<lparr>w_target := T\<rparr>" using assms(1) o by (auto simp: bind_def)
    then show ?thesis using ok(1) assms(2,3) by (auto simp: write_effect_def)
  qed
qed

lemma effect_insert:
  assumes "bind (on_target f) (\<lambda>x. record_id P now k t event (g x)) w = (r, w')"
    and "\<And>T x T' t'. f T = Inr (x, T') \<Longrightarrow> t' \<noteq> t \<Longrightarrow> t_rows T' t' = t_rows T t'"
  shows "write_effect P now k event t r w w'"
proof -
  obtain r0 w0 where o: "on_target f w = (r0, w0)" by fastforce
  then show ?thesis
  proof (cases rule: on_target_cases)
    case (refused e)
    then show ?thesis using assms(1) o by (auto simp: bind_def write_effect_fail)
  next
    case (ok x T)
    then have "r = Inr (g x)" "w' = w\<lparr>w_target := T, w_central := crosswalk_record now k t (py_str P (g x)) event (w_central w)\<rparr>"
      using assms(1) o by (auto simp: bind_def record_id_def on_central_def)
    then show ?thesis using ok(1) assms(2) by (auto simp: write_effect_def)
  qed
qed

lemma g_rows_other:
  "g_update E P W t pk v vs T = Inr (u, T') \<Longrightarrow> t' \<noteq> t \<Longrightarrow> t_rows T' t' = t_rows T t'"
  "insert_explicit E P W t vs T = Inr (u, T') \<Longrightarrow> t' \<noteq> t \<Longrightarrow> t_rows T' t' = t_rows T t'"
  "insert_with_id E P W t pk v vs T = Inr (u, T') \<Longrightarrow> t' \<noteq> t \<Longrightarrow> t_rows T' t' = t_rows T t'"
  "insert_returning E P W t vs T = Inr (x, T') \<Longrightarrow> t' \<noteq> t \<Longrightarrow> t_rows T' t' = t_rows T t'"
  by (auto simp: g_update_def insert_explicit_def insert_with_id_def insert_returning_def Let_def res_bind_Inr_iff
      sql_update_rows sql_insert_rows split: if_splits option.splits bool.splits)

lemma g_update_known_effect:
  assumes "g_update_known E P W t pk vs s w = (r, w')" and "crosswalk_lookup k t (w_central w) = Some s"
  shows "write_effect P now k event t r w w'"
  using effect_update [OF assms(1) [unfolded g_update_known_def] assms(2)] g_rows_other(1) by metis

lemma g_known_id_bind: "bind (g_known_id k t) f w = f (crosswalk_lookup k t (w_central w)) w"
  by (simp add: bind_def g_known_id_def)

lemma write_carried_effect:
  assumes "write_carried E P W now k event t pk vs w = (r, w')"
  shows "write_effect P now k event t r w w'"
proof (cases "crosswalk_lookup k t (w_central w)")
  case None
  then show ?thesis
    using assms g_rows_other(2)
    by (intro effect_insert [where f = "insert_explicit E P W t vs" and g = "\<lambda>_. row_get vs pk"])
      (auto simp: write_carried_def g_known_id_bind)
next
  case (Some s)
  then show ?thesis using assms by (intro g_update_known_effect) (auto simp: write_carried_def g_known_id_bind)
qed

lemma write_generated_effect:
  assumes "write_generated E P W now k event t pk vs w = (r, w')"
  shows "write_effect P now k event t r w w'"
proof (cases "crosswalk_lookup k t (w_central w) \<noteq> None \<and> pk \<noteq> None")
  case True
  then obtain s p where "crosswalk_lookup k t (w_central w) = Some s" "pk = Some p" by blast
  moreover then have "g_update_known E P W t pk vs s w = (r, w')"
    using assms by (simp add: write_generated_def g_known_id_bind)
  ultimately show ?thesis using g_update_known_effect by blast
next
  case False
  then have "bind (on_target (insert_returning E P W t vs)) (record_id P now k t event) w = (r, w')"
    using assms by (auto simp: write_generated_def g_known_id_bind split: option.splits)
  then show ?thesis using effect_insert [where g = "\<lambda>x. x"] g_rows_other(4) by metis
qed

lemma g_insert_allocated_effect:
  assumes "bind (on_central (allocate_id t start)) (g_insert_allocated E P W now k event t pk vs) w = (r, w')"
  shows "write_effect P now k event t r w w'"
proof -
  let ?n = "fst (allocate_id t start (w_central w))" and ?c = "snd (allocate_id t start (w_central w))"
  let ?w = "w\<lparr>w_central := ?c\<rparr>" and ?f = "insert_with_id E P W t pk (PInt ?n) vs"
  have run: "bind (on_target ?f) (\<lambda>_. record_id P now k t event (PInt ?n)) ?w = (r, w')"
    using assms by (simp add: bind_def [of "on_central _"] on_central_def g_insert_allocated_def case_prod_beta)
  obtain r0 w0 where o: "on_target ?f ?w = (r0, w0)" by fastforce
  then show ?thesis
  proof (cases rule: on_target_cases)
    case (refused e)
    then show ?thesis using run o by (auto simp: bind_def write_effect_def)
  next
    case (ok x T)
    then have r: "r = Inr (PInt ?n)" "w' = ?w\<lparr>w_target := T, w_central := crosswalk_record now k t (py_str P (PInt ?n)) event ?c\<rparr>"
      using run o by (simp_all add: bind_def record_id_def on_central_def)
    have "t_rows T t' = t_rows (w_target w) t'" if "t' \<noteq> t" for t'
      using g_rows_other(3) [OF ok(1) that] by simp
    then show ?thesis unfolding write_effect_def r by (auto intro!: exI [of _ ?c])
  qed
qed

lemma g_write_app_assigned_effect:
  assumes "write_app_assigned E P W now k event t vs w = (r, w')"
  shows "write_effect P now k event t r w w'"
proof (cases "first_pk (gw_registry W) t")
  case (Inl e)
  then show ?thesis using assms by (auto simp: write_app_assigned_def bind_def write_effect_fail)
next
  case (Inr pk)
  show ?thesis
  proof (cases "crosswalk_lookup k t (w_central w)")
    case (Some s)
    then show ?thesis using assms Inr
      by (intro g_update_known_effect) (auto simp: write_app_assigned_def bind_def [of "lift_res _"] g_known_id_bind)
  next
    case None
    obtain r0 w0 where m: "g_match E P W t vs w = (r0, w0)" by fastforce
    have w0: "w0 = w" using m by (auto simp: g_match_def split: sum.splits exn.splits)
    have run: "bind (g_match E P W t vs) (g_unmatched E P W now k event t pk vs) w = (r, w')"
      using assms Inr None by (simp add: write_app_assigned_def bind_def [of "lift_res _"] g_known_id_bind)
    show ?thesis
    proof (cases r0)
      case (Inl e)
      then show ?thesis using run m w0 by (auto simp: bind_def write_effect_fail)
    next
      case r0: (Inr found)
      then have un: "g_unmatched E P W now k event t pk vs found w = (r, w')"
        using run m w0 by (simp add: bind_def [of "g_match _ _ _ _ _"])
      show ?thesis
      proof (cases found)
        case None
        then show ?thesis using un by (intro g_insert_allocated_effect) (simp add: g_unmatched_def)
      next
        case (Some v)
        then have "r = Inr v" "w' = w\<lparr>w_central := crosswalk_record now k t (py_str P v) event (w_central w)\<rparr>"
          using un by (auto simp: g_unmatched_def record_id_def on_central_def)
        then show ?thesis by (auto simp: write_effect_def)
      qed
    qed
  qed
qed

text \<open>Every write has the same effect as before, or resolves a reference row and changes nothing.\<close>

lemma g_write_table_effect:
  assumes "g_write_table E P W now k event t vs w = (r, w')"
  shows "write_effect P now k event t r w w' \<or> w' = w"
    and "t \<in> set (gw_reference W) \<Longrightarrow> w' = w"
    and "t \<notin> set (gw_reference W) \<Longrightarrow> is_reference W t = Inr False \<Longrightarrow> write_effect P now k event t r w w'"
proof -
  have "w' = w" if "t \<in> set (gw_reference W)"
    using assms that by (simp add: g_write_table_def resolve_only_def)
  moreover have "write_effect P now k event t r w w' \<or> (w' = w \<and> is_reference W t \<noteq> Inr False)" if "t \<notin> set (gw_reference W)"
  proof (cases "first_pk (gw_registry W) t")
    case (Inl e)
    then show ?thesis using assms that by (auto simp: g_write_table_def bind_def write_effect_fail)
  next
    case (Inr pk)
    then have run: "g_write_other E P W now k event t vs pk w = (r, w')"
      using assms that by (simp add: g_write_table_def bind_def [of "lift_res _"])
    show ?thesis
    proof (cases "carries_key W t pk vs")
      case True
      then show ?thesis using run write_carried_effect by (fastforce simp: g_write_other_def)
    next
      case False
      show ?thesis
      proof (cases "is_app_assigned W t")
        case (Inl e)
        then show ?thesis using run False by (auto simp: g_write_other_def bind_def write_effect_fail)
      next
        case app: (Inr a)
        show ?thesis
        proof (cases a)
          case True
          then show ?thesis using run False app g_write_app_assigned_effect
            by (fastforce simp: g_write_other_def bind_def [of "lift_res _"])
        next
          case a: False
          show ?thesis
          proof (cases "is_reference W t")
            case (Inl e)
            then show ?thesis using run False app a by (auto simp: g_write_other_def bind_def write_effect_fail)
          next
            case (Inr ref)
            then show ?thesis using run False app a write_generated_effect
              by (cases ref) (fastforce simp: g_write_other_def resolve_only_def bind_def [of "lift_res _"])+
          qed
        qed
      qed
    qed
  qed
  ultimately show "write_effect P now k event t r w w' \<or> w' = w" "t \<in> set (gw_reference W) \<Longrightarrow> w' = w"
    "t \<notin> set (gw_reference W) \<Longrightarrow> is_reference W t = Inr False \<Longrightarrow> write_effect P now k event t r w w'"
    by blast+
qed

text \<open>Tables whose rows the pipeline creates through this writer.\<close>

definition g_creates :: "gwriter \<Rightarrow> string \<Rightarrow> bool" where
  "g_creates W t = (t \<notin> set (gw_reference W) \<and> is_reference W t = Inr False)"

text \<open>What the writer takes for a row it wrote before: a crosswalk entry, seen or not in the target.\<close>

definition g_known :: "gwriter \<Rightarrow> delivery_key \<Rightarrow> string \<Rightarrow> string \<Rightarrow> world \<Rightarrow> bool" where
  "g_known W k t s w = (crosswalk_lookup k t (w_central w) = Some s \<and> g_creates W t
     \<and> (case first_pk (gw_registry W) t of Inr (Some pk) \<Rightarrow> True | _ \<Rightarrow> False))"

lemma g_write_table_known:
  assumes "g_write_table E P W now k event t vs w = (r, w')" and "g_known W k t s w"
  shows "\<exists>pk. g_update_known E P W t (Some pk) vs s w = (r, w')"
proof -
  obtain pk where pk: "first_pk (gw_registry W) t = Inr (Some pk)"
    using assms(2) by (auto simp: g_known_def split: sum.splits option.splits)
  have t: "t \<notin> set (gw_reference W)" "is_reference W t = Inr False" "crosswalk_lookup k t (w_central w) = Some s"
    using assms(2) by (auto simp: g_known_def g_creates_def)
  have run: "g_write_other E P W now k event t vs (Some pk) w = (r, w')"
    using assms(1) t pk by (simp add: g_write_table_def bind_def [of "lift_res _"])
  have app: "\<exists>a. is_app_assigned W t = Inr a"
    using t(2) by (auto simp: is_reference_def is_app_assigned_def res_bind_Inr_iff split: if_splits)
  then obtain a where a: "is_app_assigned W t = Inr a" ..
  have "g_update_known E P W t (Some pk) vs s w = (r, w')"
    using run t pk a
    by (cases "carries_key W t (Some pk) vs"; cases a)
      (simp_all add: g_write_other_def write_carried_def write_app_assigned_def write_generated_def
        bind_def [of "lift_res _"] g_known_id_bind)
  then show ?thesis ..
qed

lemma g_update_length:
  "g_update E P W t pk v vs T = Inr (u, T') \<Longrightarrow> length (t_rows T' t) = length (t_rows T t)"
  by (auto simp: g_update_def Let_def res_bind_Inr_iff sql_update_rows split: if_splits)

interpretation generic: updating_writer P "gw_registry W" k "g_write_table E P W now k event" "g_creates W"
  "\<lambda>t. t \<in> set (gw_reference W)" "g_known W k" for P W k E now event
proof
  fix t vs w r w' t' k' x
  assume run: "g_write_table E P W now k event t vs w = (r, w')"
  note e = g_write_table_effect(1) [OF run]
  show "t' \<noteq> t \<Longrightarrow> t_rows (w_target w') t' = t_rows (w_target w) t'"
    using e write_effect_frame(1) by metis
  show "k' \<noteq> k \<or> t' \<noteq> t \<Longrightarrow> crosswalk_lookup k' t' (w_central w') = crosswalk_lookup k' t' (w_central w)"
    using e write_effect_frame(2) by metis
  show "central_rest (w_central w') = central_rest (w_central w)"
    using e write_effect_frame(4) by metis
  show "t \<in> set (gw_reference W) \<Longrightarrow> t_rows (w_target w') t = t_rows (w_target w) t"
    using g_write_table_effect(2) [OF run] by simp
next
  fix t vs w w' x
  assume "g_write_table E P W now k event t vs w = (Inr x, w')" and "g_creates W t"
  from g_write_table_effect(3) [OF this(1)] this(2)
  show "crosswalk_lookup k t (w_central w') = Some (py_str P x)"
    using write_effect_frame(3) by (metis g_creates_def)
next
  fix t vs w w0 w' x s
  show "crosswalk_lookup k t (w_central w) = crosswalk_lookup k t (w_central w0) \<Longrightarrow>
      g_known W k t s w0 \<Longrightarrow> g_known W k t s w"
    by (simp add: g_known_def)
  assume "g_write_table E P W now k event t vs w = (Inr x, w')" and "g_known W k t s w"
  then obtain pk where up: "g_update_known E P W t (Some pk) vs s w = (Inr x, w')"
    using g_write_table_known by blast
  obtain r0 w0 where o: "on_target (g_update E P W t (Some pk) (PStr s) vs) w = (r0, w0)" by fastforce
  then show "x = PStr s \<and> length (t_rows (w_target w') t) = length (t_rows (w_target w) t)"
  proof (cases rule: on_target_cases)
    case (refused e)
    then show ?thesis using up o by (simp add: g_update_known_def bind_def)
  next
    case (ok u T)
    then show ?thesis using up o g_update_length [OF ok(1)] by (auto simp: g_update_known_def bind_def)
  qed
qed

section \<open>One source row\<close>

lemma write_row_frame:
  assumes "write_row E P W now k event vbt w = (r, w')" and "wf_dict vbt"
  shows "(\<forall>t. t \<notin> set (dkeys vbt) \<or> t \<in> set (gw_reference W) \<longrightarrow> t_rows (w_target w') t = t_rows (w_target w) t)
    \<and> (\<forall>k' t. k' \<noteq> k \<or> t \<notin> set (dkeys vbt) \<longrightarrow>
          crosswalk_lookup k' t (w_central w') = crosswalk_lookup k' t (w_central w))
    \<and> central_rest (w_central w') = central_rest (w_central w)"
  by (rule generic.fan_out_frame [OF assms(1) [unfolded write_row_def] assms(2)])

text \<open>
  C26: through the dialect-aware writer, too, a source row touches only its own tables and
  crosswalk entries, whatever the outcome, a declared reference table keeps its rows, and on
  success the crosswalk holds the returned ids, parents first.
\<close>

theorem write_row_effect:
  assumes "write_row E P W now k event vbt w = (r, w')"
    and "wf_dict vbt"
  shows "(\<forall>t. t \<notin> set (dkeys vbt) \<or> t \<in> set (gw_reference W) \<longrightarrow> t_rows (w_target w') t = t_rows (w_target w) t)
    \<and> (\<forall>k' t. k' \<noteq> k \<or> t \<notin> set (dkeys vbt) \<longrightarrow>
          crosswalk_lookup k' t (w_central w') = crosswalk_lookup k' t (w_central w))
    \<and> central_rest (w_central w') = central_rest (w_central w)
    \<and> (\<forall>ids. r = Inr ids \<longrightarrow> topological_order (gw_registry W) (Some (dkeys vbt)) = Inr (dkeys ids)
          \<and> (\<forall>t \<in> set (dkeys vbt). g_creates W t \<longrightarrow>
                crosswalk_lookup k t (w_central w') = Some (py_str P (row_get ids t))))"
proof -
  note run = assms(1) [unfolded write_row_def]
  have "topological_order (gw_registry W) (Some (dkeys vbt)) = Inr (dkeys ids)
      \<and> (\<forall>t \<in> set (dkeys vbt). g_creates W t \<longrightarrow>
            crosswalk_lookup k t (w_central w') = Some (py_str P (row_get ids t)))" if "r = Inr ids" for ids
    using generic.fan_out_ok [OF run [unfolded that] assms(2)] by blast
  then show ?thesis using write_row_frame [OF assms] by blast
qed

text \<open>
  The dialect-aware refresh deletes exactly the recorded rows of the entity, too.
\<close>

theorem g_delete_entity_rows_spec:
  assumes "g_delete_entity_rows E W entity sys w = (r, w')"
  shows "(case r of
      Inr counts \<Rightarrow> (\<forall>t. t_rows (w_target w') t = kept_rows E (gw_registry W) entity sys (w_central w) (w_target w) t)
        \<and> w_central w' = forget_entity entity sys
            (filter (deletable (gw_registry W)) (map fst (crosswalk_rows_for_entity entity sys (w_central w)))) (w_central w)
    | Inl e \<Rightarrow> w_central w' = w_central w \<and> (\<forall>t. t_rows (w_target w') t \<in>
          {t_rows (w_target w) t, kept_rows E (gw_registry W) entity sys (w_central w) (w_target w) t}))"
  using delete_owned_rows_effect [OF assms [unfolded g_delete_entity_rows_def]] by (auto split: sum.splits)

section \<open>A Postgres target\<close>

definition pg_writer :: gwriter where
  "pg_writer = make_writer postgres_dialect sample_registry lrmis_plugin None None"

definition pg_delivery :: "row res \<times> world" where
  "pg_delivery = write_row sample_engine sample_runtime pg_writer 5 sample_key None sample_values sample_world"

lemma pg_delivery_runs: "fst pg_delivery = Inr [(''station'', PInt 10000000), (''school'', PInt 1)]"
  by code_simp

lemma pg_delivery_eq:
  "write_row sample_engine sample_runtime pg_writer 5 sample_key None sample_values sample_world
     = (Inr [(''station'', PInt 10000000), (''school'', PInt 1)], snd pg_delivery)"
  using pg_delivery_runs unfolding pg_delivery_def by (metis prod.collapse)

theorem write_row_effect_witness:
  "crosswalk_lookup sample_key ''school'' (w_central (snd pg_delivery)) = Some ''1''
     \<and> t_rows (w_target (snd pg_delivery)) ''psgc'' = []"
proof -
  note effect = write_row_effect [OF pg_delivery_eq sample_values_wf(1)]
  have "g_creates pg_writer ''school''" by code_simp
  moreover have "py_str sample_runtime (row_get [(''station'', PInt 10000000), (''school'', PInt 1)] ''school'') = ''1''" by code_simp
  ultimately have "crosswalk_lookup sample_key ''school'' (w_central (snd pg_delivery)) = Some ''1''"
    using effect sample_values_wf(3) by metis
  moreover have "''psgc'' \<notin> set (dkeys sample_values)" "t_rows (w_target sample_world) ''psgc'' = []" by code_simp+
  then have "t_rows (w_target (snd pg_delivery)) ''psgc'' = []" using effect by metis
  ultimately show ?thesis ..
qed

definition pg_refresh :: "(string, nat) dict res \<times> world" where
  "pg_refresh = g_delete_entity_rows sample_engine pg_writer ''schools'' ''LRMIS'' (snd pg_delivery)"

theorem g_delete_entity_rows_spec_witness:
  "fst pg_refresh = Inr [(''school'', 1)] \<and> t_rows (w_target (snd pg_refresh)) ''school'' = []"
proof -
  have f: "fst pg_refresh = Inr [(''school'', 1)]" by code_simp
  then have run: "g_delete_entity_rows sample_engine pg_writer ''schools'' ''LRMIS'' (snd pg_delivery)
      = (Inr [(''school'', 1)], snd pg_refresh)"
    unfolding pg_refresh_def by (metis prod.collapse)
  have "kept_rows sample_engine (gw_registry pg_writer) ''schools'' ''LRMIS'' (w_central (snd pg_delivery))
      (w_target (snd pg_delivery)) ''school'' = []" by code_simp
  with g_delete_entity_rows_spec [OF run] f show ?thesis by simp
qed

end
