(* ===== verification/Lrmis_Delivery.thy ===== *)
theory Lrmis_Delivery
  imports Generic_Writer Transform_Engine
begin

text \<open>
  \<open>src/lrmis_delivery.py\<close>: one outbox event becomes value dictionaries per target table, its
  cross-entity foreign keys are resolved through the crosswalk, the writer of the target
  engine fans it out and an audit envelope is recorded in the target. The writer is the
  interface \<open>writer\<close> with two implementations. The event is the outbox row as it was claimed.
\<close>

section \<open>The delivery context and the writer interface\<close>

text \<open>
  \<open>de_distinct\<close> is the order in which the central database returns the rows of a SELECT
  DISTINCT, which no ORDER BY fixes.
\<close>

record delivery_env =
  de_runtime :: runtime
  de_registry :: registry
  de_source_system :: string
  de_source_schema :: string
  de_target_system :: string
  de_distinct :: "string list \<Rightarrow> string list"

record writer =
  wr_write :: "int \<Rightarrow> delivery_key \<Rightarrow> string option \<Rightarrow> (string, row) dict \<Rightarrow> (world, row) comp"
  wr_delete :: "string \<Rightarrow> string \<Rightarrow> (world, (string, nat) dict) comp"
  wr_exists :: "string \<Rightarrow> string \<Rightarrow> target_db \<Rightarrow> bool res"
  wr_audit :: "int \<Rightarrow> outbox_row \<Rightarrow> bool \<Rightarrow> (world, unit) comp"

text \<open>
  The envelope row. The claimed event is a row of \<open>integration.outbox\<close>, which has no column
  \<open>mapping_version\<close>, so \<open>event.get("mapping_version")\<close> is None.
\<close>

definition audit_envelope :: "int \<Rightarrow> outbox_row \<Rightarrow> bool \<Rightarrow> row" where
  "audit_envelope now event active =
     [(''event_id'', PStr (ev_id event)), (''external_reference'', PStr (ev_external_reference event)),
      (''source_system'', PStr (ev_source_system event)), (''operation'', PStr (ev_operation event)),
      (''source_updated_at'', PInt (ev_source_updated_at event)), (''mapping_version'', PNone),
      (''payload_checksum'', PStr (ev_payload_checksum event)), (''active'', PInt (if active then 1 else 0)),
      (''accepted_at'', PInt now)]"

definition record_delivery_audit :: "engine \<Rightarrow> int \<Rightarrow> outbox_row \<Rightarrow> bool \<Rightarrow> (world, unit) comp" where
  "record_delivery_audit E now event active = on_target (sql_upsert E ''delivery_audit'' ''event_id''
     [''external_reference'', ''operation'', ''source_updated_at'', ''payload_checksum'', ''active'', ''accepted_at'']
     (audit_envelope now event active))"

definition g_record_delivery_audit :: "engine \<Rightarrow> gwriter \<Rightarrow> int \<Rightarrow> outbox_row \<Rightarrow> bool \<Rightarrow> (world, unit) comp" where
  "g_record_delivery_audit E W now event active =
     (let values = audit_envelope now event active in
      bind (lift_res (upsert_sql (gw_dialect W) ''delivery_audit'' (dkeys values) [''event_id''])) (\<lambda>_.
        on_target (sql_upsert E ''delivery_audit'' ''event_id'' (filter (\<lambda>c. c \<noteq> ''event_id'') (dkeys values)) values)))"

definition target_row_exists :: "engine \<Rightarrow> registry \<Rightarrow> string \<Rightarrow> string \<Rightarrow> target_db \<Rightarrow> bool res" where
  "target_row_exists E R t tid T = res_bind (first_pk R t) (\<lambda>pko. case pko of
       None \<Rightarrow> Inr True | Some pk \<Rightarrow> Inr (list_ex (col_eq E pk (PStr tid)) (t_rows T t)))"

definition legacy_writer :: "engine \<Rightarrow> runtime \<Rightarrow> registry \<Rightarrow> writer" where
  "legacy_writer E P R = \<lparr>wr_write = write_source_row E P R, wr_delete = delete_entity_rows E R,
     wr_exists = target_row_exists E R, wr_audit = record_delivery_audit E\<rparr>"

definition generic_writer :: "engine \<Rightarrow> runtime \<Rightarrow> gwriter \<Rightarrow> writer" where
  "generic_writer E P W = \<lparr>wr_write = write_row E P W, wr_delete = g_delete_entity_rows E W,
     wr_exists = (\<lambda>t tid. g_row_exists E W t (PStr tid)), wr_audit = g_record_delivery_audit E W\<rparr>"

section \<open>Values per table\<close>

text \<open>\<open>_VARCHAR_LEN\<close> and the declared width of a column.\<close>

definition match_char_len :: "string \<Rightarrow> nat option" where
  "match_char_len s = Option.bind (lit_ci ''CHAR'' s) (\<lambda>r.
     Option.bind (lit ''('' (dropWhile is_space r)) (\<lambda>r1.
       let r2 = dropWhile is_space r1; ds = takeWhile is_digit r2 in
       if ds = [] \<or> lit '')'' (dropWhile is_space (dropWhile is_digit r2)) = None then None
       else parse_digits 0 False ds))"

definition max_varchar_len :: "registry \<Rightarrow> string \<Rightarrow> string \<Rightarrow> nat option" where
  "max_varchar_len R t c = Option.bind (dget R t) (\<lambda>m. Option.bind (lt_get_column m c) (\<lambda>col.
     search match_char_len (lc_type col)))"

definition writer_managed_columns :: "registry \<Rightarrow> string \<Rightarrow> string list" where
  "writer_managed_columns R t = (case dget R t of None \<Rightarrow> []
     | Some m \<Rightarrow> map fk_column (lt_fks m) @ (case auto_increment_column m of None \<Rightarrow> [] | Some c \<Rightarrow> [c]))"

definition fit_width :: "registry \<Rightarrow> string \<Rightarrow> string \<Rightarrow> pyval \<Rightarrow> pyval" where
  "fit_width R t c v = (case v of
       PStr s \<Rightarrow> (case max_varchar_len R t c of
           None \<Rightarrow> v | Some width \<Rightarrow> if width < length s then PStr (take width s) else v)
     | _ \<Rightarrow> v)"

type_synonym built = "(string, row) dict \<times> string list"

definition put_value :: "string \<Rightarrow> string \<Rightarrow> pyval \<Rightarrow> (string, row) dict \<Rightarrow> (string, row) dict" where
  "put_value t c v vbt = dput t (dput c v (case dget vbt t of None \<Rightarrow> [] | Some r \<Rightarrow> r)) vbt"

definition transform_failed :: "mapping_entry \<Rightarrow> exn \<Rightarrow> string" where
  "transform_failed m e = ''transform failed for '' @ m_source m @ '' -> '' @ the (m_table m) @ ''.''
     @ the (m_column m) @ '': '' @ exn_str e"

definition contributes :: "registry \<Rightarrow> row \<Rightarrow> mapping_entry \<Rightarrow> bool" where
  "contributes R src m = (applies src m \<and> the (m_column m) \<notin> set (writer_managed_columns R (the (m_table m))))"

definition build_one :: "runtime \<Rightarrow> registry \<Rightarrow> row \<Rightarrow> mapping_entry \<Rightarrow> built \<Rightarrow> built" where
  "build_one P R src m b =
     (if \<not> contributes R src m then b
      else case apply_transform P (row_get src (m_source m)) (m_transform_of m) of
          Inl e \<Rightarrow> (fst b, snd b @ [transform_failed m e])
        | Inr v \<Rightarrow> (put_value (the (m_table m)) (the (m_column m))
             (fit_width R (the (m_table m)) (the (m_column m)) v) (fst b), snd b))"

definition build_values_by_table :: "runtime \<Rightarrow> registry \<Rightarrow> row \<Rightarrow> mapping_entry list \<Rightarrow> built" where
  "build_values_by_table P R src ms = fold (build_one P R src) ms ([], [])"

section \<open>Cross-entity foreign keys\<close>

definition generate_external_reference ::
  "runtime \<Rightarrow> string \<Rightarrow> string \<Rightarrow> string \<Rightarrow> pyval list \<Rightarrow> string" where
  "generate_external_reference P sys schema tab pks =
     rt_uuid5 P (sys @ ''|'' @ schema @ ''|'' @ tab @ ''|'' @ join ''|'' (map (py_str P) pks))"

definition candidate_entities_for :: "delivery_env \<Rightarrow> central \<Rightarrow> string \<Rightarrow> string list" where
  "candidate_entities_for D c ref = de_distinct D (remdups (map cw_source_entity
     (filter (\<lambda>r. cw_target_table r = ref \<and> cw_target_system r = de_target_system D \<and> cw_target_id r \<noteq> None) (id_crosswalk c))))"

definition crosswalk_target_id :: "string \<Rightarrow> string \<Rightarrow> string \<Rightarrow> string \<Rightarrow> central \<Rightarrow> string option" where
  "crosswalk_target_id entity ref sys t c = Option.bind (select_one (\<lambda>r. cw_source_entity r = entity
     \<and> cw_external_reference r = ref \<and> cw_target_system r = sys \<and> cw_target_table r = t \<and> cw_target_id r \<noteq> None)
     (id_crosswalk c)) cw_target_id"

fun find_res :: "('a \<Rightarrow> 'b option res) \<Rightarrow> 'a list \<Rightarrow> 'b option res" where
  "find_res f [] = Inr None"
| "find_res f (x # xs) = (case f x of
     Inl e \<Rightarrow> Inl e | Inr (Some y) \<Rightarrow> Inr (Some y) | Inr None \<Rightarrow> find_res f xs)"

definition probe_entity ::
  "delivery_env \<Rightarrow> writer \<Rightarrow> world \<Rightarrow> string \<Rightarrow> pyval \<Rightarrow> string \<Rightarrow> string option res" where
  "probe_entity D wr w ref v entity =
     (case crosswalk_target_id entity
         (generate_external_reference (de_runtime D) (de_source_system D) (de_source_schema D) entity [v])
         (de_target_system D) ref (w_central w) of
       None \<Rightarrow> Inr None
     | Some tid \<Rightarrow> res_bind (wr_exists wr ref tid (w_target w)) (\<lambda>b. Inr (if b then Some tid else None)))"

record unresolved_fk =
  uf_table :: string
  uf_column :: string
  uf_source :: string
  uf_value :: string

type_synonym resolved = "(string, row) dict \<times> unresolved_fk list"

definition fk_of_mapping :: "registry \<Rightarrow> row \<Rightarrow> mapping_entry \<Rightarrow> lrmis_fk option" where
  "fk_of_mapping R src m =
     (if applies src m \<and> row_get src (m_source m) \<noteq> PNone
      then Option.bind (dget R (the (m_table m))) (\<lambda>t. find (\<lambda>f. fk_column f = the (m_column m)) (lt_fks t))
      else None)"

definition resolve_one ::
  "delivery_env \<Rightarrow> writer \<Rightarrow> world \<Rightarrow> row \<Rightarrow> mapping_entry \<Rightarrow> resolved \<Rightarrow> resolved res" where
  "resolve_one D wr w src m b = (case fk_of_mapping (de_registry D) src m of
       None \<Rightarrow> Inr b
     | Some f \<Rightarrow> res_bind (find_res (probe_entity D wr w (fk_ref_table f) (row_get src (m_source m)))
           (candidate_entities_for D (w_central w) (fk_ref_table f))) (\<lambda>hit. case hit of
         Some tid \<Rightarrow> Inr (put_value (the (m_table m)) (the (m_column m)) (PStr tid) (fst b), snd b)
       | None \<Rightarrow> Inr (fst b, snd b @ [\<lparr>uf_table = the (m_table m), uf_column = the (m_column m),
           uf_source = m_source m, uf_value = py_str (de_runtime D) (row_get src (m_source m))\<rparr>])))"

definition resolve_cross_entity_fks ::
  "delivery_env \<Rightarrow> writer \<Rightarrow> row \<Rightarrow> mapping_entry list \<Rightarrow> (string, row) dict \<Rightarrow> world \<Rightarrow> resolved res" where
  "resolve_cross_entity_fks D wr src ms vbt w = fold_res (resolve_one D wr w src) ms (vbt, [])"

section \<open>Delivering an event\<close>

datatype outcome =
    Delivered_to row bool "unresolved_fk list"
  | Delivery_error "string list"

definition event_key :: "delivery_env \<Rightarrow> string \<Rightarrow> string \<Rightarrow> delivery_key" where
  "event_key D entity ref = \<lparr>dk_system = de_source_system D, dk_entity = entity, dk_reference = ref,
     dk_target = de_target_system D\<rparr>"

text \<open>The payload column is a JSON object; as text it is parsed first.\<close>

definition event_payload :: "runtime \<Rightarrow> outbox_row \<Rightarrow> row res" where
  "event_payload P event = res_bind (case ev_payload event of PStr s \<Rightarrow> rt_json_loads P s | v \<Rightarrow> Inr v) as_dict"

definition read_fks :: "delivery_env \<Rightarrow> writer \<Rightarrow> row \<Rightarrow> mapping_entry list \<Rightarrow> (string, row) dict \<Rightarrow> (world, resolved) comp" where
  "read_fks D wr src ms vbt w = (resolve_cross_entity_fks D wr src ms vbt w, w)"

definition audit_delivered ::
  "writer \<Rightarrow> int \<Rightarrow> outbox_row \<Rightarrow> unresolved_fk list \<Rightarrow> row \<Rightarrow> (world, outcome) comp" where
  "audit_delivered wr now event unresolved ids =
     (let active = ev_operation event \<noteq> ''deactivate'' in
      bind (wr_audit wr now event active) (\<lambda>_. ret (Delivered_to ids active unresolved)))"

definition write_resolved ::
  "delivery_env \<Rightarrow> writer \<Rightarrow> int \<Rightarrow> string \<Rightarrow> outbox_row \<Rightarrow> resolved \<Rightarrow> (world, outcome) comp" where
  "write_resolved D wr now entity event b =
     bind (wr_write wr now (event_key D entity (ev_external_reference event)) (Some (ev_id event)) (fst b))
       (audit_delivered wr now event (snd b))"

definition deliver_built ::
  "delivery_env \<Rightarrow> writer \<Rightarrow> int \<Rightarrow> string \<Rightarrow> outbox_row \<Rightarrow> mapping_entry list \<Rightarrow> row \<Rightarrow> built \<Rightarrow> (world, outcome) comp" where
  "deliver_built D wr now entity event ms payload b =
     (if snd b \<noteq> [] then ret (Delivery_error (snd b))
      else if fst b = [] then ret (Delivery_error [''mapping produced no target values''])
      else bind (read_fks D wr payload ms (fst b)) (write_resolved D wr now entity event))"

definition deliver_payload ::
  "delivery_env \<Rightarrow> writer \<Rightarrow> int \<Rightarrow> string \<Rightarrow> outbox_row \<Rightarrow> mapping_entry list \<Rightarrow> row \<Rightarrow> (world, outcome) comp" where
  "deliver_payload D wr now entity event ms payload =
     deliver_built D wr now entity event ms payload (build_values_by_table (de_runtime D) (de_registry D) payload ms)"

definition deliver_event ::
  "delivery_env \<Rightarrow> writer \<Rightarrow> int \<Rightarrow> string \<Rightarrow> outbox_row \<Rightarrow> mapping_entry list \<Rightarrow> (world, outcome) comp" where
  "deliver_event D wr now entity event ms =
     bind (lift_res (event_payload (de_runtime D) event)) (deliver_payload D wr now entity event ms)"

section \<open>Refreshing an entity\<close>

record refresh_result =
  rr_deleted :: "(string, nat) dict"
  rr_written :: nat
  rr_failed :: "(string \<times> string list) list"
  rr_unresolved :: nat

definition count_written :: "nat \<Rightarrow> refresh_result \<Rightarrow> refresh_result" where
  "count_written n s = s\<lparr>rr_written := rr_written s + 1, rr_unresolved := rr_unresolved s + n\<rparr>"

definition refresh_write ::
  "delivery_env \<Rightarrow> writer \<Rightarrow> int \<Rightarrow> string \<Rightarrow> string \<Rightarrow> refresh_result \<Rightarrow> resolved \<Rightarrow> (world, refresh_result) comp" where
  "refresh_write D wr now entity ref s b =
     bind (wr_write wr now (event_key D entity ref) None (fst b)) (\<lambda>_. ret (count_written (length (snd b)) s))"

definition refresh_row ::
  "delivery_env \<Rightarrow> writer \<Rightarrow> int \<Rightarrow> string \<Rightarrow> mapping_entry list \<Rightarrow> (row \<Rightarrow> string) \<Rightarrow> row \<Rightarrow> refresh_result
   \<Rightarrow> (world, refresh_result) comp" where
  "refresh_row D wr now entity ms ref_of src s =
     (case build_values_by_table (de_runtime D) (de_registry D) src ms of (vbt, errors) \<Rightarrow>
        if errors \<noteq> [] \<or> vbt = [] then ret (s\<lparr>rr_failed := rr_failed s @
          [(ref_of src, if errors = [] then [''no target values''] else errors)]\<rparr>)
        else bind (read_fks D wr src ms vbt) (refresh_write D wr now entity (ref_of src) s))"

definition refresh_entity ::
  "delivery_env \<Rightarrow> writer \<Rightarrow> int \<Rightarrow> string \<Rightarrow> mapping_entry list \<Rightarrow> (row \<Rightarrow> string) \<Rightarrow> row list
   \<Rightarrow> (world, refresh_result) comp" where
  "refresh_entity D wr now entity ms ref_of source_rows =
     bind (wr_delete wr entity (de_target_system D)) (\<lambda>deleted.
       fold_comp (refresh_row D wr now entity ms ref_of) source_rows
         \<lparr>rr_deleted = deleted, rr_written = 0, rr_failed = [], rr_unresolved = 0\<rparr>)"

section \<open>The approved mapping of an entity\<close>

text \<open>LIKE \<open>'irimsv_%_staging'\<close>, in which an underscore matches any one character.\<close>

definition like_staging :: "string \<Rightarrow> bool" where
  "like_staging s = (starts_with ''irimsv'' s \<and> ends_with ''staging'' s \<and> 15 \<le> length s)"

definition usable_review :: "review_row \<Rightarrow> bool" where
  "usable_review r = (rv_status r = RAccepted \<or> rv_status r = RResolved)"

definition has_target_review :: "central \<Rightarrow> int \<Rightarrow> bool" where
  "has_target_review c pid = list_ex (\<lambda>r. rv_proposal_id r = pid \<and> usable_review r
     \<and> (case rv_target_table r of None \<Rightarrow> False | Some t \<Rightarrow> \<not> like_staging t)) (field_reviews c)"

definition proposal_for :: "central \<Rightarrow> string \<Rightarrow> string \<Rightarrow> proposal_row \<Rightarrow> bool" where
  "proposal_for c entity sys p = ((po_status p = PApproved \<or> po_status p = PAutoApproved)
     \<and> list_ex (\<lambda>e. en_id e = po_entity_id p \<and> en_source_table e = entity \<and> en_target_system e = sys) (entities c)
     \<and> has_target_review c (po_id p))"

definition latest_proposal :: "central \<Rightarrow> string \<Rightarrow> string \<Rightarrow> int option" where
  "latest_proposal c entity sys = (case rev (sort (map po_id (filter (proposal_for c entity sys) (proposals c)))) of
     [] \<Rightarrow> None | i # _ \<Rightarrow> Some i)"

definition str_or :: "string option \<Rightarrow> string option \<Rightarrow> string option" where
  "str_or a b = (if blank a then b else a)"

definition review_mapping :: "review_row \<Rightarrow> mapping_entry option" where
  "review_mapping r =
     (let col = str_or (rv_resolved_target_column r) (rv_target_column r); t = rv_target_table r in
      if blank col \<or> blank t then None
      else if starts_with ''irimsv_'' (the t) \<and> ends_with ''_staging'' (the t) then None
      else Some \<lparr>m_source = rv_source_column r, m_table = t, m_column = col,
        m_transform = str_or (str_or (rv_resolved_transform r) (Some (rv_transform r))) (Some ''none'')\<rparr>)"

definition load_entity_mappings :: "central \<Rightarrow> string \<Rightarrow> string \<Rightarrow> mapping_entry list" where
  "load_entity_mappings c entity sys = (case latest_proposal c entity sys of
     None \<Rightarrow> []
   | Some pid \<Rightarrow> List.map_filter review_mapping
       (filter (\<lambda>r. rv_proposal_id r = pid \<and> usable_review r) (field_reviews c)))"

section \<open>Facts about the built values\<close>

definition value_at :: "(string, row) dict \<Rightarrow> string \<Rightarrow> string \<Rightarrow> pyval option" where
  "value_at vbt t c = Option.bind (dget vbt t) (\<lambda>r. dget r c)"

definition wf_values :: "(string, row) dict \<Rightarrow> bool" where
  "wf_values vbt = (wf_dict vbt \<and> (\<forall>t r. dget vbt t = Some r \<longrightarrow> wf_dict r))"

lemma wf_values_Nil [simp]: "wf_values []"
  by (simp add: wf_values_def)

lemma wf_values_put [simp]: "wf_values vbt \<Longrightarrow> wf_values (put_value t c v vbt)"
  by (auto simp: wf_values_def put_value_def split: option.splits)

lemma wf_values_row: "wf_values vbt \<Longrightarrow> wf_dict vbt" "wf_values vbt \<Longrightarrow> t \<in> set (dkeys vbt) \<Longrightarrow> wf_dict (the (dget vbt t))"
  by (auto simp: wf_values_def set_dkeys_iff)

lemma value_at_put [simp]:
  "value_at (put_value t c v vbt) t' c' = (if t' = t \<and> c' = c then Some v else value_at vbt t' c')"
  by (auto simp: value_at_def put_value_def split: option.splits)

lemma dkeys_put [simp]: "set (dkeys (put_value t c v vbt)) = insert t (set (dkeys vbt))"
  by (simp add: put_value_def)

lemma value_at_dkeys: "value_at vbt t c = Some v \<Longrightarrow> t \<in> set (dkeys vbt)"
  by (auto simp: value_at_def set_dkeys_iff split: Option.bind_splits)

lemma fit_width_str: "fit_width R t c v = PStr s \<Longrightarrow> max_varchar_len R t c = Some width \<Longrightarrow> length s \<le> width"
  by (auto simp: fit_width_def split: pyval.splits if_splits)

text \<open>Which mapping a built value comes from.\<close>

definition comes_from :: "runtime \<Rightarrow> registry \<Rightarrow> row \<Rightarrow> mapping_entry list \<Rightarrow> string \<Rightarrow> string \<Rightarrow> pyval \<Rightarrow> bool" where
  "comes_from P R src ms t c v = (\<exists>m \<in> set ms. contributes R src m \<and> m_table m = Some t \<and> m_column m = Some c
     \<and> (\<exists>x. apply_transform P (row_get src (m_source m)) (m_transform_of m) = Inr x \<and> v = fit_width R t c x))"

lemma build_values_inv:
  assumes "fold (build_one P R src) ms (vbt0, errs0) = (vbt, errs)"
    and "wf_values vbt0" and "\<And>t c v. value_at vbt0 t c = Some v \<Longrightarrow> comes_from P R src ms0 t c v"
  shows "wf_values vbt \<and> (\<forall>t c v. value_at vbt t c = Some v \<longrightarrow> comes_from P R src (ms0 @ ms) t c v)
    \<and> (errs = errs0 \<longleftrightarrow> (\<forall>m \<in> set ms. contributes R src m \<longrightarrow>
          (\<exists>v. apply_transform P (row_get src (m_source m)) (m_transform_of m) = Inr v)))
    \<and> length errs0 \<le> length errs"
  using assms
proof (induction ms arbitrary: vbt0 errs0 ms0)
  case Nil
  then show ?case by auto
next
  case (Cons m ms)
  obtain vbt1 errs1 where one: "build_one P R src m (vbt0, errs0) = (vbt1, errs1)" by fastforce
  have more: "comes_from P R src (ms0 @ [m]) t c v" if "comes_from P R src ms0 t c v" for t c v
    using that by (auto simp: comes_from_def)
  have step: "wf_values vbt1" "\<And>t c v. value_at vbt1 t c = Some v \<Longrightarrow> comes_from P R src (ms0 @ [m]) t c v"
      "errs1 = errs0 \<longleftrightarrow> (contributes R src m \<longrightarrow> (\<exists>v. apply_transform P (row_get src (m_source m)) (m_transform_of m) = Inr v))"
      "length errs0 \<le> length errs1"
  proof -
    show "wf_values vbt1"
      using one Cons.prems(2) by (auto simp: build_one_def split: if_splits sum.splits)
    show "errs1 = errs0 \<longleftrightarrow> (contributes R src m \<longrightarrow> (\<exists>v. apply_transform P (row_get src (m_source m)) (m_transform_of m) = Inr v))"
      "length errs0 \<le> length errs1"
      using one by (auto simp: build_one_def split: if_splits sum.splits)
    fix t c v assume v: "value_at vbt1 t c = Some v"
    show "comes_from P R src (ms0 @ [m]) t c v"
    proof (cases "value_at vbt0 t c = Some v")
      case True
      then show ?thesis using Cons.prems(3) more by blast
    next
      case False
      then obtain x where x: "contributes R src m" "apply_transform P (row_get src (m_source m)) (m_transform_of m) = Inr x"
        "t = the (m_table m)" "c = the (m_column m)" "v = fit_width R t c x"
        using one v by (auto simp: build_one_def split: if_splits sum.splits)
      then have "m_table m = Some t" "m_column m = Some c"
        by (auto simp: contributes_def applies_def blank_def split: option.splits)
      then show ?thesis using x by (auto simp: comes_from_def)
    qed
  qed
  have "fold (build_one P R src) ms (vbt1, errs1) = (vbt, errs)" using Cons.prems(1) one by simp
  note IH = Cons.IH [OF this step(1,2)]
  have "errs = errs0 \<longleftrightarrow> errs = errs1 \<and> errs1 = errs0"
    using IH step(4) one by (auto simp: build_one_def split: if_splits sum.splits)
  then show ?case using IH step(3,4) by auto
qed


lemma build_values_wf: "build_values_by_table P R src ms = (vbt, errs) \<Longrightarrow> wf_values vbt"
  using build_values_inv [of P R src ms "[]" "[]" vbt errs "[]"] by (simp add: build_values_by_table_def value_at_def)

lemma build_values_nonempty:
  assumes "build_values_by_table P R src ms = (vbt, errs)" and "t \<in> set (dkeys vbt)"
  shows "\<exists>c v. value_at vbt t c = Some v"
proof -
  have "\<forall>t. t \<in> set (dkeys vbt) \<longrightarrow> (\<exists>c v. value_at vbt t c = Some v)"
    if "fold (build_one P R src) ms (vbt0, errs0) = (vbt, errs)"
      "\<forall>t. t \<in> set (dkeys vbt0) \<longrightarrow> (\<exists>c v. value_at vbt0 t c = Some v)" for vbt0 errs0
    using that
  proof (induction ms arbitrary: vbt0 errs0)
    case (Cons m ms)
    obtain vbt1 errs1 where one: "build_one P R src m (vbt0, errs0) = (vbt1, errs1)" by fastforce
    have "\<forall>t. t \<in> set (dkeys vbt1) \<longrightarrow> (\<exists>c v. value_at vbt1 t c = Some v)"
    proof (cases "vbt1 = vbt0")
      case True
      then show ?thesis using Cons.prems(2) by simp
    next
      case False
      then obtain t0 c0 v0 where p: "vbt1 = put_value t0 c0 v0 vbt0"
        using one by (auto simp: build_one_def split: if_splits sum.splits)
      show ?thesis
      proof (intro allI impI)
        fix t assume "t \<in> set (dkeys vbt1)"
        then consider "t = t0" | "t \<in> set (dkeys vbt0)" by (auto simp: p)
        then show "\<exists>c v. value_at vbt1 t c = Some v"
        proof cases
          case 1
          then show ?thesis by (intro exI [of _ c0] exI [of _ v0]) (simp add: p)
        next
          case 2
          then obtain c v where "value_at vbt0 t c = Some v" using Cons.prems(2) by blast
          then show ?thesis unfolding p value_at_put by (intro exI [of _ c]) simp
        qed
      qed
    qed
    then show ?case using Cons.IH Cons.prems(1) one by simp
  qed simp
  then show ?thesis using assms by (auto simp: build_values_by_table_def dkeys_def)
qed

section \<open>Facts about the resolved foreign keys\<close>

lemma find_res_Some: "find_res f xs = Inr (Some y) \<Longrightarrow> \<exists>x \<in> set xs. f x = Inr (Some y)"
  by (induction xs) (auto split: sum.splits option.splits)

lemma find_res_None: "find_res f xs = Inr None \<longleftrightarrow> (\<forall>x \<in> set xs. f x = Inr None)"
  by (induction xs) (auto split: sum.splits option.splits)

text \<open>A value the crosswalk vouches for: some entity wrote it into the referenced table and it is still there.\<close>

definition vouched :: "delivery_env \<Rightarrow> writer \<Rightarrow> world \<Rightarrow> row \<Rightarrow> mapping_entry \<Rightarrow> lrmis_fk \<Rightarrow> string \<Rightarrow> bool" where
  "vouched D wr w src m f tid = (\<exists>entity. crosswalk_target_id entity
       (generate_external_reference (de_runtime D) (de_source_system D) (de_source_schema D) entity [row_get src (m_source m)])
       (de_target_system D) (fk_ref_table f) (w_central w) = Some tid
     \<and> wr_exists wr (fk_ref_table f) tid (w_target w) = Inr True)"

lemma probe_entity_hit:
  "probe_entity D wr w (fk_ref_table f) (row_get src (m_source m)) entity = Inr (Some tid) \<Longrightarrow> vouched D wr w src m f tid"
  by (auto simp: probe_entity_def vouched_def res_bind_Inr_iff split: option.splits if_splits intro!: exI [of _ entity])

definition reported :: "delivery_env \<Rightarrow> row \<Rightarrow> mapping_entry \<Rightarrow> unresolved_fk" where
  "reported D src m = \<lparr>uf_table = the (m_table m), uf_column = the (m_column m),
     uf_source = m_source m, uf_value = py_str (de_runtime D) (row_get src (m_source m))\<rparr>"

lemma resolve_one_cases:
  assumes "resolve_one D wr w src m (vbt, un) = Inr (vbt', un')"
  obtains (skip) "fk_of_mapping (de_registry D) src m = None" and "vbt' = vbt" and "un' = un"
    | (hit) f tid where "fk_of_mapping (de_registry D) src m = Some f" and "vouched D wr w src m f tid"
      and "vbt' = put_value (the (m_table m)) (the (m_column m)) (PStr tid) vbt" and "un' = un"
    | (miss) f where "fk_of_mapping (de_registry D) src m = Some f" and "vbt' = vbt" and "un' = un @ [reported D src m]"
proof (cases "fk_of_mapping (de_registry D) src m")
  case None
  then show thesis using assms skip by (simp add: resolve_one_def)
next
  case (Some f)
  then obtain o' where f: "find_res (probe_entity D wr w (fk_ref_table f) (row_get src (m_source m)))
      (candidate_entities_for D (w_central w) (fk_ref_table f)) = Inr o'"
    using assms by (auto simp: resolve_one_def res_bind_Inr_iff)
  show thesis
  proof (cases o')
    case None
    then show thesis using assms Some f miss by (simp add: resolve_one_def reported_def)
  next
    case o': (Some tid)
    then have "vouched D wr w src m f tid" using find_res_Some [OF f [unfolded o']] probe_entity_hit by blast
    then show thesis using assms Some f o' hit by (simp add: resolve_one_def)
  qed
qed

lemma resolve_fks_inv:
  assumes "fold_res (resolve_one D wr w src) ms (vbt0, un0) = Inr (vbt, un)" and "wf_values vbt0"
  shows "wf_values vbt
    \<and> (\<forall>t c v. value_at vbt t c = Some v \<longrightarrow> value_at vbt0 t c = Some v \<or>
        (\<exists>m \<in> set ms. \<exists>f tid. fk_of_mapping (de_registry D) src m = Some f \<and> m_table m = Some t \<and> m_column m = Some c
           \<and> v = PStr tid \<and> vouched D wr w src m f tid))
    \<and> (\<forall>t c. value_at vbt0 t c \<noteq> None \<longrightarrow> value_at vbt t c \<noteq> None)
    \<and> set un0 \<subseteq> set un
    \<and> (\<forall>m \<in> set ms. fk_of_mapping (de_registry D) src m \<noteq> None \<longrightarrow>
        value_at vbt (the (m_table m)) (the (m_column m)) \<noteq> None \<or> reported D src m \<in> set un)"
  using assms
proof (induction ms arbitrary: vbt0 un0)
  case Nil
  then show ?case by auto
next
  case (Cons m ms)
  obtain vbt1 un1 where one: "resolve_one D wr w src m (vbt0, un0) = Inr (vbt1, un1)"
    and rest: "fold_res (resolve_one D wr w src) ms (vbt1, un1) = Inr (vbt, un)"
    using Cons.prems(1) by (auto simp: res_bind_Inr_iff)
  from one show ?case
  proof (cases rule: resolve_one_cases)
    case skip
    then show ?thesis using Cons.IH [OF rest] Cons.prems(2) by auto
  next
    case (miss f)
    then show ?thesis using Cons.IH [OF rest] Cons.prems(2) by auto
  next
    case (hit f tid)
    have "m_table m = Some (the (m_table m))" "m_column m = Some (the (m_column m))"
      using hit(1) by (auto simp: fk_of_mapping_def applies_def blank_def split: if_splits option.splits)
    moreover have "wf_values vbt1" using hit(3) Cons.prems(2) by simp
    note IH = Cons.IH [OF rest this]
    have at: "value_at vbt1 t c = (if t = the (m_table m) \<and> c = the (m_column m) then Some (PStr tid) else value_at vbt0 t c)" for t c
      using hit(3) by simp
    show ?thesis
    proof (intro conjI allI impI)
      fix t c v assume v: "value_at vbt t c = Some v"
      consider "value_at vbt1 t c = Some v" | "\<exists>m \<in> set ms. \<exists>f tid. fk_of_mapping (de_registry D) src m = Some f
          \<and> m_table m = Some t \<and> m_column m = Some c \<and> v = PStr tid \<and> vouched D wr w src m f tid"
        using conjunct1 [OF conjunct2 [OF IH], THEN spec, THEN spec, THEN spec, THEN mp, OF v] by blast
      then show "value_at vbt0 t c = Some v \<or> (\<exists>m \<in> set (m # ms). \<exists>f tid. fk_of_mapping (de_registry D) src m = Some f
          \<and> m_table m = Some t \<and> m_column m = Some c \<and> v = PStr tid \<and> vouched D wr w src m f tid)"
      proof cases
        case 1
        then show ?thesis using at [of t c] hit(1,2) calculation by (cases "t = the (m_table m) \<and> c = the (m_column m)") auto
      next
        case 2
        then show ?thesis by (meson list.set_intros(2))
      qed
    next
      fix t c assume "value_at vbt0 t c \<noteq> None"
      then have "value_at vbt1 t c \<noteq> None" unfolding at by simp
      then show "value_at vbt t c \<noteq> None" using IH by blast
    next
      show "wf_values vbt" "set un0 \<subseteq> set un" using IH hit(4) by blast+
    next
      have "value_at vbt1 (the (m_table m)) (the (m_column m)) \<noteq> None" unfolding at by simp
      then have "value_at vbt (the (m_table m)) (the (m_column m)) \<noteq> None" using IH by blast
      then show "\<forall>x \<in> set (m # ms). fk_of_mapping (de_registry D) src x \<noteq> None \<longrightarrow>
        value_at vbt (the (m_table x)) (the (m_column x)) \<noteq> None \<or> reported D src x \<in> set un"
        using IH unfolding set_simps(2) ball_simps(7) by blast
    qed
  qed
qed


section \<open>The contract of a target writer\<close>

text \<open>
  What delivery relies on, whichever engine it writes to: a write changes the crosswalk of its
  own row and the tables of its own mapping only, the audit changes the audit table only and
  leaves the envelope with the active flag behind.
\<close>

locale target_writer =
  fixes wr :: writer
  assumes write_rest: "wr_write wr now k ev vbt w = (r, w') \<Longrightarrow> wf_dict vbt \<Longrightarrow> central_rest (w_central w') = central_rest (w_central w)"
    and write_others: "wr_write wr now k ev vbt w = (r, w') \<Longrightarrow> wf_dict vbt \<Longrightarrow> k' \<noteq> k \<Longrightarrow>
      crosswalk_lookup k' t (w_central w') = crosswalk_lookup k' t (w_central w)"
    and write_tables: "wr_write wr now k ev vbt w = (r, w') \<Longrightarrow> wf_dict vbt \<Longrightarrow> t \<notin> set (dkeys vbt) \<Longrightarrow>
      t_rows (w_target w') t = t_rows (w_target w) t"
    and audit_central: "wr_audit wr now event active w = (ra, w') \<Longrightarrow> w_central w' = w_central w"
    and audit_tables: "wr_audit wr now event active w = (ra, w') \<Longrightarrow> t \<noteq> ''delivery_audit'' \<Longrightarrow>
      t_rows (w_target w') t = t_rows (w_target w) t"
    and audit_recorded: "wr_audit wr now event active w = (Inr u, w') \<Longrightarrow>
      \<exists>r \<in> set (t_rows (w_target w') ''delivery_audit''). row_get r ''active'' = PInt (if active then 1 else 0)"
begin

lemma write_resolved_cases:
  assumes "write_resolved D wr now entity event b w = (r, w')"
  obtains (write_failed) e where "r = Inl e"
      "wr_write wr now (event_key D entity (ev_external_reference event)) (Some (ev_id event)) (fst b) w = (Inl e, w')"
    | (written) ids w1 r1 where "wr_write wr now (event_key D entity (ev_external_reference event)) (Some (ev_id event)) (fst b) w = (Inr ids, w1)"
      "wr_audit wr now event (ev_operation event \<noteq> ''deactivate'') w1 = (r1, w')"
      "r = (case r1 of Inl e \<Rightarrow> Inl e | Inr u \<Rightarrow> Inr (Delivered_to ids (ev_operation event \<noteq> ''deactivate'') (snd b)))"
proof -
  obtain r0 w0 where o: "wr_write wr now (event_key D entity (ev_external_reference event)) (Some (ev_id event)) (fst b) w = (r0, w0)"
    by fastforce
  show thesis
  proof (cases r0)
    case (Inl e)
    then show thesis using assms o by (intro write_failed [of e]) (auto simp: write_resolved_def bind_def)
  next
    case (Inr ids)
    obtain r1 w1 where "wr_audit wr now event (ev_operation event \<noteq> ''deactivate'') w0 = (r1, w1)" by fastforce
    then show thesis using assms o Inr
      by (intro written [of ids w0 r1]) (auto simp: write_resolved_def audit_delivered_def Let_def bind_def split: sum.splits)
  qed
qed

lemma write_resolved_frame:
  assumes "write_resolved D wr now entity event b w = (r, w')" and "wf_dict (fst b)"
  shows "central_rest (w_central w') = central_rest (w_central w)
    \<and> (\<forall>k' t. k' \<noteq> event_key D entity (ev_external_reference event) \<longrightarrow>
        crosswalk_lookup k' t (w_central w') = crosswalk_lookup k' t (w_central w))
    \<and> (\<forall>t. t \<notin> set (dkeys (fst b)) \<longrightarrow> t \<noteq> ''delivery_audit'' \<longrightarrow> t_rows (w_target w') t = t_rows (w_target w) t)
    \<and> (\<forall>out. r = Inr out \<longrightarrow> (\<exists>ids. out = Delivered_to ids (ev_operation event \<noteq> ''deactivate'') (snd b))
      \<and> (\<exists>r \<in> set (t_rows (w_target w') ''delivery_audit''). row_get r ''active'' = PInt (if ev_operation event \<noteq> ''deactivate'' then 1 else 0)))"
  using assms(1)
proof (cases rule: write_resolved_cases)
  case (write_failed e)
  then show ?thesis
    using write_rest [OF write_failed(2) assms(2)] write_others [OF write_failed(2) assms(2)]
      write_tables [OF write_failed(2) assms(2)] by simp
next
  case (written ids w1 r1)
  have "(\<exists>ids. out = Delivered_to ids (ev_operation event \<noteq> ''deactivate'') (snd b))
      \<and> (\<exists>r \<in> set (t_rows (w_target w') ''delivery_audit''). row_get r ''active'' = PInt (if ev_operation event \<noteq> ''deactivate'' then 1 else 0))"
    if "r = Inr out" for out
  proof -
    have u: "r1 = Inr ()" "out = Delivered_to ids (ev_operation event \<noteq> ''deactivate'') (snd b)"
      using written(3) that by (cases r1; simp)+
    then show ?thesis using audit_recorded [OF written(2) [unfolded u(1)]] by blast
  qed
  then show ?thesis
    using write_rest [OF written(1) assms(2)] write_others [OF written(1) assms(2)] write_tables [OF written(1) assms(2)]
      audit_central [OF written(2)] audit_tables [OF written(2)] by simp
qed

lemma deliver_event_cases:
  assumes "deliver_event D wr now entity event ms w = (r, w')"
  obtains (quiet) "w' = w" and "\<And>ids a un. r \<noteq> Inr (Delivered_to ids a un)"
    | (wrote) payload vbt vbt' un where "event_payload (de_runtime D) event = Inr payload"
      and "build_values_by_table (de_runtime D) (de_registry D) payload ms = (vbt, [])"
      and "resolve_cross_entity_fks D wr payload ms vbt w = Inr (vbt', un)" and "wf_dict vbt'"
      and "write_resolved D wr now entity event (vbt', un) w = (r, w')"
proof (cases "event_payload (de_runtime D) event")
  case (Inl e)
  then show thesis using assms quiet by (auto simp: deliver_event_def bind_def)
next
  case (Inr payload)
  obtain vbt errs where b: "build_values_by_table (de_runtime D) (de_registry D) payload ms = (vbt, errs)" by fastforce
  have run: "deliver_built D wr now entity event ms payload (vbt, errs) w = (r, w')"
    using assms Inr b by (simp add: deliver_event_def bind_def deliver_payload_def)
  show thesis
  proof (cases "errs \<noteq> [] \<or> vbt = []")
    case True
    then show thesis using run quiet by (auto simp: deliver_built_def split: if_splits)
  next
    case False
    then have run: "bind (read_fks D wr payload ms vbt) (write_resolved D wr now entity event) w = (r, w')"
      using run by (simp add: deliver_built_def)
    show thesis
    proof (cases "resolve_cross_entity_fks D wr payload ms vbt w")
      case (Inl e)
      then show thesis using run quiet by (auto simp: bind_def read_fks_def)
    next
      case (Inr br)
      obtain vbt' un where br: "br = (vbt', un)" by fastforce
      have "wf_dict vbt'"
        using resolve_fks_inv [OF Inr [unfolded br resolve_cross_entity_fks_def] build_values_wf [OF b]] by (simp add: wf_values_def)
      moreover have "write_resolved D wr now entity event (vbt', un) w = (r, w')"
        using run Inr br by (simp add: bind_def [of "read_fks _ _ _ _ _"] read_fks_def)
      ultimately show thesis using wrote [of payload vbt vbt' un] \<open>event_payload _ _ = Inr payload\<close> b False Inr br by auto
    qed
  qed
qed

lemma deliver_event_frame:
  assumes "deliver_event D wr now entity event ms w = (r, w')"
  shows "central_rest (w_central w') = central_rest (w_central w)
    \<and> (\<forall>k' t. k' \<noteq> event_key D entity (ev_external_reference event) \<longrightarrow>
        crosswalk_lookup k' t (w_central w') = crosswalk_lookup k' t (w_central w))
    \<and> (\<forall>errs. r = Inr (Delivery_error errs) \<longrightarrow> w' = w)
    \<and> (\<forall>ids active un. r = Inr (Delivered_to ids active un) \<longrightarrow> active = (ev_operation event \<noteq> ''deactivate'')
        \<and> (\<exists>row \<in> set (t_rows (w_target w') ''delivery_audit''). row_get row ''active'' = PInt (if active then 1 else 0)))"
  using assms
proof (cases rule: deliver_event_cases)
  case quiet
  then show ?thesis by auto
next
  case (wrote payload vbt vbt' un)
  note f = write_resolved_frame [OF wrote(5), unfolded fst_conv snd_conv, OF wrote(4)]
  have "\<forall>errs. r \<noteq> Inr (Delivery_error errs)" using f by fastforce
  moreover have "active = (ev_operation event \<noteq> ''deactivate'')
        \<and> (\<exists>row \<in> set (t_rows (w_target w') ''delivery_audit''). row_get row ''active'' = PInt (if active then 1 else 0))"
    if "r = Inr (Delivered_to ids active un')" for ids active un'
    using f that by auto
  ultimately show ?thesis using f by blast
qed

end

text \<open>The audit statement of either engine.\<close>

lemma sql_upsert_active:
  assumes "sql_upsert E ''delivery_audit'' ''event_id'' ups (audit_envelope now event active) T = Inr (u, T')"
    and "''active'' \<in> set ups"
  shows "\<exists>r \<in> set (t_rows T' ''delivery_audit''). row_get r ''active'' = PInt (if active then 1 else 0)"
proof -
  let ?v = "audit_envelope now event active"
  let ?new = "filter (\<lambda>(c, _). c \<in> set ups) ?v"
  show ?thesis
  proof (cases "list_ex (col_eq E ''event_id'' (row_get ?v ''event_id'')) (t_rows T ''delivery_audit'')")
    case True
    then obtain r where r: "r \<in> set (t_rows T ''delivery_audit'')" "col_eq E ''event_id'' (row_get ?v ''event_id'') r"
      by (auto simp: list_ex_iff)
    have "sql_update E ''delivery_audit'' ''event_id'' (row_get ?v ''event_id'') ?new T = Inr T'"
      using assms(1) True by (auto simp: sql_upsert_def res_bind_Inr_iff)
    then have "assign_row ?new r \<in> set (t_rows T' ''delivery_audit'')"
      using r by (auto simp: sql_update_rows update_where_def)
    moreover have "wf_dict ?v" by (simp add: audit_envelope_def wf_dict_def)
    then have "distinct (map fst ?new)" by (simp add: wf_dict_def distinct_map_filter)
    then have "map_of (rev ?new) ''active'' = map_of ?new ''active''" by (simp add: map_of_rev_distinct)
    then have "row_get (assign_row ?new r) ''active'' = PInt (if active then 1 else 0)"
      using assms(2) by (simp add: row_get_assign audit_envelope_def)
    ultimately show ?thesis by blast
  next
    case False
    then obtain stored where ins: "sql_insert E None ''delivery_audit'' ?v T = Inr (stored, T')"
      using assms(1) by (auto simp: sql_upsert_def res_bind_Inr_iff)
    have "row_get stored ''active'' = row_get ?v ''active''" using sql_insert_stored [OF ins, of "''active''"] by simp
    then show ?thesis
      using sql_insert_rows [OF ins, of "''delivery_audit''"]
      by (intro bexI [of _ stored]) (simp_all add: audit_envelope_def row_get_def dget_def)
  qed
qed

lemma on_target_audit:
  assumes "on_target (sql_upsert E ''delivery_audit'' ''event_id'' ups (audit_envelope now event active)) w = (r, w')"
    and "''active'' \<in> set ups"
  shows "w_central w' = w_central w \<and> (\<forall>t. t \<noteq> ''delivery_audit'' \<longrightarrow> t_rows (w_target w') t = t_rows (w_target w) t)
    \<and> (\<forall>u. r = Inr u \<longrightarrow> (\<exists>row \<in> set (t_rows (w_target w') ''delivery_audit''). row_get row ''active'' = PInt (if active then 1 else 0)))"
  using assms(1)
proof (cases rule: on_target_cases)
  case (refused e)
  then show ?thesis by simp
next
  case (ok x T)
  then show ?thesis using sql_upsert_other [OF ok(1)] sql_upsert_active [OF ok(1) assms(2)] by auto
qed

interpretation legacy_target: target_writer "legacy_writer E P R" for E P R
proof
  fix now k ev vbt w r w' k' t
  assume "wr_write (legacy_writer E P R) now k ev vbt w = (r, w')" and wf: "wf_dict vbt"
  then have run: "write_source_row E P R now k ev vbt w = (r, w')" by (simp add: legacy_writer_def)
  note f = write_source_row_frame [OF this wf]
  show "central_rest (w_central w') = central_rest (w_central w)" using f by blast
  show "k' \<noteq> k \<Longrightarrow> crosswalk_lookup k' t (w_central w') = crosswalk_lookup k' t (w_central w)" using f by blast
  show "t \<notin> set (dkeys vbt) \<Longrightarrow> t_rows (w_target w') t = t_rows (w_target w) t" using f by blast
next
  fix now event active w r w' t u
  assume "wr_audit (legacy_writer E P R) now event active w = (r, w')"
  then have "on_target (sql_upsert E ''delivery_audit'' ''event_id''
      [''external_reference'', ''operation'', ''source_updated_at'', ''payload_checksum'', ''active'', ''accepted_at'']
      (audit_envelope now event active)) w = (r, w')"
    by (simp add: legacy_writer_def record_delivery_audit_def)
  note f = on_target_audit [OF this]
  show "w_central w' = w_central w" using f by simp
  show "t \<noteq> ''delivery_audit'' \<Longrightarrow> t_rows (w_target w') t = t_rows (w_target w) t" using f by simp
next
  fix now event active w w' u
  assume "wr_audit (legacy_writer E P R) now event active w = (Inr u, w')"
  then have "on_target (sql_upsert E ''delivery_audit'' ''event_id''
      [''external_reference'', ''operation'', ''source_updated_at'', ''payload_checksum'', ''active'', ''accepted_at'']
      (audit_envelope now event active)) w = (Inr u, w')"
    by (simp add: legacy_writer_def record_delivery_audit_def)
  from on_target_audit [OF this]
  show "\<exists>r \<in> set (t_rows (w_target w') ''delivery_audit''). row_get r ''active'' = PInt (if active then 1 else 0)" by simp
qed

lemma g_audit_cases:
  assumes "g_record_delivery_audit E W now event active w = (r, w')"
  shows "w_central w' = w_central w \<and> (\<forall>t. t \<noteq> ''delivery_audit'' \<longrightarrow> t_rows (w_target w') t = t_rows (w_target w) t)
    \<and> (\<forall>u. r = Inr u \<longrightarrow> (\<exists>row \<in> set (t_rows (w_target w') ''delivery_audit''). row_get row ''active'' = PInt (if active then 1 else 0)))"
proof (cases "upsert_sql (gw_dialect W) ''delivery_audit'' (dkeys (audit_envelope now event active)) [''event_id'']")
  case (Inl e)
  then show ?thesis using assms by (auto simp: g_record_delivery_audit_def Let_def bind_def)
next
  case (Inr s)
  let ?ups = "filter (\<lambda>c. c \<noteq> ''event_id'') (dkeys (audit_envelope now event active))"
  have "on_target (sql_upsert E ''delivery_audit'' ''event_id'' ?ups (audit_envelope now event active)) w = (r, w')"
    using assms Inr by (simp add: g_record_delivery_audit_def Let_def bind_def [of "lift_res _"])
  then show ?thesis by (rule on_target_audit) (simp add: audit_envelope_def dkeys_def)
qed

interpretation generic_target: target_writer "generic_writer E P W" for E P W
proof
  fix now k ev vbt w r w' k' t
  assume "wr_write (generic_writer E P W) now k ev vbt w = (r, w')" and wf: "wf_dict vbt"
  then have run: "write_row E P W now k ev vbt w = (r, w')" by (simp add: generic_writer_def)
  note f = write_row_frame [OF this wf]
  show "central_rest (w_central w') = central_rest (w_central w)" using f by blast
  show "k' \<noteq> k \<Longrightarrow> crosswalk_lookup k' t (w_central w') = crosswalk_lookup k' t (w_central w)" using f by blast
  show "t \<notin> set (dkeys vbt) \<Longrightarrow> t_rows (w_target w') t = t_rows (w_target w) t" using f by blast
next
  fix now event active w r w' t u
  assume "wr_audit (generic_writer E P W) now event active w = (r, w')"
  then have "g_record_delivery_audit E W now event active w = (r, w')" by (simp add: generic_writer_def)
  note f = g_audit_cases [OF this]
  show "w_central w' = w_central w" using f by simp
  show "t \<noteq> ''delivery_audit'' \<Longrightarrow> t_rows (w_target w') t = t_rows (w_target w) t" using f by simp
next
  fix now event active w w' u
  assume "wr_audit (generic_writer E P W) now event active w = (Inr u, w')"
  then have "g_record_delivery_audit E W now event active w = (Inr u, w')" by (simp add: generic_writer_def)
  from g_audit_cases [OF this]
  show "\<exists>r \<in> set (t_rows (w_target w') ''delivery_audit''). row_get r ''active'' = PInt (if active then 1 else 0)" by simp
qed


section \<open>Examples\<close>

definition entry :: "string \<Rightarrow> string \<Rightarrow> string \<Rightarrow> mapping_entry" where
  "entry src t c = \<lparr>m_source = src, m_table = Some t, m_column = Some c, m_transform = None\<rparr>"

definition narrow_registry :: registry where
  "narrow_registry = [(''pupil'', \<lparr>lt_name = ''pupil'', lt_columns =
     [\<lparr>lc_name = ''id'', lc_type = ''int'', lc_nullable = False, lc_pk = True, lc_auto = True, lc_enum = [], lc_default = None\<rparr>,
      \<lparr>lc_name = ''name'', lc_type = ''varchar(3)'', lc_nullable = True, lc_pk = False, lc_auto = False, lc_enum = [], lc_default = None\<rparr>,
      \<lparr>lc_name = ''school_id'', lc_type = ''int'', lc_nullable = True, lc_pk = False, lc_auto = False, lc_enum = [], lc_default = None\<rparr>],
     lt_fks = [\<lparr>fk_column = ''school_id'', fk_ref_table = ''school'', fk_ref_column = ''id''\<rparr>], lt_create_sql = []\<rparr>)]
   @ sample_registry"

definition pupil_source :: row where
  "pupil_source = [(''nm'', PStr ''ABCDE''), (''school'', PStr ''u1'')]"

definition pupil_mapping :: "mapping_entry list" where
  "pupil_mapping = [entry ''nm'' ''pupil'' ''name'', entry ''school'' ''pupil'' ''school_id'']"


text \<open>The pupil's school was delivered before, under another entity.\<close>

definition pupil_env :: delivery_env where
  "pupil_env = \<lparr>de_runtime = sample_runtime, de_registry = narrow_registry, de_source_system = ''S'',
     de_source_schema = ''irimsv'', de_target_system = ''LRMIS'', de_distinct = (\<lambda>xs. xs)\<rparr>"

definition pupil_world :: world where
  "pupil_world = \<lparr>w_central = crosswalk_record 0 \<lparr>dk_system = ''S'', dk_entity = ''schools'',
       dk_reference = ''S|irimsv|schools|u1'', dk_target = ''LRMIS''\<rparr> ''school'' ''7'' None empty_central,
     w_target = \<lparr>tg_tables = [(''school'', [[(''id'', PInt 7)]])], tg_next = []\<rparr>\<rparr>"


definition pupil_event :: outbox_row where
  "pupil_event = \<lparr>ev_id = ''e1'', ev_source_system = ''S'', ev_source_entity = ''pupils'', ev_external_reference = ''p1'',
     ev_operation = ''deactivate'', ev_payload = PDict pupil_source, ev_payload_checksum = [], ev_target_system = ''LRMIS'',
     ev_mapping_version_id = None, ev_status = Processing, ev_attempts = 0, ev_available_at = 0, ev_source_updated_at = 0,
     ev_created_at = 0, ev_processed_at = None, ev_error_code = None, ev_error_message = None\<rparr>"

definition pupil_delivery :: "outcome res \<times> world" where
  "pupil_delivery = deliver_event pupil_env (legacy_writer sample_engine sample_runtime narrow_registry) 5 ''pupils''
     pupil_event pupil_mapping pupil_world"


end
