(* ===== verification/Worker.thy ===== *)
theory Worker
  imports Lrmis_Delivery Integration_Store
begin

text \<open>
  \<open>src/worker.py\<close>: one pass claims a batch, delivers each event into the target as a unit of
  its own (committed or rolled back) and settles it in the outbox; the central work of the
  whole batch commits at the end. A pass that raises leaves the central database as it was
  (its connection rolls back on return), while the target keeps what was committed before.
\<close>

section \<open>State\<close>

text \<open>The world as the open transactions see it, and the target as it was last committed.\<close>

type_synonym pass_state = "world \<times> target_db"

record pass_result =
  wk_claimed :: nat
  wk_delivered :: nat
  wk_quarantined :: nat
  wk_retried :: nat
  wk_lrmis :: nat

definition no_result :: pass_result where
  "no_result = \<lparr>wk_claimed = 0, wk_delivered = 0, wk_quarantined = 0, wk_retried = 0, wk_lrmis = 0\<rparr>"

text \<open>What a pass is configured with; \<open>pc_agent\<close> is the healing agent, which returns an action and a detail.\<close>

record pass_config =
  pc_env :: delivery_env
  pc_writer :: writer
  pc_engine :: engine
  pc_agent :: "(string \<Rightarrow> string \<Rightarrow> (string \<times> string) res) option"
  pc_open :: "exn option"
  pc_max_attempts :: nat

definition target_writer_for :: "engine \<Rightarrow> runtime \<Rightarrow> registry \<Rightarrow> gwriter \<Rightarrow> string \<Rightarrow> writer" where
  "target_writer_for E P R W engine_name =
     (if str_lower (str_strip engine_name) \<in> {''postgres'', ''postgresql'', ''pg''}
      then generic_writer E P W else legacy_writer E P R)"

section \<open>One event\<close>

definition settle :: "(central \<Rightarrow> central) \<Rightarrow> pass_result \<Rightarrow> (pass_state, pass_result) comp" where
  "settle f result s = (case s of (w, saved) \<Rightarrow> (Inr result, (w\<lparr>w_central := f (w_central w)\<rparr>, saved)))"

definition rollback_target :: "pass_state \<Rightarrow> pass_state" where
  "rollback_target s = (case s of (w, saved) \<Rightarrow> (w\<lparr>w_target := rollback_to saved (w_target w)\<rparr>, saved))"

definition heal_reasons :: "pass_config \<Rightarrow> string \<Rightarrow> string list \<Rightarrow> string list res" where
  "heal_reasons C entity reasons = (case pc_agent C of
     None \<Rightarrow> Inr reasons
   | Some heal \<Rightarrow> res_bind (heal (join ''; '' reasons) entity) (\<lambda>(action, detail).
       Inr (reasons @ [''agent_heal='' @ action @ '':'' @ detail])))"

definition deliver_failed :: "pass_config \<Rightarrow> int \<Rightarrow> outbox_row \<Rightarrow> exn \<Rightarrow> pass_result \<Rightarrow> (pass_state, pass_result) comp" where
  "deliver_failed C now event e result s =
     settle (\<lambda>c. retry_or_dead_letter now c event (exn_str e) (pc_max_attempts C))
       (result\<lparr>wk_retried := wk_retried result + 1\<rparr>) (rollback_target s)"

definition deliver_rejected :: "int \<Rightarrow> outbox_row \<Rightarrow> pass_result \<Rightarrow> string list \<Rightarrow> (pass_state, pass_result) comp" where
  "deliver_rejected now event result reasons =
     settle (\<lambda>c. quarantine now c event reasons None) (result\<lparr>wk_quarantined := wk_quarantined result + 1\<rparr>)"

definition deliver_accepted :: "pass_config \<Rightarrow> int \<Rightarrow> outbox_row \<Rightarrow> pass_result \<Rightarrow> (pass_state, pass_result) comp" where
  "deliver_accepted C now event result s = (case s of (w, saved) \<Rightarrow>
     (case eng_commit (pc_engine C) (w_target w) of
        Some e \<Rightarrow> (Inl e, s)
      | None \<Rightarrow> settle (\<lambda>c. mark_event_delivered now c event)
          (result\<lparr>wk_delivered := wk_delivered result + 1\<rparr>) (w, w_target w)))"

definition event_env :: "pass_config \<Rightarrow> outbox_row \<Rightarrow> delivery_env" where
  "event_env C event = (pc_env C)\<lparr>de_target_system := ev_target_system event\<rparr>"

definition attempt_delivery ::
  "pass_config \<Rightarrow> int \<Rightarrow> outbox_row \<Rightarrow> mapping_entry list \<Rightarrow> pass_result \<Rightarrow> (pass_state, pass_result) comp" where
  "attempt_delivery C now event ms result s = (case s of (w, saved) \<Rightarrow>
     (case deliver_event (event_env C event) (pc_writer C) now (ev_source_entity event) event ms w of
        (Inl e, w') \<Rightarrow> deliver_failed C now event e result (w', saved)
      | (Inr (Delivery_error reasons), w') \<Rightarrow>
          bind (lift_res (heal_reasons C (ev_source_entity event) reasons))
            (deliver_rejected now event result) (rollback_target (w', saved))
      | (Inr (Delivered_to ids active un), w') \<Rightarrow> deliver_accepted C now event result (w', saved)))"

definition deliver_path_b ::
  "pass_config \<Rightarrow> int \<Rightarrow> outbox_row \<Rightarrow> pass_result \<Rightarrow> (pass_state, pass_result) comp" where
  "deliver_path_b C now event result s =
     (let ms = load_entity_mappings (w_central (fst s)) (ev_source_entity event) (ev_target_system event) in
      if ms = [] then deliver_rejected now event result [''no approved LRMIS-target mapping for entity''] s
      else attempt_delivery C now event ms result s)"

section \<open>One pass and the loop\<close>

definition pass_event :: "pass_config \<Rightarrow> int \<Rightarrow> outbox_row \<Rightarrow> pass_result \<Rightarrow> (pass_state, pass_result) comp" where
  "pass_event C now event result =
     bind (deliver_path_b C now event result) (\<lambda>r. ret (r\<lparr>wk_lrmis := wk_lrmis r + 1\<rparr>))"

definition process_once ::
  "pass_config \<Rightarrow> int \<Rightarrow> string set \<Rightarrow> string \<Rightarrow> nat \<Rightarrow> (central \<times> target_db, pass_result) comp" where
  "process_once C now locked sys batch ct = (case ct of (c, T) \<Rightarrow>
     (case claim_events now locked c sys batch of (events, c1) \<Rightarrow>
        if events \<noteq> [] \<and> pc_open C \<noteq> None then (Inl (the (pc_open C)), (c, T))
        else (case fold_comp (pass_event C now) events (no_result\<lparr>wk_claimed := length events\<rparr>)
                  (\<lparr>w_central = c1, w_target = T\<rparr>, T) of
            (Inl e, (w, saved)) \<Rightarrow> (Inl e, (c, rollback_to saved (w_target w)))
          | (Inr result, (w, saved)) \<Rightarrow> (Inr result, (w_central w, rollback_to saved (w_target w))))))"

text \<open>The loop: a pass at each instant until the stop event is set; a failed pass is reported and the loop goes on.\<close>

fun run_loop ::
  "(int \<Rightarrow> pass_config) \<Rightarrow> int list \<Rightarrow> string \<Rightarrow> nat \<Rightarrow> central \<times> target_db
   \<Rightarrow> (int \<times> (string + pass_result)) list \<times> (central \<times> target_db)" where
  "run_loop C [] sys batch ct = ([], ct)"
| "run_loop C (now # nows) sys batch ct =
     (case process_once (C now) now {} sys batch ct of (r, ct1) \<Rightarrow>
       (case run_loop C nows sys batch ct1 of (reports, ct2) \<Rightarrow>
          ((now, case r of Inl e \<Rightarrow> Inl (exn_str e) | Inr x \<Rightarrow> Inr x) # reports, ct2)))"

section \<open>What settling an event does to the outbox\<close>

definition settled :: "central \<Rightarrow> outbox_row \<Rightarrow> bool" where
  "settled c e = (\<exists>o' \<in> set (outbox c). ev_id o' = ev_id e
     \<and> ev_status o' \<in> {Delivered, Quarantined, Retry, DeadLetter})"

text \<open>An operation that settles the event \<open>e\<close>: it sets the final status of its row and of no other.\<close>

definition settles :: "nat \<Rightarrow> outbox_row \<Rightarrow> central \<Rightarrow> central \<Rightarrow> bool" where
  "settles M e c c' = ((in_process c e \<longrightarrow> store_step M c c')
     \<and> (\<exists>f. outbox c' = update_where (\<lambda>o'. ev_id o' = ev_id e) f (outbox c)
         \<and> (\<forall>o'. ev_id (f o') = ev_id o' \<and> ev_status (f o') \<in> {Delivered, Quarantined, Retry, DeadLetter})))"

lemma settles_operations:
  "settles M e c (mark_event_delivered now c e)"
  "settles M e c (retry_or_dead_letter now c e err M)"
  "settles M e c (quarantine now c e errs mid)"
proof -
  show "settles M e c (mark_event_delivered now c e)"
    unfolding settles_def
    by (intro conjI impI store_step.deliver exI [of _ "set_delivered now (ev_attempts e + 1)"])
      (simp_all add: mark_event_delivered_def set_delivered_def)
  show "settles M e c (retry_or_dead_letter now c e err M)"
    unfolding settles_def
    by (intro conjI impI store_step.fail exI) (simp_all add: retry_or_dead_letter_def Let_def, simp)
  show "settles M e c (quarantine now c e errs mid)"
    unfolding settles_def
    by (intro conjI impI store_step.reject exI) (simp_all add: quarantine_def, simp)
qed

lemma settles_effect:
  assumes "settles M e c c'"
  shows "in_process c e \<Longrightarrow> settled c' e"
    and "ev_id e' \<noteq> ev_id e \<Longrightarrow> in_process c e' \<Longrightarrow> in_process c' e'"
    and "ev_id e' \<noteq> ev_id e \<Longrightarrow> settled c e' \<Longrightarrow> settled c' e'"
proof -
  obtain f where f: "outbox c' = update_where (\<lambda>o'. ev_id o' = ev_id e) f (outbox c)"
    "\<And>o'. ev_id (f o') = ev_id o'" "\<And>o'. ev_status (f o') \<in> {Delivered, Quarantined, Retry, DeadLetter}"
    using assms unfolding settles_def by blast
  have moved: "f o' \<in> set (outbox c')" if "o' \<in> set (outbox c)" "ev_id o' = ev_id e" for o'
    using that f(1) by (auto simp: update_where_def)
  have kept: "o' \<in> set (outbox c')" if "o' \<in> set (outbox c)" "ev_id o' \<noteq> ev_id e" for o'
    using that f(1) by (force simp: update_where_def)
  show "settled c' e" if p: "in_process c e"
  proof -
    obtain o' where o': "o' \<in> set (outbox c)" "ev_id o' = ev_id e" using p by (auto simp: in_process_def)
    show ?thesis using moved [OF o'] f(2) [of o'] f(3) [of o'] o'(2) unfolding settled_def by metis
  qed
  show "in_process c' e'" if "ev_id e' \<noteq> ev_id e" "in_process c e'"
    using that kept unfolding in_process_def by metis
  show "settled c' e'" if "ev_id e' \<noteq> ev_id e" "settled c e'"
    using that kept unfolding settled_def by metis
qed

lemma central_rest_fields:
  assumes "central_rest c' = central_rest c"
  shows "outbox c' = outbox c" and "quarantined_events c' = quarantined_events c" and "delivery_audit c' = delivery_audit c"
  using arg_cong [OF assms, of outbox] arg_cong [OF assms, of quarantined_events] arg_cong [OF assms, of delivery_audit]
  by (simp_all add: central_rest_def)

lemma in_process_cong: "outbox c' = outbox c \<Longrightarrow> in_process c' e = in_process c e"
  by (simp add: in_process_def)

section \<open>The pass\<close>

lemma settle_apply [simp]: "settle f result (w, saved) = (Inr result, (w\<lparr>w_central := f (w_central w)\<rparr>, saved))"
  by (simp add: settle_def)

text \<open>The state of a pass after the events \<open>pre\<close> of the batch.\<close>

definition pass_inv :: "nat \<Rightarrow> central \<Rightarrow> target_db \<Rightarrow> outbox_row list \<Rightarrow> outbox_row list \<Rightarrow> pass_result \<Rightarrow> pass_state \<Rightarrow> bool" where
  "pass_inv M c1 T events pre result s = ((store_step M)\<^sup>*\<^sup>* c1 (w_central (fst s))
     \<and> (\<forall>e \<in> set pre. settled (w_central (fst s)) e)
     \<and> (\<forall>e \<in> set events. ev_id e \<notin> ev_id ` set pre \<longrightarrow> in_process (w_central (fst s)) e)
     \<and> wk_claimed result = length events \<and> wk_lrmis result = length pre
     \<and> wk_delivered result + wk_quarantined result + wk_retried result = length pre
     \<and> (wk_delivered result = 0 \<longrightarrow> snd s = T))"

context target_writer
begin

lemma deliver_path_b_steps:
  assumes "deliver_path_b C now event result (w, saved) = (Inr result', (w', saved'))" and "pc_writer C = wr"
  shows "\<exists>c. central_rest c = central_rest (w_central w) \<and> settles (pc_max_attempts C) event c (w_central w')
    \<and> wk_claimed result' = wk_claimed result \<and> wk_lrmis result' = wk_lrmis result
    \<and> wk_delivered result' + wk_quarantined result' + wk_retried result'
        = wk_delivered result + wk_quarantined result + wk_retried result + 1
    \<and> (wk_delivered result' = wk_delivered result \<longrightarrow> saved' = saved) \<and> wk_delivered result \<le> wk_delivered result'"
proof (cases "load_entity_mappings (w_central w) (ev_source_entity event) (ev_target_system event) = []")
  case True
  then show ?thesis using assms(1)
    by (intro exI [of _ "w_central w"]) (auto simp: deliver_path_b_def deliver_rejected_def settles_operations)
next
  case False
  let ?ms = "load_entity_mappings (w_central w) (ev_source_entity event) (ev_target_system event)"
  have run: "attempt_delivery C now event ?ms result (w, saved) = (Inr result', (w', saved'))"
    using assms(1) False by (simp add: deliver_path_b_def)
  obtain r w1 where d: "deliver_event (event_env C event) (pc_writer C) now (ev_source_entity event) event ?ms w = (r, w1)"
    by fastforce
  have rest: "central_rest (w_central w1) = central_rest (w_central w)"
    using deliver_event_frame [OF d [unfolded assms(2)]] by blast
  show ?thesis
  proof (cases r)
    case (Inl e)
    then show ?thesis using run d rest
      by (intro exI [of _ "w_central w1"])
        (auto simp: attempt_delivery_def deliver_failed_def rollback_target_def settles_operations)
  next
    case (Inr out)
    show ?thesis
    proof (cases out)
      case (Delivered_to ids active un)
      then show ?thesis using run d rest Inr
        by (intro exI [of _ "w_central w1"])
          (auto simp: attempt_delivery_def deliver_accepted_def settles_operations split: option.splits)
    next
      case (Delivery_error reasons)
      then have "bind (lift_res (heal_reasons C (ev_source_entity event) reasons)) (deliver_rejected now event result)
          (rollback_target (w1, saved)) = (Inr result', (w', saved'))"
        using run d Inr by (simp add: attempt_delivery_def)
      then obtain more where "deliver_rejected now event result more (rollback_target (w1, saved)) = (Inr result', (w', saved'))"
        by (auto simp: bind_Inr_iff)
      then show ?thesis using rest
        by (intro exI [of _ "w_central w1"]) (auto simp: deliver_rejected_def rollback_target_def settles_operations)
    qed
  qed
qed

lemma pass_event_inv:
  assumes "pass_event C now e result s = (Inr result', s')" and "pc_writer C = wr" and "e \<in> set events"
    and "ev_id e \<notin> ev_id ` set pre" and "pass_inv (pc_max_attempts C) c1 T events pre result s"
  shows "pass_inv (pc_max_attempts C) c1 T events (pre @ [e]) result' s'"
proof -
  let ?M = "pc_max_attempts C"
  obtain w saved where s: "s = (w, saved)" by fastforce
  obtain w' saved' where s': "s' = (w', saved')" by fastforce
  obtain r where d: "deliver_path_b C now e result (w, saved) = (Inr r, (w', saved'))"
    and r: "result' = r\<lparr>wk_lrmis := wk_lrmis r + 1\<rparr>"
    using assms(1) by (auto simp: pass_event_def bind_Inr_iff s s')
  obtain c where c: "central_rest c = central_rest (w_central w)" "settles ?M e c (w_central w')"
    and counts: "wk_claimed r = wk_claimed result" "wk_lrmis r = wk_lrmis result"
      "wk_delivered r + wk_quarantined r + wk_retried r = wk_delivered result + wk_quarantined result + wk_retried result + 1"
      "wk_delivered r = wk_delivered result \<Longrightarrow> saved' = saved" "wk_delivered result \<le> wk_delivered r"
    using deliver_path_b_steps [OF d assms(2)] by blast
  note same = central_rest_fields [OF c(1)]
  have inv: "(store_step ?M)\<^sup>*\<^sup>* c1 (w_central w)" "\<And>x. x \<in> set pre \<Longrightarrow> settled (w_central w) x"
    "\<And>x. x \<in> set events \<Longrightarrow> ev_id x \<notin> ev_id ` set pre \<Longrightarrow> in_process (w_central w) x"
    "wk_claimed result = length events" "wk_lrmis result = length pre"
    "wk_delivered result + wk_quarantined result + wk_retried result = length pre" "wk_delivered result = 0 \<Longrightarrow> saved = T"
    using assms(5) by (auto simp: pass_inv_def s)
  have proc: "in_process c e" using inv(3) assms(3,4) same(1) in_process_cong by blast
  have "store_step ?M (w_central w) c" using same by (rule store_step.other)
  moreover have "store_step ?M c (w_central w')" using c(2) proc unfolding settles_def by blast
  ultimately have steps: "(store_step ?M)\<^sup>*\<^sup>* c1 (w_central w')"
    using inv(1) by (meson rtranclp.rtrancl_into_rtrancl)
  have "settled (w_central w') x" if "x \<in> set (pre @ [e])" for x
  proof (cases "x = e")
    case True
    then show ?thesis using settles_effect(1) [OF c(2) proc] by simp
  next
    case False
    then have "x \<in> set pre" using that by simp
    moreover then have "ev_id x \<noteq> ev_id e" using assms(4) by (metis imageI)
    ultimately have "x \<in> set pre" "ev_id x \<noteq> ev_id e" .
    then show ?thesis using settles_effect(3) [OF c(2)] inv(2) same(1) by (simp add: settled_def)
  qed
  moreover have "in_process (w_central w') x" if "x \<in> set events" "ev_id x \<notin> ev_id ` set (pre @ [e])" for x
    using settles_effect(2) [OF c(2), of x] inv(3) [of x] that in_process_cong [OF same(1)] by auto
  ultimately show ?thesis using steps counts inv(4-7) r by (auto simp: pass_inv_def s')
qed

lemma process_once_facts:
  assumes "process_once C now locked sys batch (c, T) = (r, (c', T'))" and "pc_writer C = wr"
    and "distinct (map ev_id (outbox c))"
  shows "case r of
      Inl e \<Rightarrow> c' = c
    | Inr result \<Rightarrow> (store_step (pc_max_attempts C))\<^sup>*\<^sup>* c c'
        \<and> wk_claimed result = length (fst (claim_events now locked c sys batch))
        \<and> wk_claimed result = wk_delivered result + wk_quarantined result + wk_retried result
        \<and> wk_lrmis result = wk_claimed result
        \<and> (\<forall>e \<in> set (fst (claim_events now locked c sys batch)). settled c' e)
        \<and> (wk_delivered result = 0 \<longrightarrow> (\<forall>t. t_rows T' t = t_rows T t))"
proof -
  let ?M = "pc_max_attempts C"
  obtain events c1 where cl: "claim_events now locked c sys batch = (events, c1)" by fastforce
  have dis: "distinct (map ev_id events)" by (rule claim_events_distinct [OF cl assms(3)])
  have proc: "in_process c1 e" if e: "e \<in> set events" for e
  proof -
    have "e \<in> set (outbox c)" using claim_events_members [OF cl e] by simp
    then have "e\<lparr>ev_status := Processing\<rparr> \<in> set (outbox c1)"
      using e unfolding claim_events_outbox(1) [OF cl] by (auto simp: update_where_def intro!: image_eqI [of _ _ e])
    then show ?thesis unfolding in_process_def by (intro bexI [of _ "e\<lparr>ev_status := Processing\<rparr>"]) simp_all
  qed
  show ?thesis
  proof (cases "events \<noteq> [] \<and> pc_open C \<noteq> None")
    case True
    then show ?thesis using assms(1) cl by (auto simp: process_once_def)
  next
    case False
    let ?start = "no_result\<lparr>wk_claimed := length events\<rparr>" and ?s = "(\<lparr>w_central = c1, w_target = T\<rparr>, T)"
    obtain r1 w saved where run: "fold_comp (pass_event C now) events ?start ?s = (r1, (w, saved))"
      by (metis prod.collapse)
    show ?thesis
    proof (cases r1)
      case (Inl e)
      have "(r, (c', T')) = (Inl e, (c, rollback_to saved (w_target w)))"
        unfolding assms(1) [symmetric] process_once_def prod.case cl if_not_P [OF False] run Inl sum.case ..
      then show ?thesis by simp
    next
      case (Inr result)
      have r: "r = Inr result" "c' = w_central w" "T' = rollback_to saved (w_target w)"
        using assms(1) unfolding process_once_def prod.case cl if_not_P [OF False] run Inr sum.case by simp_all
      have "pass_inv ?M c1 T events events result (w, saved)"
      proof (rule fold_comp_inv [OF run [unfolded Inr], where I = "\<lambda>pre a s. (pre = take (length pre) events) \<longrightarrow> pass_inv ?M c1 T events pre a s", THEN mp])
        show "[] = take (length []) events \<longrightarrow> pass_inv ?M c1 T events [] ?start ?s"
          using proc by (simp add: pass_inv_def no_result_def)
      next
        fix pre x a s b t
        assume x: "x \<in> set events" and I: "pre = take (length pre) events \<longrightarrow> pass_inv ?M c1 T events pre a s"
          and step: "pass_event C now x a s = (Inr b, t)"
        show "pre @ [x] = take (length (pre @ [x])) events \<longrightarrow> pass_inv ?M c1 T events (pre @ [x]) b t"
        proof
          assume pre: "pre @ [x] = take (length (pre @ [x])) events"
          then have "distinct (map ev_id (pre @ [x]))" using dis by (metis distinct_take take_map)
          then have "ev_id x \<notin> ev_id ` set pre" by auto
          moreover have "pre = take (length pre) events"
            using arg_cong [OF pre, of "take (length pre)"] by (simp add: min_def)
          ultimately show "pass_inv ?M c1 T events (pre @ [x]) b t"
            using pass_event_inv [OF step assms(2) x _ I [THEN mp]] by blast
        qed
      qed simp
      then have inv: "(store_step ?M)\<^sup>*\<^sup>* c1 c'" "\<forall>e \<in> set events. settled c' e"
        "wk_claimed result = length events" "wk_lrmis result = length events"
        "wk_delivered result + wk_quarantined result + wk_retried result = length events"
        "wk_delivered result = 0 \<Longrightarrow> saved = T"
        by (simp_all add: pass_inv_def r)
      have "store_step ?M c c1" using cl by (rule store_step.claim)
      then have "(store_step ?M)\<^sup>*\<^sup>* c c'" using inv(1) by (rule converse_rtranclp_into_rtranclp)
      then show ?thesis using inv r cl by simp
    qed
  qed
qed

lemma run_loop_inv:
  assumes "run_loop C nows sys batch (c, T) = (reports, (c', T'))" and "store_inv M c" and "1 \<le> M"
    and "\<And>now. pc_writer (C now) = wr \<and> pc_max_attempts (C now) = M"
  shows "store_inv M c'"
  using assms(1,2)
proof (induction nows arbitrary: c T reports)
  case (Cons now nows)
  obtain r c1 T1 where one: "process_once (C now) now {} sys batch (c, T) = (r, (c1, T1))" by (metis prod.collapse)
  obtain reports' where rest: "run_loop C nows sys batch (c1, T1) = (reports', (c', T'))"
    using Cons.prems(1) one by (auto split: prod.splits)
  have "distinct (map ev_id (outbox c))" using Cons.prems(2) by (simp add: store_inv_def)
  note facts = process_once_facts [OF one conjunct1 [OF assms(4)] this]
  have "store_inv M c1"
  proof (cases r)
    case (Inl e)
    then show ?thesis using facts Cons.prems(2) by simp
  next
    case (Inr result)
    then have "(store_step M)\<^sup>*\<^sup>* c c1" using facts assms(4) [of now] by simp
    then show ?thesis using Cons.prems(2)
      by (induction rule: rtranclp_induct) (use store_inv_step assms(3) in blast)+
  qed
  then show ?case using Cons.IH [OF rest] by blast
qed simp

end

section \<open>Properties of the pass\<close>

text \<open>
  C2: a delivery pass refines the outbox: with either writer, a pass that returns has moved
  the central database along steps of the outbox state machine, every claimed event is
  delivered, quarantined, due for a retry or dead-lettered (none is left in processing), the
  counts add up, and a pass that delivered nothing left the target as it was. A pass that
  raises leaves the central database untouched.
\<close>

theorem process_once_refines:
  assumes "pc_writer C = legacy_writer E P R \<or> pc_writer C = generic_writer E P W"
    and "process_once C now locked sys batch (c, T) = (r, (c', T'))"
    and "distinct (map ev_id (outbox c))"
  shows "case r of
      Inl e \<Rightarrow> c' = c
    | Inr result \<Rightarrow> (store_step (pc_max_attempts C))\<^sup>*\<^sup>* c c'
        \<and> wk_claimed result = length (fst (claim_events now locked c sys batch))
        \<and> wk_claimed result = wk_delivered result + wk_quarantined result + wk_retried result
        \<and> wk_lrmis result = wk_claimed result
        \<and> (\<forall>e \<in> set (fst (claim_events now locked c sys batch)). settled c' e)
        \<and> (wk_delivered result = 0 \<longrightarrow> (\<forall>t. t_rows T' t = t_rows T t))"
  using assms(1)
proof
  assume w: "pc_writer C = legacy_writer E P R"
  show ?thesis by (rule legacy_target.process_once_facts [OF assms(2) w assms(3)])
next
  assume w: "pc_writer C = generic_writer E P W"
  show ?thesis by (rule generic_target.process_once_facts [OF assms(2) w assms(3)])
qed

text \<open>
  The loop keeps the outbox invariant however often it runs and whichever passes fail.
\<close>

theorem run_loop_keeps_store:
  assumes "run_loop C nows sys batch (c, T) = (reports, (c', T'))" and "store_inv M c" and "1 \<le> M"
    and "(\<forall>now. pc_writer (C now) = legacy_writer E P R \<and> pc_max_attempts (C now) = M)
       \<or> (\<forall>now. pc_writer (C now) = generic_writer E P W \<and> pc_max_attempts (C now) = M)"
  shows "store_inv M c'"
  using assms(4) legacy_target.run_loop_inv [OF assms(1-3)] generic_target.run_loop_inv [OF assms(1-3)] by blast

section \<open>Runs on a small store\<close>

definition sample_entity :: entity_row where
  "sample_entity = \<lparr>en_id = 1, en_source_system = ''IRIMSV_REGION_V'', en_source_schema = ''irimsv'',
     en_source_table = ''schools'', en_pk_columns = [''id''], en_updated_at_column = None, en_target_system = ''LRMIS'',
     en_source_fingerprint = None, en_target_fingerprint = None, en_scope_version = 1, en_status = EDeployed,
     en_deployed_by = None, en_deployed_at = None, en_paused_reason = None, en_target_tables = None, en_updated_at = 0\<rparr>"

definition sample_proposal :: proposal_row where
  "sample_proposal = \<lparr>po_id = 1, po_entity_id = 1, po_source_fingerprint = [], po_target_fingerprint = [],
     po_status = PApproved, po_mappings = PList [], po_ignored = [], po_unmet = [], po_auto_count = 2, po_review_count = 0,
     po_rejected_count = 0, po_ai_response = None, po_reviewed_by = None, po_reviewed_at = None, po_created_at = 0, po_updated_at = 0\<rparr>"

definition sample_review :: "int \<Rightarrow> string \<Rightarrow> string \<Rightarrow> string \<Rightarrow> review_row" where
  "sample_review i src t c = \<lparr>rv_id = i, rv_proposal_id = 1, rv_source_column = src, rv_target_table = Some t,
     rv_target_column = Some c, rv_confidence = Fin 1, rv_transform = ''none'', rv_reasoning = Some [], rv_status = RAccepted,
     rv_resolved_target_column = None, rv_resolved_transform = None, rv_resolved_by = None, rv_resolved_at = None\<rparr>"

definition school_event :: "string \<Rightarrow> int \<Rightarrow> outbox_row" where
  "school_event i t = (sample_event i t Pending)\<lparr>ev_payload := PDict [(''nm'', PStr i), (''lbl'', PStr (''L'' @ i))]\<rparr>"

definition school_store :: "outbox_row list \<Rightarrow> central" where
  "school_store evs = sample_store\<lparr>outbox := evs, entities := [sample_entity], proposals := [sample_proposal],
     field_reviews := [sample_review 1 ''nm'' ''school'' ''name'', sample_review 2 ''lbl'' ''station'' ''label'']\<rparr>"

definition sample_env :: delivery_env where
  "sample_env = \<lparr>de_runtime = sample_runtime, de_registry = sample_registry, de_source_system = ''IRIMSV_REGION_V'',
     de_source_schema = ''irimsv'', de_target_system = ''LRMIS'', de_distinct = (\<lambda>xs. xs)\<rparr>"

text \<open>Engines that refuse the audit row, and the commit that would make a second school visible.\<close>

definition no_audit_engine :: engine where
  "no_audit_engine = sample_engine\<lparr>eng_refuses := (\<lambda>T t r. if t = ''delivery_audit'' then Some (DbError ''lock timeout'') else None)\<rparr>"

definition lost_commit_engine :: engine where
  "lost_commit_engine = sample_engine\<lparr>eng_commit := (\<lambda>T. if length (t_rows T ''school'') = 2 then Some (DbError ''lost'') else None)\<rparr>"

definition legacy_pass :: "engine \<Rightarrow> pass_config" where
  "legacy_pass E = \<lparr>pc_env = sample_env, pc_writer = legacy_writer E sample_runtime sample_registry, pc_engine = E,
     pc_agent = None, pc_open = None, pc_max_attempts = 8\<rparr>"

definition generic_pass :: "engine \<Rightarrow> pass_config" where
  "generic_pass E = (legacy_pass E)\<lparr>pc_writer := generic_writer E sample_runtime pg_writer\<rparr>"

definition empty_target :: target_db where
  "empty_target = \<lparr>tg_tables = [], tg_next = []\<rparr>"

text \<open>A pass under one engine, then a pass an hour later under another; the rows of \<open>school\<close>.\<close>

definition pass :: "pass_config \<Rightarrow> int \<Rightarrow> central \<times> target_db \<Rightarrow> pass_result res \<times> central \<times> target_db" where
  "pass C now ct = process_once C now {} ''LRMIS'' 10 ct"

definition two_passes :: "pass_config \<Rightarrow> pass_config \<Rightarrow> central \<Rightarrow> pass_result res \<times> pass_result res \<times> nat" where
  "two_passes C1 C2 c = (case pass C1 10 (c, empty_target) of (r1, ct1) \<Rightarrow>
     (case pass C2 4000000000 ct1 of (r2, ct2) \<Rightarrow> (r1, r2, length (t_rows (snd ct2) ''school''))))"

theorem process_once_refines_witness:
  "fst (pass (legacy_pass sample_engine) 10 (school_store [school_event ''a'' 3], empty_target))
     = Inr \<lparr>wk_claimed = 1, wk_delivered = 1, wk_quarantined = 0, wk_retried = 0, wk_lrmis = 1\<rparr>
   \<and> settled (fst (snd (pass (legacy_pass sample_engine) 10 (school_store [school_event ''a'' 3], empty_target)))) (school_event ''a'' 3)"
proof -
  let ?c = "school_store [school_event ''a'' 3]" and ?C = "legacy_pass sample_engine"
  let ?p = "pass ?C 10 (?c, empty_target)"
  have f: "fst ?p = Inr \<lparr>wk_claimed = 1, wk_delivered = 1, wk_quarantined = 0, wk_retried = 0, wk_lrmis = 1\<rparr>" by code_simp
  have run: "process_once ?C 10 {} ''LRMIS'' 10 (?c, empty_target) = (fst ?p, (fst (snd ?p), snd (snd ?p)))"
    by (simp add: pass_def)
  have w: "pc_writer ?C = legacy_writer sample_engine sample_runtime sample_registry
      \<or> pc_writer ?C = generic_writer sample_engine sample_runtime pg_writer" by (simp add: legacy_pass_def)
  have d: "distinct (map ev_id (outbox ?c))" by code_simp
  have "school_event ''a'' 3 \<in> set (fst (claim_events 10 {} ?c ''LRMIS'' 10))" by code_simp
  then show ?thesis using process_once_refines [OF w run d] f by auto
qed

theorem run_loop_keeps_store_witness:
  "store_inv 8 (fst (snd (run_loop (\<lambda>now. legacy_pass sample_engine) [10, 20] ''LRMIS'' 10 (school_store [school_event ''a'' 3], empty_target))))"
proof -
  let ?c = "school_store [school_event ''a'' 3]"
  let ?l = "run_loop (\<lambda>now. legacy_pass sample_engine) [10, 20] ''LRMIS'' 10 (?c, empty_target)"
  have run: "?l = (fst ?l, (fst (snd ?l), snd (snd ?l)))" by simp
  have inv: "store_inv 8 ?c"
    by (simp add: store_inv_def school_store_def sample_store_def empty_central_def school_event_def sample_event_def
        row_ok_def status_ok_def)
  have w: "(\<forall>now. pc_writer (legacy_pass sample_engine) = legacy_writer sample_engine sample_runtime sample_registry
        \<and> pc_max_attempts (legacy_pass sample_engine) = 8)
      \<or> (\<forall>now. pc_writer (legacy_pass sample_engine) = generic_writer sample_engine sample_runtime pg_writer
        \<and> pc_max_attempts (legacy_pass sample_engine) = 8)" by (simp add: legacy_pass_def)
  show ?thesis by (rule run_loop_keeps_store [OF run inv _ w]) simp
qed

text \<open>
  Two defects, on the small store. The crosswalk entry of an attempt that failed after its
  writes outlives the rollback of the target: the dialect-aware writer then updates a row that
  is not there and reports it delivered, while the first writer looks and inserts it.
\<close>

theorem generic_retry_loses_row:
  "two_passes (generic_pass no_audit_engine) (generic_pass sample_engine) (school_store [school_event ''a'' 3])
     = (Inr \<lparr>wk_claimed = 1, wk_delivered = 0, wk_quarantined = 0, wk_retried = 1, wk_lrmis = 1\<rparr>,
        Inr \<lparr>wk_claimed = 1, wk_delivered = 1, wk_quarantined = 0, wk_retried = 0, wk_lrmis = 1\<rparr>, 0)
   \<and> two_passes (legacy_pass no_audit_engine) (legacy_pass sample_engine) (school_store [school_event ''a'' 3])
     = (Inr \<lparr>wk_claimed = 1, wk_delivered = 0, wk_quarantined = 0, wk_retried = 1, wk_lrmis = 1\<rparr>,
        Inr \<lparr>wk_claimed = 1, wk_delivered = 1, wk_quarantined = 0, wk_retried = 0, wk_lrmis = 1\<rparr>, 1)"
  by (rule conjI; code_simp)

text \<open>
  A pass that raises rolls the central work of its whole batch back, but the events it had
  already committed to the target stay there: the next pass, which no crosswalk tells, writes
  them a second time (three rows for two schools).
\<close>

theorem lost_commit_duplicates_rows:
  "two_passes (legacy_pass lost_commit_engine) (legacy_pass sample_engine) (school_store [school_event ''a'' 3, school_event ''b'' 4])
     = (Inl (DbError ''lost''),
        Inr \<lparr>wk_claimed = 2, wk_delivered = 2, wk_quarantined = 0, wk_retried = 0, wk_lrmis = 2\<rparr>, 3)"
  by code_simp

end
