(* ===== verification/Lrmis_Mapping.thy ===== *)
theory Lrmis_Mapping
  imports Lrmis_Delivery
begin

text \<open>
  \<open>src/services/lrmis_mapping.py\<close>: the gate a multi-table mapping passes before it is
  deployed. The report lists unknown tables and columns, required columns nobody supplies and
  required foreign keys whose parent will not exist.
\<close>

section \<open>What a mapping must supply\<close>

definition target_tables_for :: "mapping_entry list \<Rightarrow> string list" where
  "target_tables_for ms = sorted_set (List.map_filter (\<lambda>m. if blank (m_table m) then None else m_table m) ms)"

definition system_handled_columns :: "registry \<Rightarrow> string \<Rightarrow> string list res" where
  "system_handled_columns R t = res_bind (reg_table R t) (\<lambda>m.
     Inr (map fk_column (lt_fks m)
       @ (if t \<in> set (tp_app_assigned lrmis_plugin) then take 1 (primary_key m) else [])))"

definition columns_a_mapping_must_supply :: "registry \<Rightarrow> string \<Rightarrow> string list res" where
  "columns_a_mapping_must_supply R t = res_bind (required_columns R t) (\<lambda>req.
     res_bind (system_handled_columns R t) (\<lambda>handled. Inr (filter (\<lambda>c. c \<notin> set handled) req)))"

section \<open>The report\<close>

record table_coverage =
  tc_table :: string
  tc_exists :: bool
  tc_mapped :: "string list"
  tc_unknown :: "string list"
  tc_missing :: "string list"
  tc_handled :: "string list"

record fk_problem =
  fp_table :: string
  fp_column :: string
  fp_ref :: string

record coverage =
  cr_tables :: "table_coverage list"
  cr_unknown_tables :: "string list"
  cr_fk_unsatisfiable :: "fk_problem list"

definition table_problems :: "table_coverage \<Rightarrow> string list" where
  "table_problems tc =
     map (\<lambda>c. tc_table tc @ ''.'' @ c @ '' is not a column of '' @ tc_table tc) (tc_unknown tc)
     @ map (\<lambda>c. tc_table tc @ ''.'' @ c @ '' is required but no source column maps to it'') (tc_missing tc)"

definition blocking :: "coverage \<Rightarrow> string list" where
  "blocking r =
     map (\<lambda>t. ''target table '' @ str_repr t @ '' does not exist in the LRMIS schema'') (cr_unknown_tables r)
     @ concat (map table_problems (cr_tables r))
     @ map (\<lambda>f. fp_table f @ ''.'' @ fp_column f @ '' requires a '' @ fp_ref f @ '' row, but '' @ fp_ref f
         @ '' is neither written by this mapping nor seeded'') (cr_fk_unsatisfiable r)"

definition mapped_columns :: "mapping_entry list \<Rightarrow> string list" where
  "mapped_columns g = List.map_filter (\<lambda>m. if blank (m_column m) then None else m_column m) g"

text \<open>A required, unmapped foreign key whose parent neither this mapping writes nor anyone seeds.\<close>

definition fk_blocked :: "lrmis_table \<Rightarrow> string \<Rightarrow> string list \<Rightarrow> string list \<Rightarrow> lrmis_fk \<Rightarrow> bool" where
  "fk_blocked m t mapped available f =
     (fk_ref_table f \<noteq> t \<and> fk_column f \<notin> set mapped
      \<and> (case lt_get_column m (fk_column f) of None \<Rightarrow> False | Some c \<Rightarrow> \<not> lc_nullable c \<and> \<not> has_default c)
      \<and> fk_ref_table f \<notin> set available)"

definition table_coverage_of :: "registry \<Rightarrow> string \<Rightarrow> lrmis_table \<Rightarrow> mapping_entry list \<Rightarrow> table_coverage res" where
  "table_coverage_of R t m g =
     res_bind (columns_a_mapping_must_supply R t) (\<lambda>must. res_bind (system_handled_columns R t) (\<lambda>handled.
       let mapped = mapped_columns g in
       Inr \<lparr>tc_table = t, tc_exists = True, tc_mapped = sorted_set mapped,
         tc_unknown = sorted_set (filter (\<lambda>c. c \<notin> set (map lc_name (lt_columns m))) mapped),
         tc_missing = sorted_set (filter (\<lambda>c. c \<notin> set mapped) must), tc_handled = sorted_set handled\<rparr>))"

definition cover_table :: "registry \<Rightarrow> string list \<Rightarrow> string \<times> mapping_entry list \<Rightarrow> coverage \<Rightarrow> coverage res" where
  "cover_table R available tg r = (case tg of (t, g) \<Rightarrow>
     (case dget R t of
        None \<Rightarrow> Inr (r\<lparr>cr_unknown_tables := cr_unknown_tables r @ [t], cr_tables := cr_tables r @
          [\<lparr>tc_table = t, tc_exists = False, tc_mapped = [], tc_unknown = [], tc_missing = [], tc_handled = []\<rparr>]\<rparr>)
      | Some m \<Rightarrow> res_bind (table_coverage_of R t m g) (\<lambda>tc.
          Inr (r\<lparr>cr_tables := cr_tables r @ [tc], cr_fk_unsatisfiable := cr_fk_unsatisfiable r @
            map (\<lambda>f. \<lparr>fp_table = t, fp_column = fk_column f, fp_ref = fk_ref_table f\<rparr>)
              (filter (fk_blocked m t (mapped_columns g) available) (lt_fks m))\<rparr>))))"

definition coverage_report :: "registry \<Rightarrow> mapping_entry list \<Rightarrow> string list option \<Rightarrow> coverage res" where
  "coverage_report R ms seeded =
     res_bind (case seeded of Some s \<Rightarrow> Inr s | None \<Rightarrow> seed_tables R (station_write_set R)) (\<lambda>seeds.
       let groups = group_by_table ms in
       fold_res (cover_table R (dkeys groups @ seeds)) groups
         \<lparr>cr_tables = [], cr_unknown_tables = [], cr_fk_unsatisfiable = []\<rparr>)"

definition nl_item :: string where
  "nl_item = char_of (10 :: nat) # ''  - ''"

definition validate_deployment :: "registry \<Rightarrow> mapping_entry list \<Rightarrow> string list option \<Rightarrow> coverage res" where
  "validate_deployment R ms seeded = res_bind (coverage_report R ms seeded) (\<lambda>r.
     if blocking r = [] then Inr r
     else Inl (ValidationError (''mapping cannot be deployed:'' @ nl_item @ join nl_item (blocking r))))"

definition store_target_tables :: "int \<Rightarrow> central \<Rightarrow> int \<Rightarrow> mapping_entry list \<Rightarrow> string list \<times> central" where
  "store_target_tables now c entity_id ms =
     (let tables = target_tables_for ms in
      (tables, c\<lparr>entities := update_where (\<lambda>e. en_id e = entity_id)
         (\<lambda>e. e\<lparr>en_target_tables := Some tables, en_updated_at := now\<rparr>) (entities c)\<rparr>))"

section \<open>What the gate guarantees\<close>

definition must_supply :: "lrmis_table \<Rightarrow> string \<Rightarrow> lrmis_column \<Rightarrow> bool" where
  "must_supply m t c = (is_required c \<and> lc_name c \<notin> fk_column ` set (lt_fks m)
     \<and> \<not> (t \<in> set (tp_app_assigned lrmis_plugin) \<and> lc_name c \<in> set (take 1 (primary_key m))))"

definition deployable_table :: "registry \<Rightarrow> mapping_entry list \<Rightarrow> string list \<Rightarrow> string \<Rightarrow> bool" where
  "deployable_table R ms available t = (case dget R t of None \<Rightarrow> False | Some m \<Rightarrow>
     let mapped = mapped_columns (filter (\<lambda>e. m_table e = Some t) ms) in
       set mapped \<subseteq> lc_name ` set (lt_columns m)
       \<and> (\<forall>c \<in> set (lt_columns m). must_supply m t c \<longrightarrow> lc_name c \<in> set mapped)
       \<and> (\<forall>f \<in> set (lt_fks m). fk_ref_table f = t \<or> fk_column f \<in> set mapped \<or> fk_ref_table f \<in> set available
            \<or> (case lt_get_column m (fk_column f) of None \<Rightarrow> True | Some c \<Rightarrow> lc_nullable c \<or> has_default c)))"

lemma fk_blocked_iff:
  "\<not> fk_blocked m t mapped available f \<longleftrightarrow> fk_ref_table f = t \<or> fk_column f \<in> set mapped \<or> fk_ref_table f \<in> set available
     \<or> (case lt_get_column m (fk_column f) of None \<Rightarrow> True | Some c \<Rightarrow> lc_nullable c \<or> has_default c)"
  by (auto simp: fk_blocked_def split: option.splits)

lemma columns_a_mapping_must_supply_set:
  assumes "dget R t = Some m"
  shows "\<exists>must handled. columns_a_mapping_must_supply R t = Inr must \<and> system_handled_columns R t = Inr handled
     \<and> set must = lc_name ` {c \<in> set (lt_columns m). must_supply m t c}"
proof -
  let ?h = "map fk_column (lt_fks m) @ (if t \<in> set (tp_app_assigned lrmis_plugin) then take 1 (primary_key m) else [])"
  let ?must = "filter (\<lambda>c. c \<notin> set ?h) (map lc_name (filter is_required (lt_columns m)))"
  have m: "reg_table R t = Inr m" using assms by (simp add: reg_table_Inr)
  have h: "system_handled_columns R t = Inr ?h" by (simp add: system_handled_columns_def m)
  have "columns_a_mapping_must_supply R t = Inr ?must"
    by (simp add: columns_a_mapping_must_supply_def required_columns_def m h)
  moreover have "c \<in> set ?h \<longleftrightarrow> c \<in> fk_column ` set (lt_fks m)
      \<or> (t \<in> set (tp_app_assigned lrmis_plugin) \<and> c \<in> set (take 1 (primary_key m)))" for c
    by (cases "t \<in> set (tp_app_assigned lrmis_plugin)") simp_all
  then have "set ?must = lc_name ` {c \<in> set (lt_columns m). must_supply m t c}"
    unfolding must_supply_def by auto
  ultimately show ?thesis using h by blast
qed

lemma table_coverage_of_ok:
  assumes "dget R t = Some m"
  shows "\<exists>tc. table_coverage_of R t m g = Inr tc \<and> tc_table tc = t
    \<and> set (tc_unknown tc) = set (mapped_columns g) - lc_name ` set (lt_columns m)
    \<and> set (tc_missing tc) = lc_name ` {c \<in> set (lt_columns m). must_supply m t c} - set (mapped_columns g)"
proof -
  obtain must handled where mh: "columns_a_mapping_must_supply R t = Inr must" "system_handled_columns R t = Inr handled"
    "set must = lc_name ` {c \<in> set (lt_columns m). must_supply m t c}"
    using columns_a_mapping_must_supply_set [OF assms] by blast
  then show ?thesis by (auto simp: table_coverage_of_def Let_def)
qed

lemma cover_table_step:
  obtains r' where "cover_table R available (t, g) r = Inr r'"
    and "blocking r' = [] \<longleftrightarrow> blocking r = [] \<and> (case dget R t of None \<Rightarrow> False | Some m \<Rightarrow>
       set (mapped_columns g) \<subseteq> lc_name ` set (lt_columns m)
       \<and> (\<forall>c \<in> set (lt_columns m). must_supply m t c \<longrightarrow> lc_name c \<in> set (mapped_columns g))
       \<and> (\<forall>f \<in> set (lt_fks m). \<not> fk_blocked m t (mapped_columns g) available f))"
proof (cases "dget R t")
  case None
  then show thesis by (intro that) (auto simp: cover_table_def blocking_def)
next
  case (Some m)
  obtain tc where tc: "table_coverage_of R t m g = Inr tc" "tc_table tc = t"
    "set (tc_unknown tc) = set (mapped_columns g) - lc_name ` set (lt_columns m)"
    "set (tc_missing tc) = lc_name ` {c \<in> set (lt_columns m). must_supply m t c} - set (mapped_columns g)"
    using table_coverage_of_ok [OF Some] by blast
  have "table_problems tc = [] \<longleftrightarrow> set (tc_unknown tc) = {} \<and> set (tc_missing tc) = {}"
    by (simp add: table_problems_def)
  then have tp: "table_problems tc = [] \<longleftrightarrow> set (mapped_columns g) \<subseteq> lc_name ` set (lt_columns m)
       \<and> (\<forall>c \<in> set (lt_columns m). must_supply m t c \<longrightarrow> lc_name c \<in> set (mapped_columns g))"
    unfolding tc(3,4) by blast
  show thesis
    by (rule that [of "r\<lparr>cr_tables := cr_tables r @ [tc], cr_fk_unsatisfiable := cr_fk_unsatisfiable r @
            map (\<lambda>f. \<lparr>fp_table = t, fp_column = fk_column f, fp_ref = fk_ref_table f\<rparr>)
              (filter (fk_blocked m t (mapped_columns g) available) (lt_fks m))\<rparr>"])
      (use Some tc(1) tp in \<open>auto simp: cover_table_def blocking_def filter_empty_conv\<close>)
qed

lemma cover_tables:
  "\<exists>r'. fold_res (cover_table R available) groups r = Inr r' \<and> (blocking r' = [] \<longleftrightarrow> blocking r = []
     \<and> (\<forall>(t, g) \<in> set groups. case dget R t of None \<Rightarrow> False | Some m \<Rightarrow>
       set (mapped_columns g) \<subseteq> lc_name ` set (lt_columns m)
       \<and> (\<forall>c \<in> set (lt_columns m). must_supply m t c \<longrightarrow> lc_name c \<in> set (mapped_columns g))
       \<and> (\<forall>f \<in> set (lt_fks m). \<not> fk_blocked m t (mapped_columns g) available f)))"
proof (induction groups arbitrary: r)
  case (Cons tg groups)
  obtain t g where tg: "tg = (t, g)" by fastforce
  obtain r1 where r1: "cover_table R available (t, g) r = Inr r1"
    "blocking r1 = [] \<longleftrightarrow> blocking r = [] \<and> (case dget R t of None \<Rightarrow> False | Some m \<Rightarrow>
       set (mapped_columns g) \<subseteq> lc_name ` set (lt_columns m)
       \<and> (\<forall>c \<in> set (lt_columns m). must_supply m t c \<longrightarrow> lc_name c \<in> set (mapped_columns g))
       \<and> (\<forall>f \<in> set (lt_fks m). \<not> fk_blocked m t (mapped_columns g) available f))"
    by (rule cover_table_step)
  obtain r' where r': "fold_res (cover_table R available) groups r1 = Inr r'"
    "blocking r' = [] \<longleftrightarrow> blocking r1 = []
     \<and> (\<forall>(t, g) \<in> set groups. case dget R t of None \<Rightarrow> False | Some m \<Rightarrow>
       set (mapped_columns g) \<subseteq> lc_name ` set (lt_columns m)
       \<and> (\<forall>c \<in> set (lt_columns m). must_supply m t c \<longrightarrow> lc_name c \<in> set (mapped_columns g))
       \<and> (\<forall>f \<in> set (lt_fks m). \<not> fk_blocked m t (mapped_columns g) available f))"
    using Cons.IH [of r1] by blast
  have "fold_res (cover_table R available) (tg # groups) r = Inr r'" using r1(1) r'(1) tg by simp
  then show ?case using r1(2) r'(2) unfolding tg set_simps(2) ball_simps(7) prod.case by blast
qed simp

lemma group_by_table_get:
  "(t, g) \<in> set (group_by_table ms) \<longleftrightarrow> t \<noteq> [] \<and> g = filter (\<lambda>e. m_table e = Some t) ms \<and> g \<noteq> []"
proof -
  let ?ok = "\<lambda>m. m_table m \<noteq> None \<and> m_table m \<noteq> Some []"
  let ?xs = "filter ?ok ms"
  let ?d = "group_by (\<lambda>m. the (m_table m)) ?xs"
  have named: "?ok m \<and> the (m_table m) = t \<longleftrightarrow> t \<noteq> [] \<and> m_table m = Some t" for m :: mapping_entry
    by (cases "m_table m") auto
  have "filter (\<lambda>x. the (m_table x) = t) ?xs = filter (\<lambda>m. t \<noteq> [] \<and> m_table m = Some t) ms"
    unfolding filter_filter by (rule filter_cong [OF refl]) (use named in blast)
  then have grp: "filter (\<lambda>x. the (m_table x) = t) ?xs = (if t = [] then [] else filter (\<lambda>e. m_table e = Some t) ms)"
    by (cases "t = []") simp_all
  have "t \<in> (\<lambda>m. the (m_table m)) ` set ?xs \<longleftrightarrow> filter (\<lambda>x. the (m_table x) = t) ?xs \<noteq> []"
    unfolding filter_empty_conv by blast
  moreover have "(t, g) \<in> set ?d \<longleftrightarrow> dget ?d t = Some g"
    using in_set_dget [of ?d t g] dget_in_set [of ?d t g] wf_group_by by blast
  ultimately have "(t, g) \<in> set ?d \<longleftrightarrow> filter (\<lambda>x. the (m_table x) = t) ?xs \<noteq> [] \<and> filter (\<lambda>x. the (m_table x) = t) ?xs = g"
    unfolding dget_group_by by (cases "t \<in> (\<lambda>m. the (m_table m)) ` set ?xs") simp_all
  then show ?thesis unfolding group_by_table_def grp by (cases "t = []") auto
qed

lemma coverage_report_blocking:
  assumes "coverage_report R ms (Some seeds) = Inr r"
  shows "blocking r = [] \<longleftrightarrow> (\<forall>t. t \<noteq> [] \<and> filter (\<lambda>e. m_table e = Some t) ms \<noteq> [] \<longrightarrow>
      deployable_table R ms (dkeys (group_by_table ms) @ seeds) t)"
proof -
  let ?av = "dkeys (group_by_table ms) @ seeds"
  have run: "fold_res (cover_table R ?av) (group_by_table ms) \<lparr>cr_tables = [], cr_unknown_tables = [], cr_fk_unsatisfiable = []\<rparr> = Inr r"
    using assms by (simp add: coverage_report_def Let_def)
  have "blocking r = [] \<longleftrightarrow> (\<forall>(t, g) \<in> set (group_by_table ms). case dget R t of None \<Rightarrow> False | Some m \<Rightarrow>
       set (mapped_columns g) \<subseteq> lc_name ` set (lt_columns m)
       \<and> (\<forall>c \<in> set (lt_columns m). must_supply m t c \<longrightarrow> lc_name c \<in> set (mapped_columns g))
       \<and> (\<forall>f \<in> set (lt_fks m). \<not> fk_blocked m t (mapped_columns g) ?av f))"
    using cover_tables [of R ?av "group_by_table ms" "\<lparr>cr_tables = [], cr_unknown_tables = [], cr_fk_unsatisfiable = []\<rparr>"] run
    by (auto simp: blocking_def)
  also have "\<dots> \<longleftrightarrow> (\<forall>t. t \<noteq> [] \<and> filter (\<lambda>e. m_table e = Some t) ms \<noteq> [] \<longrightarrow> deployable_table R ms ?av t)"
    unfolding deployable_table_def Let_def Ball_def split_paired_All group_by_table_get prod.case fk_blocked_iff [symmetric]
    by blast
  finally show ?thesis .
qed

text \<open>
  C18: with the seeded tables given, the gate lets a mapping pass exactly when every table it
  names exists, every column it names is a column of its table, every required column the
  system does not fill is mapped, and every required foreign key left unmapped has a parent
  that this mapping writes or that is seeded; otherwise it raises with the problems.
\<close>

theorem validate_deployment_iff:
  "(\<exists>r. validate_deployment R ms (Some seeds) = Inr r) \<longleftrightarrow>
   (\<forall>t. t \<noteq> [] \<and> filter (\<lambda>e. m_table e = Some t) ms \<noteq> [] \<longrightarrow>
      deployable_table R ms (dkeys (group_by_table ms) @ seeds) t)"
proof -
  obtain r where r: "coverage_report R ms (Some seeds) = Inr r"
    using cover_tables by (fastforce simp: coverage_report_def Let_def)
  have "(\<exists>r. validate_deployment R ms (Some seeds) = Inr r) \<longleftrightarrow> blocking r = []"
    by (simp add: validate_deployment_def r)
  then show ?thesis using coverage_report_blocking [OF r] by simp
qed

text \<open>
  A mapping that passed the gate can be delivered: the values built from any source row
  name only tables of the registry and existing columns, so neither an unknown table nor an
  unknown column can stop a delivery.
\<close>

theorem deployed_mapping_builds_known:
  assumes "validate_deployment R ms (Some seeds) = Inr r"
    and "build_values_by_table P R src ms = (vbt, errs)"
  shows "check_tables ''LRMIS'' R vbt = Inr ()
    \<and> (\<forall>t c v. value_at vbt t c = Some v \<longrightarrow> (\<exists>m. dget R t = Some m \<and> c \<in> lc_name ` set (lt_columns m)))"
proof -
  have cov: "\<exists>rep. coverage_report R ms (Some seeds) = Inr rep \<and> blocking rep = []"
    using assms(1) by (auto simp: validate_deployment_def res_bind_Inr_iff split: if_splits)
  have ok: "deployable_table R ms (dkeys (group_by_table ms) @ seeds) t"
    if "t \<noteq> []" "filter (\<lambda>e. m_table e = Some t) ms \<noteq> []" for t
    using cov coverage_report_blocking that by blast
  have from_ms: "t \<noteq> [] \<and> filter (\<lambda>e. m_table e = Some t) ms \<noteq> [] \<and> c \<in> set (mapped_columns (filter (\<lambda>e. m_table e = Some t) ms))"
    if cf: "comes_from P R src ms t c v" for t c v
  proof -
    obtain m where m: "m \<in> set ms" "contributes R src m" "m_table m = Some t" "m_column m = Some c"
      using cf unfolding comes_from_def by blast
    then have "t \<noteq> []" "\<not> blank (m_column m)" by (auto simp: contributes_def applies_def blank_def)
    moreover have "m \<in> set (filter (\<lambda>e. m_table e = Some t) ms)" using m by simp
    ultimately show ?thesis using m(4)
      by (auto simp: mapped_columns_def List.map_filter_def filter_empty_conv intro!: image_eqI [of _ _ m])
  qed
  have built: "comes_from P R src ms t c v" if "value_at vbt t c = Some v" for t c v
    using build_values_inv [OF assms(2) [unfolded build_values_by_table_def], of "[]"] that by (auto simp: value_at_def)
  have known: "\<exists>m. dget R t = Some m \<and> c \<in> lc_name ` set (lt_columns m)" if "value_at vbt t c = Some v" for t c v
    using ok [of t] from_ms [OF built [OF that]]
    by (auto simp: deployable_table_def Let_def split: option.splits)
  have "has_table R t" if t: "t \<in> set (dkeys vbt)" for t
  proof -
    obtain c v where "value_at vbt t c = Some v"
      using build_values_nonempty [OF assms(2) t] by blast
    then have "dget R t \<noteq> None" using known by blast
    then show ?thesis by (simp add: has_table_def dhas_iff)
  qed
  then have "check_tables ''LRMIS'' R vbt = Inr ()"
    by (auto simp: check_tables_def find_None_iff split: option.splits dest: find_Some_iff [THEN iffD1])
  then show ?thesis using known by blast
qed

section \<open>The gate at work\<close>

definition gate_passes :: "coverage res \<Rightarrow> bool" where
  "gate_passes x = (case x of Inr _ \<Rightarrow> True | Inl _ \<Rightarrow> False)"

lemma gate_passesD: "gate_passes x \<Longrightarrow> \<exists>r. x = Inr r"
  by (auto simp: gate_passes_def split: sum.splits)

definition misspelt_mapping :: "mapping_entry list" where
  "misspelt_mapping = [entry ''nm'' ''pupil'' ''nam'']"

theorem validate_deployment_iff_witness:
  "(\<exists>r. validate_deployment narrow_registry pupil_mapping (Some []) = Inr r)
   \<and> deployable_table narrow_registry pupil_mapping (dkeys (group_by_table pupil_mapping) @ []) ''pupil''
   \<and> \<not> (\<exists>r. validate_deployment narrow_registry misspelt_mapping (Some []) = Inr r)"
proof -
  have "gate_passes (validate_deployment narrow_registry pupil_mapping (Some []))" by code_simp
  note ok = gate_passesD [OF this]
  have named: "filter (\<lambda>e. m_table e = Some ''pupil'') pupil_mapping \<noteq> []"
    "filter (\<lambda>e. m_table e = Some ''pupil'') misspelt_mapping \<noteq> []" by code_simp+
  have "deployable_table narrow_registry pupil_mapping (dkeys (group_by_table pupil_mapping) @ []) ''pupil''"
    using validate_deployment_iff [of narrow_registry pupil_mapping "[]"] ok named(1) by blast
  moreover have "\<not> deployable_table narrow_registry misspelt_mapping (dkeys (group_by_table misspelt_mapping) @ []) ''pupil''"
    by code_simp
  then have "\<not> (\<exists>r. validate_deployment narrow_registry misspelt_mapping (Some []) = Inr r)"
    using validate_deployment_iff [of narrow_registry misspelt_mapping "[]"] named(2) by blast
  ultimately show ?thesis using ok by blast
qed

theorem deployed_mapping_builds_known_witness:
  "check_tables ''LRMIS'' narrow_registry [(''pupil'', [(''name'', PStr ''ABC'')])] = Inr ()
   \<and> (\<exists>m. dget narrow_registry ''pupil'' = Some m \<and> ''name'' \<in> lc_name ` set (lt_columns m))"
proof -
  have "gate_passes (validate_deployment narrow_registry pupil_mapping (Some []))" by code_simp
  then obtain r where r: "validate_deployment narrow_registry pupil_mapping (Some []) = Inr r"
    using gate_passesD by blast
  have e: "build_values_by_table sample_runtime narrow_registry pupil_source pupil_mapping = ([(''pupil'', [(''name'', PStr ''ABC'')])], [])"
    by code_simp
  have "value_at [(''pupil'', [(''name'', PStr ''ABC'')])] ''pupil'' ''name'' = Some (PStr ''ABC'')" by code_simp
  then show ?thesis using deployed_mapping_builds_known [OF r e] by blast
qed

end
