(* ===== verification/Admin_Db.thy ===== *)
theory Admin_Db
  imports Schema_Ingest Central_Db
begin

text \<open>
  The control plane of the admin service: the tables of \<open>sql/003_admin_ui.sql\<close>
  (\<open>admin_user\<close>, \<open>admin_action_audit\<close>, \<open>admin_job\<close>, \<open>admin_job_event\<close>), the audit writer
  (\<open>src/admin_api/audit.py\<close>) and the session check (\<open>src/admin_api/auth.py\<close>) with the status
  codes \<open>src/admin_api/app.py\<close> gives to exceptions. Password hashing and cookie signing are
  the libraries bcrypt and itsdangerous: parameters.
\<close>

section \<open>Tables\<close>

datatype job_status = JQueued | JRunning | JSucceeded | JFailed | JCancelled

record job_row =
  jb_id :: string
  jb_type :: string
  jb_params :: row
  jb_reason :: "string option"
  jb_requested_by :: string
  jb_status :: job_status
  jb_current :: int
  jb_total :: "int option"
  jb_heartbeat :: "int option"
  jb_started :: "int option"
  jb_finished :: "int option"
  jb_result :: "pyval option"
  jb_error :: "string option"
  jb_created :: int

record job_event =
  je_id :: int
  je_job :: string
  je_type :: string
  je_message :: string
  je_data :: "pyval option"
  je_at :: int

record action_row =
  aa_actor :: string
  aa_action :: string
  aa_target_type :: "string option"
  aa_target_id :: "string option"
  aa_request_id :: string
  aa_reason :: "string option"
  aa_details :: "pyval option"
  aa_result :: string
  aa_error :: "string option"
  aa_at :: int

record user_row =
  us_id :: int
  us_name :: string
  us_hash :: string
  us_role :: string
  us_active :: bool
  us_created :: int

record admin_db =
  admin_jobs :: "job_row list"
  job_events :: "job_event list"
  next_event :: int
  action_audit :: "action_row list"
  admin_users :: "user_row list"
  next_user :: int

definition empty_admin :: admin_db where
  "empty_admin = \<lparr>admin_jobs = [], job_events = [], next_event = 1, action_audit = [],
     admin_users = [], next_user = 1\<rparr>"

section \<open>JSON columns\<close>

text \<open>
  \<open>json.dumps(v, default=str)\<close> read back from a JSONB column: dates and other objects become
  their text; the tokens NaN and Infinity and a NUL character are rejected by the database.
\<close>

fun json_norm :: "runtime \<Rightarrow> pyval \<Rightarrow> pyval" where
  "json_norm P (PList vs) = PList (map (json_norm P) vs)"
| "json_norm P (PDict kvs) = PDict (map (\<lambda>(k, v). (k, json_norm P v)) kvs)"
| "json_norm P (PDate d) = PStr (py_str P (PDate d))"
| "json_norm P (PDateTime d t z) = PStr (py_str P (PDateTime d t z))"
| "json_norm P (PObj t s) = PStr s"
| "json_norm P v = v"

definition no_nul :: "string \<Rightarrow> bool" where
  "no_nul s = (char_of (0 :: nat) \<notin> set s)"

fun json_storable :: "pyval \<Rightarrow> bool" where
  "json_storable (PList vs) = list_all json_storable vs"
| "json_storable (PDict kvs) = list_all (\<lambda>(k, v). no_nul k \<and> json_storable v) kvs"
| "json_storable (PFloat (Inf n)) = False"
| "json_storable (PFloat NaN) = False"
| "json_storable (PStr s) = no_nul s"
| "json_storable (PObj t s) = no_nul s"
| "json_storable v = True"

definition jsonb :: "runtime \<Rightarrow> pyval \<Rightarrow> pyval res" where
  "jsonb P v = (if json_storable v then Inr (json_norm P v)
     else Inl (DbError ''invalid input syntax for type json''))"

definition jsonb_opt :: "runtime \<Rightarrow> pyval option \<Rightarrow> pyval option res" where
  "jsonb_opt P x = (case x of None \<Rightarrow> Inr None | Some v \<Rightarrow> res_bind (jsonb P v) (\<lambda>w. Inr (Some w)))"

section \<open>The audit trail\<close>

record audit_info =
  ai_target_type :: "string option"
  ai_target_id :: "string option"
  ai_reason :: "string option"
  ai_details :: "pyval option"

definition audit_entry ::
  "int \<Rightarrow> string \<Rightarrow> string \<Rightarrow> string \<Rightarrow> audit_info \<Rightarrow> pyval option \<Rightarrow> string \<Rightarrow> string option \<Rightarrow> action_row" where
  "audit_entry now rid actor action i details result error =
     \<lparr>aa_actor = actor, aa_action = action, aa_target_type = ai_target_type i, aa_target_id = ai_target_id i,
      aa_request_id = rid, aa_reason = ai_reason i, aa_details = details, aa_result = result,
      aa_error = error, aa_at = now\<rparr>"

definition write_audit ::
  "runtime \<Rightarrow> int \<Rightarrow> string \<Rightarrow> string \<Rightarrow> string \<Rightarrow> audit_info \<Rightarrow> string \<Rightarrow> string option \<Rightarrow> admin_db \<Rightarrow> admin_db res" where
  "write_audit P now rid actor action i result error d =
     res_bind (jsonb_opt P (ai_details i)) (\<lambda>details.
       Inr (d\<lparr>action_audit := action_audit d @ [audit_entry now rid actor action i details result error]\<rparr>))"

text \<open>
  \<open>audited\<close>: the block runs on its own transactions, so what it committed before it raised
  stays; the failure is written down and raised again. If the audit row itself cannot be
  written, that error is raised instead.
\<close>

definition audited_block ::
  "runtime \<Rightarrow> int \<Rightarrow> string \<Rightarrow> string \<Rightarrow> string \<Rightarrow> audit_info \<Rightarrow> (admin_db \<Rightarrow> 'a res \<times> admin_db) \<Rightarrow> admin_db \<Rightarrow> 'a res \<times> admin_db" where
  "audited_block P now rid actor action i body d = (case body d of
       (Inl e, d1) \<Rightarrow> (case write_audit P now rid actor action i ''failure'' (Some (exn_str e)) d1 of
           Inl e2 \<Rightarrow> (Inl e2, d1) | Inr d2 \<Rightarrow> (Inl e, d2))
     | (Inr x, d1) \<Rightarrow> (case write_audit P now rid actor action i ''success'' None d1 of
           Inl e2 \<Rightarrow> (Inl e2, d1) | Inr d2 \<Rightarrow> (Inr x, d2)))"

definition nonempty :: "string option \<Rightarrow> bool" where
  "nonempty x = (x \<noteq> None \<and> x \<noteq> Some [])"

text \<open>\<open>ORDER BY performed_at DESC LIMIT n\<close>; rows of one time keep the order of the table reversed.\<close>

definition list_audit :: "nat \<Rightarrow> string option \<Rightarrow> string option \<Rightarrow> admin_db \<Rightarrow> action_row list" where
  "list_audit limit actor action d =
     take limit (rev (sort_key aa_at (filter (\<lambda>r. (nonempty actor \<longrightarrow> Some (aa_actor r) = actor)
       \<and> (nonempty action \<longrightarrow> Some (aa_action r) = action)) (action_audit d))))"

section \<open>Sessions\<close>

record admin_user =
  usr_id :: int
  usr_name :: string
  usr_role :: string

text \<open>bcrypt and the cookie signer: \<open>unsign\<close> checks signature and age, or rejects the token.\<close>

record auth_libs =
  al_hash :: "string \<Rightarrow> string"
  al_checkpw :: "string \<Rightarrow> string \<Rightarrow> bool res"
  al_sign :: "string \<Rightarrow> string"
  al_unsign :: "string \<Rightarrow> string option"

datatype http_error = HTTPException int string | Raised exn

type_synonym 'a http = "http_error + 'a"

definition verify_password :: "auth_libs \<Rightarrow> string \<Rightarrow> string \<Rightarrow> bool res" where
  "verify_password A password password_hash = (case al_checkpw A password password_hash of
     Inl (ValueError m) \<Rightarrow> Inr False | r \<Rightarrow> r)"

definition active_user :: "string \<Rightarrow> admin_db \<Rightarrow> user_row option" where
  "active_user username d = find (\<lambda>u. us_name u = username \<and> us_active u) (admin_users d)"

definition to_user :: "user_row \<Rightarrow> admin_user" where
  "to_user u = \<lparr>usr_id = us_id u, usr_name = us_name u, usr_role = us_role u\<rparr>"

definition load_user :: "string \<Rightarrow> admin_db \<Rightarrow> admin_user option" where
  "load_user username d = map_option to_user (active_user username d)"

definition authenticate :: "auth_libs \<Rightarrow> string \<Rightarrow> string \<Rightarrow> admin_db \<Rightarrow> admin_user option res" where
  "authenticate A username password d = (case active_user username d of
     None \<Rightarrow> Inr None
   | Some u \<Rightarrow> res_bind (verify_password A password (us_hash u)) (\<lambda>ok.
       Inr (if ok then Some (to_user u) else None)))"

definition session_cookie :: string where
  "session_cookie = ''schema_mapper_session''"

type_synonym cookies = "(string, string) dict"

definition set_session :: "auth_libs \<Rightarrow> admin_user \<Rightarrow> cookies \<Rightarrow> cookies" where
  "set_session A user c = dput session_cookie (al_sign A (usr_name user)) c"

definition clear_session :: "cookies \<Rightarrow> cookies" where
  "clear_session c = filter (\<lambda>kv. fst kv \<noteq> session_cookie) c"

definition current_user :: "auth_libs \<Rightarrow> cookies \<Rightarrow> admin_db \<Rightarrow> admin_user http" where
  "current_user A c d = (case dget c session_cookie of
     None \<Rightarrow> Inl (HTTPException 401 ''not authenticated'')
   | Some token \<Rightarrow>
       if token = [] then Inl (HTTPException 401 ''not authenticated'')
       else (case al_unsign A token of
           None \<Rightarrow> Inl (HTTPException 401 ''invalid or expired session'')
         | Some username \<Rightarrow> (case load_user username d of
             None \<Rightarrow> Inl (HTTPException 401 ''user disabled or removed'')
           | Some user \<Rightarrow> Inr user)))"

definition require_operator :: "admin_user http \<Rightarrow> admin_user http" where
  "require_operator u = u"

definition require_admin :: "admin_user http \<Rightarrow> admin_user http" where
  "require_admin u = (case u of Inl e \<Rightarrow> Inl e
     | Inr user \<Rightarrow> if usr_role user \<noteq> ''admin'' then Inl (HTTPException 403 ''admin role required'') else Inr user)"

definition login :: "auth_libs \<Rightarrow> string \<Rightarrow> string \<Rightarrow> cookies \<Rightarrow> admin_db \<Rightarrow> (admin_user \<times> cookies) http" where
  "login A username password c d = (case authenticate A username password d of
     Inl e \<Rightarrow> Inl (Raised e)
   | Inr None \<Rightarrow> Inl (HTTPException 401 ''invalid credentials'')
   | Inr (Some user) \<Rightarrow> Inr (user, set_session A user c))"

text \<open>The exception handlers of the application.\<close>

fun http_status :: "http_error \<Rightarrow> int" where
  "http_status (HTTPException code m) = code"
| "http_status (Raised (NotFoundError m)) = 404"
| "http_status (Raised (ConflictError m)) = 409"
| "http_status (Raised (ValidationError m)) = 422"
| "http_status (Raised e) = 500"

section \<open>User management\<close>

definition create_user ::
  "runtime \<Rightarrow> int \<Rightarrow> string \<Rightarrow> auth_libs \<Rightarrow> admin_user \<Rightarrow> string \<Rightarrow> string \<Rightarrow> string \<Rightarrow> admin_db \<Rightarrow> int res \<times> admin_db" where
  "create_user P now rid A user username password role d =
     (if role \<noteq> ''operator'' \<and> role \<noteq> ''admin'' then (Inl (ValidationError ''role must be operator or admin''), d)
      else audited_block P now rid (usr_name user) ''user_create''
        \<lparr>ai_target_type = Some ''admin_user'', ai_target_id = Some username, ai_reason = None,
         ai_details = Some (PDict [(''role'', PStr role)])\<rparr>
        (\<lambda>d. if \<exists>u \<in> set (admin_users d). us_name u = username
             then (Inl (DbError ''duplicate key value violates unique constraint''), d)
             else (Inr (next_user d), d\<lparr>next_user := next_user d + 1, admin_users := admin_users d @
               [\<lparr>us_id = next_user d, us_name = username, us_hash = al_hash A password, us_role = role,
                 us_active = True, us_created = now\<rparr>]\<rparr>)) d)"

definition set_user_active ::
  "runtime \<Rightarrow> int \<Rightarrow> string \<Rightarrow> admin_user \<Rightarrow> int \<Rightarrow> bool \<Rightarrow> admin_db \<Rightarrow> unit res \<times> admin_db" where
  "set_user_active P now rid user user_id is_active d =
     audited_block P now rid (usr_name user) ''user_set_active''
       \<lparr>ai_target_type = Some ''admin_user'', ai_target_id = Some (int_str user_id), ai_reason = None,
        ai_details = Some (PDict [(''is_active'', PBool is_active)])\<rparr>
       (\<lambda>d. (Inr (), d\<lparr>admin_users := update_where (\<lambda>u. us_id u = user_id)
          (\<lambda>u. u\<lparr>us_active := is_active\<rparr>) (admin_users d)\<rparr>)) d"

section \<open>Who is let in\<close>

definition users_inv :: "admin_db \<Rightarrow> bool" where
  "users_inv d = (distinct (map us_name (admin_users d)) \<and> distinct (map us_id (admin_users d))
     \<and> (\<forall>u \<in> set (admin_users d). us_id u < next_user d \<and> us_role u \<in> {''operator'', ''admin''}))"

lemma write_audit_users:
  "write_audit P now rid actor action i result error d = Inr d' \<Longrightarrow>
   admin_users d' = admin_users d \<and> next_user d' = next_user d"
  by (auto simp: write_audit_def res_bind_Inr_iff)

lemma audited_users:
  assumes "audited_block P now rid actor action i body d = (r, d')" and "body d = (r1, d1)"
  shows "admin_users d' = admin_users d1 \<and> next_user d' = next_user d1"
  using assms by (auto simp: audited_block_def split: sum.splits dest: write_audit_users)

lemma audited_frame:
  assumes "users_inv (snd (body d))"
  shows "users_inv (snd (audited_block P now rid actor action i body d))"
proof -
  obtain r1 d1 r d' where e: "body d = (r1, d1)" "audited_block P now rid actor action i body d = (r, d')" by fastforce
  then show ?thesis using assms audited_users [OF e(2,1)] by (simp add: users_inv_def)
qed

lemma active_user_unique:
  assumes "distinct (map us_name us)" and "u \<in> set us"
  shows "find (\<lambda>v. us_name v = us_name u \<and> us_active v) us = (if us_active u then Some u else None)"
  using assms
proof (induction us)
  case (Cons v us)
  show ?case
  proof (cases "u = v")
    case True
    have "us_name u \<notin> us_name ` set us" using Cons.prems(1) True by simp
    then have "\<forall>w \<in> set us. us_name w \<noteq> us_name u" by (metis image_eqI)
    then have "find (\<lambda>v. us_name v = us_name u \<and> us_active v) us = None" by (auto simp: find_None_iff)
    then show ?thesis using True by simp
  next
    case False
    then have "u \<in> set us" "us_name v \<noteq> us_name u" using Cons.prems by auto
    then show ?thesis using Cons by auto
  qed
qed simp

lemma active_user_SomeD:
  assumes "active_user n d = Some u"
  shows "u \<in> set (admin_users d)" and "us_name u = n" and "us_active u"
  using assms by (auto simp: active_user_def find_Some_iff)

text \<open>
  The user table keeps its invariant (unique names and ids, known roles) under account
  creation and switching, whatever the outcome.
\<close>

theorem users_inv_kept:
  assumes "users_inv d"
  shows "users_inv (snd (create_user P now rid A by_user name password role d))
    \<and> users_inv (snd (set_user_active P now rid by_user uid on d))"
proof -
  have ins: "users_inv (d\<lparr>next_user := next_user d + 1, admin_users := admin_users d @ [u]\<rparr>)"
    if "\<not> (\<exists>v \<in> set (admin_users d). us_name v = us_name u)" "us_id u = next_user d"
      "us_role u \<in> {''operator'', ''admin''}" for u
    using assms that by (force simp: users_inv_def)
  have "users_inv (snd (create_user P now rid A by_user name password role d))"
  proof (cases "role \<noteq> ''operator'' \<and> role \<noteq> ''admin''")
    case False
    then have r: "role \<in> {''operator'', ''admin''}" by auto
    show ?thesis unfolding create_user_def if_not_P [OF False]
      by (rule audited_frame) (use assms ins r in \<open>simp split: if_splits\<close>)
  qed (use assms in \<open>simp add: create_user_def\<close>)
  moreover have "users_inv (d\<lparr>admin_users := update_where (\<lambda>u. us_id u = uid) (\<lambda>u. u\<lparr>us_active := on\<rparr>) (admin_users d)\<rparr>)"
    using assms unfolding users_inv_def by (simp add: map_update_where) (auto elim!: update_where_cases)
  then have "users_inv (snd (set_user_active P now rid by_user uid on d))"
    unfolding set_user_active_def by (intro audited_frame) simp
  ultimately show ?thesis by blast
qed

text \<open>
  Switching an account off takes effect at once: whatever cookie its user still holds, the
  next request is answered with 401.
\<close>

theorem revoked_user_rejected:
  assumes "users_inv d" and "u \<in> set (admin_users d)"
    and "set_user_active P now rid by_user (us_id u) False d = (r, d')"
    and "dget c session_cookie = Some token" and "al_unsign A token = Some (us_name u)"
  shows "\<exists>m. current_user A c d' = Inl (HTTPException 401 m)"
proof -
  let ?off = "\<lambda>v. v\<lparr>us_active := False\<rparr>"
  have users: "admin_users d' = update_where (\<lambda>v. us_id v = us_id u) ?off (admin_users d)"
    using audited_users [OF assms(3) [unfolded set_user_active_def]] by auto
  have "distinct (map us_name (admin_users d'))"
    using assms(1) by (simp add: users users_inv_def sql_simps)
  moreover have "?off u \<in> set (admin_users d')"
    using assms(2) by (force simp: users sql_simps)
  ultimately have "find (\<lambda>v. us_name v = us_name (?off u) \<and> us_active v) (admin_users d') = None"
    by (subst active_user_unique) simp_all
  then have "load_user (us_name u) d' = None" by (simp add: load_user_def active_user_def)
  then show ?thesis using assms(4,5) by (simp add: current_user_def)
qed

text \<open>
  A successful login yields a cookie that identifies the same user on the next request, as
  long as the account stays active. The only fact about the signer is that it reads back a
  name it signed as a non-empty token.
\<close>

theorem login_roundtrip:
  assumes "\<And>n. al_sign A n \<noteq> [] \<and> al_unsign A (al_sign A n) = Some n"
    and "login A username password c d = Inr (user, c')"
  shows "current_user A c' d = Inr user \<and> usr_name user = username"
proof -
  obtain row where row: "active_user username d = Some row" "user = to_user row" "c' = set_session A user c"
    using assms(2) by (auto simp: login_def authenticate_def res_bind_Inr_iff split: sum.splits option.splits if_splits)
  then have n: "usr_name user = username" using active_user_SomeD [OF row(1)] by (simp add: to_user_def)
  have "c' = dput session_cookie (al_sign A username) c" using row(3) n by (simp add: set_session_def)
  then have "current_user A c' d = Inr user"
    using assms(1) [of username] row(1,2) by (simp add: current_user_def load_user_def)
  then show ?thesis using n by blast
qed

section \<open>Examples\<close>

definition sample_libs :: auth_libs where
  "sample_libs = \<lparr>al_hash = rev, al_checkpw = (\<lambda>p h. Inr (h = rev p)), al_sign = (\<lambda>n. ''s:'' @ n),
     al_unsign = (\<lambda>t. if starts_with ''s:'' t then Some (drop 2 t) else None)\<rparr>"

definition root_user :: admin_user where
  "root_user = \<lparr>usr_id = 0, usr_name = ''root'', usr_role = ''admin''\<rparr>"

definition two_users :: admin_db where
  "two_users = snd (create_user sample_runtime 2 ''r2'' sample_libs root_user ''bo'' ''pw2'' ''admin''
     (snd (create_user sample_runtime 1 ''r1'' sample_libs root_user ''al'' ''pw1'' ''operator'' empty_admin)))"

theorem users_inv_kept_witness:
  "users_inv two_users \<and> map us_name (admin_users two_users) = [''al'', ''bo'']"
proof -
  have "users_inv empty_admin" by (simp add: users_inv_def empty_admin_def)
  then have "users_inv two_users" unfolding two_users_def
    by (intro conjunct1 [OF users_inv_kept])
  moreover have "map us_name (admin_users two_users) = [''al'', ''bo'']" by code_simp
  ultimately show ?thesis by blast
qed

theorem revoked_user_rejected_witness:
  "\<exists>m. current_user sample_libs [(session_cookie, ''s:al'')]
     (snd (set_user_active sample_runtime 3 ''r3'' root_user 1 False two_users)) = Inl (HTTPException 401 m)"
proof -
  let ?u = "hd (admin_users two_users)"
  have "users_inv two_users" by code_simp
  moreover have "?u \<in> set (admin_users two_users)" "us_id ?u = 1" "us_name ?u = ''al''" by code_simp+
  moreover have "dget [(session_cookie, ''s:al'')] session_cookie = Some ''s:al''" by code_simp
  moreover have "al_unsign sample_libs ''s:al'' = Some ''al''" by code_simp
  ultimately show ?thesis
    using revoked_user_rejected [of two_users ?u sample_runtime 3 "''r3''" root_user] prod.collapse [symmetric]
    by metis
qed

theorem login_roundtrip_witness:
  "current_user sample_libs [(session_cookie, ''s:bo'')] two_users
     = Inr \<lparr>usr_id = 2, usr_name = ''bo'', usr_role = ''admin''\<rparr>"
proof -
  have e: "login sample_libs ''bo'' ''pw2'' [] two_users
      = Inr (\<lparr>usr_id = 2, usr_name = ''bo'', usr_role = ''admin''\<rparr>, [(session_cookie, ''s:bo'')])" by code_simp
  have s: "al_sign sample_libs n \<noteq> [] \<and> al_unsign sample_libs (al_sign sample_libs n) = Some n" for n
    by (simp add: sample_libs_def)
  show ?thesis using login_roundtrip [OF s e] by blast
qed

end
