(* ===== verification/Admin_Jobs.thy ===== *)
theory Admin_Jobs
  imports Admin_Db Lrmis_Registry
begin

text \<open>
  \<open>src/admin_api/jobs.py\<close>, the part that runs in a request: the allowlisted job types with the
  service call each makes of its parameters, the scopes that keep two jobs of one kind apart,
  enqueueing, and the reads behind the job pages; with the confirmation gate \<open>submit_job\<close> of
  \<open>src/admin_api/routers.py\<close>. The runner is in \<open>Job_Runner\<close>.
\<close>

section \<open>Reading parameters\<close>

definition pget :: "row \<Rightarrow> string \<Rightarrow> pyval \<Rightarrow> pyval" where
  "pget p k d = (case dget p k of None \<Rightarrow> d | Some v \<Rightarrow> v)"

definition pitem :: "row \<Rightarrow> string \<Rightarrow> pyval res" where
  "pitem p k = (case dget p k of None \<Rightarrow> Inl (KeyError k) | Some v \<Rightarrow> Inr v)"

definition no_attribute :: "pyval \<Rightarrow> string \<Rightarrow> exn" where
  "no_attribute v a = AttributeError (quoted (type_name v) @ '' object has no attribute '' @ quoted a)"

definition upper_of :: "pyval \<Rightarrow> string res" where
  "upper_of v = (case v of PStr s \<Rightarrow> Inr (str_upper s) | _ \<Rightarrow> Inl (no_attribute v ''upper''))"

definition strip_of :: "pyval \<Rightarrow> string res" where
  "strip_of v = (case v of PStr s \<Rightarrow> Inr (str_strip s) | _ \<Rightarrow> Inl (no_attribute v ''strip''))"

definition iter_of :: "pyval \<Rightarrow> pyval list res" where
  "iter_of v = (case v of
       PList vs \<Rightarrow> Inr vs
     | PDict kvs \<Rightarrow> Inr (map (\<lambda>kv. PStr (fst kv)) kvs)
     | PStr s \<Rightarrow> Inr (map (\<lambda>c. PStr [c]) s)
     | _ \<Rightarrow> Inl (TypeError (quoted (type_name v) @ '' object is not iterable'')))"

text \<open>\<open>t.strip()\<close> of the entries that are not blank.\<close>

fun strip_entries :: "pyval list \<Rightarrow> string list res" where
  "strip_entries [] = Inr []"
| "strip_entries (v # vs) =
     (if \<not> truthy v then strip_entries vs
      else res_bind (strip_of v) (\<lambda>s. res_bind (strip_entries vs) (\<lambda>ts.
        Inr (if s = [] then ts else s # ts))))"

definition split_commas :: "pyval \<Rightarrow> pyval" where
  "split_commas v = (case v of PStr s \<Rightarrow> PList (map PStr (split_on (CHR '','') s)) | _ \<Rightarrow> v)"

definition normalize_tables :: "pyval \<Rightarrow> string list res" where
  "normalize_tables raw = (let r = split_commas raw in
     if truthy r then res_bind (iter_of r) strip_entries else Inr [])"

definition param_bool :: "pyval \<Rightarrow> bool \<Rightarrow> bool" where
  "param_bool v default_value = (case v of
       PNone \<Rightarrow> default_value
     | PStr s \<Rightarrow> str_lower (str_strip s) \<in> {''1'', ''true'', ''yes'', ''on''}
     | _ \<Rightarrow> truthy v)"

definition source_schema_param :: "row \<Rightarrow> pyval" where
  "source_schema_param p = pget p ''source_schema'' (PStr ''irimsv'')"

definition target_param :: "row \<Rightarrow> string res" where
  "target_param p = upper_of (pget p ''target_system'' (PStr ''LRMIS''))"

definition source_system_param :: "row \<Rightarrow> pyval" where
  "source_system_param p = pget p ''source_system'' (PStr ''IRIMSV_REGION_V'')"

definition batch_param :: "runtime \<Rightarrow> row \<Rightarrow> int \<Rightarrow> int res" where
  "batch_param P p n = py_int P (pget p ''batch_size'' (PInt n))"

section \<open>Handlers: the call a job makes\<close>

datatype service_call =
    Scan bool pyval
  | Discover pyval string
  | Propose pyval pyval string
  | Deploy_to_lrmis int pyval
  | Bulk_deploy pyval string
  | Bulk_propose pyval pyval string
  | Backfill pyval
  | Onboard_bulk pyval "string list" string pyval
  | Monitor
  | Refresh pyval pyval string pyval int pyval
  | Worker_run int
  | Replay_event pyval
  | Set_entity_enabled pyval string bool pyval
  | Cancel_queue pyval
  | Apply_migration pyval pyval
  | Nightly_refresh pyval bool pyval bool pyval pyval bool pyval
  | Resolve_drift bool bool "string list option" pyval bool pyval int
  | Reset_all bool bool "string list option" pyval bool pyval int
  | Reset_path_b bool

type_synonym handler = "runtime \<Rightarrow> string list \<Rightarrow> row \<Rightarrow> service_call res"

text \<open>The second argument is the list of deployed source tables, which one handler reads.\<close>

definition h_schema_scan :: handler where
  "h_schema_scan P dep p = Inr (Scan (truthy (pget p ''approve_initial'' PNone)) (pget p ''_actor'' PNone))"

definition h_discover :: handler where
  "h_discover P dep p = res_bind (target_param p) (\<lambda>t. Inr (Discover (source_schema_param p) t))"

definition h_propose :: handler where
  "h_propose P dep p = res_bind (pitem p ''source_table'') (\<lambda>st. res_bind (target_param p) (\<lambda>t.
     Inr (Propose (source_schema_param p) st t)))"

definition h_deploy :: handler where
  "h_deploy P dep p = res_bind (pitem p ''proposal_id'') (\<lambda>v. res_bind (py_int P v) (\<lambda>n.
     res_bind (pitem p ''_actor'') (\<lambda>a. Inr (Deploy_to_lrmis n a))))"

definition h_deploy_lrmis :: handler where
  "h_deploy_lrmis P dep p = res_bind (pitem p ''proposal_id'') (\<lambda>v. res_bind (py_int P v) (\<lambda>n.
     res_bind (pitem p ''_actor'') (\<lambda>a. Inr (Deploy_to_lrmis n a))))"

definition h_bulk_deploy_lrmis :: handler where
  "h_bulk_deploy_lrmis P dep p = res_bind (pitem p ''_actor'') (\<lambda>a. res_bind (target_param p) (\<lambda>t.
     Inr (Bulk_deploy a t)))"

definition h_bulk_propose_lrmis :: handler where
  "h_bulk_propose_lrmis P dep p = res_bind (pitem p ''_actor'') (\<lambda>a. res_bind (target_param p) (\<lambda>t.
     Inr (Bulk_propose a (source_schema_param p) t)))"

definition h_backfill :: handler where
  "h_backfill P dep p = res_bind (pitem p ''entity'') (\<lambda>e. Inr (Backfill e))"

definition h_onboard_bulk :: handler where
  "h_onboard_bulk P dep p = res_bind (normalize_tables (pget p ''tables'' PNone)) (\<lambda>tables.
     if tables = [] then Inl (ValidationError ''onboard_bulk requires at least one table'')
     else res_bind (target_param p) (\<lambda>t. res_bind (pitem p ''_actor'') (\<lambda>a.
       Inr (Onboard_bulk (source_schema_param p) tables t a))))"

definition h_monitor :: handler where
  "h_monitor P dep p = Inr Monitor"

definition refresh_call :: "runtime \<Rightarrow> row \<Rightarrow> pyval \<Rightarrow> service_call res" where
  "refresh_call P p tables = res_bind (target_param p) (\<lambda>t. res_bind (batch_param P p 1000) (\<lambda>n.
     Inr (Refresh (source_schema_param p) tables t (source_system_param p) n (pget p ''schedule'' PNone))))"

definition h_refresh :: handler where
  "h_refresh P dep p = res_bind (pitem p ''source_tables'') (\<lambda>tables.
     refresh_call P p (case tables of
         PStr s \<Rightarrow> PList (map (\<lambda>t. PStr (str_strip t)) (split_on (CHR '','') s)) | _ \<Rightarrow> tables))"

definition h_refresh_all :: handler where
  "h_refresh_all P dep p =
     (if dep = [] then Inl (ValidationError ''no deployed entities to refresh'')
      else refresh_call P p (PList (map PStr dep)))"

definition h_worker_run :: handler where
  "h_worker_run P dep p = res_bind (batch_param P p 100) (\<lambda>n. Inr (Worker_run n))"

definition h_replay :: handler where
  "h_replay P dep p = res_bind (pitem p ''event_id'') (\<lambda>e. Inr (Replay_event e))"

definition h_entity_toggle :: handler where
  "h_entity_toggle P dep p = res_bind (pitem p ''entity'') (\<lambda>e. res_bind (target_param p) (\<lambda>t.
     res_bind (pitem p ''enabled'') (\<lambda>b. Inr (Set_entity_enabled e t (truthy b) (pget p ''reason'' PNone)))))"

definition h_cancel_queue :: handler where
  "h_cancel_queue P dep p =
     (let e = (if truthy (pget p ''entity'' PNone) then pget p ''entity'' PNone else pget p ''source_entity'' PNone) in
      if truthy e then Inr (Cancel_queue e) else Inl (ValidationError ''entity is required''))"

definition h_migration_apply :: handler where
  "h_migration_apply P dep p = res_bind (pitem p ''filename'') (\<lambda>f. res_bind (pitem p ''_actor'') (\<lambda>a.
     Inr (Apply_migration f a)))"

definition h_nightly_refresh :: handler where
  "h_nightly_refresh P dep p = res_bind (pitem p ''_actor'') (\<lambda>a.
     Inr (Nightly_refresh a (param_bool (pget p ''restore'' PNone) False) (pget p ''dump_path'' PNone)
       (param_bool (pget p ''dry_run'' PNone) False) (pget p ''target_engine'' PNone)
       (pget p ''target_backup_path'' PNone) (param_bool (pget p ''dump_source'' PNone) False)
       (pget p ''source_backup_path'' PNone)))"

definition entities_param :: "row \<Rightarrow> string list option res" where
  "entities_param p = res_bind (normalize_tables (pget p ''entities'' PNone)) (\<lambda>es.
     Inr (if es = [] then None else Some es))"

definition h_resolve_drift :: handler where
  "h_resolve_drift P dep p = res_bind (entities_param p) (\<lambda>es. res_bind (pitem p ''_actor'') (\<lambda>a.
     res_bind (batch_param P p 1000) (\<lambda>n.
       Inr (Resolve_drift (param_bool (pget p ''resolve_source'' (PBool True)) True)
         (param_bool (pget p ''resolve_target'' (PBool True)) True) es a
         (param_bool (pget p ''dry_run'' PNone) False) (source_system_param p) n))))"

definition h_reset_schemas :: handler where
  "h_reset_schemas P dep p = res_bind (entities_param p) (\<lambda>es. res_bind (pitem p ''_actor'') (\<lambda>a.
     res_bind (batch_param P p 1000) (\<lambda>n.
       Inr (Reset_all (param_bool (pget p ''reset_source'' (PBool True)) True)
         (param_bool (pget p ''reset_target'' (PBool True)) True) es a
         (param_bool (pget p ''dry_run'' PNone) False) (source_system_param p) n))))"

definition h_reset_path_b :: handler where
  "h_reset_path_b P dep p = Inr (Reset_path_b (param_bool (pget p ''dry_run'' PNone) False))"

definition job_handlers :: "(string, handler) dict" where
  "job_handlers =
     [(''schema_scan'', h_schema_scan), (''discover'', h_discover), (''propose'', h_propose),
      (''deploy'', h_deploy), (''deploy_lrmis'', h_deploy_lrmis), (''bulk_deploy_lrmis'', h_bulk_deploy_lrmis),
      (''bulk_propose_lrmis'', h_bulk_propose_lrmis), (''backfill'', h_backfill),
      (''onboard_bulk'', h_onboard_bulk), (''monitor'', h_monitor), (''refresh'', h_refresh),
      (''refresh_all'', h_refresh_all), (''worker_run'', h_worker_run), (''replay'', h_replay),
      (''entity_toggle'', h_entity_toggle), (''cancel_queue'', h_cancel_queue),
      (''migration_apply'', h_migration_apply), (''nightly_refresh'', h_nightly_refresh),
      (''resolve_drift'', h_resolve_drift), (''reset_schemas'', h_reset_schemas),
      (''reset_path_b'', h_reset_path_b)]"

definition admin_only_jobs :: "string list" where
  "admin_only_jobs = [''migration_apply'', ''nightly_refresh'']"

section \<open>Scopes\<close>

definition onboard_scope :: "runtime \<Rightarrow> row \<Rightarrow> string res" where
  "onboard_scope P p = res_bind (normalize_tables (pget p ''tables'' PNone)) (\<lambda>ts.
     Inr (''onboard:'' @ py_str P (source_schema_param p) @ '':'' @ join '','' (sort ts)))"

definition scope_of :: "runtime \<Rightarrow> string \<Rightarrow> row \<Rightarrow> string option res" where
  "scope_of P jt p =
     (if jt = ''deploy'' then Inr (Some (''deploy:'' @ py_str P (pget p ''proposal_id'' PNone)))
      else if jt = ''deploy_lrmis'' then Inr (Some (''deploy-lrmis:'' @ py_str P (pget p ''proposal_id'' PNone)))
      else if jt = ''bulk_deploy_lrmis'' then Inr (Some ''bulk-deploy-lrmis'')
      else if jt = ''bulk_propose_lrmis'' then Inr (Some ''bulk-propose-lrmis'')
      else if jt = ''refresh'' then Inr (Some (''refresh:'' @ py_str P (pget p ''source_tables'' PNone)))
      else if jt = ''refresh_all'' then Inr (Some ''refresh-all'')
      else if jt = ''migration_apply'' then Inr (Some ''migrations'')
      else if jt = ''nightly_refresh'' then Inr (Some ''nightly-refresh'')
      else if jt = ''onboard_bulk'' then res_bind (onboard_scope P p) (\<lambda>s. Inr (Some s))
      else if jt = ''cancel_queue'' then Inr (Some (''cancel:'' @ py_str P (pget p ''entity'' (PStr []))))
      else if jt = ''resolve_drift'' then Inr (Some ''resolve-drift'')
      else if jt = ''reset_schemas'' then Inr (Some ''reset-schemas'')
      else if jt = ''reset_path_b'' then Inr (Some ''reset-path-b'')
      else Inr None)"

text \<open>\<open>params ->> key\<close> of a JSONB column.\<close>

definition json_field :: "runtime \<Rightarrow> row \<Rightarrow> string \<Rightarrow> string option" where
  "json_field P p k = (case dget p k of
       None \<Rightarrow> None | Some PNone \<Rightarrow> None | Some (PStr s) \<Rightarrow> Some s | Some v \<Rightarrow> Some (json_text P v))"

section \<open>Enqueueing\<close>

definition live_status :: "job_status \<Rightarrow> bool" where
  "live_status s = (s = JQueued \<or> s = JRunning)"

definition live_job :: "job_row \<Rightarrow> bool" where
  "live_job j = live_status (jb_status j)"

definition job_scope :: "runtime \<Rightarrow> job_row \<Rightarrow> string option" where
  "job_scope P j = json_field P (jb_params j) ''_scope''"

definition holds_scope :: "runtime \<Rightarrow> string \<Rightarrow> job_row \<Rightarrow> bool" where
  "holds_scope P scope j = (live_job j \<and> job_scope P j = Some scope)"

definition stored_params :: "row \<Rightarrow> string \<Rightarrow> string option \<Rightarrow> row" where
  "stored_params p by_user scope = (let q = dput ''_actor'' (PStr by_user) p in
     case scope of None \<Rightarrow> q | Some s \<Rightarrow> dput ''_scope'' (PStr s) q)"

definition str_list_repr :: "string list \<Rightarrow> string" where
  "str_list_repr ss = ''['' @ join '', '' (map str_repr ss) @ '']''"

text \<open>The guards of \<open>enqueue\<close>, up to the SELECT that looks for a live job on the scope.\<close>

definition enqueue_check :: "runtime \<Rightarrow> string \<Rightarrow> row \<Rightarrow> string \<Rightarrow> string \<Rightarrow> admin_db \<Rightarrow> row res" where
  "enqueue_check P jt p by_user role d =
     (if jt \<notin> set (dkeys job_handlers)
      then Inl (ValidationError (''unknown job type '' @ quoted jt @ '' - allowed: '' @ str_list_repr (sort (dkeys job_handlers))))
      else if jt \<in> set admin_only_jobs \<and> role \<noteq> ''admin''
      then Inl (ValidationError ''admin role required for this job type'')
      else res_bind (scope_of P jt p) (\<lambda>scope. case scope of
          None \<Rightarrow> Inr (stored_params p by_user None)
        | Some s \<Rightarrow> (case find (holds_scope P s) (admin_jobs d) of
            Some j \<Rightarrow> Inl (ConflictError (''job '' @ jb_id j @ '' is already '' @ jt @ '' on the same target''))
          | None \<Rightarrow> Inr (stored_params p by_user (Some s)))))"

definition new_job :: "int \<Rightarrow> string \<Rightarrow> string \<Rightarrow> row \<Rightarrow> string option \<Rightarrow> string \<Rightarrow> job_row" where
  "new_job now uuid jt stored reason by_user =
     \<lparr>jb_id = uuid, jb_type = jt, jb_params = stored, jb_reason = reason, jb_requested_by = by_user,
      jb_status = JQueued, jb_current = 0, jb_total = None, jb_heartbeat = None, jb_started = None,
      jb_finished = None, jb_result = None, jb_error = None, jb_created = now\<rparr>"

text \<open>The INSERT and its commit; a uuid collision violates the primary key.\<close>

definition as_row :: "pyval \<Rightarrow> row" where
  "as_row v = (case v of PDict kvs \<Rightarrow> kvs | _ \<Rightarrow> [])"

definition enqueue_insert ::
  "runtime \<Rightarrow> int \<Rightarrow> string \<Rightarrow> string \<Rightarrow> row \<Rightarrow> string option \<Rightarrow> string \<Rightarrow> admin_db \<Rightarrow> admin_db res" where
  "enqueue_insert P now uuid jt stored reason by_user d = res_bind (jsonb P (PDict stored)) (\<lambda>doc.
     if \<exists>j \<in> set (admin_jobs d). jb_id j = uuid
     then Inl (DbError ''duplicate key value violates unique constraint'')
     else Inr (d\<lparr>admin_jobs := admin_jobs d @ [new_job now uuid jt (as_row doc) reason by_user]\<rparr>))"

definition public_params :: "row \<Rightarrow> row" where
  "public_params p = filter (\<lambda>kv. \<not> starts_with ''_'' (fst kv)) p"

definition enqueue ::
  "runtime \<Rightarrow> int \<Rightarrow> string \<Rightarrow> string \<Rightarrow> string \<Rightarrow> row \<Rightarrow> string \<Rightarrow> string \<Rightarrow> string option \<Rightarrow> admin_db
    \<Rightarrow> (string \<times> int) res \<times> admin_db" where
  "enqueue P now uuid rid jt p by_user role reason d =
     (case enqueue_check P jt p by_user role d of
        Inl e \<Rightarrow> (Inl e, d)
      | Inr stored \<Rightarrow> (case enqueue_insert P now uuid jt stored reason by_user d of
          Inl e \<Rightarrow> (Inl e, d)
        | Inr d1 \<Rightarrow> (case write_audit P now rid by_user (''job:'' @ jt)
              \<lparr>ai_target_type = Some ''admin_job'', ai_target_id = Some uuid, ai_reason = reason,
               ai_details = Some (PDict (public_params p))\<rparr> ''success'' None d1 of
            Inl e \<Rightarrow> (Inl e, d1)
          | Inr d2 \<Rightarrow> (Inr (uuid, now), d2))))"

section \<open>Reading jobs and events\<close>

definition get_job :: "string \<Rightarrow> admin_db \<Rightarrow> job_row res" where
  "get_job job_id d = (case find (\<lambda>j. jb_id j = job_id) (admin_jobs d) of
     None \<Rightarrow> Inl (NotFoundError (''job '' @ job_id @ '' not found''))
   | Some j \<Rightarrow> Inr (j\<lparr>jb_params := public_params (jb_params j)\<rparr>))"

definition listed_proposal :: "runtime \<Rightarrow> job_row \<Rightarrow> int option res" where
  "listed_proposal P j = (case json_field P (jb_params j) ''proposal_id'' of
     None \<Rightarrow> Inr None
   | Some s \<Rightarrow> if s = [] then Inr None else res_bind (int_of_str s) (\<lambda>n. Inr (Some n)))"

definition list_jobs :: "runtime \<Rightarrow> nat \<Rightarrow> admin_db \<Rightarrow> (job_row \<times> int option) list res" where
  "list_jobs P limit d = map_res (\<lambda>j. res_bind (listed_proposal P j) (\<lambda>n. Inr (j, n)))
     (take limit (rev (sort_key jb_created (admin_jobs d))))"

definition latest_event_id :: "admin_db \<Rightarrow> int" where
  "latest_event_id d = (case job_events d of [] \<Rightarrow> 0 | es \<Rightarrow> Max (set (map je_id es)))"

definition job_events_after :: "int \<Rightarrow> string option \<Rightarrow> nat \<Rightarrow> admin_db \<Rightarrow> job_event list" where
  "job_events_after last_id job_id limit d =
     take limit (sort_key je_id (filter (\<lambda>e. last_id < je_id e \<and> (nonempty job_id \<longrightarrow> Some (je_job e) = job_id)) (job_events d)))"

text \<open>The SSE generator: one poll after another, each from the last id it sent.\<close>

fun event_stream :: "string option \<Rightarrow> int \<Rightarrow> admin_db list \<Rightarrow> job_event list" where
  "event_stream job_id last_id [] = []"
| "event_stream job_id last_id (d # ds) =
     (let es = job_events_after last_id job_id 500 d
      in es @ event_stream job_id (if es = [] then last_id else je_id (last es)) ds)"

section \<open>The confirmation gate\<close>

definition require_reason :: "string option \<Rightarrow> string res" where
  "require_reason reason = (case reason of
     None \<Rightarrow> Inl (ValidationError ''a reason is required for this action'')
   | Some r \<Rightarrow> if str_strip r = [] then Inl (ValidationError ''a reason is required for this action'') else Inr (str_strip r))"

definition require_typed_confirm :: "runtime \<Rightarrow> string option \<Rightarrow> pyval \<Rightarrow> unit res" where
  "require_typed_confirm P confirm expected =
     (if PStr (str_strip (case confirm of None \<Rightarrow> [] | Some c \<Rightarrow> c)) \<noteq> expected
      then Inl (ValidationError (''typed confirmation mismatch - type '' @ quoted (py_str P expected) @ '' to proceed''))
      else Inr ())"

definition confirm_modal_jobs :: "string list" where
  "confirm_modal_jobs = [''deploy'', ''deploy_lrmis'', ''bulk_deploy_lrmis'', ''bulk_propose_lrmis'',
     ''backfill'', ''onboard_bulk'']"

definition entity_deployed_for_proposal :: "central \<Rightarrow> int \<Rightarrow> string option" where
  "entity_deployed_for_proposal c proposal_id =
     Option.bind (find (\<lambda>p. po_id p = proposal_id) (proposals c)) (\<lambda>p.
       Option.bind (find (\<lambda>e. en_id e = po_entity_id p) (entities c)) (\<lambda>e.
         if en_status e = EDeployed then Some (en_source_table e) else None))"

fun join_strs :: "pyval list \<Rightarrow> string list res" where
  "join_strs [] = Inr []"
| "join_strs (PStr s # vs) = res_bind (join_strs vs) (\<lambda>ss. Inr (s # ss))"
| "join_strs (v # vs) = Inl (TypeError (''sequence item: expected str instance, '' @ type_name v @ '' found''))"

definition refresh_confirmation :: "row \<Rightarrow> pyval res" where
  "refresh_confirmation p = (let tables = pget p ''source_tables'' (PStr []) in case tables of
     PStr s \<Rightarrow> Inr tables
   | _ \<Rightarrow> res_bind (iter_of tables) (\<lambda>vs. res_bind (join_strs vs) (\<lambda>ss. Inr (PStr (join '','' ss)))))"

definition reset_confirmation :: "row \<Rightarrow> string" where
  "reset_confirmation p =
     (let s = param_bool (pget p ''reset_source'' (PBool True)) False; t = param_bool (pget p ''reset_target'' (PBool True)) False
      in if s \<and> \<not> t then ''SOURCE'' else if t \<and> \<not> s then ''TARGET'' else ''RESET ALL'')"

definition dry_run_requested :: "row \<Rightarrow> bool" where
  "dry_run_requested p = truthy (pget p ''dry_run'' PNone)"

definition submit_guard :: "runtime \<Rightarrow> central \<Rightarrow> string \<Rightarrow> row \<Rightarrow> string option \<Rightarrow> string option \<Rightarrow> unit res" where
  "submit_guard P c jt p reason confirm =
     (if jt = ''refresh'' then
        res_bind (require_reason reason) (\<lambda>_. res_bind (refresh_confirmation p) (require_typed_confirm P confirm))
      else if jt = ''refresh_all'' then
        res_bind (require_reason reason) (\<lambda>_. require_typed_confirm P confirm (PStr ''REFRESH ALL''))
      else if jt = ''migration_apply'' then
        res_bind (require_reason reason) (\<lambda>_. require_typed_confirm P confirm (pget p ''filename'' (PStr [])))
      else if jt = ''deploy'' then
        res_bind (require_reason reason) (\<lambda>_. res_bind (py_int P (pget p ''proposal_id'' (PInt 0))) (\<lambda>n.
          case entity_deployed_for_proposal c n of
            None \<Rightarrow> Inr ()
          | Some t \<Rightarrow> if t = [] then Inr () else require_typed_confirm P confirm (PStr t)))
      else if jt = ''resolve_drift'' then
        (if dry_run_requested p then Inr () else res_bind (require_reason reason) (\<lambda>_. Inr ()))
      else if jt = ''reset_schemas'' then
        res_bind (require_reason reason) (\<lambda>_. if dry_run_requested p then Inr ()
          else require_typed_confirm P confirm (PStr (reset_confirmation p)))
      else if jt = ''reset_path_b'' then
        res_bind (require_reason reason) (\<lambda>_. if dry_run_requested p then Inr ()
          else require_typed_confirm P confirm (PStr ''PATH B''))
      else if jt = ''nightly_refresh'' then
        (if dry_run_requested p then Inr ()
         else res_bind (require_reason reason) (\<lambda>_. require_typed_confirm P confirm (PStr ''REBUILD'')))
      else if jt \<in> set confirm_modal_jobs then res_bind (require_reason reason) (\<lambda>_. Inr ())
      else Inr ())"

definition submit_job ::
  "runtime \<Rightarrow> int \<Rightarrow> string \<Rightarrow> string \<Rightarrow> central \<Rightarrow> admin_user \<Rightarrow> string \<Rightarrow> row \<Rightarrow> string option \<Rightarrow> string option
    \<Rightarrow> admin_db \<Rightarrow> (string \<times> int) res \<times> admin_db" where
  "submit_job P now uuid rid c user jt p reason confirm d =
     (case submit_guard P c jt p reason confirm of
        Inl e \<Rightarrow> (Inl e, d)
      | Inr _ \<Rightarrow> enqueue P now uuid rid jt p (usr_name user) (usr_role user) reason d)"

section \<open>Enqueueing is all or nothing\<close>

lemma in_dput_other: "k \<noteq> k' \<Longrightarrow> (k, v) \<in> set d \<Longrightarrow> (k, v) \<in> set (dput k' w d)"
  by (induction d) (auto simp: dput_def)

lemma in_stored_params:
  assumes "(k, v) \<in> set p" and "\<not> starts_with ''_'' k"
  shows "(k, v) \<in> set (stored_params p by_user scope)"
proof -
  have k: "k \<noteq> ''_actor''" "k \<noteq> ''_scope''" using assms(2) by auto
  note a = in_dput_other [OF k(1) assms(1)]
  show ?thesis using a in_dput_other [OF k(2) a]
    by (cases scope) (simp_all add: stored_params_def Let_def)
qed

lemma public_storable:
  assumes "json_storable (PDict (stored_params p by_user scope))"
  shows "json_storable (PDict (public_params p))"
proof -
  have "no_nul k \<and> json_storable v" if "(k, v) \<in> set (public_params p)" for k v
  proof -
    have "(k, v) \<in> set (stored_params p by_user scope)"
      using that by (intro in_stored_params) (auto simp: public_params_def)
    then show ?thesis using assms by (auto simp: list_all_iff)
  qed
  then show ?thesis by (auto simp: list_all_iff)
qed

definition norm_row :: "runtime \<Rightarrow> row \<Rightarrow> row" where
  "norm_row P p = map (\<lambda>(k, v). (k, json_norm P v)) p"

lemma dget_norm_row: "dget (norm_row P p) k = map_option (json_norm P) (dget p k)"
  by (simp add: norm_row_def dget_def map_of_map)

lemma enqueue_insert_Inr:
  "enqueue_insert P now uuid jt stored reason by_user d = Inr d' \<longleftrightarrow>
     json_storable (PDict stored) \<and> uuid \<notin> jb_id ` set (admin_jobs d)
     \<and> d' = d\<lparr>admin_jobs := admin_jobs d @ [new_job now uuid jt (norm_row P stored) reason by_user]\<rparr>"
  by (auto simp: enqueue_insert_def jsonb_def as_row_def norm_row_def res_bind_Inr_iff)

lemma enqueue_check_Inr:
  assumes "enqueue_check P jt p by_user role d = Inr stored"
  obtains scope where "jt \<in> set (dkeys job_handlers)" "jt \<in> set admin_only_jobs \<longrightarrow> role = ''admin''"
    "scope_of P jt p = Inr scope" "stored = stored_params p by_user scope"
    "\<And>s j. scope = Some s \<Longrightarrow> j \<in> set (admin_jobs d) \<Longrightarrow> \<not> holds_scope P s j"
proof -
  have guard: "jt \<in> set (dkeys job_handlers)" "jt \<in> set admin_only_jobs \<longrightarrow> role = ''admin''"
    using assms by (auto simp: enqueue_check_def split: if_splits)
  then have rest: "res_bind (scope_of P jt p) (\<lambda>scope. case scope of
          None \<Rightarrow> Inr (stored_params p by_user None)
        | Some s \<Rightarrow> (case find (holds_scope P s) (admin_jobs d) of
            Some j \<Rightarrow> Inl (ConflictError (''job '' @ jb_id j @ '' is already '' @ jt @ '' on the same target''))
          | None \<Rightarrow> Inr (stored_params p by_user (Some s)))) = Inr stored"
    using assms unfolding enqueue_check_def by (simp split: if_splits)
  then obtain scope where s: "scope_of P jt p = Inr scope" by (auto simp: res_bind_Inr_iff)
  show thesis
  proof (cases scope)
    case None
    show thesis by (rule that [OF guard s]) (use rest s None in simp_all)
  next
    case (Some x)
    then have "find (holds_scope P x) (admin_jobs d) = None" "stored = stored_params p by_user (Some x)"
      using rest s by (simp_all split: option.splits)
    then show thesis by (intro that [OF guard s]) (use Some in \<open>auto simp: find_None_iff\<close>)
  qed
qed

definition adds_one_job :: "runtime \<Rightarrow> string \<Rightarrow> string \<Rightarrow> row \<Rightarrow> string \<Rightarrow> job_row \<Rightarrow> bool" where
  "adds_one_job P uuid jt p by_user j =
     (jb_id j = uuid \<and> jb_type j = jt \<and> jb_status j = JQueued \<and> jb_requested_by j = by_user
      \<and> dget (jb_params j) ''_actor'' = Some (PStr by_user)
      \<and> (\<forall>k. k \<noteq> ''_actor'' \<and> k \<noteq> ''_scope'' \<longrightarrow> dget (jb_params j) k = map_option (json_norm P) (dget p k)))"

lemma stored_params_get:
  "dget (stored_params p by_user scope) k =
     (if k = ''_scope'' \<and> scope \<noteq> None then map_option PStr scope
      else if k = ''_actor'' then Some (PStr by_user) else dget p k)"
  by (cases scope) (auto simp: stored_params_def Let_def)

lemma new_job_adds:
  "adds_one_job P uuid jt p by_user (new_job now uuid jt (norm_row P (stored_params p by_user scope)) reason by_user)"
  by (auto simp: adds_one_job_def new_job_def dget_norm_row stored_params_get)

lemma enqueue_cases:
  assumes "enqueue P now uuid rid jt p by_user role reason d = (r, d')"
  obtains (failed) e where "r = Inl e" "d' = d"
    | (added) stored a where "r = Inr (uuid, now)" "enqueue_check P jt p by_user role d = Inr stored"
      "d' = d\<lparr>admin_jobs := admin_jobs d @ [new_job now uuid jt (norm_row P stored) reason by_user],
         action_audit := action_audit d @ [a]\<rparr>" "aa_actor a = by_user"
proof (cases "enqueue_check P jt p by_user role d")
  case (Inl e)
  then show thesis using failed assms by (auto simp: enqueue_def)
next
  case (Inr stored)
  then obtain scope where s: "stored = stored_params p by_user scope" by (rule enqueue_check_Inr)
  show thesis
  proof (cases "enqueue_insert P now uuid jt stored reason by_user d")
    case (Inl e)
    then show thesis using failed assms Inr by (auto simp: enqueue_def)
  next
    case ins: (Inr d1)
    then have "json_storable (PDict (public_params p))"
      "d1 = d\<lparr>admin_jobs := admin_jobs d @ [new_job now uuid jt (norm_row P stored) reason by_user]\<rparr>"
      using public_storable unfolding enqueue_insert_Inr s by blast+
    then show thesis using assms Inr ins
      by (intro added) (auto simp: enqueue_def write_audit_def jsonb_opt_def jsonb_def audit_entry_def)
  qed
qed


section \<open>Destructive jobs ask for a typed confirmation\<close>

definition confirmation_word :: "string \<Rightarrow> row \<Rightarrow> string option" where
  "confirmation_word jt p =
     (if jt = ''refresh_all'' then Some ''REFRESH ALL''
      else if dry_run_requested p then None
      else if jt = ''reset_schemas'' then Some (reset_confirmation p)
      else if jt = ''reset_path_b'' then Some ''PATH B''
      else if jt = ''nightly_refresh'' then Some ''REBUILD''
      else None)"

lemma require_reason_Inr: "require_reason reason = Inr s \<longleftrightarrow> (\<exists>r. reason = Some r \<and> s = str_strip r \<and> s \<noteq> [])"
  by (auto simp: require_reason_def split: option.splits)

lemma str_strip_Nil [simp]: "str_strip [] = []"
  by (simp add: str_strip_def str_lstrip_def str_rstrip_def)

lemma require_typed_confirm_Inr:
  assumes "require_typed_confirm P confirm (PStr w) = Inr u" and "w \<noteq> []"
  shows "\<exists>c. confirm = Some c \<and> str_strip c = w"
  using assms by (cases confirm) (auto simp: require_typed_confirm_def split: if_splits)

lemma reset_confirmation_word: "reset_confirmation p \<in> {''SOURCE'', ''TARGET'', ''RESET ALL''}"
  by (simp add: reset_confirmation_def Let_def)


section \<open>The event stream\<close>

definition for_job :: "string option \<Rightarrow> job_event \<Rightarrow> bool" where
  "for_job job_id e = (nonempty job_id \<longrightarrow> Some (je_job e) = job_id)"

definition pending_events :: "int \<Rightarrow> string option \<Rightarrow> admin_db \<Rightarrow> job_event list" where
  "pending_events start job_id d = filter (\<lambda>e. start < je_id e \<and> for_job job_id e) (job_events d)"

definition log_ordered :: "admin_db \<Rightarrow> bool" where
  "log_ordered d = sorted_wrt (<) (map je_id (job_events d))"

lemma sorted_filter_ids:
  "sorted_wrt (<) (map je_id es) \<Longrightarrow> sorted_wrt (<) (map je_id (filter Q es))"
  by (induction es) auto

lemma job_events_after_pending:
  assumes "log_ordered d"
  shows "job_events_after start job_id n d = take n (pending_events start job_id d)"
proof -
  have "sorted_wrt (<) (map je_id (pending_events start job_id d))"
    using assms unfolding log_ordered_def pending_events_def by (rule sorted_filter_ids)
  then have "sort_key je_id (pending_events start job_id d) = pending_events start job_id d"
    by (intro sort_key_id_if_sorted strict_sorted_imp_sorted)
  then show ?thesis by (simp add: job_events_after_def pending_events_def for_job_def)
qed

lemma pending_after:
  assumes "log_ordered d" and "pending_events start job_id d = es @ rest" and "es \<noteq> []"
  shows "pending_events (je_id (last es)) job_id d = rest"
proof -
  let ?m = "je_id (last es)"
  have sorted: "sorted_wrt (<) (map je_id (es @ rest))"
    using assms(1) sorted_filter_ids unfolding assms(2) [symmetric] log_ordered_def pending_events_def by blast
  obtain xs x where es: "es = xs @ [x]" using assms(3) rev_exhaust by blast
  have early: "\<not> ?m < je_id e" if "e \<in> set es" for e
    using that sorted unfolding es by (auto simp: sorted_wrt_append)
  have late: "?m < je_id e" if "e \<in> set rest" for e
    using that sorted unfolding es by (auto simp: sorted_wrt_append)
  have "x \<in> set (pending_events start job_id d)" unfolding assms(2) es by simp
  then have "start < ?m" unfolding es by (simp add: pending_events_def)
  then have "pending_events ?m job_id d = filter (\<lambda>e. ?m < je_id e) (pending_events start job_id d)"
    unfolding pending_events_def filter_filter by (intro filter_cong) auto
  also have "\<dots> = rest"
    unfolding assms(2) filter_append using early late by (simp add: filter_empty_conv filter_id_conv)
  finally show ?thesis .
qed


section \<open>Examples\<close>

definition operator_user :: admin_user where
  "operator_user = \<lparr>usr_id = 1, usr_name = ''al'', usr_role = ''operator''\<rparr>"



definition log_of :: "int list \<Rightarrow> admin_db" where
  "log_of is = empty_admin\<lparr>job_events := map (\<lambda>i. \<lparr>je_id = i, je_job = ''j1'', je_type = ''progress'',
     je_message = [], je_data = None, je_at = i\<rparr>) is\<rparr>"


section \<open>What the gates let through\<close>

text \<open>
  The gate reads \<open>dry_run\<close> by its truth value, the handler by its text: the text \<open>false\<close> skips
  the typed confirmation and the reason, and then runs for real.
\<close>

theorem dry_run_text_skips_confirmation:
  "fst (submit_job sample_runtime 5 ''j1'' ''r1'' empty_central operator_user ''reset_path_b''
       [(''dry_run'', PStr ''false'')] (Some ''why'') None empty_admin) = Inr (''j1'', 5)
   \<and> h_reset_path_b sample_runtime [] [(''dry_run'', PStr ''false'')] = Inr (Reset_path_b False)
   \<and> fst (submit_job sample_runtime 5 ''j1'' ''r1'' empty_central root_user ''nightly_refresh''
       [(''dry_run'', PStr ''false'')] None None empty_admin) = Inr (''j1'', 5)"
  by (intro conjI; code_simp)

text \<open>
  A null \<open>reset_source\<close> is no to the gate, which asks for the word of a target reset, and yes to
  the handler, which resets the source too.
\<close>

theorem null_flag_confirms_less_than_it_resets:
  "reset_confirmation [(''reset_source'', PNone)] = ''TARGET''
   \<and> h_reset_schemas sample_runtime [] [(''reset_source'', PNone), (''_actor'', PStr ''al'')]
     = Inr (Reset_all True True None (PStr ''al'') False (PStr ''IRIMSV_REGION_V'') 1000)"
  by (intro conjI; code_simp)

text \<open>
  The look for a live job and the insert are two statements without a lock: two requests whose
  looks both come first are both accepted, and two live jobs hold one scope.
\<close>

theorem concurrent_enqueue_breaks_single_flight:
  "\<exists>s d1 d2. enqueue_check sample_runtime ''nightly_refresh'' [] ''root'' ''admin'' empty_admin = Inr s
     \<and> enqueue_insert sample_runtime 5 ''j1'' ''nightly_refresh'' s None ''root'' empty_admin = Inr d1
     \<and> enqueue_insert sample_runtime 6 ''j2'' ''nightly_refresh'' s None ''root'' d1 = Inr d2
     \<and> length (filter (holds_scope sample_runtime ''nightly-refresh'') (admin_jobs d2)) = 2"
proof -
  let ?s = "stored_params [] ''root'' (Some ''nightly-refresh'')"
  let ?j = "\<lambda>now uuid. new_job now uuid ''nightly_refresh'' (norm_row sample_runtime ?s) None ''root''"
  have "enqueue_check sample_runtime ''nightly_refresh'' [] ''root'' ''admin'' empty_admin = Inr ?s" by code_simp
  moreover have "json_storable (PDict ?s)" by code_simp
  moreover have "holds_scope sample_runtime ''nightly-refresh'' (?j 5 ''j1'')" "holds_scope sample_runtime ''nightly-refresh'' (?j 6 ''j2'')"
    by code_simp+
  moreover define d1 where "d1 = empty_admin\<lparr>admin_jobs := [?j 5 ''j1'']\<rparr>"
  moreover define d2 where "d2 = empty_admin\<lparr>admin_jobs := [?j 5 ''j1'', ?j 6 ''j2'']\<rparr>"
  moreover have "enqueue_insert sample_runtime 5 ''j1'' ''nightly_refresh'' ?s None ''root'' empty_admin = Inr d1"
    unfolding enqueue_insert_Inr d1_def using calculation(2) by (simp add: empty_admin_def)
  moreover have "enqueue_insert sample_runtime 6 ''j2'' ''nightly_refresh'' ?s None ''root'' d1 = Inr d2"
    unfolding enqueue_insert_Inr d1_def d2_def using calculation(2) by (simp add: new_job_def)
  moreover have "length (filter (holds_scope sample_runtime ''nightly-refresh'') (admin_jobs d2)) = 2"
    unfolding d2_def using calculation(3,4) by simp
  ultimately show ?thesis by blast
qed

text \<open>The two names of one deployment have scopes of their own, so both can run for one proposal.\<close>

theorem deploy_names_do_not_exclude:
  "h_deploy = h_deploy_lrmis \<and> scope_of P ''deploy'' p \<noteq> scope_of P ''deploy_lrmis'' p"
  by (auto simp: fun_eq_iff h_deploy_def h_deploy_lrmis_def scope_of_def)

text \<open>A client may send the scope itself with an unscoped job, and so block another job.\<close>

theorem client_scope_blocks_other_jobs:
  "\<exists>d e. enqueue sample_runtime 5 ''j1'' ''r1'' ''monitor'' [(''_scope'', PStr ''nightly-refresh'')] ''al'' ''operator'' None empty_admin
       = (Inr (''j1'', 5), d)
     \<and> enqueue_check sample_runtime ''nightly_refresh'' [] ''root'' ''admin'' d = Inl (ConflictError e)"
proof -
  let ?run = "enqueue sample_runtime 5 ''j1'' ''r1'' ''monitor'' [(''_scope'', PStr ''nightly-refresh'')] ''al'' ''operator'' None empty_admin"
  have "fst ?run = Inr (''j1'', 5)" by code_simp
  then have "?run = (Inr (''j1'', 5), snd ?run)" by (metis prod.collapse)
  moreover have "enqueue_check sample_runtime ''nightly_refresh'' [] ''root'' ''admin'' (snd ?run)
      = Inl (ConflictError ''job j1 is already nightly_refresh on the same target'')" by code_simp
  ultimately show ?thesis by blast
qed

lemma map_res_member: "map_res f xs = Inr ys \<Longrightarrow> x \<in> set xs \<Longrightarrow> \<exists>y. f x = Inr y"
  by (induction xs arbitrary: ys) (auto simp: res_bind_Inr_iff)

text \<open>One job whose \<open>proposal_id\<close> is no number makes the list of jobs unreadable.\<close>

theorem malformed_proposal_breaks_list:
  assumes "j \<in> set (take limit (rev (sort_key jb_created (admin_jobs d))))"
    and "json_field P (jb_params j) ''proposal_id'' = Some s" and "s \<noteq> []" and "int_of_str s = Inl e"
  shows "\<exists>e'. list_jobs P limit d = Inl e'"
proof (rule ccontr)
  assume "\<not> ?thesis"
  then obtain rs where "list_jobs P limit d = Inr rs" by (cases "list_jobs P limit d") auto
  then have "\<exists>y. res_bind (listed_proposal P j) (\<lambda>n. Inr (j, n)) = Inr y"
    using assms(1) unfolding list_jobs_def by (rule map_res_member)
  then show False using assms(2-4) by (auto simp: listed_proposal_def res_bind_Inr_iff)
qed

end
