(* ===== verification/Job_Runner.thy ===== *)
theory Job_Runner
  imports Admin_Jobs
begin

text \<open>
  \<open>src/admin_api/jobs.py\<close>, the part that runs in threads: the job context (events and
  progress), the claim, the reaper, the heartbeat, the dispatcher's pass and the execution of
  one job, first as functions, then as a step relation in which requests, dispatcher, pool
  threads, heartbeat and reaper interleave at their transactions. A pool thread is in a
  \<^emph>\<open>phase\<close>: between two of its database accesses, each of which may fail.
\<close>

section \<open>Statements\<close>

definition job_heartbeat_seconds :: int where "job_heartbeat_seconds = 10"
definition job_stale_seconds :: int where "job_stale_seconds = 60"
definition micro :: int where "micro = 1000000"

definition emit :: "runtime \<Rightarrow> int \<Rightarrow> string \<Rightarrow> string \<Rightarrow> string \<Rightarrow> pyval option \<Rightarrow> admin_db \<Rightarrow> admin_db res" where
  "emit P now job_id kind message data d = res_bind (jsonb_opt P data) (\<lambda>doc.
     if \<exists>j \<in> set (admin_jobs d). jb_id j = job_id
     then Inr (d\<lparr>next_event := next_event d + 1, job_events := job_events d @
       [\<lparr>je_id = next_event d, je_job = job_id, je_type = kind, je_message = message, je_data = doc, je_at = now\<rparr>]\<rparr>)
     else Inl (DbError ''insert violates foreign key constraint''))"

definition update_job :: "string \<Rightarrow> (job_row \<Rightarrow> job_row) \<Rightarrow> admin_db \<Rightarrow> admin_db" where
  "update_job job_id f d = d\<lparr>admin_jobs := update_where (\<lambda>j. jb_id j = job_id) f (admin_jobs d)\<rparr>"

definition progress_data :: "int \<Rightarrow> int option \<Rightarrow> pyval" where
  "progress_data current whole = PDict [(''current'', PInt current),
     (''total'', case whole of None \<Rightarrow> PNone | Some t \<Rightarrow> PInt t)]"

definition progress :: "runtime \<Rightarrow> int \<Rightarrow> string \<Rightarrow> int \<Rightarrow> int option \<Rightarrow> string \<Rightarrow> admin_db \<Rightarrow> admin_db res" where
  "progress P now job_id current whole message d =
     emit P now job_id ''progress'' message (Some (progress_data current whole))
       (update_job job_id (\<lambda>j. j\<lparr>jb_current := current,
          jb_total := (case whole of None \<Rightarrow> jb_total j | Some t \<Rightarrow> Some t), jb_heartbeat := Some now\<rparr>) d)"

text \<open>The claim: the oldest queued job no other transaction has locked becomes running.\<close>

definition start_job :: "int \<Rightarrow> job_row \<Rightarrow> job_row" where
  "start_job now j = j\<lparr>jb_status := JRunning, jb_started := Some now, jb_heartbeat := Some now\<rparr>"

definition queued_jobs :: "string set \<Rightarrow> admin_db \<Rightarrow> job_row list" where
  "queued_jobs locked d = sort_key jb_created (filter (\<lambda>j. jb_status j = JQueued \<and> jb_id j \<notin> locked) (admin_jobs d))"

definition claim :: "int \<Rightarrow> string set \<Rightarrow> admin_db \<Rightarrow> job_row option \<times> admin_db" where
  "claim now locked d = (case queued_jobs locked d of
     [] \<Rightarrow> (None, d)
   | j # js \<Rightarrow> (Some (start_job now j), update_job (jb_id j) (start_job now) d))"

definition stale :: "int \<Rightarrow> job_row \<Rightarrow> bool" where
  "stale now j = (jb_status j = JRunning
     \<and> (case jb_heartbeat j of None \<Rightarrow> False | Some t \<Rightarrow> t < now - job_stale_seconds * micro))"

definition stale_message :: string where
  "stale_message = ''stale heartbeat - runner crashed or restarted''"

definition emit_reaped :: "runtime \<Rightarrow> int \<Rightarrow> string \<Rightarrow> admin_db \<Rightarrow> admin_db res" where
  "emit_reaped P now job_id d =
     emit P now job_id ''failed'' ''stale heartbeat - marked failed by reaper'' None d"

definition reap :: "runtime \<Rightarrow> int \<Rightarrow> admin_db \<Rightarrow> admin_db res" where
  "reap P now d = fold_res (emit_reaped P now) (map jb_id (filter (stale now) (admin_jobs d)))
     (d\<lparr>admin_jobs := update_where (stale now) (\<lambda>j. j\<lparr>jb_status := JFailed, jb_finished := Some now,
          jb_error := Some stale_message\<rparr>) (admin_jobs d)\<rparr>)"

definition heartbeat :: "int \<Rightarrow> string list \<Rightarrow> admin_db \<Rightarrow> admin_db" where
  "heartbeat now active d = (if active = [] then d
     else d\<lparr>admin_jobs := update_where (\<lambda>j. jb_id j \<in> set active \<and> jb_status j = JRunning)
       (\<lambda>j. j\<lparr>jb_heartbeat := Some now\<rparr>) (admin_jobs d)\<rparr>)"

section \<open>Running one job\<close>

text \<open>What the handler gives: its own error, or what the service it calls gives.\<close>

definition handler_outcome ::
  "runtime \<Rightarrow> string list \<Rightarrow> (service_call \<Rightarrow> pyval res) \<Rightarrow> job_row \<Rightarrow> pyval res" where
  "handler_outcome P dep serve j = (case dget job_handlers (jb_type j) of
     None \<Rightarrow> Inl (KeyError (jb_type j))
   | Some h \<Rightarrow> res_bind (h P dep (jb_params j)) serve)"

definition job_actor :: "runtime \<Rightarrow> job_row \<Rightarrow> string" where
  "job_actor P j = py_str P (pget (jb_params j) ''_actor'' (PStr (jb_requested_by j)))"

datatype phase = Submitted | Started | Returned pyval | Saved pyval | Failing exn | Marked exn
  | Reported exn | Over | Died

definition dict_result :: "pyval \<Rightarrow> pyval option" where
  "dict_result v = (case v of PDict kvs \<Rightarrow> Some v | _ \<Rightarrow> None)"

definition no_connection :: exn where
  "no_connection = DbError ''could not connect to server''"

text \<open>
  One step of the thread: the database access of its phase, which fails when \<open>fault\<close> holds. An
  exception before the \<open>try\<close> kills the thread at once; one inside it leads to the failure
  branch; one in the failure branch leaves through the \<open>finally\<close>.
\<close>

definition advance ::
  "runtime \<Rightarrow> int \<Rightarrow> string \<Rightarrow> pyval res \<Rightarrow> bool \<Rightarrow> job_row \<Rightarrow> phase \<Rightarrow> admin_db \<Rightarrow> phase \<times> admin_db" where
  "advance P now rid outcome fault j ph d = (case ph of
     Submitted \<Rightarrow> (if fault then (Died, d) else
       (case emit P now (jb_id j) ''started'' (jb_type j @ '' started by '' @ job_actor P j) None d of
          Inl e \<Rightarrow> (Died, d) | Inr d' \<Rightarrow> (Started, d')))
   | Started \<Rightarrow> (case outcome of Inl e \<Rightarrow> (Failing e, d) | Inr v \<Rightarrow> (Returned v, d))
   | Returned v \<Rightarrow> (if fault then (Failing no_connection, d) else
       (case jsonb P v of
          Inl e \<Rightarrow> (Failing e, d)
        | Inr doc \<Rightarrow> (Saved v, update_job (jb_id j) (\<lambda>j. j\<lparr>jb_status := JSucceeded,
            jb_finished := Some now, jb_result := Some doc\<rparr>) d)))
   | Saved v \<Rightarrow> (if fault then (Failing no_connection, d) else
       (case emit P now (jb_id j) ''succeeded'' (jb_type j @ '' finished'') (dict_result v) d of
          Inl e \<Rightarrow> (Failing e, d) | Inr d' \<Rightarrow> (Over, d')))
   | Failing e \<Rightarrow> (if fault then (Over, d)
       else (Marked e, update_job (jb_id j) (\<lambda>j. j\<lparr>jb_status := JFailed,
            jb_finished := Some now, jb_error := Some (exn_str e)\<rparr>) d))
   | Marked e \<Rightarrow> (if fault then (Over, d) else
       (case emit P now (jb_id j) ''failed'' (exn_str e) None d of
          Inl e' \<Rightarrow> (Over, d) | Inr d' \<Rightarrow> (Reported e, d')))
   | Reported e \<Rightarrow> (if fault then (Over, d) else
       (case write_audit P now rid (job_actor P j) (''job:'' @ jb_type j)
            \<lparr>ai_target_type = Some ''admin_job'', ai_target_id = Some (jb_id j), ai_reason = None, ai_details = None\<rparr>
            ''failure'' (Some (exn_str e)) d of
          Inl e' \<Rightarrow> (Over, d) | Inr d' \<Rightarrow> (Over, d')))
   | Over \<Rightarrow> (Over, d)
   | Died \<Rightarrow> (Died, d))"

fun phase_rank :: "phase \<Rightarrow> nat" where
  "phase_rank Submitted = 7"
| "phase_rank Started = 6"
| "phase_rank (Returned v) = 5"
| "phase_rank (Saved v) = 4"
| "phase_rank (Failing e) = 3"
| "phase_rank (Marked e) = 2"
| "phase_rank (Reported e) = 1"
| "phase_rank Over = 0"
| "phase_rank Died = 0"

lemma advance_rank: "phase_rank ph \<noteq> 0 \<Longrightarrow> phase_rank (fst (advance P now rid outcome fault j ph d)) < phase_rank ph"
  by (cases ph) (auto simp: advance_def split: sum.splits)

lemma advance_ranked:
  assumes "advance P now rid outcome fault j ph d = (ph', d')" and "0 < phase_rank ph"
  shows "phase_rank ph' < phase_rank ph"
  using advance_rank [of ph P now rid outcome fault j d] assms by simp

text \<open>The whole run: the phases one after another until the thread is over or dead.\<close>

function run_phases ::
  "runtime \<Rightarrow> int \<Rightarrow> string \<Rightarrow> pyval res \<Rightarrow> (phase \<Rightarrow> bool) \<Rightarrow> job_row \<Rightarrow> phase \<Rightarrow> admin_db \<Rightarrow> phase \<times> admin_db" where
  "run_phases P now rid outcome faults j ph d =
     (if phase_rank ph = 0 then (ph, d)
      else (case advance P now rid outcome (faults ph) j ph d of (ph', d') \<Rightarrow> run_phases P now rid outcome faults j ph' d'))"
  by auto
termination
  by (relation "measure (\<lambda>(P, now, rid, outcome, faults, j, ph, d). phase_rank ph)")
    (auto split: prod.splits dest: advance_ranked)

declare run_phases.simps [simp del]

definition run_job ::
  "runtime \<Rightarrow> int \<Rightarrow> string \<Rightarrow> pyval res \<Rightarrow> (phase \<Rightarrow> bool) \<Rightarrow> job_row \<Rightarrow> admin_db \<times> string list \<Rightarrow> phase \<times> admin_db \<times> string list" where
  "run_job P now rid outcome faults j s = (case s of (d, active) \<Rightarrow>
     (case run_phases P now rid outcome faults j Submitted d of (ph, d') \<Rightarrow>
       (ph, d', if ph = Over then removeAll (jb_id j) active else active)))"

section \<open>The runner\<close>

record runner =
  rn_db :: admin_db
  rn_active :: "string list"
  rn_threads :: "(job_row \<times> phase) list"

definition take_job :: "int \<Rightarrow> string set \<Rightarrow> runner \<Rightarrow> runner option" where
  "take_job now locked s = (case claim now locked (rn_db s) of
     (None, d) \<Rightarrow> None
   | (Some j, d) \<Rightarrow> Some (s\<lparr>rn_db := d, rn_active := List.insert (jb_id j) (rn_active s),
        rn_threads := rn_threads s @ [(j, Submitted)]\<rparr>))"

definition queued_count :: "runner \<Rightarrow> nat" where
  "queued_count s = length (queued_jobs {} (rn_db s))"

lemma queued_count_take:
  assumes "take_job now locked s = Some s'"
  shows "queued_count s' < queued_count s"
proof -
  obtain j js where q: "queued_jobs locked (rn_db s) = j # js"
    and s': "rn_db s' = update_job (jb_id j) (start_job now) (rn_db s)"
    using assms by (auto simp: take_job_def claim_def split: list.splits)
  have "j \<in> set (queued_jobs locked (rn_db s))" by (simp add: q)
  then have j: "j \<in> set (admin_jobs (rn_db s))" "jb_status j = JQueued" by (auto simp: queued_jobs_def)
  have "filter (\<lambda>k. jb_status k = JQueued) (update_where (\<lambda>k. jb_id k = jb_id j) (start_job now) ks)
      = filter (\<lambda>k. jb_status k = JQueued \<and> jb_id k \<noteq> jb_id j) ks" for ks
    by (induction ks) (auto simp: update_where_def start_job_def)
  then have "queued_count s' = length (filter (\<lambda>k. jb_status k = JQueued \<and> jb_id k \<noteq> jb_id j) (admin_jobs (rn_db s)))"
    by (simp add: queued_count_def queued_jobs_def s' update_job_def)
  also have "\<dots> < length (filter (\<lambda>k. jb_status k = JQueued) (admin_jobs (rn_db s)))"
  proof -
    have "filter (\<lambda>k. jb_status k = JQueued \<and> jb_id k \<noteq> jb_id j) ks
        = filter (\<lambda>k. jb_id k \<noteq> jb_id j) (filter (\<lambda>k. jb_status k = JQueued) ks)" for ks :: "job_row list"
      by (simp add: conj_commute)
    moreover have "length (filter (\<lambda>k. jb_id k \<noteq> jb_id j) (filter (\<lambda>k. jb_status k = JQueued) (admin_jobs (rn_db s))))
        < length (filter (\<lambda>k. jb_status k = JQueued) (admin_jobs (rn_db s)))"
      by (rule length_filter_less [of j]) (use j in auto)
    ultimately show ?thesis by simp
  qed
  finally show ?thesis by (simp add: queued_count_def queued_jobs_def)
qed

text \<open>The inner loop of the dispatcher: claim and hand to the pool until nothing is queued.\<close>

function claim_loop :: "int \<Rightarrow> string set \<Rightarrow> runner \<Rightarrow> runner" where
  "claim_loop now locked s = (case take_job now locked s of None \<Rightarrow> s | Some s' \<Rightarrow> claim_loop now locked s')"
  by auto
termination
  by (relation "measure (\<lambda>(now, locked, s). queued_count s)") (auto dest: queued_count_take)

declare claim_loop.simps [simp del]

text \<open>One turn of the dispatch loop; an exception ends the turn, not the loop.\<close>

definition dispatch_pass :: "runtime \<Rightarrow> int \<Rightarrow> string set \<Rightarrow> runner \<Rightarrow> runner" where
  "dispatch_pass P now locked s = (case reap P now (rn_db s) of
     Inl e \<Rightarrow> s | Inr d \<Rightarrow> claim_loop now locked (s\<lparr>rn_db := d\<rparr>))"

definition executing :: "phase \<Rightarrow> bool" where
  "executing ph = (ph \<noteq> Submitted \<and> phase_rank ph \<noteq> 0)"

text \<open>
  The steps. A request inserts whatever its check let through, and the check may have seen any
  earlier database; the pool starts a thread while fewer than \<open>workers\<close> execute; the service
  behind a handler may give any outcome.
\<close>

inductive runner_step :: "runtime \<Rightarrow> nat \<Rightarrow> runner \<Rightarrow> runner \<Rightarrow> bool" for P workers where
  request: "enqueue_check P jt p by_user role d0 = Inr stored \<Longrightarrow>
     enqueue_insert P now uuid jt stored reason by_user (rn_db s) = Inr d' \<Longrightarrow>
     runner_step P workers s (s\<lparr>rn_db := d'\<rparr>)"
| dispatch: "take_job now locked s = Some s' \<Longrightarrow> runner_step P workers s s'"
| thread: "i < length (rn_threads s) \<Longrightarrow> rn_threads s ! i = (j, ph) \<Longrightarrow>
     ph = Submitted \<longrightarrow> length (filter (executing \<circ> snd) (rn_threads s)) < workers \<Longrightarrow>
     ph = Started \<longrightarrow> outcome = handler_outcome P dep serve j \<Longrightarrow>
     advance P now rid outcome fault j ph (rn_db s) = (ph', d') \<Longrightarrow>
     runner_step P workers s (s\<lparr>rn_db := d', rn_threads := (rn_threads s)[i := (j, ph')],
       rn_active := (if ph' = Over then removeAll (jb_id j) (rn_active s) else rn_active s)\<rparr>)"
| tick: "(j, Started) \<in> set (rn_threads s) \<Longrightarrow> progress P now (jb_id j) current whole message (rn_db s) = Inr d' \<Longrightarrow>
     runner_step P workers s (s\<lparr>rn_db := d'\<rparr>)"
| beat: "runner_step P workers s (s\<lparr>rn_db := heartbeat now (rn_active s) (rn_db s)\<rparr>)"
| reaper: "reap P now (rn_db s) = Inr d' \<Longrightarrow> runner_step P workers s (s\<lparr>rn_db := d'\<rparr>)"

inductive_cases runner_stepE: "runner_step P workers s s'"

inductive runner_reachable :: "runtime \<Rightarrow> nat \<Rightarrow> runner \<Rightarrow> bool" for P workers where
  start: "runner_reachable P workers \<lparr>rn_db = empty_admin, rn_active = [], rn_threads = []\<rparr>"
| step: "runner_reachable P workers s \<Longrightarrow> runner_step P workers s s' \<Longrightarrow> runner_reachable P workers s'"

section \<open>The invariant\<close>

definition job_ok :: "job_row \<Rightarrow> bool" where
  "job_ok j = (case jb_status j of
       JQueued \<Rightarrow> jb_started j = None \<and> jb_heartbeat j = None \<and> jb_finished j = None
     | JRunning \<Rightarrow> jb_started j \<noteq> None \<and> jb_heartbeat j \<noteq> None \<and> jb_finished j = None
     | JSucceeded \<Rightarrow> jb_started j \<noteq> None \<and> jb_finished j \<noteq> None \<and> jb_result j \<noteq> None
     | JFailed \<Rightarrow> jb_started j \<noteq> None \<and> jb_finished j \<noteq> None \<and> jb_error j \<noteq> None
     | JCancelled \<Rightarrow> False)"

definition handed_out :: "admin_db \<Rightarrow> string \<Rightarrow> bool" where
  "handed_out d job_id = (\<exists>j \<in> set (admin_jobs d). jb_id j = job_id \<and> jb_status j \<noteq> JQueued)"

definition db_inv :: "admin_db \<Rightarrow> bool" where
  "db_inv d = (distinct (map jb_id (admin_jobs d)) \<and> (\<forall>j \<in> set (admin_jobs d). job_ok j)
     \<and> log_ordered d \<and> (\<forall>e \<in> set (job_events d). je_id e < next_event d \<and> je_job e \<in> jb_id ` set (admin_jobs d)))"

definition thread_ids :: "runner \<Rightarrow> string list" where
  "thread_ids s = map (\<lambda>t. jb_id (fst t)) (rn_threads s)"

definition runner_inv :: "runner \<Rightarrow> bool" where
  "runner_inv s = (db_inv (rn_db s) \<and> distinct (thread_ids s) \<and> (\<forall>i \<in> set (thread_ids s). handed_out (rn_db s) i))"

text \<open>A statement that keeps every job's id, hands no job back to the queue and leaves rows well formed.\<close>

definition keeps_jobs :: "admin_db \<Rightarrow> admin_db \<Rightarrow> bool" where
  "keeps_jobs d d' = (map jb_id (admin_jobs d') = map jb_id (admin_jobs d)
     \<and> (\<forall>i. handed_out d i \<longrightarrow> handed_out d' i) \<and> (db_inv d \<longrightarrow> db_inv d'))"

lemma keeps_jobs_refl [simp]: "keeps_jobs d d"
  by (simp add: keeps_jobs_def)

lemma keeps_jobs_trans: "keeps_jobs a b \<Longrightarrow> keeps_jobs b c \<Longrightarrow> keeps_jobs a c"
  by (simp add: keeps_jobs_def)

lemma keeps_jobs_update:
  assumes "\<And>j. jb_id (f j) = jb_id j" and "\<And>j. Q j \<Longrightarrow> jb_status j \<noteq> JQueued \<Longrightarrow> jb_status (f j) \<noteq> JQueued"
    and "db_inv d \<Longrightarrow> \<forall>j \<in> set (admin_jobs d). Q j \<longrightarrow> job_ok (f j)"
  shows "keeps_jobs d (d\<lparr>admin_jobs := update_where Q f (admin_jobs d)\<rparr>)"
proof -
  have ids: "map jb_id (update_where Q f (admin_jobs d)) = map jb_id (admin_jobs d)"
    using assms(1) by (simp add: map_update_where)
  then have ids_set: "jb_id ` set (update_where Q f (admin_jobs d)) = jb_id ` set (admin_jobs d)"
    by (metis set_map)
  have "handed_out (d\<lparr>admin_jobs := update_where Q f (admin_jobs d)\<rparr>) i" if "handed_out d i" for i
  proof -
    obtain j where "j \<in> set (admin_jobs d)" "jb_id j = i" "jb_status j \<noteq> JQueued"
      using \<open>handed_out d i\<close> by (auto simp: handed_out_def)
    moreover have "(if Q j then f j else j) \<in> set (update_where Q f (admin_jobs d))"
      using calculation(1) by (auto simp: in_update_where)
    moreover have "jb_id (if Q j then f j else j) = i" "jb_status (if Q j then f j else j) \<noteq> JQueued"
      using calculation(2,3) assms(1,2) by simp_all
    ultimately show ?thesis unfolding handed_out_def by auto
  qed
  moreover have "db_inv (d\<lparr>admin_jobs := update_where Q f (admin_jobs d)\<rparr>)" if "db_inv d"
  proof -
    have "\<forall>j \<in> set (update_where Q f (admin_jobs d)). job_ok j"
      by (rule update_where_all) (use assms(3) that in \<open>auto simp: db_inv_def\<close>)
    then show ?thesis using that ids ids_set by (simp add: db_inv_def log_ordered_def)
  qed
  ultimately show ?thesis using ids by (simp add: keeps_jobs_def)
qed

lemma keeps_jobs_emit:
  assumes "emit P now job_id kind message data d = Inr d'"
  shows "keeps_jobs d d'"
proof -
  obtain doc where d': "d' = d\<lparr>next_event := next_event d + 1, job_events := job_events d @
       [\<lparr>je_id = next_event d, je_job = job_id, je_type = kind, je_message = message, je_data = doc, je_at = now\<rparr>]\<rparr>"
    and j: "job_id \<in> jb_id ` set (admin_jobs d)"
    using assms by (auto simp: emit_def res_bind_Inr_iff split: if_splits)
  have "db_inv d'" if "db_inv d"
    using that j unfolding d' by (auto simp: db_inv_def log_ordered_def sorted_wrt_append)
  then show ?thesis by (simp add: keeps_jobs_def handed_out_def d')
qed

lemma keeps_jobs_audit:
  "write_audit P now rid actor action i result error d = Inr d' \<Longrightarrow> keeps_jobs d d'"
  by (auto simp: write_audit_def res_bind_Inr_iff keeps_jobs_def handed_out_def db_inv_def log_ordered_def)

lemma handed_out_started:
  assumes "db_inv d" and "handed_out d i" and "j \<in> set (admin_jobs d)" and "jb_id j = i"
  shows "jb_status j \<noteq> JQueued \<and> jb_started j \<noteq> None"
proof -
  obtain k where k: "k \<in> set (admin_jobs d)" "jb_id k = i" "jb_status k \<noteq> JQueued"
    using assms(2) by (auto simp: handed_out_def)
  then have "k = j" using assms by (auto simp: db_inv_def distinct_map dest: inj_onD)
  moreover have "job_ok j" using assms(1,3) by (simp add: db_inv_def)
  ultimately show ?thesis using k(3) by (auto simp: job_ok_def split: job_status.splits)
qed

lemma keeps_jobs_settle:
  assumes "handed_out d i" and "\<And>j. jb_id (f j) = jb_id j" and "\<And>j. jb_status (f j) \<noteq> JQueued"
    and "\<And>j. jb_started j \<noteq> None \<Longrightarrow> job_ok (f j)"
  shows "keeps_jobs d (update_job i f d)"
  unfolding update_job_def
  by (rule keeps_jobs_update) (use assms handed_out_started in \<open>auto\<close>)

lemma keeps_jobs_advance:
  assumes "handed_out d (jb_id j)" and "advance P now rid outcome fault j ph d = (ph', d')"
  shows "keeps_jobs d d'"
proof (cases "d' = d")
  case False
  have ok: "keeps_jobs d (update_job (jb_id j) (\<lambda>j. j\<lparr>jb_status := JSucceeded, jb_finished := Some now, jb_result := Some doc\<rparr>) d)"
    "keeps_jobs d (update_job (jb_id j) (\<lambda>j. j\<lparr>jb_status := JFailed, jb_finished := Some now, jb_error := Some e\<rparr>) d)" for doc e
    by (intro keeps_jobs_settle [OF assms(1)]; simp add: job_ok_def)+
  show ?thesis
    using assms(2) False
    by (cases ph) (auto simp: advance_def ok split: if_splits sum.splits dest: keeps_jobs_emit keeps_jobs_audit)
qed simp

lemma keeps_jobs_progress:
  assumes "handed_out d i" and "progress P now i current whole message d = Inr d'"
  shows "keeps_jobs d d'"
proof -
  let ?f = "\<lambda>j. j\<lparr>jb_current := current, jb_total := (case whole of None \<Rightarrow> jb_total j | Some t \<Rightarrow> Some t), jb_heartbeat := Some now\<rparr>"
  have "keeps_jobs d (update_job i ?f d)"
    unfolding update_job_def
  proof (rule keeps_jobs_update)
    assume inv: "db_inv d"
    show "\<forall>j \<in> set (admin_jobs d). jb_id j = i \<longrightarrow> job_ok (?f j)"
    proof (intro ballI impI)
      fix j assume j: "j \<in> set (admin_jobs d)" "jb_id j = i"
      have "job_ok j" using inv j(1) by (simp add: db_inv_def)
      then show "job_ok (?f j)" using handed_out_started [OF inv assms(1) j]
        by (auto simp: job_ok_def split: job_status.splits)
    qed
  qed simp_all
  moreover have "keeps_jobs (update_job i ?f d) d'"
    using assms(2) unfolding progress_def by (rule keeps_jobs_emit)
  ultimately show ?thesis by (rule keeps_jobs_trans)
qed

lemma keeps_jobs_heartbeat: "keeps_jobs d (heartbeat now active d)"
proof (cases "active = []")
  case False
  have "keeps_jobs d (d\<lparr>admin_jobs := update_where (\<lambda>j. jb_id j \<in> set active \<and> jb_status j = JRunning)
       (\<lambda>j. j\<lparr>jb_heartbeat := Some now\<rparr>) (admin_jobs d)\<rparr>)"
    by (rule keeps_jobs_update) (auto simp: db_inv_def job_ok_def)
  then show ?thesis using False by (simp add: heartbeat_def)
qed (simp add: heartbeat_def)

definition fail_stale :: "int \<Rightarrow> admin_db \<Rightarrow> admin_db" where
  "fail_stale now d = d\<lparr>admin_jobs := update_where (stale now) (\<lambda>j. j\<lparr>jb_status := JFailed,
     jb_finished := Some now, jb_error := Some stale_message\<rparr>) (admin_jobs d)\<rparr>"

lemma keeps_jobs_fail_stale: "keeps_jobs d (fail_stale now d)"
  unfolding fail_stale_def
  by (rule keeps_jobs_update) (auto simp: db_inv_def job_ok_def stale_def split: option.splits)

lemma emit_known_job:
  assumes "i \<in> jb_id ` set (admin_jobs d)"
  shows "emit P now i kind message None d = Inr (d\<lparr>next_event := next_event d + 1, job_events := job_events d @
       [\<lparr>je_id = next_event d, je_job = i, je_type = kind, je_message = message, je_data = None, je_at = now\<rparr>]\<rparr>)"
  using assms by (auto simp: emit_def jsonb_opt_def)

lemma emit_all_reaped:
  assumes "set is \<subseteq> jb_id ` set (admin_jobs d)"
  shows "\<exists>d'. fold_res (emit_reaped P now) is d = Inr d' \<and> admin_jobs d' = admin_jobs d \<and> keeps_jobs d d'
     \<and> (\<exists>es. job_events d' = job_events d @ es \<and> map je_job es = is \<and> (\<forall>e \<in> set es. je_type e = ''failed''))"
  using assms
proof (induction "is" arbitrary: d)
  case (Cons i "is")
  let ?e = "\<lparr>je_id = next_event d, je_job = i, je_type = ''failed'',
    je_message = ''stale heartbeat - marked failed by reaper'', je_data = None, je_at = now\<rparr>"
  let ?d = "d\<lparr>next_event := next_event d + 1, job_events := job_events d @ [?e]\<rparr>"
  have one: "emit_reaped P now i d = Inr ?d"
    unfolding emit_reaped_def by (rule emit_known_job) (use Cons.prems in simp)
  have keep: "keeps_jobs d ?d" using one unfolding emit_reaped_def by (rule keeps_jobs_emit)
  obtain d' es where "fold_res (emit_reaped P now) is ?d = Inr d'" "admin_jobs d' = admin_jobs d" "keeps_jobs ?d d'"
    "job_events d' = job_events d @ [?e] @ es" "map je_job es = is" "\<forall>e \<in> set es. je_type e = ''failed''"
    using Cons.IH [of ?d] Cons.prems by auto
  then show ?case using one keeps_jobs_trans [OF keep]
    by (intro exI [of _ d'] conjI exI [of _ "?e # es"]) simp_all
qed simp

lemma reap_runs:
  "\<exists>d'. reap P now d = Inr d' \<and> admin_jobs d' = admin_jobs (fail_stale now d) \<and> keeps_jobs d d'
     \<and> (\<exists>es. job_events d' = job_events d @ es \<and> map je_job es = map jb_id (filter (stale now) (admin_jobs d))
         \<and> (\<forall>e \<in> set es. je_type e = ''failed''))"
proof -
  have "jb_id ` set (admin_jobs (fail_stale now d)) = jb_id ` set (admin_jobs d)"
    using keeps_jobs_fail_stale [of d now] unfolding keeps_jobs_def by (metis set_map)
  then have "set (map jb_id (filter (stale now) (admin_jobs d))) \<subseteq> jb_id ` set (admin_jobs (fail_stale now d))" by auto
  from emit_all_reaped [OF this, of P now]
  obtain d' es where "fold_res (emit_reaped P now) (map jb_id (filter (stale now) (admin_jobs d))) (fail_stale now d) = Inr d'"
    "admin_jobs d' = admin_jobs (fail_stale now d)" "keeps_jobs (fail_stale now d) d'"
    "job_events d' = job_events d @ es" "map je_job es = map jb_id (filter (stale now) (admin_jobs d))"
    "\<forall>e \<in> set es. je_type e = ''failed''"
    by (auto simp: fail_stale_def)
  then show ?thesis using keeps_jobs_trans [OF keeps_jobs_fail_stale] by (auto simp: reap_def fail_stale_def)
qed

lemma db_inv_insert:
  assumes "enqueue_insert P now uuid jt stored reason by_user d = Inr d'" and "db_inv d"
  shows "db_inv d' \<and> (\<forall>i. handed_out d i \<longrightarrow> handed_out d' i)"
  using assms by (auto simp: enqueue_insert_Inr db_inv_def log_ordered_def job_ok_def new_job_def handed_out_def)

lemma claim_cases:
  assumes "claim now locked d = (Some k, d')"
  obtains j js where "queued_jobs locked d = j # js" "k = start_job now j" "d' = update_job (jb_id j) (start_job now) d"
    "j \<in> set (admin_jobs d)" "jb_status j = JQueued"
proof -
  obtain j js where q: "queued_jobs locked d = j # js"
    using assms by (auto simp: claim_def split: list.splits)
  have "j \<in> set (queued_jobs locked d)" by (simp add: q)
  then show thesis using that [OF q] assms q by (auto simp: claim_def queued_jobs_def)
qed

lemma claim_inv:
  assumes "claim now locked d = (Some k, d')" and "db_inv d"
  shows "keeps_jobs d d' \<and> \<not> handed_out d (jb_id k) \<and> handed_out d' (jb_id k)"
proof -
  obtain j where j: "k = start_job now j" "d' = update_job (jb_id j) (start_job now) d"
    "j \<in> set (admin_jobs d)" "jb_status j = JQueued"
    using claim_cases [OF assms(1)] by metis
  have only: "i = j" if "i \<in> set (admin_jobs d)" "jb_id i = jb_id j" for i
    using that j(3) assms(2) by (auto simp: db_inv_def distinct_map dest: inj_onD)
  have "job_ok j" using j(3) assms(2) by (simp add: db_inv_def)
  then have "job_ok (start_job now j)" using j(4) by (simp add: job_ok_def start_job_def)
  then have "keeps_jobs d d'"
    unfolding j(2) update_job_def
    by (intro keeps_jobs_update) (use only in \<open>auto simp: start_job_def\<close>)
  moreover have "\<not> handed_out d (jb_id k)" using only j(1,4) by (auto simp: handed_out_def start_job_def)
  moreover have "handed_out d' (jb_id k)"
    using j(3) unfolding j(1,2) handed_out_def update_job_def
    by (intro bexI [of _ "start_job now j"]) (auto simp: start_job_def in_update_where)
  ultimately show ?thesis by blast
qed

lemma runner_inv_keeps:
  assumes "runner_inv s" and "keeps_jobs (rn_db s) (rn_db s')" and "thread_ids s' = thread_ids s"
  shows "runner_inv s'"
  using assms by (auto simp: runner_inv_def keeps_jobs_def)

lemma runner_inv_take:
  assumes "runner_inv s" and "take_job now locked s = Some s'"
  shows "runner_inv s'"
proof -
  obtain k d' where c: "claim now locked (rn_db s) = (Some k, d')"
    and s': "rn_db s' = d'" "rn_threads s' = rn_threads s @ [(k, Submitted)]"
    using assms(2) by (auto simp: take_job_def split: prod.splits option.splits)
  have inv: "db_inv (rn_db s)" using assms(1) by (simp add: runner_inv_def)
  note k = claim_inv [OF c inv]
  have ids: "thread_ids s' = thread_ids s @ [jb_id k]" by (simp add: thread_ids_def s'(2))
  have "jb_id k \<notin> set (thread_ids s)" using k assms(1) by (auto simp: runner_inv_def)
  then show ?thesis using k assms(1) unfolding runner_inv_def ids s'(1) keeps_jobs_def by auto
qed

lemma runner_inv_step:
  assumes "runner_step P workers s s'" and "runner_inv s"
  shows "runner_inv s'"
  using assms(1)
proof (cases rule: runner_step.cases)
  case (request jt p by_user role d0 stored now uuid reason d')
  then show ?thesis using assms(2) db_inv_insert [OF request(3)]
    by (auto simp: runner_inv_def thread_ids_def)
next
  case (dispatch now locked)
  then show ?thesis using assms(2) runner_inv_take by blast
next
  case (thread i j ph outcome dep serve now rid fault ph' d')
  have "(j, ph) \<in> set (rn_threads s)" using thread(2,3) nth_mem by metis
  then have "jb_id j \<in> set (thread_ids s)" by (force simp: thread_ids_def)
  then have "handed_out (rn_db s) (jb_id j)" using assms(2) by (simp add: runner_inv_def)
  then have "keeps_jobs (rn_db s) d'" using thread(6) keeps_jobs_advance by blast
  moreover have "map (\<lambda>t. jb_id (fst t)) ((rn_threads s)[i := (j, ph')]) = map (\<lambda>t. jb_id (fst t)) (rn_threads s)"
    using thread(2,3) by (simp add: map_update list_update_same_conv)
  ultimately show ?thesis by (intro runner_inv_keeps [OF assms(2)]) (simp_all add: thread(1) thread_ids_def)
next
  case (tick j now current whole message d')
  then have "jb_id j \<in> set (thread_ids s)" by (force simp: thread_ids_def)
  then have "handed_out (rn_db s) (jb_id j)" using assms(2) by (simp add: runner_inv_def)
  then have "keeps_jobs (rn_db s) d'" using tick(3) keeps_jobs_progress by blast
  then show ?thesis by (intro runner_inv_keeps [OF assms(2)]) (simp_all add: tick(1) thread_ids_def)
next
  case (beat now)
  then show ?thesis
    by (intro runner_inv_keeps [OF assms(2)]) (simp_all add: keeps_jobs_heartbeat thread_ids_def)
next
  case (reaper now d')
  then have "keeps_jobs (rn_db s) d'" using reap_runs [of P now "rn_db s"] by auto
  then show ?thesis by (intro runner_inv_keeps [OF assms(2)]) (simp_all add: reaper(1) thread_ids_def)
qed

text \<open>
  C7: whatever requests, claims, threads, progress reports, heartbeats and reapings interleave,
  and whichever database accesses fail, every job is handed to at most one thread and never
  returns to the queue; job ids are unique, every row's timestamps, result and error agree with
  its status, and the event log is in the order the event stream relies on.
\<close>

theorem runner_reachable_inv:
  assumes "runner_reachable P workers s"
  shows "distinct (thread_ids s) \<and> (\<forall>i \<in> set (thread_ids s). handed_out (rn_db s) i)
    \<and> distinct (map jb_id (admin_jobs (rn_db s))) \<and> (\<forall>j \<in> set (admin_jobs (rn_db s)). job_ok j)
    \<and> log_ordered (rn_db s)"
proof -
  have "runner_inv s"
    using assms
  proof induction
    case start
    then show ?case by (simp add: runner_inv_def db_inv_def empty_admin_def log_ordered_def thread_ids_def)
  next
    case (step s s')
    then show ?case using runner_inv_step by blast
  qed
  then show ?thesis by (simp add: runner_inv_def db_inv_def)
qed

section \<open>The dispatcher, the reaper and the heartbeat\<close>

lemma queued_after_claim:
  assumes "queued_jobs {} d = j # js" and "distinct (map jb_id (admin_jobs d))"
  shows "queued_jobs {} (update_job (jb_id j) (start_job now) d) = js"
proof -
  have "filter (\<lambda>k. jb_status k = JQueued) (update_where (\<lambda>k. jb_id k = jb_id j) (start_job now) ks)
      = filter (\<lambda>k. jb_id k \<noteq> jb_id j) (filter (\<lambda>k. jb_status k = JQueued) ks)" for ks
    by (induction ks) (auto simp: update_where_def start_job_def)
  then have "queued_jobs {} (update_job (jb_id j) (start_job now) d) = filter (\<lambda>k. jb_id k \<noteq> jb_id j) (queued_jobs {} d)"
    by (simp add: queued_jobs_def update_job_def filter_sort)
  moreover have "distinct (map jb_id (queued_jobs {} d))"
  proof -
    have "inj_on jb_id (set (queued_jobs {} d))"
      by (rule inj_on_subset [of _ "set (admin_jobs d)"]) (use assms(2) in \<open>auto simp: distinct_map queued_jobs_def\<close>)
    moreover have "distinct (queued_jobs {} d)" using assms(2) by (simp add: queued_jobs_def distinct_map)
    ultimately show ?thesis by (simp add: distinct_map)
  qed
  then have "jb_id j \<notin> jb_id ` set js" by (simp add: assms(1))
  then have "filter (\<lambda>k. jb_id k \<noteq> jb_id j) (queued_jobs {} d) = js"
    unfolding assms(1) by (simp, intro filter_True ballI) (metis imageI)
  ultimately show ?thesis by simp
qed

text \<open>
  C35: a turn of the dispatcher's inner loop ends, leaves no job queued, and hands every queued
  job to the pool exactly once, oldest first, marking it active.
\<close>

theorem claim_loop_hands_out_all:
  assumes "distinct (map jb_id (admin_jobs (rn_db s)))"
  shows "queued_jobs {} (rn_db (claim_loop now {} s)) = []
    \<and> rn_threads (claim_loop now {} s) = rn_threads s @ map (\<lambda>j. (start_job now j, Submitted)) (queued_jobs {} (rn_db s))
    \<and> set (rn_active (claim_loop now {} s)) = set (rn_active s) \<union> jb_id ` set (queued_jobs {} (rn_db s))"
  using assms
proof (induction now "{} :: string set" s rule: claim_loop.induct)
  case (1 now s)
  show ?case
  proof (cases "queued_jobs {} (rn_db s)")
    case Nil
    then have "take_job now {} s = None" by (simp add: take_job_def claim_def)
    then show ?thesis using Nil by (simp add: claim_loop.simps [of now "{}" s])
  next
    case (Cons j js)
    define s' where "s' = s\<lparr>rn_db := update_job (jb_id j) (start_job now) (rn_db s),
      rn_active := List.insert (jb_id j) (rn_active s), rn_threads := rn_threads s @ [(start_job now j, Submitted)]\<rparr>"
    have take: "take_job now {} s = Some s'" by (simp add: take_job_def claim_def Cons s'_def start_job_def)
    have rest: "queued_jobs {} (rn_db s') = js" using queued_after_claim [OF Cons "1.prems"] by (simp add: s'_def)
    have "map jb_id (admin_jobs (rn_db s')) = map jb_id (admin_jobs (rn_db s))"
      by (simp add: s'_def update_job_def map_update_where start_job_def)
    then have "distinct (map jb_id (admin_jobs (rn_db s')))" using "1.prems" by simp
    note IH = "1.hyps" [OF take this]
    have "claim_loop now {} s = claim_loop now {} s'" using take by (simp add: claim_loop.simps [of now "{}" s])
    then show ?thesis using IH unfolding rest Cons by (simp add: s'_def)
  qed
qed

text \<open>
  The reaper always completes. It fails exactly the running jobs whose last heartbeat is more
  than 60 seconds old, with one \<open>failed\<close> event each, and leaves every other job as it was; a job
  the runner still holds active is refreshed by the heartbeat and so not reaped for a minute.
\<close>

theorem reap_spec:
  "\<exists>d'. reap P now d = Inr d'
     \<and> admin_jobs d' = map (\<lambda>j. if stale now j
           then j\<lparr>jb_status := JFailed, jb_finished := Some now, jb_error := Some stale_message\<rparr> else j) (admin_jobs d)
     \<and> (\<exists>es. job_events d' = job_events d @ es \<and> map je_job es = map jb_id (filter (stale now) (admin_jobs d)))
     \<and> (\<forall>t j. j \<in> set (admin_jobs (heartbeat t active d)) \<longrightarrow> jb_id j \<in> set active
           \<longrightarrow> now \<le> t + job_stale_seconds * micro \<longrightarrow> \<not> stale now j)"
proof -
  obtain d' es where r: "reap P now d = Inr d'" "admin_jobs d' = admin_jobs (fail_stale now d)"
    "job_events d' = job_events d @ es" "map je_job es = map jb_id (filter (stale now) (admin_jobs d))"
    using reap_runs [of P now d] by blast
  have beat: "\<not> stale now j" if j: "j \<in> set (admin_jobs (heartbeat t active d))" "jb_id j \<in> set active"
    "now \<le> t + job_stale_seconds * micro" for t j
  proof -
    have "active \<noteq> []" using j(2) by auto
    then have "j \<in> set (update_where (\<lambda>j. jb_id j \<in> set active \<and> jb_status j = JRunning) (\<lambda>j. j\<lparr>jb_heartbeat := Some t\<rparr>) (admin_jobs d))"
      using j(1) by (simp add: heartbeat_def)
    then show ?thesis using j(2,3) by (elim update_where_cases) (auto simp: stale_def)
  qed
  show ?thesis
    by (intro exI [of _ d'] conjI exI [of _ es] allI impI)
      (use r beat in \<open>simp_all add: fail_stale_def update_where_def\<close>)
qed

section \<open>A run always settles its job\<close>

definition rows_of :: "admin_db \<Rightarrow> string \<Rightarrow> job_row set" where
  "rows_of d i = {j \<in> set (admin_jobs d). jb_id j = i}"

lemma rows_of_update: "\<forall>j. jb_id (f j) = jb_id j \<Longrightarrow> rows_of (update_job i f d) i = f ` rows_of d i"
  by (auto simp: rows_of_def update_job_def in_update_where image_iff)

lemma emit_rows:
  "emit P now i kind message data d = Inr d' \<Longrightarrow> rows_of d' k = rows_of d k"
  by (auto simp: emit_def res_bind_Inr_iff rows_of_def split: if_splits)

lemma audit_rows:
  "write_audit P now rid actor action info result error d = Inr d' \<Longrightarrow> rows_of d' k = rows_of d k"
  by (auto simp: write_audit_def res_bind_Inr_iff rows_of_def)

lemma advance_failing:
  assumes "\<not> fault"
  shows "advance P now rid outcome fault j (Failing e) d = (Marked e, update_job (jb_id j)
     (\<lambda>j. j\<lparr>jb_status := JFailed, jb_finished := Some now, jb_error := Some (exn_str e)\<rparr>) d)"
  using assms by (simp add: advance_def)

lemma run_reported:
  "\<exists>d'. run_phases P now rid outcome faults j (Reported e) d = (Over, d') \<and> rows_of d' k = rows_of d k"
  by (auto simp: run_phases.simps [of P now rid outcome faults j "Reported e"]
      run_phases.simps [of P now rid outcome faults j Over] advance_def audit_rows split: sum.splits)

lemma run_marked:
  "\<exists>d'. run_phases P now rid outcome faults j (Marked e) d = (Over, d') \<and> rows_of d' k = rows_of d k"
proof (cases "advance P now rid outcome (faults (Marked e)) j (Marked e) d")
  case (Pair ph' d1)
  then have "(ph' = Over \<or> ph' = Reported e) \<and> rows_of d1 k = rows_of d k"
    by (auto simp: advance_def emit_rows split: if_splits sum.splits)
  then show ?thesis
    using run_reported [of P now rid outcome faults j e d1 k] Pair
    by (auto simp: run_phases.simps [of P now rid outcome faults j "Marked e"] run_phases.simps [of P now rid outcome faults j Over])
qed

definition all_with :: "job_status \<Rightarrow> job_row set \<Rightarrow> bool" where
  "all_with st js = (\<forall>j \<in> js. jb_status j = st)"

lemma run_failing:
  assumes "\<not> faults (Failing e)"
  shows "\<exists>d'. run_phases P now rid outcome faults j (Failing e) d = (Over, d')
    \<and> all_with JFailed (rows_of d' (jb_id j)) \<and> (rows_of d' (jb_id j) = {} \<longleftrightarrow> rows_of d (jb_id j) = {})"
proof -
  let ?f = "\<lambda>j. j\<lparr>jb_status := JFailed, jb_finished := Some now, jb_error := Some (exn_str e)\<rparr>"
  obtain d' where "run_phases P now rid outcome faults j (Marked e) (update_job (jb_id j) ?f d) = (Over, d')"
    "rows_of d' (jb_id j) = rows_of (update_job (jb_id j) ?f d) (jb_id j)" using run_marked by blast
  then show ?thesis using assms
    by (auto simp: run_phases.simps [of P now rid outcome faults j "Failing e"] advance_failing rows_of_update all_with_def)
qed

lemma rows_of_empty: "rows_of d i = {} \<longleftrightarrow> i \<notin> jb_id ` set (admin_jobs d)"
  by (auto simp: rows_of_def)

lemma json_norm_storable: "jsonb P v = Inr doc \<Longrightarrow> json_storable v"
  by (simp add: jsonb_def split: if_splits)

lemma run_saved:
  assumes "\<And>e. \<not> faults (Failing e)" and "rows_of d (jb_id j) \<noteq> {}" and "json_storable v"
    and "all_with JSucceeded (rows_of d (jb_id j))"
  shows "\<exists>d'. run_phases P now rid outcome faults j (Saved v) d = (Over, d') \<and> rows_of d' (jb_id j) \<noteq> {}
    \<and> all_with (if faults (Saved v) then JFailed else JSucceeded) (rows_of d' (jb_id j))"
proof (cases "faults (Saved v)")
  case True
  then show ?thesis using run_failing [of faults no_connection P now rid outcome j d] assms(1,2)
    by (auto simp: run_phases.simps [of P now rid outcome faults j "Saved v"] advance_def)
next
  case False
  have "\<exists>d'. emit P now (jb_id j) ''succeeded'' (jb_type j @ '' finished'') (dict_result v) d = Inr d'"
    using assms(2,3) unfolding rows_of_empty
    by (auto simp: emit_def jsonb_opt_def jsonb_def dict_result_def split: pyval.splits)
  then obtain d' where e: "emit P now (jb_id j) ''succeeded'' (jb_type j @ '' finished'') (dict_result v) d = Inr d'" by blast
  then have "run_phases P now rid outcome faults j (Saved v) d = (Over, d')"
    using False by (simp add: run_phases.simps [of P now rid outcome faults j "Saved v"]
        run_phases.simps [of P now rid outcome faults j Over] advance_def)
  then show ?thesis using False emit_rows [OF e] assms(2,4) by simp
qed

definition run_succeeds :: "pyval res \<Rightarrow> (phase \<Rightarrow> bool) \<Rightarrow> bool" where
  "run_succeeds outcome faults = (case outcome of Inl e \<Rightarrow> False
     | Inr v \<Rightarrow> json_storable v \<and> \<not> faults (Returned v) \<and> \<not> faults (Saved v))"

lemma run_returned:
  assumes "\<And>e. \<not> faults (Failing e)" and "rows_of d (jb_id j) \<noteq> {}"
  shows "\<exists>d'. run_phases P now rid outcome faults j (Returned v) d = (Over, d') \<and> rows_of d' (jb_id j) \<noteq> {}
    \<and> all_with (if run_succeeds (Inr v) faults then JSucceeded else JFailed) (rows_of d' (jb_id j))"
proof (cases "faults (Returned v) \<or> \<not> json_storable v")
  case True
  then obtain e where "advance P now rid outcome (faults (Returned v)) j (Returned v) d = (Failing e, d)"
    by (cases "faults (Returned v)") (auto simp: advance_def jsonb_def)
  then show ?thesis using True run_failing [of faults e P now rid outcome j d] assms
    by (auto simp: run_phases.simps [of P now rid outcome faults j "Returned v"] run_succeeds_def)
next
  case False
  let ?f = "\<lambda>j. j\<lparr>jb_status := JSucceeded, jb_finished := Some now, jb_result := Some (json_norm P v)\<rparr>"
  let ?d = "update_job (jb_id j) ?f d"
  have a: "advance P now rid outcome (faults (Returned v)) j (Returned v) d = (Saved v, ?d)"
    using False by (simp add: advance_def jsonb_def)
  have rows: "rows_of ?d (jb_id j) = ?f ` rows_of d (jb_id j)" by (rule rows_of_update) simp
  have "rows_of ?d (jb_id j) \<noteq> {}" "all_with JSucceeded (rows_of ?d (jb_id j))"
    unfolding rows all_with_def using assms(2) by auto
  then obtain d' where "run_phases P now rid outcome faults j (Saved v) ?d = (Over, d')" "rows_of d' (jb_id j) \<noteq> {}"
    "all_with (if faults (Saved v) then JFailed else JSucceeded) (rows_of d' (jb_id j))"
    using run_saved [of faults ?d j v] assms(1) False by blast
  moreover have "run_phases P now rid outcome faults j (Returned v) d = run_phases P now rid outcome faults j (Saved v) ?d"
    by (simp add: run_phases.simps [of P now rid outcome faults j "Returned v"] a)
  moreover have "run_succeeds (Inr v) faults \<longleftrightarrow> \<not> faults (Saved v)" using False by (simp add: run_succeeds_def)
  ultimately show ?thesis by (intro exI [of _ d']) (simp split: if_splits)
qed

text \<open>
  C11: a run never leaves its job running: if the first event and the failure statement reach
  the database, the run ends whatever the service does, the job is no longer active, and its
  row says succeeded exactly when the service returned a storable result and both accesses that
  record it went through, and failed otherwise.
\<close>

theorem run_job_settles:
  assumes "jb_id j \<in> jb_id ` set (admin_jobs d)"
    and "\<not> faults Submitted" and "\<And>e. \<not> faults (Failing e)"
  shows "\<exists>d'. run_job P now rid outcome faults j (d, active) = (Over, d', removeAll (jb_id j) active)
    \<and> rows_of d' (jb_id j) \<noteq> {}
    \<and> (\<forall>row \<in> rows_of d' (jb_id j). jb_status row = (if run_succeeds outcome faults then JSucceeded else JFailed))"
proof -
  obtain d1 where e: "emit P now (jb_id j) ''started'' (jb_type j @ '' started by '' @ job_actor P j) None d = Inr d1"
    using emit_known_job [OF assms(1)] by blast
  then have rows: "rows_of d1 (jb_id j) \<noteq> {}" using emit_rows [OF e] assms(1) by (simp add: rows_of_empty)
  have start: "run_phases P now rid outcome faults j Submitted d = run_phases P now rid outcome faults j Started d1"
    using assms(2) e by (simp add: run_phases.simps [of P now rid outcome faults j Submitted] advance_def)
  have "\<exists>d'. run_phases P now rid outcome faults j Started d1 = (Over, d') \<and> rows_of d' (jb_id j) \<noteq> {}
    \<and> all_with (if run_succeeds outcome faults then JSucceeded else JFailed) (rows_of d' (jb_id j))"
  proof (cases outcome)
    case (Inl x)
    then show ?thesis using run_failing [of faults x P now rid outcome j d1] assms(3) rows
      by (auto simp: run_phases.simps [of P now rid "Inl x" faults j Started] advance_def run_succeeds_def)
  next
    case (Inr v)
    then show ?thesis using run_returned [where faults = faults, OF assms(3) rows, of P now rid outcome v]
      by (simp add: run_phases.simps [of P now rid "Inr v" faults j Started] advance_def)
  qed
  then show ?thesis unfolding run_job_def prod.case start all_with_def by auto
qed

section \<open>A run is a sequence of steps\<close>

definition after_run :: "runner \<Rightarrow> nat \<Rightarrow> job_row \<Rightarrow> phase \<Rightarrow> admin_db \<Rightarrow> runner" where
  "after_run s i j ph d = s\<lparr>rn_db := d, rn_threads := (rn_threads s)[i := (j, ph)],
     rn_active := (if ph = Over then removeAll (jb_id j) (rn_active s) else rn_active s)\<rparr>"

lemma after_run_twice:
  "ph1 \<noteq> Over \<or> ph2 = Over \<Longrightarrow> after_run (after_run s i j ph1 d1) i j ph2 d2 = after_run s i j ph2 d2"
  by (auto simp: after_run_def)


section \<open>Jobs that do not settle\<close>

text \<open>
  The first event is written before the \<open>try\<close>. If that access fails the thread dies, the job
  stays active and running, and every heartbeat of the runner renews it: no reaper that looks
  within a minute of a heartbeat ever fails it, and its scope stays taken.
\<close>

theorem dead_thread_keeps_job_running:
  assumes "faults Submitted" and "jb_id j \<in> set active"
  shows "run_job P now rid outcome faults j (d, active) = (Died, d, active)
    \<and> (\<forall>t now' row. row \<in> rows_of (heartbeat t active d) (jb_id j) \<longrightarrow> now' \<le> t + job_stale_seconds * micro
        \<longrightarrow> \<not> stale now' row)"
proof -
  have "run_phases P now rid outcome faults j Submitted d = (Died, d)"
    using assms(1) by (simp add: run_phases.simps [of P now rid outcome faults j Submitted]
        run_phases.simps [of P now rid outcome faults j Died] advance_def)
  moreover have "\<not> stale now' row"
    if row: "row \<in> rows_of (heartbeat t active d) (jb_id j)" and soon: "now' \<le> t + job_stale_seconds * micro" for t now' row
  proof -
    have "active \<noteq> []" using assms(2) by auto
    then have "row \<in> set (update_where (\<lambda>j. jb_id j \<in> set active \<and> jb_status j = JRunning)
        (\<lambda>j. j\<lparr>jb_heartbeat := Some t\<rparr>) (admin_jobs d))" "jb_id row = jb_id j"
      using row by (simp_all add: rows_of_def heartbeat_def)
    then show ?thesis using assms(2) soon by (elim update_where_cases) (auto simp: stale_def)
  qed
  ultimately show ?thesis by (simp add: run_job_def)
qed

section \<open>Examples\<close>

definition queued_db :: admin_db where
  "queued_db = snd (enqueue sample_runtime 5 ''j1'' ''r1'' ''monitor'' [] ''al'' ''operator'' None empty_admin)"

definition idle_runner :: runner where
  "idle_runner = \<lparr>rn_db = empty_admin, rn_active = [], rn_threads = []\<rparr>"

definition one_queued :: runner where
  "one_queued = \<lparr>rn_db = queued_db\<lparr>action_audit := []\<rparr>, rn_active = [], rn_threads = []\<rparr>"

definition one_taken :: runner where
  "one_taken = claim_loop 7 {} one_queued"

lemma one_taken_eq:
  "one_taken = \<lparr>rn_db = update_job ''j1'' (start_job 7) (rn_db one_queued), rn_active = [''j1''],
     rn_threads = [(start_job 7 (hd (admin_jobs queued_db)), Submitted)]\<rparr>"
  by code_simp

lemma take_one: "take_job 7 {} one_queued = Some one_taken"
proof -
  have "take_job 7 {} one_queued = Some \<lparr>rn_db = update_job ''j1'' (start_job 7) (rn_db one_queued), rn_active = [''j1''],
     rn_threads = [(start_job 7 (hd (admin_jobs queued_db)), Submitted)]\<rparr>" by code_simp
  then show ?thesis by (simp add: one_taken_eq)
qed

lemma one_taken_reachable: "runner_reachable sample_runtime 4 one_taken"
proof -
  have start: "runner_reachable sample_runtime 4 idle_runner" unfolding idle_runner_def by (rule runner_reachable.start)
  have "enqueue_check sample_runtime ''monitor'' [] ''al'' ''operator'' empty_admin = Inr (stored_params [] ''al'' None)"
    by code_simp
  moreover have "enqueue_insert sample_runtime 5 ''j1'' ''monitor'' (stored_params [] ''al'' None) None ''al'' (rn_db idle_runner)
      = Inr (rn_db one_queued)" by code_simp
  ultimately have "runner_step sample_runtime 4 idle_runner (idle_runner\<lparr>rn_db := rn_db one_queued\<rparr>)"
    by (rule request)
  moreover have "idle_runner\<lparr>rn_db := rn_db one_queued\<rparr> = one_queued" by (simp add: idle_runner_def one_queued_def)
  ultimately have "runner_reachable sample_runtime 4 one_queued"
    using start runner_reachable.step by metis
  then show ?thesis by (rule runner_reachable.step) (rule dispatch [OF take_one])
qed

theorem runner_reachable_inv_witness:
  "distinct (thread_ids one_taken) \<and> thread_ids one_taken = [''j1''] \<and> handed_out (rn_db one_taken) ''j1''"
proof -
  have "thread_ids one_taken = [''j1'']" by code_simp
  then show ?thesis using runner_reachable_inv [OF one_taken_reachable] by simp
qed

theorem claim_loop_hands_out_all_witness:
  "queued_jobs {} (rn_db (claim_loop 7 {} one_queued)) = [] \<and> length (queued_jobs {} (rn_db one_queued)) = 1"
proof -
  have "distinct (map jb_id (admin_jobs (rn_db one_queued)))" "length (queued_jobs {} (rn_db one_queued)) = 1" by code_simp+
  then show ?thesis using claim_loop_hands_out_all [of one_queued 7] by blast
qed

theorem reap_spec_witness:
  "\<exists>d'. reap sample_runtime 60000008 (rn_db one_taken) = Inr d' \<and> map jb_status (admin_jobs d') = [JFailed]"
proof -
  obtain d' where d': "reap sample_runtime 60000008 (rn_db one_taken) = Inr d'"
    "admin_jobs d' = map (\<lambda>j. if stale 60000008 j
           then j\<lparr>jb_status := JFailed, jb_finished := Some 60000008, jb_error := Some stale_message\<rparr> else j) (admin_jobs (rn_db one_taken))"
    using reap_spec [of sample_runtime 60000008 "rn_db one_taken"] by blast
  have "map jb_status (map (\<lambda>j. if stale 60000008 j
           then j\<lparr>jb_status := JFailed, jb_finished := Some 60000008, jb_error := Some stale_message\<rparr> else j) (admin_jobs (rn_db one_taken)))
      = [JFailed]" by code_simp
  then show ?thesis using d' by metis
qed

definition taken_job :: job_row where
  "taken_job = fst (hd (rn_threads one_taken))"

theorem run_job_settles_witness:
  "\<exists>d'. run_job sample_runtime 9 ''r2'' (Inr (PInt 3)) (\<lambda>ph. ph = Saved (PInt 3)) taken_job (rn_db one_taken, [''j1''])
       = (Over, d', []) \<and> (\<exists>row \<in> rows_of d' ''j1''. jb_status row = JFailed)"
proof -
  have j: "jb_id taken_job = ''j1''" "''j1'' \<in> jb_id ` set (admin_jobs (rn_db one_taken))" by code_simp+
  have "\<not> run_succeeds (Inr (PInt 3)) (\<lambda>ph. ph = Saved (PInt 3))" by (simp add: run_succeeds_def)
  then show ?thesis
    using run_job_settles [of taken_job "rn_db one_taken" "\<lambda>ph. ph = Saved (PInt 3)" sample_runtime 9 "''r2''" "Inr (PInt 3)" "[''j1'']"] j
    by auto
qed


end
