(* ===== verification/Agent.thy ===== *)
theory Agent
  imports Mapping_Engine Central_Db
begin

text \<open>
  \<open>src/agent/agent.py\<close> and \<open>src/agent/audit.py\<close>: the migration agent, which grades a proposed
  mapping (plan), presents the options of a blocked deploy (guide) and proposes a fix for a
  delivery error (heal). With an audit sink every action adds a row to the onboarding audit.
  The arrows and dashes of the messages are written in ASCII.
\<close>

section \<open>The agent and its audit\<close>

record agent =
  ag_threshold :: pyfloat
  ag_propose :: "table \<Rightarrow> schema \<Rightarrow> field_mapping list res"
  ag_autonomous :: bool
  ag_sink :: "(int \<times> int option) option"
  ag_two_digits :: "pyfloat \<Rightarrow> string"

text \<open>\<open>make_central_audit\<close>: the sink is bound to an entity and perhaps a proposal.\<close>

definition audit_sink :: "int \<Rightarrow> int option \<Rightarrow> string \<Rightarrow> pyval \<Rightarrow> string \<Rightarrow> central \<Rightarrow> central" where
  "audit_sink eid pid action details by c = c\<lparr>entity_audit := entity_audit c @
     [\<lparr>ea_entity_id = eid, ea_proposal_id = pid, ea_action = action, ea_details = details, ea_by = by\<rparr>]\<rparr>"

definition agent_record :: "agent \<Rightarrow> string \<Rightarrow> pyval \<Rightarrow> central \<Rightarrow> central" where
  "agent_record A action details c = (case ag_sink A of
     None \<Rightarrow> c | Some (eid, pid) \<Rightarrow> audit_sink eid pid action details ''agent'' c)"

section \<open>Plan\<close>

record risk =
  ri_kind :: string
  ri_detail :: string

record migration_plan =
  mp_source :: string
  mp_mappings :: "field_mapping list"
  mp_risks :: "risk list"
  mp_auto_ok :: bool
  mp_low :: "field_mapping list"

definition mapping_risk :: "runtime \<Rightarrow> agent \<Rightarrow> field_mapping \<Rightarrow> risk option" where
  "mapping_risk P A m =
     (if fm_table m = PNone \<or> fm_column m = PNone
      then Some \<lparr>ri_kind = ''unmapped_column'', ri_detail = py_str P (fm_source m) @ '' has no confident target''\<rparr>
      else if float_less (fm_confidence m) (ag_threshold A)
      then Some \<lparr>ri_kind = ''low_confidence'', ri_detail = py_str P (fm_source m) @ '' -> '' @ py_str P (fm_table m)
             @ ''.'' @ py_str P (fm_column m) @ '' @ '' @ ag_two_digits A (fm_confidence m)\<rparr>
      else None)"

definition plan :: "runtime \<Rightarrow> agent \<Rightarrow> central \<Rightarrow> table \<Rightarrow> schema \<Rightarrow> (migration_plan \<times> central) res" where
  "plan P A c src tgt = res_bind (ag_propose A src tgt) (\<lambda>ms.
     let low = filter (\<lambda>m. mapping_risk P A m \<noteq> None) ms; risks = List.map_filter (mapping_risk P A) ms in
     Inr (\<lparr>mp_source = tab_name src, mp_mappings = ms, mp_risks = risks, mp_auto_ok = (low = []), mp_low = low\<rparr>,
       agent_record A ''agent_plan'' (PDict [(''source_table'', PStr (tab_name src)),
         (''risk_kinds'', PList (map (\<lambda>r. PStr (ri_kind r)) risks)), (''auto_ok'', PBool (low = []))]) c))"

section \<open>Guide\<close>

record dilemma =
  dl_kind :: string
  dl_table :: string
  dl_column :: string
  dl_candidates :: "string list"

record guide_option =
  go_action :: string
  go_value :: "string option"
  go_label :: string

record guidance =
  gd_dilemma :: dilemma
  gd_options :: "guide_option list"
  gd_recommended :: string

definition best_match :: "string \<Rightarrow> string list \<Rightarrow> string option" where
  "best_match name candidates =
     (let n = norm_name name in
      if n = [] then None
      else case find (\<lambda>c. norm_name c = n) candidates of Some c \<Rightarrow> Some c
      | None \<Rightarrow> (case find (\<lambda>c. str_in n (norm_name c)) candidates of Some c \<Rightarrow> Some c
      | None \<Rightarrow> find (\<lambda>c. norm_name c \<noteq> [] \<and> str_in (norm_name c) n) candidates))"

definition unmapped_options :: "dilemma \<Rightarrow> guide_option list" where
  "unmapped_options d =
     (case best_match (dl_column d) (dl_candidates d) of
        None \<Rightarrow> []
      | Some s \<Rightarrow> if s = [] then [] else [\<lparr>go_action = ''auto_suggest'', go_value = Some s,
          go_label = ''map to '' @ dl_table d @ ''.'' @ s\<rparr>])
     @ [\<lparr>go_action = ''skip'', go_value = None, go_label = ''leave this column unmapped''\<rparr>,
        \<lparr>go_action = ''manual'', go_value = None, go_label = ''enter a target column yourself''\<rparr>]"

definition guidance_for :: "dilemma \<Rightarrow> guidance" where
  "guidance_for d =
     (if dl_kind d = ''unmapped_column''
      then \<lparr>gd_dilemma = d, gd_options = unmapped_options d,
            gd_recommended = (if length (unmapped_options d) = 3 then ''auto_suggest'' else ''manual'')\<rparr>
      else if dl_kind d = ''type_mismatch''
      then \<lparr>gd_dilemma = d, gd_options =
              [\<lparr>go_action = ''cast'', go_value = Some ''cast:str->int'', go_label = ''cast the source value''\<rparr>,
               \<lparr>go_action = ''skip'', go_value = None, go_label = ''quarantine the row''\<rparr>],
            gd_recommended = ''cast''\<rparr>
      else \<lparr>gd_dilemma = d, gd_options =
              [\<lparr>go_action = ''quarantine'', go_value = None, go_label = ''quarantine until the parent exists''\<rparr>,
               \<lparr>go_action = ''manual'', go_value = None, go_label = ''resolve manually''\<rparr>],
            gd_recommended = ''quarantine''\<rparr>)"

definition guide :: "agent \<Rightarrow> dilemma \<Rightarrow> central \<Rightarrow> guidance \<times> central" where
  "guide A d c = (guidance_for d, agent_record A ''agent_guide'' (PDict [(''kind'', PStr (dl_kind d)),
     (''table'', PStr (dl_table d)), (''column'', PStr (dl_column d)),
     (''recommended'', PStr (gd_recommended (guidance_for d)))]) c)"

section \<open>Heal\<close>

record heal_proposal =
  hp_error :: string
  hp_action :: string
  hp_transform :: "string option"
  hp_apply :: bool

definition numeric_markers :: "string list" where
  "numeric_markers = [''invalid input syntax for type integer'', ''incorrect integer value'',
     ''invalid literal for int'', ''expected integer'']"

definition propose_heal :: "string \<Rightarrow> row \<Rightarrow> heal_proposal" where
  "propose_heal error ctx =
     (if list_ex (\<lambda>m. str_in m (str_lower error)) numeric_markers \<or> row_get ctx ''expected'' = PStr ''integer''
      then \<lparr>hp_error = error, hp_action = ''cast'', hp_transform = Some ''cast:str->int'', hp_apply = False\<rparr>
      else \<lparr>hp_error = error, hp_action = ''quarantine'', hp_transform = None, hp_apply = False\<rparr>)"

definition heal :: "agent \<Rightarrow> string \<Rightarrow> row \<Rightarrow> central \<Rightarrow> heal_proposal \<times> central" where
  "heal A error ctx c =
     (let p = propose_heal error ctx; p' = p\<lparr>hp_apply := ag_autonomous A \<and> hp_action p = ''cast''\<rparr> in
      (p', agent_record A ''agent_heal'' (PDict [(''action'', PStr (hp_action p')), (''apply'', PBool (hp_apply p')),
        (''detail'', PDict (case hp_transform p' of None \<Rightarrow> [] | Some t \<Rightarrow> [(''transform'', PStr t)]))]) c))"

section \<open>What the agent may do\<close>

lemma best_match_candidate: "best_match n cs = Some c \<Longrightarrow> c \<in> set cs"
  by (auto simp: best_match_def Let_def split: if_splits option.splits dest: find_someD)

lemma find_None_all: "find Q xs = None \<longleftrightarrow> (\<forall>x \<in> set xs. \<not> Q x)"
  by (auto simp: find_None_iff)

text \<open>
  What the guide recommends is always one of the options it offers, and a suggested column is
  a column of the blocked table: one with the same name up to case, spaces and underscores
  when there is one.
\<close>

theorem guide_sound:
  "gd_recommended (guidance_for d) \<in> go_action ` set (gd_options (guidance_for d))
   \<and> (\<forall>x. x \<in> set (gd_options (guidance_for d)) \<and> go_action x = ''auto_suggest'' \<longrightarrow>
        (\<exists>s. go_value x = Some s \<and> s \<in> set (dl_candidates d)
           \<and> (norm_name s = norm_name (dl_column d) \<or> norm_name (dl_column d) \<notin> norm_name ` set (dl_candidates d))))"
proof (cases "dl_kind d = ''unmapped_column''")
  case True
  show ?thesis
  proof (cases "best_match (dl_column d) (dl_candidates d)")
    case None
    then show ?thesis using True by (auto simp: guidance_for_def unmapped_options_def)
  next
    case (Some s)
    have "norm_name s = norm_name (dl_column d) \<or> norm_name (dl_column d) \<notin> norm_name ` set (dl_candidates d)"
    proof (cases "find (\<lambda>c. norm_name c = norm_name (dl_column d)) (dl_candidates d)")
      case None
      then have "norm_name (dl_column d) \<notin> norm_name ` set (dl_candidates d)" by (auto simp: find_None_all)
      then show ?thesis ..
    next
      case (Some c)
      then show ?thesis using \<open>best_match (dl_column d) (dl_candidates d) = Some s\<close> find_someD [OF Some]
        by (auto simp: best_match_def Let_def split: if_splits)
    qed
    then show ?thesis using True Some best_match_candidate [OF Some]
      by (cases "s = []") (auto simp: guidance_for_def unmapped_options_def)
  qed
qed (auto simp: guidance_for_def)

theorem guide_sound_witness:
  "\<exists>x \<in> set (gd_options (guidance_for \<lparr>dl_kind = ''unmapped_column'', dl_table = ''t'', dl_column = ''School_Name'',
       dl_candidates = [''id'', ''schoolname'']\<rparr>)). go_value x = Some ''schoolname''"
proof -
  let ?d = "\<lparr>dl_kind = ''unmapped_column'', dl_table = ''t'', dl_column = ''School_Name'', dl_candidates = [''id'', ''schoolname'']\<rparr>"
  have r: "gd_recommended (guidance_for ?d) = ''auto_suggest''"
    and n: "norm_name (dl_column ?d) \<in> norm_name ` set (dl_candidates ?d)"
    and one: "list_all (\<lambda>s. norm_name s = norm_name (dl_column ?d) \<longrightarrow> s = ''schoolname'') (dl_candidates ?d)"
    by code_simp+
  obtain x where x: "x \<in> set (gd_options (guidance_for ?d))" "go_action x = ''auto_suggest''"
    using guide_sound [THEN conjunct1, of ?d] unfolding r by auto
  obtain s where s: "go_value x = Some s" "s \<in> set (dl_candidates ?d)" "norm_name s = norm_name (dl_column ?d)"
    using guide_sound [THEN conjunct2, of ?d] x n by blast
  then have "s = ''schoolname''" using one by (auto simp: list_all_iff)
  then show ?thesis using x s by blast
qed

lemma heal_cast: "hp_action (propose_heal e x) = ''cast'' \<Longrightarrow> hp_transform (propose_heal e x) = Some ''cast:str->int''"
  unfolding propose_heal_def by (cases "list_ex (\<lambda>m. str_in m (str_lower e)) numeric_markers \<or> row_get x ''expected'' = PStr ''integer''") simp_all

lemma agent_record_rows:
  "\<exists>rows. agent_record A a d c = c\<lparr>entity_audit := entity_audit c @ rows\<rparr> \<and> length rows = (if ag_sink A = None then 0 else 1)"
  by (cases "ag_sink A") (auto simp: agent_record_def audit_sink_def)

text \<open>
  The agent applies a fix on its own only in autonomous mode and only the cast to an integer;
  everything it does otherwise is a proposal. Each action leaves exactly one audit row when
  there is a sink, and changes nothing else.
\<close>

theorem heal_gated:
  assumes "heal A error ctx c = (p, c')"
  shows "(hp_apply p \<longrightarrow> ag_autonomous A \<and> hp_action p = ''cast'' \<and> hp_transform p = Some ''cast:str->int'')
   \<and> (\<exists>rows. c' = c\<lparr>entity_audit := entity_audit c @ rows\<rparr> \<and> length rows = (if ag_sink A = None then 0 else 1))"
proof -
  let ?h = "propose_heal error ctx"
  have p: "p = ?h\<lparr>hp_apply := ag_autonomous A \<and> hp_action ?h = ''cast''\<rparr>" and c: "\<exists>a d. c' = agent_record A a d c"
    using assms unfolding heal_def Let_def by blast+
  have "hp_apply p \<longrightarrow> ag_autonomous A \<and> hp_action p = ''cast'' \<and> hp_transform p = Some ''cast:str->int''"
    using heal_cast [of error ctx] unfolding p by simp
  moreover have "\<exists>rows. c' = c\<lparr>entity_audit := entity_audit c @ rows\<rparr> \<and> length rows = (if ag_sink A = None then 0 else 1)"
    using c agent_record_rows by blast
  ultimately show ?thesis ..
qed

definition healing_agent :: agent where
  "healing_agent = \<lparr>ag_threshold = Fin (7/10), ag_propose = (\<lambda>_ _. Inr []), ag_autonomous = True, ag_sink = None,
     ag_two_digits = (\<lambda>_. [])\<rparr>"

theorem heal_gated_witness:
  "hp_apply (fst (heal healing_agent ''Incorrect integer value: x'' [] empty_central))
   \<and> hp_action (fst (heal healing_agent ''Incorrect integer value: x'' [] empty_central)) = ''cast''"
proof -
  obtain p c' where p: "heal healing_agent ''Incorrect integer value: x'' [] empty_central = (p, c')" by fastforce
  have "hp_apply (fst (heal healing_agent ''Incorrect integer value: x'' [] empty_central))" by code_simp
  then have "hp_apply p" unfolding p by simp
  then have "hp_action p = ''cast''" using heal_gated [OF p] by (elim conjE impE)
  with \<open>hp_apply p\<close> show ?thesis unfolding p by simp
qed

text \<open>
  A plan is automatic exactly when every mapping names a target and none has a confidence
  below the threshold.
\<close>

theorem plan_auto_ok:
  assumes "plan P A c src tgt = Inr (p, c')"
  shows "mp_auto_ok p \<longleftrightarrow> (\<forall>m \<in> set (mp_mappings p). fm_table m \<noteq> PNone \<and> fm_column m \<noteq> PNone
     \<and> \<not> float_less (fm_confidence m) (ag_threshold A))"
proof -
  obtain ms where "ag_propose A src tgt = Inr ms" using assms by (auto simp: plan_def res_bind_Inr_iff)
  then have "mp_mappings p = ms" "mp_auto_ok p \<longleftrightarrow> filter (\<lambda>m. mapping_risk P A m \<noteq> None) ms = []"
    using assms by (auto simp: plan_def Let_def)
  then show ?thesis by (auto simp: filter_empty_conv mapping_risk_def)
qed

definition nan_agent :: agent where
  "nan_agent = \<lparr>ag_threshold = Fin (7/10), ag_propose = (\<lambda>s t. Inr [\<lparr>fm_source = PStr ''a'', fm_table = PStr ''t'',
     fm_column = PStr ''x'', fm_confidence = NaN, fm_transform = PStr ''none'', fm_reasoning = PStr []\<rparr>]),
     ag_autonomous = False, ag_sink = None, ag_two_digits = (\<lambda>_. [])\<rparr>"

definition empty_schema :: schema where
  "empty_schema = \<lparr>sch_system = [], sch_tables = [], sch_version = ''1''\<rparr>"

text \<open>A confidence that is not a number passes every comparison with the threshold.\<close>

theorem plan_accepts_nan:
  "\<exists>p c'. plan sample_runtime nan_agent empty_central \<lparr>tab_name = ''s'', tab_columns = []\<rparr> empty_schema = Inr (p, c')
     \<and> mp_auto_ok p \<and> map fm_confidence (mp_mappings p) = [NaN]"
  by (simp add: plan_def nan_agent_def mapping_risk_def float_less_def)

theorem plan_auto_ok_witness:
  "\<exists>p c'. plan sample_runtime nan_agent empty_central \<lparr>tab_name = ''s'', tab_columns = []\<rparr> empty_schema = Inr (p, c')
     \<and> (\<exists>m \<in> set (mp_mappings p). fm_table m \<noteq> PNone)"
proof -
  obtain p c' where p: "plan sample_runtime nan_agent empty_central \<lparr>tab_name = ''s'', tab_columns = []\<rparr> empty_schema = Inr (p, c')"
    "mp_auto_ok p" "mp_mappings p \<noteq> []"
    by (simp add: plan_def nan_agent_def mapping_risk_def float_less_def)
  then have "\<exists>m \<in> set (mp_mappings p). fm_table m \<noteq> PNone"
    using plan_auto_ok [OF p(1)] by (cases "mp_mappings p") auto
  then show ?thesis using p(1) by blast
qed

end
