(* ===== verification/Pipeline.thy ===== *)
theory Pipeline
  imports Mapping_Engine Lrmis_Mapping Mapping_Repository Integration_Store
begin

text \<open>
  \<open>src/pipeline.py\<close>, the helpers the onboarding services share: discovery of the source schema
  from the catalog of the central database, the approved target contract, the ranking of
  target tables, and the two writes that register an entity and store a proposal with its
  field reviews. The catalog (\<open>information_schema\<close>) is a parameter; the joins of the discovery
  query are computed.
\<close>

section \<open>Discovery\<close>

record info_col =
  ic_schema :: string
  ic_table :: string
  ic_column :: string
  ic_type :: string
  ic_is_nullable :: string
  ic_position :: int
  ic_description :: "string option"

record key_usage =
  ku_schema :: string
  ku_table :: string
  ku_column :: string
  ku_constraint :: string

record constraint_row =
  cn_name :: string
  cn_type :: string

record catalog =
  cat_columns :: "info_col list"
  cat_key_usage :: "key_usage list"
  cat_constraints :: "constraint_row list"

text \<open>\<open>LEFT JOIN\<close>: every row of the left side, once for each match or once with NULLs.\<close>

definition left_join :: "('a \<Rightarrow> 'b \<Rightarrow> bool) \<Rightarrow> 'b list \<Rightarrow> 'a list \<Rightarrow> ('a \<times> 'b option) list" where
  "left_join P bs as = concat (map (\<lambda>a. case filter (P a) bs of
     [] \<Rightarrow> [(a, None)] | ms \<Rightarrow> map (\<lambda>b. (a, Some b)) ms) as)"

definition uses_column :: "info_col \<Rightarrow> key_usage \<Rightarrow> bool" where
  "uses_column c k = (ic_schema c = ku_schema k \<and> ic_table c = ku_table k \<and> ic_column c = ku_column k)"

definition is_pk_constraint :: "info_col \<times> key_usage option \<Rightarrow> constraint_row \<Rightarrow> bool" where
  "is_pk_constraint ck t = ((case snd ck of None \<Rightarrow> False | Some k \<Rightarrow> ku_constraint k = cn_name t)
     \<and> cn_type t = ''PRIMARY KEY'')"

text \<open>The rows of the query: a column, and whether the join found a primary-key constraint.\<close>

definition source_rows :: "catalog \<Rightarrow> string \<Rightarrow> (info_col \<times> bool) list" where
  "source_rows K s =
     sort_key (\<lambda>r. ic_table (fst r)) (sort_key (\<lambda>r. ic_position (fst r))
       (map (\<lambda>(ck, t). (fst ck, t \<noteq> None))
         (left_join is_pk_constraint (cat_constraints K)
           (left_join uses_column (cat_key_usage K)
             (filter (\<lambda>c. ic_schema c = s) (cat_columns K))))))"

definition source_column :: "info_col \<times> bool \<Rightarrow> string \<times> column" where
  "source_column r = (ic_table (fst r), (mk_column (ic_column (fst r)) (ic_type (fst r)))
     \<lparr>col_nullable := (ic_is_nullable (fst r) = ''YES''), col_pk := snd r,
      col_description := (case ic_description (fst r) of None \<Rightarrow> [] | Some d \<Rightarrow> d)\<rparr>)"

definition discover_source_schema :: "catalog \<Rightarrow> string \<Rightarrow> schema" where
  "discover_source_schema K s =
     \<lparr>sch_system = s, sch_tables = tables_of_grouped (grouped_columns (map source_column (source_rows K s))),
      sch_version = ''1''\<rparr>"

text \<open>
  \<open>ORDER BY k DESC LIMIT 1\<close>; among equal keys, which the server may return in any order, the
  first in table order.
\<close>

definition latest_by :: "('r \<Rightarrow> int) \<Rightarrow> 'r list \<Rightarrow> 'r option" where
  "latest_by k rs = (case sort_key (\<lambda>r. - k r) rs of [] \<Rightarrow> None | r # _ \<Rightarrow> Some r)"

definition is_contract :: "string \<Rightarrow> schema_version_row \<Rightarrow> bool" where
  "is_contract sys v = (sv_target_system v = sys \<and> sv_scope_kind v = ''contract'' \<and> sv_scope_name v = [])"

definition discover_target_schema :: "central \<Rightarrow> string \<Rightarrow> string option \<Rightarrow> schema option res" where
  "discover_target_schema c sys fingerprint =
     (let approved = filter (\<lambda>v. is_contract sys v \<and> sv_approved_at v \<noteq> None) (schema_versions c);
          found = (if blank fingerprint then latest_by sv_observed_at approved
            else select_one (\<lambda>v. sv_fingerprint v = the fingerprint) approved)
      in case found of
           None \<Rightarrow> Inr None
         | Some v \<Rightarrow> if truthy (sv_document v) then res_bind (schema_from_dict (sv_document v)) (\<lambda>s. Inr (Some s))
             else Inr None)"

section \<open>Ranking target tables\<close>

record candidate =
  ca_table :: string
  ca_score :: rat
  ca_columns :: nat

definition name_score :: "string \<Rightarrow> string \<Rightarrow> rat" where
  "name_score source target =
     (if source = target then 1
      else if str_in source target \<or> str_in target source then 7 / 10
      else if list_ex (\<lambda>part. str_in part target) (split_on (CHR ''_'') source) then 4 / 10
      else 0)"

definition rank_target_tables :: "table \<Rightarrow> schema \<Rightarrow> candidate list" where
  "rank_target_tables source target =
     sort_key (\<lambda>x. - ca_score x) (map (\<lambda>t. \<lparr>ca_table = tab_name t,
        ca_score = name_score (str_lower (tab_name source)) (str_lower (tab_name t)),
        ca_columns = length (tab_columns t)\<rparr>) (sch_tables target))"

section \<open>Registering an entity\<close>

definition is_entity :: "string \<Rightarrow> string \<Rightarrow> string \<Rightarrow> entity_row \<Rightarrow> bool" where
  "is_entity schema tab sys e = (en_source_schema e = schema \<and> en_source_table e = tab \<and> en_target_system e = sys)"

definition new_entity :: "int \<Rightarrow> int \<Rightarrow> string \<Rightarrow> string \<Rightarrow> string \<Rightarrow> string list \<Rightarrow> string option \<Rightarrow> entity_row" where
  "new_entity now i schema tab sys pks upd =
     \<lparr>en_id = i, en_source_system = ''IRIMSV_REGION_V'', en_source_schema = schema, en_source_table = tab,
      en_pk_columns = pks, en_updated_at_column = upd, en_target_system = sys, en_source_fingerprint = None,
      en_target_fingerprint = None, en_scope_version = 1, en_status = EDiscovered, en_deployed_by = None,
      en_deployed_at = None, en_paused_reason = None, en_target_tables = None, en_updated_at = now\<rparr>"

definition get_or_create_entity ::
  "int \<Rightarrow> central \<Rightarrow> string \<Rightarrow> string \<Rightarrow> string \<Rightarrow> string list \<Rightarrow> string option \<Rightarrow> int \<times> central" where
  "get_or_create_entity now c schema tab sys pks upd =
     (case select_one (is_entity schema tab sys) (entities c) of
        Some e \<Rightarrow> (en_id e, c)
      | None \<Rightarrow> (case next_serial ''onboarding_entity'' c of (i, c1) \<Rightarrow>
          (i, c1\<lparr>entities := entities c1 @ [new_entity now i schema tab sys pks upd]\<rparr>)))"

section \<open>Storing a proposal\<close>

definition confidence_threshold :: pyfloat where
  "confidence_threshold = Fin (95 / 100)"

definition allowed_transforms :: "string list" where
  "allowed_transforms = [''none'', ''cast:date->datetime'', ''cast:str->int'', ''cast:int->str'']"

text \<open>\<open>json.dumps\<close> into a JSONB column: JSON has no NaN and no infinities.\<close>

fun json_finite :: "pyval \<Rightarrow> bool" where
  "json_finite (PFloat f) = (case f of Fin q \<Rightarrow> True | _ \<Rightarrow> False)"
| "json_finite (PList vs) = list_all json_finite vs"
| "json_finite (PDict kvs) = list_all (\<lambda>kv. json_finite (snd kv)) kvs"
| "json_finite v = True"

definition to_jsonb :: "pyval \<Rightarrow> pyval res" where
  "to_jsonb v = (if \<not> json_plain v then Inl (TypeError ''not JSON serializable'')
     else if \<not> json_finite v then Inl (DbError ''invalid input syntax for type json'') else Inr v)"

definition no_target :: "field_mapping \<Rightarrow> bool" where
  "no_target m = (fm_column m = PNone \<or> fm_column m = PStr ''?'')"

definition review_status_of :: "field_mapping \<Rightarrow> review_status" where
  "review_status_of m =
     (if float_ge (fm_confidence m) confidence_threshold then RAccepted
      else if fm_confidence m = Fin 0 \<or> no_target m then RRejected
      else RPending)"

text \<open>A value for a NOT NULL text column.\<close>

definition sql_required :: "runtime \<Rightarrow> pyval \<Rightarrow> string res" where
  "sql_required P v = res_bind (rt_sql_text P v) (\<lambda>t. case t of
     None \<Rightarrow> Inl (DbError ''null value violates not-null constraint'') | Some s \<Rightarrow> Inr s)"

definition append_review :: "(int \<Rightarrow> review_row) \<Rightarrow> central \<Rightarrow> central" where
  "append_review f c = (case next_serial ''onboarding_field_review'' c of (i, c1) \<Rightarrow>
     c1\<lparr>field_reviews := field_reviews c1 @ [f i]\<rparr>)"

definition append_proposal :: "(int \<Rightarrow> proposal_row) \<Rightarrow> central \<Rightarrow> int \<times> central" where
  "append_proposal f c = (case next_serial ''onboarding_proposal'' c of (i, c1) \<Rightarrow>
     (i, c1\<lparr>proposals := proposals c1 @ [f i]\<rparr>))"

definition suggested_review ::
  "runtime \<Rightarrow> int \<Rightarrow> field_mapping \<Rightarrow> review_status \<Rightarrow> string \<Rightarrow> string option \<Rightarrow> string option \<Rightarrow> string
   \<Rightarrow> string option \<Rightarrow> int \<Rightarrow> review_row" where
  "suggested_review P pid m st src tab col tr why i =
     \<lparr>rv_id = i, rv_proposal_id = pid, rv_source_column = src, rv_target_table = tab, rv_target_column = col,
      rv_confidence = rt_real P (fm_confidence m), rv_transform = tr, rv_reasoning = why, rv_status = st,
      rv_resolved_target_column = None, rv_resolved_transform = None, rv_resolved_by = None, rv_resolved_at = None\<rparr>"

definition insert_review :: "runtime \<Rightarrow> int \<Rightarrow> field_mapping \<Rightarrow> central \<Rightarrow> central res" where
  "insert_review P pid m c =
     res_bind (sql_required P (fm_source m)) (\<lambda>src. res_bind (rt_sql_text P (fm_table m)) (\<lambda>tab.
     res_bind (rt_sql_text P (fm_column m)) (\<lambda>col. res_bind (sql_required P (fm_transform m)) (\<lambda>tr.
     res_bind (rt_sql_text P (fm_reasoning m)) (\<lambda>why.
       Inr (append_review (suggested_review P pid m (review_status_of m) src tab col tr why) c))))))"

record proposal_counts =
  nc_auto :: nat
  nc_review :: nat
  nc_rejected :: nat

definition create_proposal ::
  "runtime \<Rightarrow> int \<Rightarrow> central \<Rightarrow> int \<Rightarrow> string \<Rightarrow> string \<Rightarrow> field_mapping list \<Rightarrow> string list \<Rightarrow> string list
   \<Rightarrow> pyval option \<Rightarrow> proposal_counts \<Rightarrow> (int \<times> central) res" where
  "create_proposal P now c eid source_fp target_fp ms ignored unmet ai counts =
     res_bind (to_jsonb (PList (mapping_to_dicts ms))) (\<lambda>doc.
     res_bind (case ai of Some v \<Rightarrow> if truthy v then res_bind (to_jsonb v) (\<lambda>j. Inr (Some j)) else Inr None
               | None \<Rightarrow> Inr None) (\<lambda>ai'.
       case append_proposal (\<lambda>i. \<lparr>po_id = i, po_entity_id = eid, po_source_fingerprint = source_fp,
               po_target_fingerprint = target_fp, po_status = (if nc_review counts = 0 then PAutoApproved else PNeedsReview),
               po_mappings = doc, po_ignored = ignored, po_unmet = unmet, po_auto_count = nc_auto counts,
               po_review_count = nc_review counts, po_rejected_count = nc_rejected counts, po_ai_response = ai',
               po_reviewed_by = None, po_reviewed_at = None, po_created_at = now, po_updated_at = now\<rparr>) c of (pid, c1) \<Rightarrow>
         res_bind (fold_res (insert_review P pid) ms c1) (\<lambda>c2. Inr (pid, c2))))"

end
