(* ===== verification/Onboarding.thy ===== *)
theory Onboarding
  imports Pipeline
begin

text \<open>
  \<open>src/services/onboarding.py\<close>: discover, propose, the review operations (resolve, reject,
  reopen, add) and backfill. Each operation is one transaction, a function from the database to
  its result and the new database, or an exception that leaves the database as it was.
\<close>

section \<open>Discover\<close>

record discovered =
  di_table :: string
  di_columns :: nat
  di_pk :: "string list"
  di_updated_at :: "string option"
  di_candidates :: "candidate list"
  di_entity :: int

definition table_pk_columns :: "table \<Rightarrow> string list" where
  "table_pk_columns t = (case map col_name (filter col_pk (tab_columns t)) of [] \<Rightarrow> [''id''] | pks \<Rightarrow> pks)"

definition updated_at_names :: "string list" where
  "updated_at_names = [''updated_at'', ''modified_at'', ''last_updated'', ''timestamp'']"

definition updated_at_of :: "table \<Rightarrow> string option" where
  "updated_at_of t = map_option col_name (find (\<lambda>c. str_lower (col_name c) \<in> set updated_at_names) (tab_columns t))"

fun discover_tables ::
  "int \<Rightarrow> string \<Rightarrow> string \<Rightarrow> schema option \<Rightarrow> table list \<Rightarrow> central \<Rightarrow> discovered list \<times> central" where
  "discover_tables now schema sys tgt [] c = ([], c)"
| "discover_tables now schema sys tgt (t # ts) c =
     (case get_or_create_entity now c schema (tab_name t) sys (table_pk_columns t) (updated_at_of t) of (i, c1) \<Rightarrow>
      case discover_tables now schema sys tgt ts c1 of (ds, c2) \<Rightarrow>
        (\<lparr>di_table = tab_name t, di_columns = length (tab_columns t), di_pk = table_pk_columns t,
          di_updated_at = updated_at_of t,
          di_candidates = take 5 (case tgt of None \<Rightarrow> [] | Some g \<Rightarrow> rank_target_tables t g),
          di_entity = i\<rparr> # ds, c2))"

definition discover :: "catalog \<Rightarrow> int \<Rightarrow> central \<Rightarrow> string \<Rightarrow> string \<Rightarrow> (discovered list \<times> central) res" where
  "discover K now c schema sys =
     res_bind (discover_target_schema c sys None) (\<lambda>tgt.
       Inr (discover_tables now schema sys tgt (sch_tables (discover_source_schema K schema)) c))"

section \<open>Propose\<close>

type_synonym proposer = "table \<Rightarrow> schema \<Rightarrow> field_mapping list res"

definition mapping_proposer ::
  "runtime \<Rightarrow> (key_parts \<Rightarrow> int) \<Rightarrow> environment \<Rightarrow> (string \<Rightarrow> provider option) \<Rightarrow> proposer" where
  "mapping_proposer P h env mk src tgt = res_bind (propose_mapping P h env mk src tgt None) (\<lambda>x. Inr (fst x))"

definition unusable :: "field_mapping \<Rightarrow> bool" where
  "unusable m = (no_target m \<or> fm_confidence m = Fin 0)"

definition confident :: "field_mapping \<Rightarrow> bool" where
  "confident m = float_ge (fm_confidence m) confidence_threshold"

text \<open>The three lists of the loop: auto-approved, needing review, rejected.\<close>

definition sort_mappings :: "field_mapping list \<Rightarrow> field_mapping list \<times> field_mapping list \<times> field_mapping list" where
  "sort_mappings ms =
     (filter (\<lambda>m. \<not> unusable m \<and> confident m) ms, filter (\<lambda>m. \<not> unusable m \<and> \<not> confident m) ms,
      filter unusable ms)"

definition unmet_required :: "schema \<Rightarrow> field_mapping list \<Rightarrow> string list" where
  "unmet_required tgt ms = concat (map (\<lambda>t.
     map (\<lambda>c. tab_name t @ ''.'' @ col_name c)
       (filter (\<lambda>c. \<not> col_nullable c \<and> col_name c \<notin> set envelope_fields
          \<and> \<not> list_ex (\<lambda>m. fm_column m = PStr (col_name c)) ms \<and> col_name c \<noteq> ''active'') (tab_columns t)))
     (sch_tables tgt))"

record proposed =
  pp_proposal :: int
  pp_entity :: int
  pp_auto :: nat
  pp_review :: nat
  pp_rejected :: nat
  pp_unmet :: "string list"
  pp_error :: "string option"
  pp_status :: proposal_status

definition set_fingerprints :: "int \<Rightarrow> int \<Rightarrow> string \<Rightarrow> string \<Rightarrow> central \<Rightarrow> central" where
  "set_fingerprints now eid src_fp tgt_fp c = c\<lparr>entities := update_where (\<lambda>e. en_id e = eid)
     (\<lambda>e. e\<lparr>en_source_fingerprint := Some src_fp, en_target_fingerprint := Some tgt_fp,
            en_scope_version := 2, en_updated_at := now\<rparr>) (entities c)\<rparr>"

definition store_answer ::
  "runtime \<Rightarrow> int \<Rightarrow> central \<Rightarrow> int \<Rightarrow> string \<Rightarrow> string \<Rightarrow> schema \<Rightarrow> field_mapping list res \<Rightarrow> (proposed \<times> central) res" where
  "store_answer P now c eid src_fp tgt_fp tgt answer =
     (let err = (case answer of Inl e \<Rightarrow> Some (exn_str e) | Inr ms \<Rightarrow> None);
          raw = (case answer of Inl e \<Rightarrow> [] | Inr ms \<Rightarrow> ms);
          ai = (case answer of Inl e \<Rightarrow> PDict [(''error'', PStr (exn_str e))]
             | Inr ms \<Rightarrow> PDict [(''mappings'', PList (mapping_to_dicts ms))])
      in case sort_mappings raw of (auto, review, rejected) \<Rightarrow>
           let unmet = unmet_required tgt (auto @ review) in
           res_bind (create_proposal P now c eid src_fp tgt_fp (auto @ review @ rejected) [] unmet (Some ai)
             \<lparr>nc_auto = length auto, nc_review = length review, nc_rejected = length rejected\<rparr>) (\<lambda>(pid, c').
             Inr (\<lparr>pp_proposal = pid, pp_entity = eid, pp_auto = length auto, pp_review = length review,
               pp_rejected = length rejected, pp_unmet = unmet, pp_error = err,
               pp_status = (if review = [] then PAutoApproved else PNeedsReview)\<rparr>, c')))"

definition propose_entity ::
  "runtime \<Rightarrow> catalog \<Rightarrow> proposer \<Rightarrow> int \<Rightarrow> central \<Rightarrow> string \<Rightarrow> string \<Rightarrow> string \<Rightarrow> (proposed \<times> central) res" where
  "propose_entity P K ai now c schema tab sys =
     (case select_one (is_entity schema tab sys) (entities c) of
        None \<Rightarrow> Inl (NotFoundError ''entity not found - run discover first'')
      | Some e \<Rightarrow> (let src = discover_source_schema K schema in
        case get_table src tab of
          None \<Rightarrow> Inl (NotFoundError (''table '' @ tab @ '' not found in source schema''))
        | Some t \<Rightarrow> res_bind (discover_target_schema c sys None) (\<lambda>tgt. case tgt of
            None \<Rightarrow> Inl (ValidationError (''no approved target schema for '' @ sys))
          | Some g \<Rightarrow> res_bind (case table_schema src tab of None \<Rightarrow> Inr [] | Some s \<Rightarrow> schema_fingerprint P s) (\<lambda>src_fp.
              res_bind (schema_fingerprint P g) (\<lambda>tgt_fp.
                store_answer P now (set_fingerprints now (en_id e) src_fp tgt_fp c) (en_id e) src_fp tgt_fp g (ai t g))))))"

section \<open>Review operations\<close>

definition has_proposal :: "central \<Rightarrow> int \<Rightarrow> bool" where
  "has_proposal c pid = list_ex (\<lambda>p. po_id p = pid) (proposals c)"

definition in_column :: "int \<Rightarrow> string \<Rightarrow> review_row \<Rightarrow> bool" where
  "in_column pid col r = (rv_proposal_id r = pid \<and> rv_source_column r = col)"

definition pending_in :: "int \<Rightarrow> review_row \<Rightarrow> bool" where
  "pending_in pid r = (rv_proposal_id r = pid \<and> rv_status r = RPending)"

definition pending_count :: "central \<Rightarrow> int \<Rightarrow> nat" where
  "pending_count c pid = row_count (pending_in pid) (field_reviews c)"

text \<open>The end of every review operation: count the pending rows and set the proposal's status.\<close>

definition settle_proposal :: "int \<Rightarrow> int \<Rightarrow> string \<Rightarrow> central \<Rightarrow> (nat \<times> proposal_status) \<times> central" where
  "settle_proposal now pid by c =
     (let n = pending_count c pid; st = (if n = 0 then PApproved else PNeedsReview) in
      ((n, st), c\<lparr>proposals := update_where (\<lambda>p. po_id p = pid)
         (\<lambda>p. p\<lparr>po_status := st, po_reviewed_by := Some by, po_reviewed_at := Some now, po_updated_at := now\<rparr>)
         (proposals c)\<rparr>))"

definition check_review_column :: "central \<Rightarrow> int \<Rightarrow> string \<Rightarrow> unit res" where
  "check_review_column c pid col =
     (if \<not> has_proposal c pid then Inl (NotFoundError (''proposal '' @ int_str pid @ '' not found''))
      else if \<not> list_ex (in_column pid col) (field_reviews c)
      then Inl (NotFoundError (''field review for '' @ quoted col @ '' not found''))
      else Inr ())"

definition check_transform :: "runtime \<Rightarrow> string \<Rightarrow> unit res" where
  "check_transform P t =
     (if t \<in> set allowed_transforms then Inr ()
      else Inl (ValidationError (''transform '' @ quoted t @ '' not in allowlist: ''
        @ py_repr P (PList (map PStr (sort allowed_transforms))))))"

definition or_none :: "string \<Rightarrow> string" where
  "or_none t = (if t = [] then ''none'' else t)"

definition resolve_row :: "int \<Rightarrow> string \<Rightarrow> string \<Rightarrow> string \<Rightarrow> string option \<Rightarrow> review_row \<Rightarrow> review_row" where
  "resolve_row now col transform by tab r =
     (let r' = r\<lparr>rv_status := RResolved, rv_resolved_target_column := Some col, rv_resolved_transform := Some transform,
        rv_resolved_by := Some by, rv_resolved_at := Some now\<rparr>
      in if blank tab then r' else r'\<lparr>rv_target_table := tab\<rparr>)"

definition resolve_field ::
  "runtime \<Rightarrow> int \<Rightarrow> central \<Rightarrow> int \<Rightarrow> string \<Rightarrow> string \<Rightarrow> string \<Rightarrow> string \<Rightarrow> string option
   \<Rightarrow> ((nat \<times> proposal_status) \<times> central) res" where
  "resolve_field P now c pid src col transform by tab =
     res_bind (check_review_column c pid src) (\<lambda>_. res_bind (check_transform P (or_none transform)) (\<lambda>_.
       Inr (settle_proposal now pid by (c\<lparr>field_reviews :=
         update_where (in_column pid src) (resolve_row now col (or_none transform) by tab) (field_reviews c)\<rparr>))))"

definition reject_row :: "int \<Rightarrow> string \<Rightarrow> review_row \<Rightarrow> review_row" where
  "reject_row now by r = r\<lparr>rv_status := RRejected, rv_target_table := None, rv_target_column := None,
     rv_resolved_target_column := None, rv_resolved_transform := None, rv_resolved_by := Some by, rv_resolved_at := Some now\<rparr>"

definition reject_field ::
  "int \<Rightarrow> central \<Rightarrow> int \<Rightarrow> string \<Rightarrow> string \<Rightarrow> ((nat \<times> proposal_status) \<times> central) res" where
  "reject_field now c pid src by =
     res_bind (check_review_column c pid src) (\<lambda>_.
       Inr (settle_proposal now pid by (c\<lparr>field_reviews :=
         update_where (in_column pid src) (reject_row now by) (field_reviews c)\<rparr>)))"

definition review_by_id :: "central \<Rightarrow> int \<Rightarrow> review_row res" where
  "review_by_id c rid = (case select_one (\<lambda>r. rv_id r = rid) (field_reviews c) of
     None \<Rightarrow> Inl (NotFoundError (''field review '' @ int_str rid @ '' not found'')) | Some r \<Rightarrow> Inr r)"

definition reject_field_review ::
  "int \<Rightarrow> central \<Rightarrow> int \<Rightarrow> string \<Rightarrow> ((review_row \<times> nat \<times> proposal_status) \<times> central) res" where
  "reject_field_review now c rid by =
     res_bind (review_by_id c rid) (\<lambda>r.
       case settle_proposal now (rv_proposal_id r) by (c\<lparr>field_reviews :=
         update_where (\<lambda>r. rv_id r = rid) (reject_row now by) (field_reviews c)\<rparr>) of (out, c') \<Rightarrow> Inr ((r, out), c'))"

definition reopen_row :: "int \<Rightarrow> string \<Rightarrow> review_row \<Rightarrow> review_row" where
  "reopen_row now by r = r\<lparr>rv_status := RPending, rv_resolved_target_column := None, rv_resolved_transform := None,
     rv_resolved_by := Some by, rv_resolved_at := Some now\<rparr>"

definition reopen_field_review ::
  "int \<Rightarrow> central \<Rightarrow> int \<Rightarrow> string \<Rightarrow> ((review_row \<times> nat) \<times> central) res" where
  "reopen_field_review now c rid by =
     res_bind (review_by_id c rid) (\<lambda>r.
       let c1 = c\<lparr>field_reviews := update_where (\<lambda>r. rv_id r = rid) (reopen_row now by) (field_reviews c)\<rparr>;
           n = pending_count c1 (rv_proposal_id r)
       in Inr ((r, n), c1\<lparr>proposals := update_where (\<lambda>p. po_id p = rv_proposal_id r)
            (\<lambda>p. p\<lparr>po_status := PNeedsReview, po_review_count := n, po_reviewed_by := Some by,
                   po_reviewed_at := Some now, po_updated_at := now\<rparr>) (proposals c1)\<rparr>))"

text \<open>The resolved row a manual mapping inserts.\<close>

definition insert_manual ::
  "int \<Rightarrow> int \<Rightarrow> string \<Rightarrow> string \<Rightarrow> string \<Rightarrow> string \<Rightarrow> string \<Rightarrow> string \<Rightarrow> central \<Rightarrow> central" where
  "insert_manual now pid src tab col transform why by c = append_review (\<lambda>i.
     \<lparr>rv_id = i, rv_proposal_id = pid, rv_source_column = src, rv_target_table = Some tab, rv_target_column = Some col,
      rv_confidence = Fin 1, rv_transform = transform, rv_reasoning = Some why, rv_status = RResolved,
      rv_resolved_target_column = Some col, rv_resolved_transform = Some transform, rv_resolved_by = Some by,
      rv_resolved_at = Some now\<rparr>) c"

definition add_mapping ::
  "runtime \<Rightarrow> int \<Rightarrow> central \<Rightarrow> int \<Rightarrow> string \<Rightarrow> string \<Rightarrow> string \<Rightarrow> string \<Rightarrow> string
   \<Rightarrow> ((nat \<times> proposal_status) \<times> central) res" where
  "add_mapping P now c pid src tab col transform by =
     res_bind (check_review_column c pid src) (\<lambda>_. res_bind (check_transform P (or_none transform)) (\<lambda>_.
       if tab = [] \<or> col = [] then Inl (ValidationError ''target_table and target_column are required'')
       else Inr (settle_proposal now pid by (insert_manual now pid src tab col (or_none transform) ''manual extra mapping'' by c))))"


section \<open>Adding missing mappings\<close>

record wanted =
  wa_source :: string
  wa_table :: string
  wa_column :: string
  wa_transform :: string

record skipped =
  sk_wanted :: wanted
  sk_reason :: string
  sk_review :: "int option"

definition wanted_of :: "runtime \<Rightarrow> row \<Rightarrow> wanted" where
  "wanted_of P raw =
     (let text = (\<lambda>k. str_strip (py_str P (get_or raw k (PStr []))));
          tr = str_strip (py_str P (get_or raw ''transform'' (PStr ''none'')))
      in \<lparr>wa_source = text ''source_column'', wa_table = text ''target_table'', wa_column = text ''target_column'',
          wa_transform = or_none tr\<rparr>)"

definition usable_for :: "int \<Rightarrow> string \<Rightarrow> string \<Rightarrow> review_row \<Rightarrow> bool" where
  "usable_for pid tab col r = (rv_proposal_id r = pid \<and> rv_target_table r = Some tab
     \<and> (case rv_resolved_target_column r of Some x \<Rightarrow> Some x | None \<Rightarrow> rv_target_column r) = Some col
     \<and> usable_review r)"

definition skip_reason :: "central \<Rightarrow> int \<Rightarrow> string list \<Rightarrow> wanted \<Rightarrow> (string \<times> int option) option" where
  "skip_reason c pid sources w =
     (if wa_source w = [] \<or> wa_table w = [] \<or> wa_column w = []
      then Some (''source_column, target_table, and target_column are required'', None)
      else if wa_source w \<notin> set sources
      then Some (''source column '' @ str_repr (wa_source w) @ '' is not on this proposal'', None)
      else if wa_transform w \<notin> set allowed_transforms
      then Some (''transform '' @ str_repr (wa_transform w) @ '' is not allowed'', None)
      else case latest_by rv_id (filter (usable_for pid (wa_table w) (wa_column w)) (field_reviews c)) of
          Some r \<Rightarrow> Some (''target column already has an accepted/resolved mapping'', Some (rv_id r))
        | None \<Rightarrow> None)"

fun add_missing_loop ::
  "int \<Rightarrow> int \<Rightarrow> string \<Rightarrow> string list \<Rightarrow> wanted list \<Rightarrow> central \<Rightarrow> (wanted list \<times> skipped list) \<times> central" where
  "add_missing_loop now pid by sources [] c = (([], []), c)"
| "add_missing_loop now pid by sources (w # ws) c =
     (case skip_reason c pid sources w of
        Some (why, i) \<Rightarrow> (case add_missing_loop now pid by sources ws c of
            ((added, skips), c') \<Rightarrow> ((added, \<lparr>sk_wanted = w, sk_reason = why, sk_review = i\<rparr> # skips), c'))
      | None \<Rightarrow> (case add_missing_loop now pid by sources ws
              (insert_manual now pid (wa_source w) (wa_table w) (wa_column w) (wa_transform w)
                 ''manual missing required mapping'' by c) of
            ((added, skips), c') \<Rightarrow> ((w # added, skips), c')))"

definition add_missing_mappings ::
  "runtime \<Rightarrow> int \<Rightarrow> central \<Rightarrow> int \<Rightarrow> row list \<Rightarrow> string
   \<Rightarrow> (((wanted list \<times> skipped list) \<times> nat \<times> proposal_status) \<times> central) res" where
  "add_missing_mappings P now c pid raws by =
     (if raws = [] then Inl (ValidationError ''mappings are required'')
      else if \<not> has_proposal c pid then Inl (NotFoundError (''proposal '' @ int_str pid @ '' not found''))
      else
        (let sources = map rv_source_column (filter (\<lambda>r. rv_proposal_id r = pid) (field_reviews c)) in
         case add_missing_loop now pid by sources (map (wanted_of P) raws) c of (out, c1) \<Rightarrow>
         case settle_proposal now pid by c1 of (st, c2) \<Rightarrow> Inr ((out, st), c2)))"

section \<open>Reading a proposal\<close>

text \<open>\<open>ORDER BY confidence DESC\<close>: PostgreSQL puts NaN above every number.\<close>

definition conf_above :: "pyfloat \<Rightarrow> pyfloat \<Rightarrow> bool" where
  "conf_above a b = (if a = NaN then b \<noteq> NaN else float_less b a)"

fun insert_by_conf :: "review_row \<Rightarrow> review_row list \<Rightarrow> review_row list" where
  "insert_by_conf r [] = [r]"
| "insert_by_conf r (x # xs) = (if conf_above (rv_confidence x) (rv_confidence r) \<or> rv_confidence x = rv_confidence r
     then x # insert_by_conf r xs else r # x # xs)"

definition get_review :: "central \<Rightarrow> int \<Rightarrow> (proposal_row \<times> entity_row \<times> review_row list) res" where
  "get_review c pid = (case select_one (\<lambda>p. po_id p = pid \<and> list_ex (\<lambda>e. en_id e = po_entity_id p) (entities c)) (proposals c) of
       None \<Rightarrow> Inl (NotFoundError (''proposal '' @ int_str pid @ '' not found''))
     | Some p \<Rightarrow> (case select_one (\<lambda>e. en_id e = po_entity_id p) (entities c) of
         None \<Rightarrow> Inl (NotFoundError (''proposal '' @ int_str pid @ '' not found''))
       | Some e \<Rightarrow> Inr (p, e, fold insert_by_conf (filter (\<lambda>r. rv_proposal_id r = pid) (field_reviews c)) [])))"

section \<open>Backfill\<close>

text \<open>\<open>json.dumps(v, sort_keys=True, default=str)\<close>, with the default separators.\<close>

fun json_spaced :: "runtime \<Rightarrow> pyval \<Rightarrow> string" where
  "json_spaced P (PList vs) = ''['' @ join '', '' (map (json_spaced P) vs) @ '']''"
| "json_spaced P (PDict kvs) =
     ''{'' @ join '', '' (map snd (sort_key fst
        (map (\<lambda>kv. (fst kv, json_string (fst kv) @ '': '' @ json_spaced P (snd kv))) kvs))) @ ''}''"
| "json_spaced P v = json_text P v"

text \<open>What \<open>json.dumps(v, default=str)\<close> stores: a value JSON does not know is stored as its text.\<close>

fun json_stored :: "runtime \<Rightarrow> pyval \<Rightarrow> pyval" where
  "json_stored P (PList vs) = PList (map (json_stored P) vs)"
| "json_stored P (PDict kvs) = PDict (map (\<lambda>kv. (fst kv, json_stored P (snd kv))) kvs)"
| "json_stored P v = (if json_plain v then v else PStr (py_str P v))"

text \<open>The deployed entity with its newest approved proposal: \<open>ORDER BY p.id DESC NULLS LAST\<close>.\<close>

definition approved_for :: "entity_row \<Rightarrow> proposal_row \<Rightarrow> bool" where
  "approved_for e p = (po_entity_id p = en_id e \<and> (po_status p = PApproved \<or> po_status p = PAutoApproved))"

definition backfill_entity :: "central \<Rightarrow> string \<Rightarrow> entity_row option" where
  "backfill_entity c name =
     (let rows = left_join approved_for (proposals c)
            (filter (\<lambda>e. en_source_table e = name \<and> en_status e = EDeployed) (entities c));
          with_proposal = filter (\<lambda>r. snd r \<noteq> None) rows;
          without = filter (\<lambda>r. snd r = None) rows
      in case sort_key (\<lambda>r. - po_id (the (snd r))) with_proposal @ without of [] \<Rightarrow> None | r # _ \<Rightarrow> Some (fst r))"

definition max_version :: "central \<Rightarrow> string \<Rightarrow> string \<Rightarrow> int option" where
  "max_version c entity sys =
     (case map mv_version (filter (\<lambda>m. of_pair entity sys m \<and> mv_status m = MApproved) (mapping_version c)) of
        [] \<Rightarrow> None | v # vs \<Rightarrow> Some (fold max vs v))"

record source_env =
  so_runtime :: runtime
  so_rows :: "string \<Rightarrow> string \<Rightarrow> row list res"
  so_uuid :: "nat \<Rightarrow> string"

definition row_reference :: "runtime \<Rightarrow> entity_row \<Rightarrow> row \<Rightarrow> string" where
  "row_reference P e r = generate_external_reference P
     (if en_source_system e = [] then ''IRIMSV_REGION_V'' else en_source_system e)
     (en_source_schema e) (en_source_table e) (map (row_get r) (en_pk_columns e))"

definition queued_for :: "central \<Rightarrow> string \<Rightarrow> string \<Rightarrow> bool" where
  "queued_for c ref entity = list_ex (\<lambda>o'. ev_external_reference o' = ref \<and> ev_source_entity o' = entity) (outbox c)"

text \<open>
  The event of one row. \<open>target_system\<close>, \<open>source_system\<close>, \<open>status\<close> and the times are the
  defaults of the table; the identifier comes from the server (\<open>gen_random_uuid\<close>).
\<close>

definition backfill_event :: "source_env \<Rightarrow> int \<Rightarrow> int option \<Rightarrow> entity_row \<Rightarrow> string \<Rightarrow> row \<Rightarrow> nat \<Rightarrow> outbox_row" where
  "backfill_event S now mid e ref r n =
     (let payload = PDict (dput ''external_reference'' (PStr ref) r) in
      \<lparr>ev_id = so_uuid S n, ev_source_system = ''IRIMSV_REGION_V'', ev_source_entity = en_source_table e,
       ev_external_reference = ref, ev_operation = ''backfill'', ev_payload = json_stored (so_runtime S) payload,
       ev_payload_checksum = rt_sha256 (so_runtime S) (json_spaced (so_runtime S) payload),
       ev_target_system = ''LRMIS'', ev_mapping_version_id = mid, ev_status = Pending, ev_attempts = 0,
       ev_available_at = now, ev_source_updated_at = now, ev_created_at = now, ev_processed_at = None,
       ev_error_code = None, ev_error_message = None\<rparr>)"

definition mapping_exists :: "central \<Rightarrow> int option \<Rightarrow> bool" where
  "mapping_exists c mid = (case mid of None \<Rightarrow> True | Some i \<Rightarrow> list_ex (\<lambda>m. mv_id m = i) (mapping_version c))"

definition backfill_row ::
  "source_env \<Rightarrow> int \<Rightarrow> int option \<Rightarrow> entity_row \<Rightarrow> row \<Rightarrow> (nat \<times> nat) \<times> central \<Rightarrow> ((nat \<times> nat) \<times> central) res" where
  "backfill_row S now mid e r s = (case s of ((queued, skips), c) \<Rightarrow>
     let ref = row_reference (so_runtime S) e r in
     if queued_for c ref (en_source_table e) then Inr ((queued, skips + 1), c)
     else (let ev = backfill_event S now mid e ref r (length (outbox c)) in
       if \<not> json_finite (ev_payload ev) then Inl (DbError ''invalid input syntax for type json'')
       else if \<not> mapping_exists c mid then Inl (DbError ''insert or update violates foreign key constraint'')
       else Inr ((queued + 1, skips), c\<lparr>outbox := outbox c @ [ev]\<rparr>)))"

record backfilled =
  bf_entity :: string
  bf_queued :: nat
  bf_skipped :: nat
  bf_total :: nat

definition backfill :: "source_env \<Rightarrow> int \<Rightarrow> central \<Rightarrow> string \<Rightarrow> (backfilled \<times> central) res" where
  "backfill S now c name = (case backfill_entity c name of
       None \<Rightarrow> Inl (NotFoundError (''entity '' @ quoted name @ '' not found or not deployed''))
     | Some e \<Rightarrow> res_bind (so_rows S (en_source_schema e) (en_source_table e)) (\<lambda>rows.
         res_bind (fold_res (backfill_row S now (max_version c (en_source_table e) (en_target_system e)) e) rows ((0, 0), c))
           (\<lambda>((queued, skips), c'). Inr (\<lparr>bf_entity = name, bf_queued = queued, bf_skipped = skips, bf_total = length rows\<rparr>, c'))))"


section \<open>What a backfill does\<close>

lemma backfill_row_cases:
  assumes "backfill_row S now mid e r ((q, s), c) = Inr ((q', s'), c')"
  obtains (known) "queued_for c (row_reference (so_runtime S) e r) (en_source_table e)" and "q' = q" and "s' = s + 1" and "c' = c"
  | (queued) ev where "\<not> queued_for c (row_reference (so_runtime S) e r) (en_source_table e)" and "q' = q + 1" and "s' = s"
      and "c' = c\<lparr>outbox := outbox c @ [ev]\<rparr>"
      and "ev = backfill_event S now mid e (row_reference (so_runtime S) e r) r (length (outbox c))"
  using assms unfolding backfill_row_def by (auto simp: Let_def split: if_splits)

text \<open>The events a backfill adds: one for each reference that has none, in the order of the rows.\<close>

definition new_events :: "source_env \<Rightarrow> entity_row \<Rightarrow> central \<Rightarrow> row list \<Rightarrow> outbox_row list \<Rightarrow> bool" where
  "new_events S e c rows evs =
     (distinct (map ev_external_reference evs)
      \<and> ev_external_reference ` set evs = {ref \<in> row_reference (so_runtime S) e ` set rows. \<not> queued_for c ref (en_source_table e)}
      \<and> (\<forall>ev \<in> set evs. ev_source_entity ev = en_source_table e \<and> ev_status ev = Pending \<and> ev_operation ev = ''backfill''))"

lemma queued_for_append:
  "queued_for (c\<lparr>outbox := outbox c @ [ev]\<rparr>) ref ent \<longleftrightarrow> queued_for c ref ent \<or> (ev_external_reference ev = ref \<and> ev_source_entity ev = ent)"
  by (auto simp: queued_for_def)

lemma backfill_event_simps [simp]:
  "ev_external_reference (backfill_event S now mid e ref r n) = ref"
  "ev_source_entity (backfill_event S now mid e ref r n) = en_source_table e"
  "ev_status (backfill_event S now mid e ref r n) = Pending"
  "ev_operation (backfill_event S now mid e ref r n) = ''backfill''"
  by (simp_all add: backfill_event_def Let_def)

lemma backfill_fold:
  assumes "fold_res (backfill_row S now mid e) rows ((q, s), c) = Inr ((q', s'), c')"
  shows "\<exists>evs. c' = c\<lparr>outbox := outbox c @ evs\<rparr> \<and> q' = q + length evs \<and> q' + s' = q + s + length rows \<and> new_events S e c rows evs"
  using assms
proof (induction rows arbitrary: q s c)
  case Nil
  then show ?case by (intro exI [of _ "[]"]) (simp add: new_events_def)
next
  case (Cons r rows)
  let ?ref = "row_reference (so_runtime S) e r"
  obtain q1 s1 c1 where one: "backfill_row S now mid e r ((q, s), c) = Inr ((q1, s1), c1)"
    and rest: "fold_res (backfill_row S now mid e) rows ((q1, s1), c1) = Inr ((q', s'), c')"
    using Cons.prems by (auto simp: res_bind_Inr_iff)
  obtain evs where evs: "c' = c1\<lparr>outbox := outbox c1 @ evs\<rparr>" "q' = q1 + length evs" "q' + s' = q1 + s1 + length rows"
    "new_events S e c1 rows evs"
    using Cons.IH [OF rest] by blast
  show ?case
    using one
  proof (cases rule: backfill_row_cases)
    case known
    then have "new_events S e c (r # rows) evs" using evs(4) by (auto simp: new_events_def)
    then show ?thesis using known evs by auto
  next
    case (queued ev)
    have "?ref \<notin> ev_external_reference ` set evs"
      using evs(4) queued(4,5) by (auto simp: new_events_def queued_for_append)
    moreover have "ev_external_reference ` set evs = {ref \<in> row_reference (so_runtime S) e ` set rows. \<not> queued_for c ref (en_source_table e) \<and> ref \<noteq> ?ref}"
      using evs(4) queued(4,5) by (auto simp: new_events_def queued_for_append)
    ultimately have "new_events S e c (r # rows) (ev # evs)"
      using evs(4) queued(1,5) by (auto simp: new_events_def)
    then show ?thesis using queued evs by (intro exI [of _ "ev # evs"]) simp
  qed
qed

lemma new_events_queue:
  assumes "new_events S e c rows evs" and "r \<in> set rows"
  shows "queued_for (c\<lparr>outbox := outbox c @ evs\<rparr>) (row_reference (so_runtime S) e r) (en_source_table e)"
proof (cases "queued_for c (row_reference (so_runtime S) e r) (en_source_table e)")
  case True
  then show ?thesis by (simp add: queued_for_def)
next
  case False
  then have "row_reference (so_runtime S) e r \<in> ev_external_reference ` set evs" using assms by (simp add: new_events_def)
  then obtain ev where "ev \<in> set evs" "row_reference (so_runtime S) e r = ev_external_reference ev" by (rule imageE)
  moreover have "ev_source_entity ev = en_source_table e" using assms(1) \<open>ev \<in> set evs\<close> by (simp add: new_events_def)
  ultimately show ?thesis by (auto simp: queued_for_def list_ex_iff)
qed

lemma backfill_run:
  assumes "backfill S now c name = Inr (b, c')"
  obtains e rows evs where "backfill_entity c name = Some e" and "so_rows S (en_source_schema e) (en_source_table e) = Inr rows"
    and "c' = c\<lparr>outbox := outbox c @ evs\<rparr>" and "new_events S e c rows evs"
    and "bf_queued b = length evs" and "bf_queued b + bf_skipped b = length rows" and "bf_total b = length rows"
proof -
  obtain e where e: "backfill_entity c name = Some e" using assms unfolding backfill_def by (auto split: option.splits)
  obtain rows where rows: "so_rows S (en_source_schema e) (en_source_table e) = Inr rows"
    using assms e unfolding backfill_def by (auto simp: res_bind_Inr_iff)
  let ?mid = "max_version c (en_source_table e) (en_target_system e)"
  obtain q s c1 where run: "fold_res (backfill_row S now ?mid e) rows ((0, 0), c) = Inr ((q, s), c1)"
    and b: "b = \<lparr>bf_entity = name, bf_queued = q, bf_skipped = s, bf_total = length rows\<rparr>" "c' = c1"
    using assms e rows unfolding backfill_def by (auto simp: res_bind_Inr_iff)
  obtain evs where "c1 = c\<lparr>outbox := outbox c @ evs\<rparr>" "q = 0 + length evs" "q + s = 0 + 0 + length rows" "new_events S e c rows evs"
    using backfill_fold [OF run] by blast
  then show thesis using that [OF e rows] b by simp
qed

lemma backfill_all_known:
  assumes "\<forall>r \<in> set rows. queued_for c (row_reference (so_runtime S) e r) (en_source_table e)"
  shows "fold_res (backfill_row S now mid e) rows ((q, s), c) = Inr ((q, s + length rows), c)"
  using assms by (induction rows arbitrary: s) (simp_all add: backfill_row_def)

text \<open>
  C28: a backfill adds exactly one pending event for every source row whose reference has
  none yet and nothing else, every row is counted as queued or skipped, and repeating it while
  the source stands still queues nothing and changes nothing.
\<close>

theorem backfill_complete_and_idempotent:
  assumes "backfill S now c name = Inr (b, c')"
  shows "\<exists>e rows evs. backfill_entity c name = Some e \<and> so_rows S (en_source_schema e) (en_source_table e) = Inr rows
    \<and> c' = c\<lparr>outbox := outbox c @ evs\<rparr> \<and> length evs = bf_queued b \<and> bf_queued b + bf_skipped b = length rows
    \<and> distinct (map ev_external_reference evs)
    \<and> ev_external_reference ` set evs = {ref \<in> row_reference (so_runtime S) e ` set rows. \<not> queued_for c ref (en_source_table e)}
    \<and> backfill S later c' name = Inr (\<lparr>bf_entity = name, bf_queued = 0, bf_skipped = length rows, bf_total = length rows\<rparr>, c')"
proof -
  obtain e rows evs where e: "backfill_entity c name = Some e" and rows: "so_rows S (en_source_schema e) (en_source_table e) = Inr rows"
    and c': "c' = c\<lparr>outbox := outbox c @ evs\<rparr>" and evs: "new_events S e c rows evs"
    and b: "bf_queued b = length evs" "bf_queued b + bf_skipped b = length rows"
    using backfill_run [OF assms] by metis
  have "queued_for c' (row_reference (so_runtime S) e r) (en_source_table e)" if "r \<in> set rows" for r
    using new_events_queue [OF evs that] by (simp add: c')
  then have again: "fold_res (backfill_row S later mid e) rows ((0, 0), c') = Inr ((0, length rows), c')" for mid
    using backfill_all_known [of rows c' S e later mid 0 0] by simp
  have "backfill_entity c' name = Some e" using e by (simp add: c' backfill_entity_def)
  then have "backfill S later c' name = Inr (\<lparr>bf_entity = name, bf_queued = 0, bf_skipped = length rows, bf_total = length rows\<rparr>, c')"
    using rows again by (simp add: backfill_def)
  moreover have "distinct (map ev_external_reference evs)" "ev_external_reference ` set evs
      = {ref \<in> row_reference (so_runtime S) e ` set rows. \<not> queued_for c ref (en_source_table e)}"
    using evs unfolding new_events_def by blast+
  ultimately show ?thesis using e rows c' b
    by - (rule exI [of _ e], rule exI [of _ rows], rule exI [of _ evs], intro conjI, simp_all)
qed

text \<open>Three rows of a deployed entity, two of them with one key.\<close>

definition one_deployed :: central where
  "one_deployed = empty_central\<lparr>entities := [(new_entity 0 1 ''irimsv'' ''schools'' ''LRMIS'' [''id''] None)\<lparr>en_status := EDeployed\<rparr>]\<rparr>"

definition three_rows :: source_env where
  "three_rows = \<lparr>so_runtime = sample_runtime\<lparr>rt_sha256 := (\<lambda>s. s)\<rparr>,
     so_rows = (\<lambda>sch t. Inr (map (\<lambda>k. [(''id'', PStr k)]) [''1'', ''2'', ''1''])), so_uuid = (\<lambda>n. replicate n CHR ''u'')\<rparr>"

definition first_backfill :: "(backfilled \<times> central) res" where
  "first_backfill = backfill three_rows 5 one_deployed ''schools''"

theorem backfill_complete_and_idempotent_witness:
  "\<exists>b c'. backfill three_rows 5 one_deployed ''schools'' = Inr (b, c') \<and> bf_queued b = 2 \<and> bf_skipped b = 1
     \<and> backfill three_rows 9 c' ''schools'' = Inr (\<lparr>bf_entity = ''schools'', bf_queued = 0, bf_skipped = 3, bf_total = 3\<rparr>, c')"
proof -
  have "case first_backfill of Inl _ \<Rightarrow> False | Inr x \<Rightarrow> bf_queued (fst x) = 2 \<and> bf_skipped (fst x) = 1" by code_simp
  then obtain b c' where run: "backfill three_rows 5 one_deployed ''schools'' = Inr (b, c')" "bf_queued b = 2" "bf_skipped b = 1"
    unfolding first_backfill_def by (auto split: sum.splits)
  have "\<exists>rows::row list. length rows = 3 \<and> backfill three_rows 9 c' ''schools''
      = Inr (\<lparr>bf_entity = ''schools'', bf_queued = 0, bf_skipped = length rows, bf_total = length rows\<rparr>, c')"
    using backfill_complete_and_idempotent [OF run(1), of 9] run(2,3) by (elim exE conjE) (rule exI, rule conjI [rotated], assumption, simp)
  then show ?thesis using run by auto
qed

text \<open>The newest version number is stored where the identifier of a mapping version belongs.\<close>

definition versioned :: central where
  "versioned = one_deployed\<lparr>mapping_version := [\<lparr>mv_id = 7, mv_source_entity = ''schools'', mv_target_system = ''LRMIS'', mv_target_table = ''school'', mv_fingerprint = [], mv_version = 1,
     mv_status = MApproved, mv_mappings = [], mv_approved_at = None, mv_approved_by = None\<rparr>]\<rparr>"

theorem backfill_needs_version_as_id:
  "map_sum id fst (backfill three_rows 5 versioned ''schools'') = Inl (DbError ''insert or update violates foreign key constraint'')"
  by code_simp

end
