(* ===== verification/Lrmis_Onboarding.thy ===== *)
theory Lrmis_Onboarding
  imports Onboarding Agent
begin

text \<open>
  \<open>src/services/lrmis_onboarding.py\<close> and the bulk pass of \<open>onboarding.py\<close>: the deployment of a
  proposal behind the coverage gate, with the guidance of the agent when the gate refuses, and
  the bulk operations, which run one transaction per entity and continue past a failure.
\<close>

section \<open>Guidance for a blocked deploy\<close>

definition table_guidance :: "registry \<Rightarrow> agent \<Rightarrow> table_coverage \<Rightarrow> central \<Rightarrow> (guidance list \<times> central) res" where
  "table_guidance R A tc c =
     (if \<not> tc_exists tc
      then (case guide A \<lparr>dl_kind = ''unknown_table'', dl_table = tc_table tc, dl_column = [], dl_candidates = []\<rparr> c of
          (g, c') \<Rightarrow> Inr ([g], c'))
      else res_bind (reg_table R (tc_table tc)) (\<lambda>m.
        let ask = (\<lambda>d (gs, c). case guide A d c of (g, c') \<Rightarrow> (gs @ [g], c'));
            missing = map (\<lambda>col. \<lparr>dl_kind = ''unmapped_column'', dl_table = tc_table tc, dl_column = col,
              dl_candidates = map lc_name (lt_columns m)\<rparr>) (tc_missing tc);
            unknown = map (\<lambda>col. \<lparr>dl_kind = ''type_mismatch'', dl_table = tc_table tc, dl_column = col,
              dl_candidates = []\<rparr>) (tc_unknown tc)
        in Inr (fold ask (missing @ unknown) ([], c))))"

definition fk_guidance :: "agent \<Rightarrow> fk_problem \<Rightarrow> central \<Rightarrow> guidance \<times> central" where
  "fk_guidance A f c = guide A \<lparr>dl_kind = ''fk_violation'', dl_table = fp_table f, dl_column = fp_column f, dl_candidates = []\<rparr> c"

definition deploy_guidance :: "registry \<Rightarrow> agent \<Rightarrow> coverage \<Rightarrow> central \<Rightarrow> (guidance list \<times> central) res" where
  "deploy_guidance R A r c =
     res_bind (fold_res (\<lambda>tc (gs, c). res_bind (table_guidance R A tc c) (\<lambda>(gs', c'). Inr (gs @ gs', c')))
                 (cr_tables r) ([], c)) (\<lambda>s.
       Inr (fold (\<lambda>f (gs, c). case fk_guidance A f c of (g, c') \<Rightarrow> (gs @ [g], c')) (cr_fk_unsatisfiable r) s))"

section \<open>Deploy\<close>

definition is_staging_table :: "string option \<Rightarrow> bool" where
  "is_staging_table t = (\<not> blank t \<and> starts_with ''irimsv_'' (the t) \<and> ends_with ''_staging'' (the t))"

definition accepted_mapping :: "review_row \<Rightarrow> mapping_entry option" where
  "accepted_mapping r =
     (let col = str_or (rv_resolved_target_column r) (rv_target_column r) in
      if blank col \<or> blank (rv_target_table r) then None
      else if is_staging_table (rv_target_table r) then None
      else Some \<lparr>m_source = rv_source_column r, m_table = rv_target_table r, m_column = col,
        m_transform = str_or (str_or (rv_resolved_transform r) (Some (rv_transform r))) (Some ''none'')\<rparr>)"

definition load_proposal_mappings ::
  "central \<Rightarrow> int \<Rightarrow> (proposal_row \<times> entity_row \<times> mapping_entry list) res" where
  "load_proposal_mappings c pid =
     (case select_one (\<lambda>p. po_id p = pid \<and> list_ex (\<lambda>e. en_id e = po_entity_id p) (entities c)) (proposals c) of
        None \<Rightarrow> Inl (NotFoundError (''proposal '' @ int_str pid @ '' not found''))
      | Some p \<Rightarrow> (case select_one (\<lambda>e. en_id e = po_entity_id p) (entities c) of
          None \<Rightarrow> Inl (NotFoundError (''proposal '' @ int_str pid @ '' not found''))
        | Some e \<Rightarrow> Inr (p, e, List.map_filter accepted_mapping
            (filter (\<lambda>r. rv_proposal_id r = pid \<and> usable_review r) (field_reviews c)))))"

definition status_text :: "proposal_status \<Rightarrow> string" where
  "status_text s = (case s of PDraft \<Rightarrow> ''draft'' | PAutoApproved \<Rightarrow> ''auto_approved''
     | PNeedsReview \<Rightarrow> ''needs_review'' | PApproved \<Rightarrow> ''approved'' | PRejected \<Rightarrow> ''rejected''
     | PDeploying \<Rightarrow> ''deploying'')"

definition is_version :: "string \<Rightarrow> string \<Rightarrow> string \<Rightarrow> string \<Rightarrow> schema_version_row \<Rightarrow> bool" where
  "is_version sys kind name fp v = (sv_target_system v = sys \<and> sv_scope_kind v = kind \<and> sv_scope_name v = name
     \<and> sv_fingerprint v = fp)"

text \<open>\<open>INSERT INTO schema_version \<dots> ON CONFLICT DO UPDATE SET schema_document, approved_at\<close>.\<close>

definition approve_version ::
  "int \<Rightarrow> string \<Rightarrow> string \<Rightarrow> string \<Rightarrow> string \<Rightarrow> pyval \<Rightarrow> string \<Rightarrow> central \<Rightarrow> central" where
  "approve_version now sys kind name fp doc by c = c\<lparr>schema_versions :=
     upsert (is_version sys kind name fp) (\<lambda>v. v\<lparr>sv_document := doc, sv_approved_at := Some now\<rparr>)
       \<lparr>sv_target_system = sys, sv_scope_kind = kind, sv_scope_name = name, sv_fingerprint = fp, sv_document = doc,
        sv_observed_at = now, sv_approved_at = Some now, sv_approved_by = Some by\<rparr> (schema_versions c)\<rparr>"

definition mark_deployed :: "int \<Rightarrow> int \<Rightarrow> string \<Rightarrow> string option \<Rightarrow> central \<Rightarrow> central" where
  "mark_deployed now eid by fp c = c\<lparr>entities := update_where (\<lambda>e. en_id e = eid)
     (\<lambda>e. e\<lparr>en_status := EDeployed, en_deployed_by := Some by, en_deployed_at := Some now,
            en_target_fingerprint := fp, en_updated_at := now\<rparr>) (entities c)\<rparr>"

definition approve_proposal :: "int \<Rightarrow> int \<Rightarrow> string \<Rightarrow> central \<Rightarrow> central" where
  "approve_proposal now pid by c = c\<lparr>proposals := update_where (\<lambda>p. po_id p = pid)
     (\<lambda>p. p\<lparr>po_status := PApproved, po_reviewed_by := Some by, po_reviewed_at := Some now, po_updated_at := now\<rparr>)
     (proposals c)\<rparr>"

definition enable_entity :: "int \<Rightarrow> string \<Rightarrow> string \<Rightarrow> central \<Rightarrow> central" where
  "enable_entity now entity sys c = c\<lparr>entity_control :=
     upsert (\<lambda>k. ct_source_entity k = entity \<and> ct_target_system k = sys)
       (\<lambda>k. k\<lparr>ct_enabled := True, ct_paused_reason := None\<rparr>)
       \<lparr>ct_source_entity = entity, ct_target_system = sys, ct_enabled = True, ct_paused_reason = None,
        ct_updated_at = now\<rparr> (entity_control c)\<rparr>"

record deployed =
  dp_proposal :: int
  dp_entity :: int
  dp_source_table :: string
  dp_tables :: "string list"
  dp_fingerprint :: "string option"
  dp_mappings :: nat

datatype deploy_outcome = Deployed deployed | NeedsGuidance "string list" "guidance list"

text \<open>What deploy writes once the gates have let the mapping pass.\<close>

definition commit_deploy ::
  "int \<Rightarrow> proposal_row \<Rightarrow> entity_row \<Rightarrow> mapping_entry list \<Rightarrow> string \<Rightarrow> schema \<times> string option \<Rightarrow> central
   \<Rightarrow> deployed \<times> central" where
  "commit_deploy now p e ms by contract c =
     (case store_target_tables now c (en_id e) ms of (tables, c1) \<Rightarrow>
      let fp = snd contract;
          c2 = (case fp of None \<Rightarrow> c1 | Some f \<Rightarrow> approve_version now (en_target_system e) ''entity_staging''
                 (en_source_table e) f (schema_to_dict (fst contract)) by c1);
          c3 = enable_entity now (en_source_table e) (en_target_system e)
                 (approve_proposal now (po_id p) by (mark_deployed now (en_id e) by fp c2));
          c4 = audit_sink (en_id e) (Some (po_id p)) ''deploy_lrmis'' (PDict [(''target_tables'', PList (map PStr tables)),
                 (''fingerprint'', opt_str fp)]) by c3
      in (\<lparr>dp_proposal = po_id p, dp_entity = en_id e, dp_source_table = en_source_table e, dp_tables = tables,
           dp_fingerprint = fp, dp_mappings = length ms\<rparr>, c4))"

record deploy_env =
  dx_runtime :: runtime
  dx_registry :: registry
  dx_target :: "row list res"

definition deploy_to_lrmis ::
  "deploy_env \<Rightarrow> agent option \<Rightarrow> int \<Rightarrow> central \<Rightarrow> int \<Rightarrow> string \<Rightarrow> (deploy_outcome \<times> central) res" where
  "deploy_to_lrmis D agent now c pid by =
     res_bind (load_proposal_mappings c pid) (\<lambda>(p, e, ms).
       if po_status p \<noteq> PApproved \<and> po_status p \<noteq> PAutoApproved
       then Inl (ValidationError (''proposal status is '' @ quoted (status_text (po_status p)) @ '', must be approved''))
       else if ms = [] then Inl (ValidationError ''proposal has no accepted target-column mappings'')
       else res_bind (coverage_report (dx_registry D) ms None) (\<lambda>r.
         if blocking r \<noteq> [] then (case agent of
             Some A \<Rightarrow> res_bind (deploy_guidance (dx_registry D) A r c) (\<lambda>(gs, c').
               Inr (NeedsGuidance (blocking r) gs, c'))
           | None \<Rightarrow> Inl (ValidationError (''mapping cannot be deployed:'' @ nl_item @ join nl_item (blocking r))))
         else res_bind (dx_target D) (\<lambda>rows.
           res_bind (entity_target_contract (dx_runtime D) rows (target_tables_for ms) ''LRMIS'') (\<lambda>contract.
             case commit_deploy now p e ms by contract c of (d, c') \<Rightarrow> Inr (Deployed d, c')))))"

section \<open>Bulk deploy\<close>

text \<open>\<open>DISTINCT ON (e.id) \<dots> ORDER BY e.id, p.created_at DESC\<close>.\<close>

definition deployable_proposals :: "central \<Rightarrow> string \<Rightarrow> (int \<times> string) list" where
  "deployable_proposals c sys =
     List.map_filter (\<lambda>e. map_option (\<lambda>p. (po_id p, en_source_table e))
         (latest_by po_created_at (filter (\<lambda>p. approved_for e p \<and> has_target_review c (po_id p)) (proposals c))))
       (sort_key en_id (filter (\<lambda>e. en_target_tables e = None \<and> en_target_system e = sys) (entities c)))"

datatype bulk_status = BulkDeployed "string list" | BulkFailed string

definition bulk_deploy_one ::
  "deploy_env \<Rightarrow> string \<Rightarrow> int \<Rightarrow> int \<times> string \<Rightarrow> central \<Rightarrow> (string \<times> bulk_status) \<times> central" where
  "bulk_deploy_one D by now cand c = (case deploy_to_lrmis D None now c (fst cand) by of
       Inl e \<Rightarrow> ((snd cand, BulkFailed (exn_str e)), c)
     | Inr (Deployed d, c') \<Rightarrow> ((snd cand, BulkDeployed (dp_tables d)), c')
     | Inr (NeedsGuidance b g, c') \<Rightarrow> ((snd cand, BulkFailed (exn_str (KeyError ''target_tables''))), c'))"

fun bulk_deploy_loop ::
  "deploy_env \<Rightarrow> string \<Rightarrow> (nat \<Rightarrow> int) \<Rightarrow> nat \<Rightarrow> (int \<times> string) list \<Rightarrow> central \<Rightarrow> (string \<times> bulk_status) list \<times> central" where
  "bulk_deploy_loop D by nows i [] c = ([], c)"
| "bulk_deploy_loop D by nows i (x # xs) c =
     (case bulk_deploy_one D by (nows i) x c of (r, c1) \<Rightarrow>
      case bulk_deploy_loop D by nows (i + 1) xs c1 of (rs, c2) \<Rightarrow> (r # rs, c2))"

definition bulk_deploy_to_lrmis ::
  "deploy_env \<Rightarrow> string \<Rightarrow> (nat \<Rightarrow> int) \<Rightarrow> string \<Rightarrow> central \<Rightarrow> (string \<times> bulk_status) list \<times> central" where
  "bulk_deploy_to_lrmis D by nows sys c = bulk_deploy_loop D by nows 0 (deployable_proposals c sys) c"

section \<open>Bulk propose\<close>

definition tables_to_repropose :: "central \<Rightarrow> string \<Rightarrow> string \<Rightarrow> string list" where
  "tables_to_repropose c schema sys = sorted_set (map en_source_table
     (filter (\<lambda>e. en_status e = EDeployed \<and> en_target_tables e = None \<and> en_target_system e = sys
        \<and> en_source_schema e = schema) (entities c)))"

datatype propose_status = ProposeFailed string | Proposed int nat nat

definition bulk_propose_one ::
  "runtime \<Rightarrow> catalog \<Rightarrow> proposer \<Rightarrow> int \<Rightarrow> string \<Rightarrow> string \<Rightarrow> string \<Rightarrow> central \<Rightarrow> (string \<times> propose_status) \<times> central" where
  "bulk_propose_one P K ai now schema sys tab c = (case propose_entity P K ai now c schema tab sys of
       Inl e \<Rightarrow> ((tab, ProposeFailed (exn_str e)), c)
     | Inr (out, c') \<Rightarrow> (case pp_error out of
         Some err \<Rightarrow> if err = [] then ((tab, Proposed (pp_proposal out) (pp_auto out) (pp_review out)), c')
           else ((tab, ProposeFailed (take 120 err)), c')
       | None \<Rightarrow> ((tab, Proposed (pp_proposal out) (pp_auto out) (pp_review out)), c')))"

fun bulk_propose_loop ::
  "runtime \<Rightarrow> catalog \<Rightarrow> proposer \<Rightarrow> (nat \<Rightarrow> int) \<Rightarrow> string \<Rightarrow> string \<Rightarrow> nat \<Rightarrow> string list \<Rightarrow> central
   \<Rightarrow> (string \<times> propose_status) list \<times> central" where
  "bulk_propose_loop P K ai nows schema sys i [] c = ([], c)"
| "bulk_propose_loop P K ai nows schema sys i (t # ts) c =
     (case bulk_propose_one P K ai (nows i) schema sys t c of (r, c1) \<Rightarrow>
      case bulk_propose_loop P K ai nows schema sys (i + 1) ts c1 of (rs, c2) \<Rightarrow> (r # rs, c2))"

definition bulk_propose_lrmis ::
  "runtime \<Rightarrow> catalog \<Rightarrow> proposer \<Rightarrow> (nat \<Rightarrow> int) \<Rightarrow> string \<Rightarrow> string \<Rightarrow> central \<Rightarrow> (string \<times> propose_status) list \<times> central" where
  "bulk_propose_lrmis P K ai nows schema sys c = bulk_propose_loop P K ai nows schema sys 0 (tables_to_repropose c schema sys) c"

section \<open>Bulk onboarding\<close>

datatype onboard_outcome =
    Onboarded int "string list" nat nat nat
  | RoutedToReview proposed
  | AlreadyDeployed
  | OnboardFailed string

record onboard_env =
  ob_deploy :: deploy_env
  ob_catalog :: catalog
  ob_source :: source_env
  ob_propose :: proposer

text \<open>
  One table: each of discover, propose, deploy and backfill is a transaction of its own, so a
  failure keeps what the earlier ones committed.
\<close>

definition onboard_approved ::
  "onboard_env \<Rightarrow> int \<Rightarrow> string \<Rightarrow> string \<Rightarrow> proposed \<Rightarrow> central \<Rightarrow> onboard_outcome \<times> central" where
  "onboard_approved N now by tab pr c =
     (case deploy_to_lrmis (ob_deploy N) None now c (pp_proposal pr) by of
        Inl e \<Rightarrow> (OnboardFailed (exn_str e), c)
      | Inr (NeedsGuidance b g, c') \<Rightarrow> (OnboardFailed (exn_str (KeyError ''target_tables'')), c')
      | Inr (Deployed d, c1) \<Rightarrow> (case backfill (ob_source N) now c1 tab of
          Inl e \<Rightarrow> (OnboardFailed (exn_str e), c1)
        | Inr (f, c2) \<Rightarrow> (Onboarded (pp_proposal pr) (dp_tables d) (dp_mappings d) (bf_queued f) (bf_skipped f), c2)))"

definition onboard_one ::
  "onboard_env \<Rightarrow> int \<Rightarrow> string \<Rightarrow> string \<Rightarrow> string \<Rightarrow> string \<Rightarrow> central \<Rightarrow> onboard_outcome \<times> central" where
  "onboard_one N now schema sys by tab c =
     (if (case select_one (is_entity schema tab sys) (entities c) of None \<Rightarrow> False | Some e \<Rightarrow> en_status e = EDeployed)
      then (AlreadyDeployed, c)
      else case discover (ob_catalog N) now c schema sys of
        Inl e \<Rightarrow> (OnboardFailed (exn_str e), c)
      | Inr (ds, c1) \<Rightarrow> (case propose_entity (dx_runtime (ob_deploy N)) (ob_catalog N) (ob_propose N) now c1 schema tab sys of
          Inl e \<Rightarrow> (OnboardFailed (exn_str e), c1)
        | Inr (pr, c2) \<Rightarrow> if pp_status pr \<noteq> PAutoApproved \<or> pp_unmet pr \<noteq> [] then (RoutedToReview pr, c2)
            else onboard_approved N now by tab pr c2))"

fun onboard_loop ::
  "onboard_env \<Rightarrow> (nat \<Rightarrow> int) \<Rightarrow> string \<Rightarrow> string \<Rightarrow> string \<Rightarrow> nat \<Rightarrow> string list \<Rightarrow> central
   \<Rightarrow> (string \<times> onboard_outcome) list \<times> central" where
  "onboard_loop N nows schema sys by i [] c = ([], c)"
| "onboard_loop N nows schema sys by i (t # ts) c =
     (case onboard_one N (nows i) schema sys by t c of (o1, c1) \<Rightarrow>
      case onboard_loop N nows schema sys by (i + 1) ts c1 of (os, c2) \<Rightarrow> ((t, o1) # os, c2))"

definition onboard_bulk ::
  "onboard_env \<Rightarrow> (nat \<Rightarrow> int) \<Rightarrow> string \<Rightarrow> string list \<Rightarrow> string \<Rightarrow> string \<Rightarrow> central
   \<Rightarrow> (string \<times> onboard_outcome) list \<times> central" where
  "onboard_bulk N nows schema tables sys by c = onboard_loop N nows schema (str_upper sys) by 0 tables c"

end
