(* ===== verification/Nightly_Refresh.thy ===== *)
theory Nightly_Refresh
  imports Worker Mapping_Engine
begin

text \<open>
  \<open>src/services/nightly_refresh.py\<close>: the rebuild of the target from a fresh source. The shell
  commands it runs (source restore, mysqldump) and the recreation of the target database
  (\<open>scripts/init_lrmis_target.py\<close>) are parameters; the order of the steps, what aborts them, and
  the re-delivery of every entity with its two commits are computed.
\<close>

section \<open>Entities\<close>

definition deployed_target_entities :: "central \<Rightarrow> string \<Rightarrow> entity_row list" where
  "deployed_target_entities c sys = sort_key en_source_table
     (filter (\<lambda>e. en_target_system e = sys \<and> en_status e = EDeployed \<and> en_target_tables e \<noteq> None) (entities c))"

section \<open>Re-delivery\<close>

record redeliver_env =
  rd_env :: delivery_env
  rd_writer :: writer
  rd_engine :: engine
  rd_rows :: "string \<Rightarrow> string \<Rightarrow> row list res"
  rd_central_commit :: "central \<Rightarrow> exn option"
  rd_open :: "exn option"

datatype redelivered = Refreshed refresh_result | RefreshSkipped string | RefreshFailed string

definition entity_delivery_env :: "delivery_env \<Rightarrow> entity_row \<Rightarrow> string \<Rightarrow> delivery_env" where
  "entity_delivery_env D e sys = D\<lparr>de_source_system := (if en_source_system e = [] then de_source_system D else en_source_system e),
     de_target_system := sys\<rparr>"

definition entity_reference :: "delivery_env \<Rightarrow> entity_row \<Rightarrow> row \<Rightarrow> string" where
  "entity_reference D e r = generate_external_reference (de_runtime D) (de_source_system D) (en_source_schema e)
     (en_source_table e) (map (row_get r) (en_pk_columns e))"

text \<open>Both connections roll back; identifiers the target handed out are not given back.\<close>

definition roll_back :: "world \<Rightarrow> world \<Rightarrow> world" where
  "roll_back saved w = \<lparr>w_central = w_central saved, w_target = rollback_to (w_target saved) (w_target w)\<rparr>"

text \<open>\<open>tconn.commit(); cconn.commit()\<close>: the target commits first.\<close>

definition commit_both :: "redeliver_env \<Rightarrow> refresh_result \<Rightarrow> world \<Rightarrow> world \<Rightarrow> redelivered \<times> world" where
  "commit_both N out saved w = (case eng_commit (rd_engine N) (w_target w) of
       Some e \<Rightarrow> (RefreshFailed (exn_str e), roll_back saved w)
     | None \<Rightarrow> (case rd_central_commit N (w_central w) of
         Some e \<Rightarrow> (RefreshFailed (exn_str e), \<lparr>w_central = w_central saved, w_target = w_target w\<rparr>)
       | None \<Rightarrow> (Refreshed out, w)))"

definition redeliver_entity :: "redeliver_env \<Rightarrow> int \<Rightarrow> string \<Rightarrow> entity_row \<Rightarrow> world \<Rightarrow> redelivered \<times> world" where
  "redeliver_entity N now sys e w =
     (let ms = load_entity_mappings (w_central w) (en_source_table e) sys; D = entity_delivery_env (rd_env N) e sys in
      if ms = [] then (RefreshSkipped ''no approved LRMIS-target mapping'', w)
      else case rd_rows N (en_source_schema e) (en_source_table e) of
        Inl err \<Rightarrow> (RefreshFailed (exn_str err), w)
      | Inr rows \<Rightarrow> (case refresh_entity D (rd_writer N) now (en_source_table e) ms (entity_reference D e) rows w of
          (Inl err, w') \<Rightarrow> (RefreshFailed (exn_str err), roll_back w w')
        | (Inr out, w') \<Rightarrow> commit_both N out w w'))"

fun redeliver_loop ::
  "redeliver_env \<Rightarrow> int \<Rightarrow> string \<Rightarrow> entity_row list \<Rightarrow> world \<Rightarrow> (string \<times> redelivered) list \<times> world" where
  "redeliver_loop N now sys [] w = ([], w)"
| "redeliver_loop N now sys (e # es) w =
     (case redeliver_entity N now sys e w of (r, w1) \<Rightarrow>
      case redeliver_loop N now sys es w1 of (rs, w2) \<Rightarrow> ((en_source_table e, r) # rs, w2))"

definition redeliver_all :: "redeliver_env \<Rightarrow> int \<Rightarrow> string \<Rightarrow> entity_row list \<Rightarrow> (world, (string \<times> redelivered) list) comp" where
  "redeliver_all N now sys es w =
     (if es = [] then (Inr [], w)
      else case rd_open N of Some e \<Rightarrow> (Inl e, w)
      | None \<Rightarrow> (case redeliver_loop N now sys es w of (rs, w') \<Rightarrow> (Inr rs, w')))"

section \<open>The source restore and the target backup\<close>

text \<open>\<open>s.replace(p, new)\<close> for a nonempty \<open>p\<close>: non-overlapping occurrences from the left.\<close>

fun replace_sub :: "string \<Rightarrow> string \<Rightarrow> string \<Rightarrow> string" where
  "replace_sub p new [] = []"
| "replace_sub p new (c # cs) =
     (if starts_with p (c # cs) then new @ replace_sub p new (drop (length p - 1) cs)
      else c # replace_sub p new cs)"

definition restore_command :: "environment \<Rightarrow> string option \<Rightarrow> string option \<Rightarrow> (string \<times> string) res" where
  "restore_command env dump restore_cmd =
     (let path = env_or dump (env ''LRMIS_SOURCE_DUMP_PATH''); cmd = env_or restore_cmd (env ''LRMIS_SOURCE_RESTORE_CMD'');
          dsn = env ''CENTRAL_DSN'' in
      if blank path then Inl (ValidationError ''no source dump path: pass dump_path or set LRMIS_SOURCE_DUMP_PATH'')
      else if \<not> blank cmd then Inr (the path, replace_sub ''{dump}'' (the path) (the cmd))
      else if \<not> blank dsn then Inr (the path, ''psql '' @ [dq] @ the dsn @ [dq] @ '' -v ON_ERROR_STOP=1 -f '' @ [dq] @ the path @ [dq])
      else Inl (ValidationError (''source restore is not configured: set LRMIS_SOURCE_RESTORE_CMD ''
        @ ''(a full command; {dump} is substituted) or CENTRAL_DSN for the ''
        @ ''default psql restore. Refusing to guess a destructive command.'')))"

record restored =
  rs_path :: string
  rs_command :: string
  rs_executed :: bool

text \<open>\<open>shell\<close> is the shell: a command's exit code and what it wrote to stderr.\<close>

definition restore_source_dump ::
  "environment \<Rightarrow> (string \<Rightarrow> int \<times> string) \<Rightarrow> string option \<Rightarrow> string option \<Rightarrow> bool \<Rightarrow> restored res" where
  "restore_source_dump env shell dump restore_cmd dry_run =
     res_bind (restore_command env dump restore_cmd) (\<lambda>(path, cmd).
       if dry_run then Inr \<lparr>rs_path = path, rs_command = cmd, rs_executed = False\<rparr>
       else (case shell cmd of (code, stderr) \<Rightarrow>
         if code \<noteq> 0 then Inl (RuntimeError (''source restore failed (exit '' @ int_str code @ ''): ''
           @ drop (length stderr - 2000) stderr))
         else Inr \<lparr>rs_path = path, rs_command = cmd, rs_executed = True\<rparr>))"

record backup =
  bk_path :: string
  bk_executed :: bool
  bk_warning :: "string option"

text \<open>\<open>dump\<close> writes the backup file: None when it succeeded, else the warning; a partial file is removed.\<close>

definition backup_target :: "environment \<Rightarrow> (string \<Rightarrow> string option) \<Rightarrow> string \<Rightarrow> string \<Rightarrow> bool \<Rightarrow> backup" where
  "backup_target env dump dir stamp dry_run =
     (let db = (case env ''LRMIS_TARGET_DATABASE'' of None \<Rightarrow> ''lrmis_target'' | Some d \<Rightarrow> d);
          path = dir @ ''/'' @ db @ ''-'' @ stamp @ ''.sql'' in
      if dry_run then \<lparr>bk_path = path, bk_executed = False, bk_warning = None\<rparr>
      else (case dump path of
          None \<Rightarrow> \<lparr>bk_path = path, bk_executed = True, bk_warning = None\<rparr>
        | Some m \<Rightarrow> \<lparr>bk_path = path, bk_executed = False, bk_warning = Some m\<rparr>))"

section \<open>The nightly run\<close>

record nightly_env =
  ni_environment :: environment
  ni_shell :: "string \<Rightarrow> int \<times> string"
  ni_dump :: "string \<Rightarrow> string option"
  ni_backup_dir :: string
  ni_stamp :: string
  ni_recreate :: "bool \<Rightarrow> target_db \<Rightarrow> target_db res"
  ni_redeliver :: redeliver_env

record nightly =
  nt_entities :: "string list"
  nt_counts :: "(string \<times> nat) list option"
  nt_restore :: "restored option"
  nt_backup :: backup
  nt_redeliver :: "(string \<times> redelivered) list option"
  nt_warnings :: "(string \<times> string) list"

definition source_counts :: "redeliver_env \<Rightarrow> entity_row list \<Rightarrow> (string \<times> nat) list res" where
  "source_counts N es = map_res (\<lambda>e. res_bind (rd_rows N (en_source_schema e) (en_source_table e)) (\<lambda>rows.
     Inr (en_source_table e, length rows))) es"

definition backup_warnings :: "backup \<Rightarrow> (string \<times> string) list" where
  "backup_warnings b = (case bk_warning b of None \<Rightarrow> [] | Some m \<Rightarrow> if m = [] then [] else [(''backup'', m)])"

definition nightly_reset ::
  "nightly_env \<Rightarrow> bool \<Rightarrow> int \<Rightarrow> string \<Rightarrow> entity_row list \<Rightarrow> (string \<times> nat) list option \<Rightarrow> restored option
   \<Rightarrow> (world, nightly) comp" where
  "nightly_reset N dry now sys es counts restored w =
     (let b = backup_target (ni_environment N) (ni_dump N) (ni_backup_dir N) (ni_stamp N) dry;
          result = (\<lambda>rs. \<lparr>nt_entities = map en_source_table es, nt_counts = counts, nt_restore = restored, nt_backup = b,
            nt_redeliver = rs, nt_warnings = backup_warnings b\<rparr>)
      in case ni_recreate N dry (w_target w) of
           Inl e \<Rightarrow> (Inl e, w)
         | Inr T \<Rightarrow> (let w1 = w\<lparr>w_target := T\<rparr> in
             if dry then (Inr (result None), w1)
             else bind (redeliver_all (ni_redeliver N) now sys es) (\<lambda>rs. ret (result (Some rs))) w1))"

definition run_nightly_refresh ::
  "nightly_env \<Rightarrow> bool \<Rightarrow> string option \<Rightarrow> string option \<Rightarrow> bool \<Rightarrow> int \<Rightarrow> string \<Rightarrow> (world, nightly) comp" where
  "run_nightly_refresh N restore dump restore_cmd dry now sys w =
     (let es = deployed_target_entities (w_central w) sys in
      case (if dry then res_bind (source_counts (ni_redeliver N) es) (\<lambda>x. Inr (Some x)) else Inr None) of
        Inl e \<Rightarrow> (Inl e, w)
      | Inr counts \<Rightarrow>
          (case (if restore then res_bind (restore_source_dump (ni_environment N) (ni_shell N) dump restore_cmd dry)
                   (\<lambda>x. Inr (Some x)) else Inr None) of
             Inl e \<Rightarrow> (Inl e, w)
           | Inr restored \<Rightarrow> nightly_reset N dry now sys es counts restored w))"


section \<open>What a re-delivery does\<close>

lemma refresh_row_counts:
  assumes "refresh_row D wr now entity ms ref_of src s w = (Inr s', w')"
  shows "rr_written s' + length (rr_failed s') = Suc (rr_written s + length (rr_failed s))"
  using assms unfolding refresh_row_def
  by (auto simp: refresh_write_def count_written_def bind_Inr_iff ret_def split: prod.splits if_splits)

lemma refresh_rows_count:
  "fold_comp (refresh_row D wr now entity ms ref_of) rows s w = (Inr s', w')
    \<Longrightarrow> rr_written s' + length (rr_failed s') = length rows + (rr_written s + length (rr_failed s))"
proof (induction rows arbitrary: s w)
  case Nil
  then show ?case by (simp add: ret_def)
next
  case (Cons r rows)
  obtain s1 w1 where one: "refresh_row D wr now entity ms ref_of r s w = (Inr s1, w1)"
    and rest: "fold_comp (refresh_row D wr now entity ms ref_of) rows s1 w1 = (Inr s', w')"
    using Cons.prems by (auto simp: bind_Inr_iff)
  show ?case using Cons.IH [OF rest] refresh_row_counts [OF one] by simp
qed

lemma refresh_entity_counts:
  "refresh_entity D wr now entity ms ref_of rows w = (Inr out, w') \<Longrightarrow> rr_written out + length (rr_failed out) = length rows"
  unfolding refresh_entity_def by (auto simp: bind_Inr_iff dest!: refresh_rows_count)

text \<open>
  One entity, as its two commits leave it: untouched, refreshed in both databases, or (the one
  crack) refreshed in the target while the crosswalk of the central database rolled back.
\<close>

definition same_tables :: "world \<Rightarrow> world \<Rightarrow> bool" where
  "same_tables w w' = (tg_tables (w_target w') = tg_tables (w_target w))"

definition settled_entity :: "redeliver_env \<Rightarrow> int \<Rightarrow> string \<Rightarrow> entity_row \<Rightarrow> world \<Rightarrow> redelivered \<Rightarrow> world \<Rightarrow> bool" where
  "settled_entity N now sys e w r w' = (case r of
     RefreshSkipped m \<Rightarrow> w' = w \<and> load_entity_mappings (w_central w) (en_source_table e) sys = []
   | RefreshFailed m \<Rightarrow> w_central w' = w_central w \<and> (same_tables w w'
       \<or> eng_commit (rd_engine N) (w_target w') = None \<and> (\<exists>c. rd_central_commit N c \<noteq> None))
   | Refreshed out \<Rightarrow> (\<exists>rows. rd_rows N (en_source_schema e) (en_source_table e) = Inr rows
       \<and> rr_written out + length (rr_failed out) = length rows
       \<and> refresh_entity (entity_delivery_env (rd_env N) e sys) (rd_writer N) now (en_source_table e)
           (load_entity_mappings (w_central w) (en_source_table e) sys)
           (entity_reference (entity_delivery_env (rd_env N) e sys) e) rows w = (Inr out, w')
       \<and> eng_commit (rd_engine N) (w_target w') = None \<and> rd_central_commit N (w_central w') = None))"

lemma redeliver_entity_settled:
  assumes "redeliver_entity N now sys e w = (r, w')"
  shows "settled_entity N now sys e w r w'"
proof (cases "load_entity_mappings (w_central w) (en_source_table e) sys = []")
  case True
  then show ?thesis using assms by (auto simp: redeliver_entity_def settled_entity_def Let_def)
next
  case mapped: False
  let ?D = "entity_delivery_env (rd_env N) e sys" and ?ms = "load_entity_mappings (w_central w) (en_source_table e) sys"
  show ?thesis
  proof (cases "rd_rows N (en_source_schema e) (en_source_table e)")
    case (Inl err)
    then show ?thesis using assms mapped by (auto simp: redeliver_entity_def settled_entity_def same_tables_def Let_def)
  next
    case (Inr rows)
    obtain ro w1 where run: "refresh_entity ?D (rd_writer N) now (en_source_table e) ?ms (entity_reference ?D e) rows w = (ro, w1)"
      by (cases "refresh_entity ?D (rd_writer N) now (en_source_table e) ?ms (entity_reference ?D e) rows w")
    show ?thesis
    proof (cases ro)
      case (Inl err)
      then have "r = RefreshFailed (exn_str err)" "w' = roll_back w w1"
        using assms mapped Inr run by (auto simp: redeliver_entity_def Let_def)
      then show ?thesis by (simp add: settled_entity_def same_tables_def roll_back_def rollback_to_def)
    next
      case (Inr out)
      then have "commit_both N out w w1 = (r, w')"
        using assms mapped \<open>rd_rows _ _ _ = Inr rows\<close> run by (simp add: redeliver_entity_def Let_def)
      moreover have "rr_written out + length (rr_failed out) = length rows" using run Inr refresh_entity_counts by blast
      ultimately show ?thesis using run Inr \<open>rd_rows _ _ _ = Inr rows\<close>
        by (auto simp: commit_both_def settled_entity_def same_tables_def roll_back_def rollback_to_def split: option.splits)
    qed
  qed
qed

text \<open>The entities one after another, each from the world the one before it left.\<close>

fun settled_all :: "redeliver_env \<Rightarrow> int \<Rightarrow> string \<Rightarrow> entity_row list \<Rightarrow> world \<Rightarrow> (string \<times> redelivered) list \<Rightarrow> world \<Rightarrow> bool" where
  "settled_all N now sys [] w rs w' = (rs = [] \<and> w' = w)"
| "settled_all N now sys (e # es) w rs w' = (\<exists>r rest w1. rs = (en_source_table e, r) # rest
     \<and> settled_entity N now sys e w r w1 \<and> settled_all N now sys es w1 rest w')"

lemma redeliver_loop_settled: "redeliver_loop N now sys es w = (rs, w') \<Longrightarrow> settled_all N now sys es w rs w'"
proof (induction es arbitrary: w rs)
  case (Cons e es)
  obtain r w1 where one: "redeliver_entity N now sys e w = (r, w1)" by (cases "redeliver_entity N now sys e w")
  obtain rest w2 where loop: "redeliver_loop N now sys es w1 = (rest, w2)" by (cases "redeliver_loop N now sys es w1")
  have "rs = (en_source_table e, r) # rest" "w' = w2" using Cons.prems one loop by auto
  then show ?case using redeliver_entity_settled [OF one] Cons.IH [of w1 rest] loop by auto
qed simp


text \<open>Two rows of one deployed entity.\<close>

definition sample_redeliver :: redeliver_env where
  "sample_redeliver = \<lparr>rd_env = sample_env, rd_writer = legacy_writer sample_engine sample_runtime sample_registry, rd_engine = sample_engine,
     rd_rows = (\<lambda>sch t. Inr (map (\<lambda>k. [(''id'', PStr k), (''nm'', PStr k), (''lbl'', PStr k)]) [''1'', ''2''])),
     rd_central_commit = (\<lambda>c. None), rd_open = None\<rparr>"

definition delivered_schools :: central where
  "delivered_schools = (school_store [])\<lparr>entities := [sample_entity\<lparr>en_target_tables := Some [''school'', ''station'']\<rparr>]\<rparr>"

definition sample_nightly :: nightly_env where
  "sample_nightly = \<lparr>ni_environment = (\<lambda>k. None), ni_shell = (\<lambda>cmd. (0, [])), ni_dump = (\<lambda>p. None), ni_backup_dir = ''b'', ni_stamp = ''s'',
     ni_recreate = (\<lambda>dry T. Inr (if dry then T else empty_target)), ni_redeliver = sample_redeliver\<rparr>"

definition sample_night :: "nightly res \<times> world" where
  "sample_night = run_nightly_refresh sample_nightly False None None False 40 ''LRMIS'' \<lparr>w_central = delivered_schools, w_target = empty_target\<rparr>"

lemma sample_night_runs:
  "case fst sample_night of Inl _ \<Rightarrow> False | Inr rep \<Rightarrow> nt_redeliver rep \<noteq> None"
  "length (t_rows (w_target (snd sample_night)) ''school'') = 2"
  by code_simp+


end
