(* ===== verification/Ops.thy ===== *)
theory Ops
  imports Lrmis_Onboarding Nightly_Refresh
begin

text \<open>
  \<open>src/services/ops.py\<close>: the administrator's mutations (replay, kill switch, cancelling a queue,
  the two approvals), the drift monitor, the re-baselining of fingerprints and the refresh of
  named entities. Each is one transaction; the refresh re-delivers entity by entity.
\<close>

section \<open>Mutations\<close>

definition replay_event :: "int \<Rightarrow> central \<Rightarrow> string \<Rightarrow> central res" where
  "replay_event now c event_id = (case replay now c event_id of
       Inl (ValueError m) \<Rightarrow> Inl (ConflictError m) | r \<Rightarrow> r)"

definition set_entity_enabled :: "int \<Rightarrow> central \<Rightarrow> string \<Rightarrow> string \<Rightarrow> bool \<Rightarrow> string option \<Rightarrow> string option \<times> central" where
  "set_entity_enabled now c entity sys enabled reason =
     (let why = (if enabled then None else Some (if blank reason then ''manually paused'' else the reason)) in
      (why, c\<lparr>entity_control := upsert (\<lambda>k. ct_source_entity k = entity \<and> ct_target_system k = sys)
         (\<lambda>k. k\<lparr>ct_enabled := enabled, ct_paused_reason := why, ct_updated_at := now\<rparr>)
         \<lparr>ct_source_entity = entity, ct_target_system = sys, ct_enabled = enabled, ct_paused_reason = why,
          ct_updated_at = now\<rparr> (entity_control c)\<rparr>))"

text \<open>The columns of \<open>integration.outbox\<close> (\<open>sql/001_integration_foundation.sql\<close>), and those the statement of \<open>cancel_queue\<close> names.\<close>

definition outbox_columns :: "string list" where
  "outbox_columns = [''event_id'', ''source_system'', ''source_entity'', ''external_reference'', ''operation'',
     ''payload_version'', ''payload'', ''payload_checksum'', ''target_system'', ''mapping_version_id'', ''status'',
     ''attempts'', ''available_at'', ''source_updated_at'', ''created_at'', ''processed_at'', ''last_error_code'',
     ''last_error_message'']"

definition cancel_columns :: "string list" where
  "cancel_columns = [''status'', ''updated_at'', ''error_log'', ''source_entity'']"

definition cancel_queue :: "central \<Rightarrow> string \<Rightarrow> (nat \<times> central) res" where
  "cancel_queue c entity =
     (case find (\<lambda>k. k \<notin> set outbox_columns) cancel_columns of
        Some k \<Rightarrow> Inl (DbError (''column '' @ k @ '' does not exist''))
      | None \<Rightarrow> (let queued = (\<lambda>o'. ev_source_entity o' = entity \<and> ev_status o' = Pending) in
          Inr (row_count queued (outbox c),
            c\<lparr>outbox := update_where queued (\<lambda>o'. o'\<lparr>ev_status := Quarantined\<rparr>) (outbox c)\<rparr>)))"

datatype approval = MappingApproved | ProposalApproved

definition usable_count :: "central \<Rightarrow> int \<Rightarrow> nat" where
  "usable_count c pid = row_count (\<lambda>r. rv_proposal_id r = pid \<and> usable_review r) (field_reviews c)"

definition approve_pending_proposal :: "int \<Rightarrow> central \<Rightarrow> int \<Rightarrow> string \<Rightarrow> central res" where
  "approve_pending_proposal now c pid by =
     (case select_one (\<lambda>p. po_id p = pid \<and> list_ex (\<lambda>e. en_id e = po_entity_id p) (entities c)) (proposals c) of
        None \<Rightarrow> Inl (NotFoundError (''mapping version or onboarding proposal '' @ int_str pid @ '' not found''))
      | Some p \<Rightarrow>
          if po_status p = PRejected \<or> po_status p = PDeploying
          then Inl (ValidationError (''proposal status is '' @ quoted (status_text (po_status p)) @ '' and cannot be approved''))
          else if pending_count c pid \<noteq> 0
          then Inl (ValidationError (''proposal has '' @ nat_str (pending_count c pid)
            @ '' pending field review(s); resolve them before approval''))
          else if usable_count c pid = 0 then Inl (ValidationError ''proposal has no accepted or resolved field mappings'')
          else (let c1 = approve_proposal now pid by c in
            Inr (c1\<lparr>entities := update_where (\<lambda>e. en_id e = po_entity_id p)
              (\<lambda>e. e\<lparr>en_status := (if en_status e = EDeployed then EDeployed else EReviewed), en_updated_at := now\<rparr>)
              (entities c1)\<rparr>)))"

text \<open>The mapping version of that id when there is one, else the proposal of that id.\<close>

definition approve_mapping :: "int \<Rightarrow> central \<Rightarrow> int \<Rightarrow> string \<Rightarrow> (approval \<times> central) res" where
  "approve_mapping now c i by = (case approve now c i by of
       Inr c' \<Rightarrow> Inr (MappingApproved, c')
     | Inl (ValueError m) \<Rightarrow>
         if m \<noteq> ''mapping version not found'' then Inl (ValidationError m)
         else res_bind (approve_pending_proposal now c i by) (\<lambda>c'. Inr (ProposalApproved, c'))
     | Inl e \<Rightarrow> Inl e)"

definition approve_schema :: "int \<Rightarrow> central \<Rightarrow> string \<Rightarrow> string \<Rightarrow> string \<Rightarrow> central res" where
  "approve_schema now c fp sys by =
     (let this = (\<lambda>v. is_contract sys v \<and> sv_fingerprint v = fp) in
      if row_count this (schema_versions c) \<noteq> 1 then Inl (NotFoundError ''schema fingerprint not found'')
      else Inr (c\<lparr>schema_versions := update_where this
        (\<lambda>v. v\<lparr>sv_approved_at := Some now, sv_approved_by := Some by\<rparr>) (schema_versions c)\<rparr>))"

section \<open>Fingerprints of an entity\<close>

record scan_env =
  sn_runtime :: runtime
  sn_catalog :: catalog
  sn_target :: "row list res"

definition source_fingerprint :: "scan_env \<Rightarrow> entity_row \<Rightarrow> string option res" where
  "source_fingerprint V e = (case table_schema (discover_source_schema (sn_catalog V) (en_source_schema e)) (en_source_table e) of
       None \<Rightarrow> Inr None | Some s \<Rightarrow> res_bind (schema_fingerprint (sn_runtime V) s) (\<lambda>f. Inr (Some f)))"

definition target_fingerprint :: "scan_env \<Rightarrow> entity_row \<Rightarrow> string option res" where
  "target_fingerprint V e = (case en_target_tables e of
       None \<Rightarrow> Inr None
     | Some ts \<Rightarrow> if ts = [] then Inr None
         else res_bind (sn_target V) (\<lambda>rows.
           res_bind (entity_target_contract (sn_runtime V) rows ts ''LRMIS'') (\<lambda>x. Inr (snd x))))"

definition entity_fingerprints :: "scan_env \<Rightarrow> entity_row \<Rightarrow> (string option \<times> string option) res" where
  "entity_fingerprints V e = res_bind (source_fingerprint V e) (\<lambda>s.
     res_bind (target_fingerprint V e) (\<lambda>t. Inr (s, t)))"

section \<open>The drift monitor\<close>

record monitor_entry =
  mo_entity :: string
  mo_source_drift :: bool
  mo_target_drift :: bool
  mo_paused :: bool
  mo_rebaseline :: bool

definition drift_reason :: "bool \<Rightarrow> bool \<Rightarrow> string" where
  "drift_reason s t = ''Schema drift detected: source='' @ bool_str s @ '', target='' @ bool_str t"

definition legacy :: "entity_row \<Rightarrow> bool" where
  "legacy e = (en_scope_version e < 2)"

text \<open>A stored fingerprint that is set and differs from the one just computed.\<close>

definition drifted :: "entity_row \<Rightarrow> string option \<Rightarrow> string option \<Rightarrow> bool" where
  "drifted e stored now_fp = (\<not> legacy e \<and> \<not> blank stored \<and> stored \<noteq> now_fp)"

definition pause_drifted :: "int \<Rightarrow> entity_row \<Rightarrow> string option \<times> string option \<Rightarrow> bool \<Rightarrow> bool \<Rightarrow> central \<Rightarrow> central" where
  "pause_drifted now e fps s t c =
     (let why = drift_reason s t in
      c\<lparr>entities := update_where (\<lambda>x. en_id x = en_id e)
          (\<lambda>x. x\<lparr>en_status := EPaused, en_paused_reason := Some why, en_updated_at := now\<rparr>) (entities c),
        entity_control := update_where (\<lambda>k. ct_source_entity k = en_source_table e \<and> ct_target_system k = en_target_system e)
          (\<lambda>k. k\<lparr>ct_enabled := False, ct_paused_reason := Some why, ct_updated_at := now\<rparr>) (entity_control c),
        drift_reports := drift_reports c @
          [\<lparr>dr_target_system = en_target_system e, dr_previous = env_or (en_target_fingerprint e) (en_source_fingerprint e),
            dr_observed = (case env_or (snd fps) (fst fps) of None \<Rightarrow> [] | Some f \<Rightarrow> f),
            dr_differences = PDict [(''source_drift'', PBool s), (''target_drift'', PBool t)],
            dr_impacted = [en_source_table e], dr_breaking = True, dr_pair = ''source->staging'',
            dr_resolved_at = None, dr_resolved_by = None\<rparr>]\<rparr>)"

definition monitor_one :: "scan_env \<Rightarrow> int \<Rightarrow> entity_row \<Rightarrow> monitor_entry list \<times> central \<Rightarrow> (monitor_entry list \<times> central) res" where
  "monitor_one V now e s = (case s of (out, c) \<Rightarrow>
     res_bind (entity_fingerprints V e) (\<lambda>fps.
       let sd = drifted e (en_source_fingerprint e) (fst fps); td = drifted e (en_target_fingerprint e) (snd fps) in
       Inr (out @ [\<lparr>mo_entity = en_source_table e, mo_source_drift = sd, mo_target_drift = td, mo_paused = (sd \<or> td),
              mo_rebaseline = legacy e\<rparr>],
            if sd \<or> td then pause_drifted now e fps sd td c else c)))"

definition monitor :: "scan_env \<Rightarrow> int \<Rightarrow> central \<Rightarrow> (monitor_entry list \<times> central) res" where
  "monitor V now c = fold_res (monitor_one V now) (filter (\<lambda>e. en_status e = EDeployed) (entities c)) ([], c)"

section \<open>Re-baselining\<close>

definition drift_paused :: "entity_row \<Rightarrow> bool" where
  "drift_paused e = (en_status e = EPaused
     \<and> starts_with ''Schema drift detected:'' (case en_paused_reason e of None \<Rightarrow> [] | Some r \<Rightarrow> r))"

definition rebaseline_candidates :: "central \<Rightarrow> entity_row list" where
  "rebaseline_candidates c = sort_key en_source_schema (sort_key en_source_table
     (filter (\<lambda>e. (en_scope_version e < 2 \<or> drift_paused e) \<and> (en_status e = EDeployed \<or> en_status e = EPaused)) (entities c)))"

record rebaseline_entry =
  rb_entity :: string
  rb_schema :: string
  rb_skipped :: "string option"
  rb_reenable :: bool

definition opt_tables :: "string list option \<Rightarrow> pyval" where
  "opt_tables ts = (case ts of None \<Rightarrow> PNone | Some l \<Rightarrow> PList (map PStr l))"

definition store_baseline :: "int \<Rightarrow> string \<Rightarrow> entity_row \<Rightarrow> string option \<times> string option \<Rightarrow> central \<Rightarrow> central" where
  "store_baseline now actor e fps c =
     (let c1 = c\<lparr>entities := update_where (\<lambda>x. en_id x = en_id e)
            (\<lambda>x. x\<lparr>en_source_fingerprint := fst fps, en_target_fingerprint := snd fps, en_scope_version := 2,
                   en_status := (if drift_paused e then EDeployed else en_status x),
                   en_paused_reason := (if drift_paused e then None else en_paused_reason x),
                   en_updated_at := now\<rparr>) (entities c)\<rparr>;
          c2 = (if drift_paused e then c1\<lparr>entity_control :=
            update_where (\<lambda>k. ct_source_entity k = en_source_table e \<and> ct_target_system k = en_target_system e)
              (\<lambda>k. k\<lparr>ct_enabled := True, ct_paused_reason := None, ct_updated_at := now\<rparr>) (entity_control c1)\<rparr> else c1)
      in audit_sink (en_id e) None ''fingerprint_rebaseline'' (PDict [(''source_schema'', PStr (en_source_schema e)),
           (''source_table'', PStr (en_source_table e)), (''target_tables'', opt_tables (en_target_tables e)),
           (''reenabled'', PBool (drift_paused e))]) actor c2)"

definition rebaseline_one ::
  "scan_env \<Rightarrow> int \<Rightarrow> string \<Rightarrow> bool \<Rightarrow> entity_row \<Rightarrow> rebaseline_entry list \<times> central \<Rightarrow> (rebaseline_entry list \<times> central) res" where
  "rebaseline_one V now actor apply_it e s = (case s of (out, c) \<Rightarrow>
     res_bind (entity_fingerprints V e) (\<lambda>fps.
       let entry = (\<lambda>skip re. \<lparr>rb_entity = en_source_table e, rb_schema = en_source_schema e, rb_skipped = skip, rb_reenable = re\<rparr>) in
       if blank (fst fps) then Inr (out @ [entry (Some ''source object missing'') False], c)
       else if blank (snd fps) then Inr (out @ [entry (Some ''target footprint missing'') False], c)
       else Inr (out @ [entry None (drift_paused e)], if apply_it then store_baseline now actor e fps c else c)))"

definition rebaseline_entity_fingerprints ::
  "scan_env \<Rightarrow> int \<Rightarrow> string \<Rightarrow> bool \<Rightarrow> central \<Rightarrow> (rebaseline_entry list \<times> central) res" where
  "rebaseline_entity_fingerprints V now actor apply_it c =
     fold_res (rebaseline_one V now actor apply_it) (rebaseline_candidates c) ([], c)"

section \<open>Refresh\<close>

record refresh_entry =
  re_table :: string
  re_result :: "redelivered"

definition refresh_entities :: "central \<Rightarrow> string \<Rightarrow> string list \<Rightarrow> string \<Rightarrow> entity_row list" where
  "refresh_entities c schema tables sys = sort_key en_source_table
     (filter (\<lambda>e. en_source_schema e = schema \<and> en_source_table e \<in> set tables \<and> en_target_system e = sys) (entities c))"

definition schedule_audit :: "string \<Rightarrow> string \<Rightarrow> entity_row \<Rightarrow> central \<Rightarrow> central" where
  "schedule_audit schedule by e c =
     audit_sink (en_id e) None ''schedule'' (PDict [(''schedule'', PStr schedule)]) by c"

definition refresh ::
  "redeliver_env \<Rightarrow> int \<Rightarrow> string \<Rightarrow> string list \<Rightarrow> string \<Rightarrow> string \<Rightarrow> string option \<Rightarrow> (world, refresh_entry list) comp" where
  "refresh N now schema tables sys source_system schedule w =
     (let found = refresh_entities (w_central w) schema tables sys;
          on_target = filter (\<lambda>e. en_target_tables e \<noteq> None) found;
          N' = N\<lparr>rd_env := (rd_env N)\<lparr>de_source_system := source_system\<rparr>\<rparr>;
          missing = List.map_filter (\<lambda>t. if t \<in> en_source_table ` set on_target then None
            else Some \<lparr>re_table = t, re_result = RefreshSkipped (if t \<in> en_source_table ` set found
              then ''entity is not deployed to the LRMIS target''
              else ''no LRMIS-target entity - run onboard/deploy first'')\<rparr>) tables
      in bind (redeliver_all N' now sys on_target) (\<lambda>rs w1.
           (Inr (map (\<lambda>(t, r). \<lparr>re_table = t, re_result = r\<rparr>) rs @ missing),
            if \<not> blank schedule then w1\<lparr>w_central := fold (schedule_audit (the schedule) source_system) on_target (w_central w1)\<rparr>
            else w1)) w)"

section \<open>What a pass of the monitor does\<close>

text \<open>The two drifts of an entity, as a function of its row.\<close>

definition drift_of :: "scan_env \<Rightarrow> entity_row \<Rightarrow> bool \<times> bool" where
  "drift_of V e = (case entity_fingerprints V e of
     Inl _ \<Rightarrow> (False, False)
   | Inr fps \<Rightarrow> (drifted e (en_source_fingerprint e) (fst fps), drifted e (en_target_fingerprint e) (snd fps)))"

definition monitor_pauses :: "scan_env \<Rightarrow> entity_row \<Rightarrow> bool" where
  "monitor_pauses V e = (en_status e = EDeployed \<and> (fst (drift_of V e) \<or> snd (drift_of V e)))"

definition paused_row :: "scan_env \<Rightarrow> int \<Rightarrow> entity_row \<Rightarrow> entity_row" where
  "paused_row V now e = e\<lparr>en_status := EPaused,
     en_paused_reason := Some (drift_reason (fst (drift_of V e)) (snd (drift_of V e))), en_updated_at := now\<rparr>"

lemma monitor_one_cases:
  assumes "monitor_one V now e (out, c) = Inr (out', c')"
  shows "out' = out @ [\<lparr>mo_entity = en_source_table e, mo_source_drift = fst (drift_of V e),
           mo_target_drift = snd (drift_of V e), mo_paused = (fst (drift_of V e) \<or> snd (drift_of V e)), mo_rebaseline = legacy e\<rparr>]"
    and "\<not> (fst (drift_of V e) \<or> snd (drift_of V e)) \<Longrightarrow> c' = c"
    and "fst (drift_of V e) \<or> snd (drift_of V e) \<Longrightarrow>
      entities c' = update_where (\<lambda>x. en_id x = en_id e) (\<lambda>x. x\<lparr>en_status := EPaused,
        en_paused_reason := Some (drift_reason (fst (drift_of V e)) (snd (drift_of V e))), en_updated_at := now\<rparr>) (entities c)
      \<and> entity_control c' = update_where (\<lambda>k. ct_source_entity k = en_source_table e \<and> ct_target_system k = en_target_system e)
          (\<lambda>k. k\<lparr>ct_enabled := False, ct_paused_reason := Some (drift_reason (fst (drift_of V e)) (snd (drift_of V e))), ct_updated_at := now\<rparr>)
          (entity_control c)"
proof -
  obtain fps where "entity_fingerprints V e = Inr fps"
    using assms unfolding monitor_one_def prod.case res_bind_Inr_iff by blast
  note defs = assms [unfolded monitor_one_def prod.case, unfolded this res_bind_simps Let_def] this
  show "out' = out @ [\<lparr>mo_entity = en_source_table e, mo_source_drift = fst (drift_of V e),
           mo_target_drift = snd (drift_of V e), mo_paused = (fst (drift_of V e) \<or> snd (drift_of V e)), mo_rebaseline = legacy e\<rparr>]"
    and "\<not> (fst (drift_of V e) \<or> snd (drift_of V e)) \<Longrightarrow> c' = c"
    and "fst (drift_of V e) \<or> snd (drift_of V e) \<Longrightarrow>
      entities c' = update_where (\<lambda>x. en_id x = en_id e) (\<lambda>x. x\<lparr>en_status := EPaused,
        en_paused_reason := Some (drift_reason (fst (drift_of V e)) (snd (drift_of V e))), en_updated_at := now\<rparr>) (entities c)
      \<and> entity_control c' = update_where (\<lambda>k. ct_source_entity k = en_source_table e \<and> ct_target_system k = en_target_system e)
          (\<lambda>k. k\<lparr>ct_enabled := False, ct_paused_reason := Some (drift_reason (fst (drift_of V e)) (snd (drift_of V e))), ct_updated_at := now\<rparr>)
          (entity_control c)"
    using defs by (auto simp: drift_of_def pause_drifted_def Let_def)
qed


definition controls :: "entity_row \<Rightarrow> control_row \<Rightarrow> bool" where
  "controls e k = (ct_source_entity k = en_source_table e \<and> ct_target_system k = en_target_system e)"

text \<open>The rows left by pausing the drifted entities among \<open>es\<close>, one by one.\<close>

definition pause_among :: "scan_env \<Rightarrow> int \<Rightarrow> entity_row list \<Rightarrow> entity_row list \<Rightarrow> entity_row list" where
  "pause_among V now es rows = map (\<lambda>e. if e \<in> set es \<and> monitor_pauses V e then paused_row V now e else e) rows"

definition controls_after :: "scan_env \<Rightarrow> entity_row list \<Rightarrow> control_row list \<Rightarrow> control_row list \<Rightarrow> bool" where
  "controls_after V es before after = (\<forall>k \<in> set after.
     if \<exists>e \<in> set es. monitor_pauses V e \<and> controls e k then \<not> ct_enabled k else k \<in> set before)"

lemma pause_one:
  assumes "distinct (map en_id rows)" and "e \<in> set rows" and "monitor_pauses V e"
  shows "update_where (\<lambda>x. en_id x = en_id e) (\<lambda>x. x\<lparr>en_status := EPaused,
        en_paused_reason := Some (drift_reason (fst (drift_of V e)) (snd (drift_of V e))), en_updated_at := now\<rparr>) rows
    = map (\<lambda>x. if x = e then paused_row V now x else x) rows"
  unfolding update_where_def
proof (rule map_cong [OF refl])
  fix x assume "x \<in> set rows"
  then have "en_id x = en_id e \<longleftrightarrow> x = e" using distinct_map_eq [OF assms(1) _ assms(2)] by blast
  then show "(if en_id x = en_id e then x\<lparr>en_status := EPaused,
        en_paused_reason := Some (drift_reason (fst (drift_of V e)) (snd (drift_of V e))), en_updated_at := now\<rparr> else x)
      = (if x = e then paused_row V now x else x)"
    by (cases "x = e") (simp_all add: paused_row_def)
qed

lemma pause_among_Cons:
  assumes "distinct (map en_id rows)" and "set (e # es) \<subseteq> set rows" and "distinct (e # es)" and "monitor_pauses V e"
  shows "pause_among V now es (map (\<lambda>x. if x = e then paused_row V now x else x) rows) = pause_among V now (e # es) rows"
proof -
  have "paused_row V now e \<notin> set es"
  proof
    assume "paused_row V now e \<in> set es"
    moreover from this have "paused_row V now e = e"
      using assms(2) by (intro distinct_map_eq [OF assms(1)]) (auto simp: paused_row_def)
    ultimately show False using assms(3) by (metis distinct.simps(2))
  qed
  then show ?thesis
    unfolding pause_among_def map_map comp_def
  proof (intro map_cong [OF refl])
    fix x assume "paused_row V now e \<notin> set es"
    then show "(if (if x = e then paused_row V now x else x) \<in> set es \<and> monitor_pauses V (if x = e then paused_row V now x else x)
        then paused_row V now (if x = e then paused_row V now x else x) else if x = e then paused_row V now x else x)
      = (if x \<in> set (e # es) \<and> monitor_pauses V x then paused_row V now x else x)"
      using assms(4) by (cases "x = e") simp_all
  qed
qed

lemma monitor_fold:
  assumes "fold_res (monitor_one V now) es (out, c) = Inr (out', c')"
    and "distinct (map en_id (entities c))" and "set es \<subseteq> set (entities c)" and "distinct es"
    and "\<forall>e \<in> set es. en_status e = EDeployed"
  shows "entities c' = pause_among V now es (entities c)
    \<and> map mo_entity (filter mo_paused out') = map mo_entity (filter mo_paused out) @ map en_source_table (filter (monitor_pauses V) es)
    \<and> controls_after V es (entity_control c) (entity_control c')"
  using assms
proof (induction es arbitrary: out c)
  case Nil
  then show ?case by (simp add: pause_among_def controls_after_def)
next
  case (Cons e es)
  obtain out1 c1 where one: "monitor_one V now e (out, c) = Inr (out1, c1)"
    and rest: "fold_res (monitor_one V now) es (out1, c1) = Inr (out', c')"
    using Cons.prems(1) by (auto simp: res_bind_Inr_iff)
  note eff = monitor_one_cases [OF one]
  have dep: "en_status e = EDeployed" using Cons.prems(5) by simp
  show ?case
  proof (cases "monitor_pauses V e")
    case True
    then have d: "fst (drift_of V e) \<or> snd (drift_of V e)" by (simp add: monitor_pauses_def)
    have ents: "entities c1 = map (\<lambda>x. if x = e then paused_row V now x else x) (entities c)"
      using eff(3) [OF d] pause_one [OF Cons.prems(2) _ True] Cons.prems(3) by simp
    have ids: "map en_id (entities c1) = map en_id (entities c)" unfolding ents by (simp add: paused_row_def)
    have sub: "set es \<subseteq> set (entities c1)" using Cons.prems(3,4) unfolding ents by (auto simp: image_iff)
    note IH = Cons.IH [OF rest _ sub, unfolded ids, OF Cons.prems(2)]
    have "controls_after V (e # es) (entity_control c) (entity_control c')"
    proof -
      have "controls_after V es (entity_control c1) (entity_control c')" using IH Cons.prems(4,5) by simp
      moreover have "if controls e k then \<not> ct_enabled k else k \<in> set (entity_control c)"
        if k: "k \<in> set (entity_control c1)" for k
        using k [unfolded conjunct2 [OF eff(3) [OF d]]]
      proof (cases rule: update_where_cases)
        case (changed k0)
        then show ?thesis by (simp add: controls_def)
      next
        case kept
        then have "\<not> controls e k" "k \<in> set (entity_control c)" by (simp_all add: controls_def)
        then show ?thesis by simp
      qed
      ultimately show ?thesis using True unfolding controls_after_def by (fastforce split: if_splits)
    qed
    then show ?thesis
      using IH Cons.prems(4,5) eff(1) d True pause_among_Cons [OF Cons.prems(2,3,4) True] ents by simp
  next
    case False
    then have d: "\<not> (fst (drift_of V e) \<or> snd (drift_of V e))" using dep by (simp add: monitor_pauses_def)
    have c1: "c1 = c" using eff(2) [OF d] .
    have sub: "set es \<subseteq> set (entities c1)" using Cons.prems(3) c1 by simp
    note IH = Cons.IH [OF rest _ sub, unfolded c1, OF Cons.prems(2)]
    have "pause_among V now (e # es) (entities c) = pause_among V now es (entities c)"
      unfolding pause_among_def by (rule map_cong [OF refl]) (use False in auto)
    moreover have "controls_after V (e # es) (entity_control c) (entity_control c')"
      using IH Cons.prems(4,5) False by (simp add: controls_after_def)
    ultimately show ?thesis using IH Cons.prems(4,5) eff(1) d False by simp
  qed
qed

text \<open>A pass as a function of the whole table.\<close>

lemma monitor_effect:
  assumes "monitor V now c = Inr (out, c')" and "distinct (map en_id (entities c))"
  shows "entities c' = map (\<lambda>e. if monitor_pauses V e then paused_row V now e else e) (entities c)
    \<and> map mo_entity (filter mo_paused out) = map en_source_table (filter (monitor_pauses V) (entities c))
    \<and> controls_after V (entities c) (entity_control c) (entity_control c')"
proof -
  let ?es = "filter (\<lambda>e. en_status e = EDeployed) (entities c)"
  have d: "distinct ?es" using assms(2) by (simp add: distinct_map)
  have f: "fold_res (monitor_one V now) ?es ([], c) = Inr (out, c')" using assms(1) by (simp add: monitor_def)
  have sub: "set ?es \<subseteq> set (entities c)" and dep: "\<forall>e \<in> set ?es. en_status e = EDeployed" by auto
  have flt: "filter (monitor_pauses V) ?es = filter (monitor_pauses V) (entities c)"
    unfolding filter_filter by (rule filter_cong [OF refl]) (auto simp: monitor_pauses_def)
  have rows: "pause_among V now ?es (entities c) = map (\<lambda>e. if monitor_pauses V e then paused_row V now e else e) (entities c)"
    unfolding pause_among_def by (rule map_cong [OF refl]) (auto simp: monitor_pauses_def)
  have "(\<exists>e \<in> set ?es. monitor_pauses V e \<and> controls e k) = (\<exists>e \<in> set (entities c). monitor_pauses V e \<and> controls e k)" for k
    by (auto simp: monitor_pauses_def)
  then have ctl: "controls_after V ?es = controls_after V (entities c)"
    unfolding controls_after_def by presburger
  show ?thesis
    using monitor_fold [OF f assms(2) sub d dep] unfolding flt rows ctl filter.simps list.map append_Nil .
qed

lemma monitor_fingerprints:
  "fold_res (monitor_one V now) es s = Inr t \<Longrightarrow> e \<in> set es \<Longrightarrow> \<exists>fps. entity_fingerprints V e = Inr fps"
proof (induction es arbitrary: s)
  case (Cons x es)
  obtain s' where one: "monitor_one V now x s = Inr s'" and rest: "fold_res (monitor_one V now) es s' = Inr t"
    using Cons.prems(1) by (auto simp: res_bind_Inr_iff)
  show ?case
  proof (cases "e = x")
    case True
    then show ?thesis using one unfolding monitor_one_def by (cases s) (auto simp: res_bind_Inr_iff)
  next
    case False
    then show ?thesis using Cons.IH [OF rest] Cons.prems(2) by simp
  qed
qed simp

lemma monitor_quiet:
  assumes "\<forall>e \<in> set es. (\<exists>fps. entity_fingerprints V e = Inr fps) \<and> \<not> (fst (drift_of V e) \<or> snd (drift_of V e))"
  shows "\<exists>more. fold_res (monitor_one V now) es (out, c) = Inr (out @ more, c) \<and> filter mo_paused more = []"
  using assms
proof (induction es arbitrary: out)
  case (Cons e es)
  obtain fps where fps: "entity_fingerprints V e = Inr fps" using Cons.prems by auto
  then obtain out1 c1 where one: "monitor_one V now e (out, c) = Inr (out1, c1)"
    unfolding monitor_one_def by (simp add: Let_def)
  have quiet: "\<not> (fst (drift_of V e) \<or> snd (drift_of V e))" using Cons.prems by simp
  have c1: "c1 = c" by (rule monitor_one_cases(2) [OF one quiet])
  obtain x where out1: "out1 = out @ [x]" "\<not> mo_paused x" using monitor_one_cases(1) [OF one] quiet by simp
  obtain more where "fold_res (monitor_one V now) es (out1, c) = Inr (out1 @ more, c)" "filter mo_paused more = []"
    using Cons.IH [of out1] Cons.prems by auto
  then show ?case using one c1 out1 by (intro exI [of _ "x # more"]) simp
qed simp

text \<open>
  C10: a pass of the monitor pauses exactly the deployed entities whose source or target shape
  differs from the stored fingerprint, leaves the other rows as they are, switches off the
  delivery of the paused ones only, and a second pass, which sees the same schemas, finds
  nothing and changes nothing.
\<close>

theorem monitor_pauses_exactly_drifted:
  assumes "monitor V now c = Inr (out, c')" and "distinct (map en_id (entities c))"
  shows "entities c' = map (\<lambda>e. if monitor_pauses V e then paused_row V now e else e) (entities c)
    \<and> (\<forall>k \<in> set (entity_control c'). if \<exists>e \<in> set (entities c). monitor_pauses V e \<and> controls e k
         then \<not> ct_enabled k else k \<in> set (entity_control c))
    \<and> (\<exists>out2. monitor V now2 c' = Inr (out2, c') \<and> filter mo_paused out2 = [])"
proof -
  note eff = monitor_effect [OF assms]
  let ?es = "filter (\<lambda>e. en_status e = EDeployed) (entities c')"
  have "(\<exists>fps. entity_fingerprints V e = Inr fps) \<and> \<not> (fst (drift_of V e) \<or> snd (drift_of V e))" if e: "e \<in> set ?es" for e
  proof -
    obtain e0 where e0: "e0 \<in> set (entities c)" "e = (if monitor_pauses V e0 then paused_row V now e0 else e0)"
      using e conjunct1 [OF eff] by auto
    have "\<not> monitor_pauses V e0" using e e0(2) by (auto simp: paused_row_def)
    then show ?thesis
      using e e0 monitor_fingerprints [OF assms(1) [unfolded monitor_def], of e0] by (auto simp: monitor_pauses_def)
  qed
  then obtain more where "fold_res (monitor_one V now2) ?es ([], c') = Inr ([] @ more, c')" "filter mo_paused more = []"
    using monitor_quiet [of ?es V now2 "[]" c'] by blast
  then have "\<exists>out2. monitor V now2 c' = Inr (out2, c') \<and> filter mo_paused out2 = []"
    unfolding monitor_def by simp
  then show ?thesis using eff unfolding controls_after_def by blast
qed

section \<open>A small onboarding\<close>

definition demo_catalog :: catalog where
  "demo_catalog = \<lparr>cat_columns = map (\<lambda>(i, n). \<lparr>ic_schema = ''irimsv'', ic_table = ''schools'', ic_column = n, ic_type = ''text'',
       ic_is_nullable = ''YES'', ic_position = i, ic_description = None\<rparr>) [(1, ''id''), (2, ''nm''), (3, ''lbl'')],
     cat_key_usage = [\<lparr>ku_schema = ''irimsv'', ku_table = ''schools'', ku_column = ''id'', ku_constraint = ''schools_pkey''\<rparr>],
     cat_constraints = [\<lparr>cn_name = ''schools_pkey'', cn_type = ''PRIMARY KEY''\<rparr>]\<rparr>"

definition demo_target :: schema where
  "demo_target = \<lparr>sch_system = ''LRMIS'', sch_tables = [\<lparr>tab_name = ''school'', tab_columns = [mk_column ''name'' ''varchar'']\<rparr>,
     \<lparr>tab_name = ''station'', tab_columns = [mk_column ''label'' ''varchar'']\<rparr>], sch_version = ''1''\<rparr>"

definition demo_start :: central where
  "demo_start = empty_central\<lparr>entities := [new_entity 0 1 ''irimsv'' ''schools'' ''LRMIS'' [''id''] None],
     schema_versions := [\<lparr>sv_target_system = ''LRMIS'', sv_scope_kind = ''contract'', sv_scope_name = [], sv_fingerprint = ''f'',
       sv_document = schema_to_dict demo_target, sv_observed_at = 0, sv_approved_at = Some 0, sv_approved_by = None\<rparr>]\<rparr>"

definition demo_field :: "string \<Rightarrow> string \<Rightarrow> string \<Rightarrow> rat \<Rightarrow> field_mapping" where
  "demo_field src t col q = \<lparr>fm_source = PStr src, fm_table = PStr t, fm_column = PStr col, fm_confidence = Fin q,
     fm_transform = PStr ''none'', fm_reasoning = PStr []\<rparr>"

definition demo_ai :: "field_mapping list \<Rightarrow> proposer" where
  "demo_ai ms = (\<lambda>t g. Inr ms)"

definition sure_fields :: "field_mapping list" where
  "sure_fields = [demo_field ''nm'' ''school'' ''name'' (99 / 100), demo_field ''lbl'' ''station'' ''label'' (97 / 100)]"

definition demo_row :: "string \<Rightarrow> string \<Rightarrow> row" where
  "demo_row t col = [(''table_name'', PStr t), (''column_name'', PStr col), (''data_type'', PStr ''varchar''), (''is_nullable'', PStr ''YES'')]"

text \<open>A hash that evaluates quickly.\<close>

definition demo_runtime :: runtime where
  "demo_runtime = sample_runtime\<lparr>rt_sha256 := take 1\<rparr>"

definition demo_deploy :: deploy_env where
  "demo_deploy = \<lparr>dx_runtime = demo_runtime, dx_registry = sample_registry,
     dx_target = Inr [demo_row ''school'' ''name'', demo_row ''station'' ''label'']\<rparr>"

definition demo_scan :: scan_env where
  "demo_scan = \<lparr>sn_runtime = demo_runtime, sn_catalog = demo_catalog,
     sn_target = Inr [demo_row ''school'' ''name'', demo_row ''station'' ''label'']\<rparr>"

definition demo_proposed :: "(proposed \<times> central) res" where
  "demo_proposed = propose_entity demo_runtime demo_catalog (demo_ai sure_fields) 10 demo_start ''irimsv'' ''schools'' ''LRMIS''"

definition demo_deployed :: "(deploy_outcome \<times> central) res" where
  "demo_deployed = res_bind demo_proposed (\<lambda>(pr, c). deploy_to_lrmis demo_deploy None 20 c (pp_proposal pr) ''ana'')"

definition demo_scanned :: "(monitor_entry list \<times> central) res" where
  "demo_scanned = res_bind demo_deployed (\<lambda>(out, c). monitor demo_scan 30 c)"

text \<open>Two deployed entities, the first with a source fingerprint of an older shape.\<close>

definition drifted_store :: central where
  "drifted_store = empty_central\<lparr>entities :=
       [(new_entity 0 1 ''irimsv'' ''schools'' ''LRMIS'' [''id''] None)
          \<lparr>en_status := EDeployed, en_scope_version := 2, en_source_fingerprint := Some ''old''\<rparr>,
        (new_entity 0 2 ''irimsv'' ''schools'' ''OTHER'' [''id''] None)
          \<lparr>en_status := EDeployed, en_scope_version := 2, en_source_fingerprint := Some ''{''\<rparr>],
     entity_control := map (\<lambda>s. \<lparr>ct_source_entity = ''schools'', ct_target_system = s, ct_enabled = True,
       ct_paused_reason = None, ct_updated_at = 0\<rparr>) [''LRMIS'', ''OTHER'']\<rparr>"

definition is_ok :: "'a res \<Rightarrow> bool" where
  "is_ok r = (case r of Inl _ \<Rightarrow> False | Inr _ \<Rightarrow> True)"

lemma is_okD: "is_ok r \<Longrightarrow> \<exists>x. r = Inr x"
  by (cases r) (simp_all add: is_ok_def)

theorem monitor_pauses_exactly_drifted_witness:
  "\<exists>out c'. monitor demo_scan 30 drifted_store = Inr (out, c')
     \<and> map en_status (entities c') = [EPaused, EDeployed] \<and> map ct_enabled (entity_control c') = [False, True]
     \<and> (\<exists>out2. monitor demo_scan 40 c' = Inr (out2, c') \<and> filter mo_paused out2 = [])"
proof -
  have "case monitor demo_scan 30 drifted_store of Inl _ \<Rightarrow> False
      | Inr x \<Rightarrow> map en_status (entities (snd x)) = [EPaused, EDeployed] \<and> map ct_enabled (entity_control (snd x)) = [False, True]"
    by code_simp
  from case_res_InrD [OF this] obtain out c' where run: "monitor demo_scan 30 drifted_store = Inr (out, c')"
    and st: "map en_status (entities c') = [EPaused, EDeployed]" "map ct_enabled (entity_control c') = [False, True]"
    by auto
  have "distinct (map en_id (entities drifted_store))" by code_simp
  from monitor_pauses_exactly_drifted [OF run this, of 40]
  have "\<exists>out2. monitor demo_scan 40 c' = Inr (out2, c') \<and> filter mo_paused out2 = []" by (elim conjE)
  with run st show ?thesis by - (rule exI [of _ out], rule exI [of _ c'], intro conjI)
qed

section \<open>Two operator actions that miss their target\<close>

text \<open>
  A proposal is approved under its identifier; a mapping version with the same number gets the
  approval instead. And the statement of \<open>cancel_queue\<close> names columns the outbox does not have.
\<close>

definition same_identifier :: central where
  "same_identifier = (school_store [])\<lparr>proposals := [sample_proposal\<lparr>po_status := PAutoApproved\<rparr>], entities := [sample_entity],
     mapping_version := [\<lparr>mv_id = 1, mv_source_entity = ''pupils'', mv_target_system = ''LRMIS'', mv_target_table = ''pupil'', mv_fingerprint = [],
       mv_version = 1, mv_status = MDraft, mv_mappings = [], mv_approved_at = None, mv_approved_by = None\<rparr>]\<rparr>"

theorem approving_a_proposal_approves_another_mapping:
  "case approve_mapping 9 same_identifier 1 ''ana'' of Inl _ \<Rightarrow> False
   | Inr (k, c) \<Rightarrow> k = MappingApproved \<and> map po_status (proposals c) = [PAutoApproved]
       \<and> map (\<lambda>m. (mv_source_entity m, mv_status m)) (mapping_version c) = [(''pupils'', MApproved)]"
  by code_simp

theorem cancel_queue_always_fails:
  "cancel_queue c entity = Inl (DbError ''column updated_at does not exist'')"
  by (simp add: cancel_queue_def cancel_columns_def outbox_columns_def)

end
