(* ===== verification/Schema_Swap.thy ===== *)
theory Schema_Swap
  imports Ops
begin

text \<open>
  \<open>src/services/schema_swap.py\<close>: what a change of the source or the target schema would do, and
  the confirmed swap: diff against the approved contract, re-map the affected entities behind
  a confidence gate, then persist and deploy the new mappings, recreate the target and
  re-deliver. The adapters' discovery and the recreation of the target are parameters.
\<close>

section \<open>Differences\<close>

type_synonym column_shapes = "(string, string \<times> bool) dict"

record column_diff =
  cd_added :: "string list"
  cd_removed :: "string list"
  cd_changed :: "string list"

definition column_diff_of :: "column_shapes \<Rightarrow> column_shapes \<Rightarrow> column_diff" where
  "column_diff_of oc nc =
     \<lparr>cd_added = sorted_set (filter (\<lambda>k. \<not> dhas oc k) (dkeys nc)),
      cd_removed = sorted_set (filter (\<lambda>k. \<not> dhas nc k) (dkeys oc)),
      cd_changed = sorted_set (filter (\<lambda>k. dhas nc k \<and> dget oc k \<noteq> dget nc k) (dkeys oc))\<rparr>"

definition no_column_diff :: "column_diff \<Rightarrow> bool" where
  "no_column_diff d = (cd_added d = [] \<and> cd_removed d = [] \<and> cd_changed d = [])"

definition registry_shapes :: "lrmis_table \<Rightarrow> column_shapes" where
  "registry_shapes m = dict_of (map (\<lambda>c. (lc_name c, (lc_type c, lc_nullable c))) (lt_columns m))"

definition source_shapes :: "table \<Rightarrow> column_shapes" where
  "source_shapes t = dict_of (map (\<lambda>c. (col_name c, (col_type c, col_nullable c))) (tab_columns t))"

record registry_diff =
  xd_added :: "string list"
  xd_removed :: "string list"
  xd_changed :: "(string, column_diff) dict"

definition changed_entry :: "registry \<Rightarrow> registry \<Rightarrow> string \<Rightarrow> (string \<times> column_diff) option" where
  "changed_entry old new n = (case (dget old n, dget new n) of
       (Some m, Some m') \<Rightarrow> (let d = column_diff_of (registry_shapes m) (registry_shapes m') in
         if no_column_diff d then None else Some (n, d))
     | _ \<Rightarrow> None)"

definition diff_registries :: "registry \<Rightarrow> registry \<Rightarrow> registry_diff" where
  "diff_registries old new =
     \<lparr>xd_added = sorted_set (filter (\<lambda>n. \<not> dhas old n) (dkeys new)),
      xd_removed = sorted_set (filter (\<lambda>n. \<not> dhas new n) (dkeys old)),
      xd_changed = List.map_filter (changed_entry old new) (sorted_set (filter (dhas new) (dkeys old)))\<rparr>"

definition changed_table_set :: "registry_diff \<Rightarrow> string list" where
  "changed_table_set d = xd_added d @ xd_removed d @ dkeys (xd_changed d)"

record source_diff =
  sd_missing :: bool
  sd_columns :: column_diff
  sd_document :: bool

record affected =
  af_entity :: int
  af_schema :: string
  af_table :: string
  af_targets :: "string list"
  af_hit :: "string list"
  af_diff :: "source_diff option"

definition entity_target_tables :: "entity_row \<Rightarrow> string list" where
  "entity_target_tables e = (case en_target_tables e of None \<Rightarrow> [] | Some ts \<Rightarrow> ts)"

definition affected_entities :: "registry_diff \<Rightarrow> entity_row list \<Rightarrow> affected list" where
  "affected_entities d es = List.map_filter (\<lambda>e.
     let hit = sorted_set (filter (\<lambda>t. t \<in> set (changed_table_set d)) (entity_target_tables e)) in
     if hit = [] then None
     else Some \<lparr>af_entity = en_id e, af_schema = en_source_schema e, af_table = en_source_table e,
       af_targets = entity_target_tables e, af_hit = hit, af_diff = None\<rparr>) es"

section \<open>The source side\<close>

record source_contract =
  so_table :: "table option"
  so_columns :: "string list option"

definition diff_source_table :: "table option \<Rightarrow> table option \<Rightarrow> bool \<times> column_diff" where
  "diff_source_table old new = (case new of
       None \<Rightarrow> (True, \<lparr>cd_added = [], cd_removed = (case old of None \<Rightarrow> [] | Some t \<Rightarrow> sort (map col_name (tab_columns t))),
         cd_changed = []\<rparr>)
     | Some n \<Rightarrow> (case old of
         None \<Rightarrow> (False, \<lparr>cd_added = sort (map col_name (tab_columns n)), cd_removed = [], cd_changed = []\<rparr>)
       | Some t \<Rightarrow> (False, column_diff_of (source_shapes t) (source_shapes n))))"

text \<open>With approved names only, the contract takes the live types, so only presence can differ.\<close>

definition mirrored_column :: "table \<Rightarrow> string \<Rightarrow> column" where
  "mirrored_column live n = (case get_column live n of
       Some c \<Rightarrow> (mk_column n (col_type c))\<lparr>col_nullable := col_nullable c\<rparr>
     | None \<Rightarrow> mk_column n ''unknown'')"

definition contract_table :: "source_contract \<Rightarrow> string \<Rightarrow> table option \<Rightarrow> table option" where
  "contract_table k n live = (case so_table k of
       Some t \<Rightarrow> Some t
     | None \<Rightarrow> map_option (\<lambda>l. \<lparr>tab_name = n, tab_columns = map (mirrored_column l)
         (case so_columns k of None \<Rightarrow> [] | Some cs \<Rightarrow> cs)\<rparr>) live)"

definition entity_source_diff :: "schema \<Rightarrow> (string \<Rightarrow> source_contract) \<Rightarrow> entity_row \<Rightarrow> source_diff" where
  "entity_source_diff S K e =
     (let n = en_source_table e; live = get_table S n; k = K n in
      case diff_source_table (contract_table k n live) live of (missing, cd) \<Rightarrow>
        \<lparr>sd_missing = missing, sd_columns = cd, sd_document = (so_table k \<noteq> None)\<rparr>)"

definition source_affected :: "source_diff \<Rightarrow> bool" where
  "source_affected d = (sd_missing d \<or> cd_removed (sd_columns d) \<noteq> [] \<or> cd_changed (sd_columns d) \<noteq> [])"

definition affected_source_entities ::
  "schema \<Rightarrow> entity_row list \<Rightarrow> (string \<Rightarrow> source_contract) \<Rightarrow> affected list \<times> (string, source_diff) dict" where
  "affected_source_entities S es K =
     (List.map_filter (\<lambda>e. let d = entity_source_diff S K e in
        if source_affected d then Some \<lparr>af_entity = en_id e, af_schema = en_source_schema e, af_table = en_source_table e,
          af_targets = entity_target_tables e, af_hit = [en_source_table e], af_diff = Some d\<rparr> else None) es,
      dict_of (map (\<lambda>e. (en_source_table e, entity_source_diff S K e)) es))"

definition deployed_on_target :: "string \<Rightarrow> entity_row \<Rightarrow> bool" where
  "deployed_on_target sys e = (en_target_system e = sys \<and> en_status e = EDeployed \<and> en_target_tables e \<noteq> None)"

definition approved_source_columns :: "central \<Rightarrow> string \<Rightarrow> (string, string list) dict" where
  "approved_source_columns c sys = fold (\<lambda>(t, col) d. dappend t col d)
     (concat (map (\<lambda>e. case latest_by po_created_at (filter (approved_for e) (proposals c)) of
          None \<Rightarrow> []
        | Some p \<Rightarrow> map (\<lambda>r. (en_source_table e, rv_source_column r))
            (filter (\<lambda>r. rv_proposal_id r = po_id p \<and> usable_review r) (field_reviews c)))
       (filter (deployed_on_target sys) (entities c)))) []"

text \<open>\<open>DISTINCT ON (scope_name) \<dots> ORDER BY scope_name, observed_at DESC\<close>.\<close>

definition stored_source_contracts :: "central \<Rightarrow> string \<Rightarrow> (string, table) dict res" where
  "stored_source_contracts c sys =
     (let rows = filter (\<lambda>v. sv_target_system v = sys \<and> sv_scope_kind v = ''entity_source'') (schema_versions c) in
      fold_res (\<lambda>n d. case latest_by sv_observed_at (filter (\<lambda>v. sv_scope_name v = n) rows) of
          None \<Rightarrow> Inr d
        | Some v \<Rightarrow> res_bind (schema_from_dict (sv_document v)) (\<lambda>s.
            Inr (case get_table s n of
                   Some t \<Rightarrow> dput n t d
                 | None \<Rightarrow> (case sch_tables s of [] \<Rightarrow> d | t # _ \<Rightarrow> dput n t d))))
        (sorted_set (map sv_scope_name rows)) [])"

definition source_contracts :: "central \<Rightarrow> string \<Rightarrow> (string \<Rightarrow> source_contract) res" where
  "source_contracts c sys = res_bind (stored_source_contracts c sys) (\<lambda>stored.
     let columns = approved_source_columns c sys in
     Inr (\<lambda>n. \<lparr>so_table = dget stored n, so_columns = dget columns n\<rparr>))"

section \<open>Re-mapping\<close>

record remap =
  rm_table :: string
  rm_mappings :: "field_mapping list"
  rm_review :: "field_mapping list"
  rm_auto_ok :: bool
  rm_error :: "string option"

definition build_target_schema :: "registry \<Rightarrow> string list \<Rightarrow> schema res" where
  "build_target_schema R tables = res_bind (map_res (\<lambda>t. res_bind (reg_table R t) (\<lambda>m.
       Inr \<lparr>tab_name = t, tab_columns = map (\<lambda>c. (mk_column (lc_name c) (base_type c))
         \<lparr>col_nullable := lc_nullable c, col_pk := lc_pk c\<rparr>) (lt_columns m)\<rparr>)) tables) (\<lambda>ts.
     Inr \<lparr>sch_system = ''LRMIS'', sch_tables = ts, sch_version = ''1''\<rparr>)"

definition remap_doubtful :: "pyfloat \<Rightarrow> field_mapping \<Rightarrow> bool" where
  "remap_doubtful threshold m = (fm_table m = PNone \<or> fm_column m = PNone \<or> float_less (fm_confidence m) threshold)"

definition remap_entity :: "pyfloat \<Rightarrow> proposer \<Rightarrow> table \<Rightarrow> schema \<Rightarrow> remap res" where
  "remap_entity threshold ai src tgt = res_bind (ai src tgt) (\<lambda>ms.
     let review = filter (remap_doubtful threshold) ms in
     Inr \<lparr>rm_table = tab_name src, rm_mappings = ms, rm_review = review, rm_auto_ok = (review = []), rm_error = None\<rparr>)"

definition remap_one :: "pyfloat \<Rightarrow> proposer \<Rightarrow> registry \<Rightarrow> (string, table) dict \<Rightarrow> affected \<Rightarrow> remap res" where
  "remap_one threshold ai R sources a = (case dget sources (af_table a) of
       None \<Rightarrow> Inr \<lparr>rm_table = af_table a, rm_mappings = [], rm_review = [], rm_auto_ok = False,
         rm_error = Some ''source table schema not discoverable''\<rparr>
     | Some t \<Rightarrow> res_bind (build_target_schema R (af_targets a)) (remap_entity threshold ai t))"

definition remap_affected :: "pyfloat \<Rightarrow> proposer \<Rightarrow> registry \<Rightarrow> (string, table) dict \<Rightarrow> affected list \<Rightarrow> remap list res" where
  "remap_affected threshold ai R sources affs = map_res (remap_one threshold ai R sources) affs"

text \<open>
  The query of \<open>deployed_entities\<close> selects the id, the schema, the table and the footprint
  only: the dictionaries have no \<open>primary_key_columns\<close> and no \<open>source_system\<close>, which later
  reads see as absent.
\<close>

definition deployed_entities :: "central \<Rightarrow> string \<Rightarrow> entity_row list" where
  "deployed_entities c sys = map (\<lambda>e. e\<lparr>en_pk_columns := [], en_source_system := []\<rparr>)
     (sort_key en_source_table (filter (deployed_on_target sys) (entities c)))"

definition info_rows :: "catalog \<Rightarrow> string \<Rightarrow> row list" where
  "info_rows K s = map (\<lambda>c. [(''table_name'', PStr (ic_table c)), (''column_name'', PStr (ic_column c)),
      (''data_type'', PStr (ic_type c)), (''is_nullable'', PStr (ic_is_nullable c)), (''ordinal_position'', PInt (ic_position c))])
    (sort_key ic_table (sort_key ic_position (filter (\<lambda>c. ic_schema c = s) (cat_columns K))))"

definition default_discover_source :: "runtime \<Rightarrow> catalog \<Rightarrow> affected list \<Rightarrow> (string, table) dict res" where
  "default_discover_source P K affs =
     fold_res (\<lambda>(s, names) d. res_bind (from_information_schema P (info_rows K s) ''SOURCE'') (\<lambda>S.
         Inr (fold (\<lambda>n d. case get_table S n of None \<Rightarrow> d | Some t \<Rightarrow> dput n t d) (remdups names) d)))
       (fold (\<lambda>a d. dappend (af_schema a) (af_table a) d) affs []) []"

section \<open>Persisting\<close>

definition remap_row :: "runtime \<Rightarrow> int \<Rightarrow> field_mapping \<Rightarrow> central \<Rightarrow> central res" where
  "remap_row P pid m c =
     (if \<not> truthy (fm_table m) \<or> \<not> truthy (fm_column m) then Inr c
      else res_bind (sql_required P (fm_source m)) (\<lambda>src. res_bind (rt_sql_text P (fm_table m)) (\<lambda>tab.
        res_bind (rt_sql_text P (fm_column m)) (\<lambda>col.
        res_bind (sql_required P (if truthy (fm_transform m) then fm_transform m else PStr ''none'')) (\<lambda>tr.
        res_bind (rt_sql_text P (fm_reasoning m)) (\<lambda>why.
          Inr (append_review (suggested_review P pid m RAccepted src tab col tr why) c)))))))"

definition persist_remap ::
  "runtime \<Rightarrow> int \<Rightarrow> int \<Rightarrow> string \<Rightarrow> string \<Rightarrow> field_mapping list \<Rightarrow> string \<Rightarrow> central \<Rightarrow> (int \<times> central) res" where
  "persist_remap P now eid src_fp tgt_fp ms by c =
     (case append_proposal (\<lambda>i. \<lparr>po_id = i, po_entity_id = eid, po_source_fingerprint = src_fp,
            po_target_fingerprint = tgt_fp, po_status = PApproved, po_mappings = PList [], po_ignored = [], po_unmet = [],
            po_auto_count = 0, po_review_count = 0, po_rejected_count = 0, po_ai_response = None, po_reviewed_by = Some by,
            po_reviewed_at = Some now, po_created_at = now, po_updated_at = now\<rparr>) c of (pid, c1) \<Rightarrow>
        res_bind (fold_res (remap_row P pid) ms c1) (\<lambda>c2. Inr (pid, c2)))"

text \<open>The proposal commits before the deployment validates it.\<close>

definition persist_one ::
  "deploy_env \<Rightarrow> int \<Rightarrow> string \<Rightarrow> remap \<Rightarrow> (string, table) dict \<Rightarrow> affected \<Rightarrow> (central, string \<times> int) comp" where
  "persist_one D now by m sources a c =
     (let src = \<lparr>sch_system = ''SOURCE'', sch_tables = (case dget sources (af_table a) of None \<Rightarrow> [] | Some t \<Rightarrow> [t]), sch_version = ''1''\<rparr> in
      case res_bind (build_target_schema (dx_registry D) (af_targets a)) (\<lambda>tgt.
             res_bind (schema_fingerprint (dx_runtime D) src) (\<lambda>sf.
             res_bind (schema_fingerprint (dx_runtime D) tgt) (\<lambda>tf.
               persist_remap (dx_runtime D) now (af_entity a) sf tf (rm_mappings m) by c))) of
        Inl e \<Rightarrow> (Inl e, c)
      | Inr (pid, c1) \<Rightarrow> (case deploy_to_lrmis D None now c1 pid by of
          Inl e \<Rightarrow> (Inl e, c1)
        | Inr (out, c2) \<Rightarrow> (Inr (af_table a, pid), c2)))"

definition persist_step ::
  "deploy_env \<Rightarrow> int \<Rightarrow> string \<Rightarrow> remap list \<Rightarrow> (string, table) dict \<Rightarrow> affected \<Rightarrow> (string \<times> int) list
   \<Rightarrow> (central, (string \<times> int) list) comp" where
  "persist_step D now by ms sources a out =
     (case find (\<lambda>m. rm_table m = af_table a) (rev ms) of
        None \<Rightarrow> ret out
      | Some m \<Rightarrow> if \<not> rm_auto_ok m then ret out
          else bind (persist_one D now by m sources a) (\<lambda>x. ret (out @ [x])))"

definition default_persist ::
  "deploy_env \<Rightarrow> int \<Rightarrow> string \<Rightarrow> affected list \<Rightarrow> remap list \<Rightarrow> (string, table) dict \<Rightarrow> (central, (string \<times> int) list) comp" where
  "default_persist D now by affs ms sources = fold_comp (persist_step D now by ms sources) affs []"

definition store_source_contract :: "runtime \<Rightarrow> int \<Rightarrow> string \<Rightarrow> string \<Rightarrow> affected \<Rightarrow> table \<Rightarrow> central \<Rightarrow> central res" where
  "store_source_contract P now by sys a t c =
     (let doc = \<lparr>sch_system = str_upper (if af_schema a = [] then ''SOURCE'' else af_schema a), sch_tables = [t], sch_version = ''1''\<rparr> in
      res_bind (schema_fingerprint P doc) (\<lambda>fp.
        Inr (approve_version now sys ''entity_source'' (af_table a) fp (schema_to_dict doc) by c)))"

definition refresh_source_contract ::
  "runtime \<Rightarrow> catalog \<Rightarrow> int \<Rightarrow> string \<Rightarrow> string \<Rightarrow> (string, table) dict \<Rightarrow> affected \<Rightarrow> central \<Rightarrow> central res" where
  "refresh_source_contract P K now by sys sources a c =
     res_bind (case dget sources (af_table a) of None \<Rightarrow> Inr c | Some t \<Rightarrow> store_source_contract P now by sys a t c) (\<lambda>c1.
       case (if af_schema a = [] then None else table_schema (discover_source_schema K (af_schema a)) (af_table a)) of
         None \<Rightarrow> Inr c1
       | Some s \<Rightarrow> res_bind (schema_fingerprint P s) (\<lambda>fp.
           Inr (c1\<lparr>entities := update_where (\<lambda>e. en_id e = af_entity a)
             (\<lambda>e. e\<lparr>en_source_fingerprint := Some fp, en_scope_version := 2, en_updated_at := now\<rparr>) (entities c1)\<rparr>)))"

definition default_persist_source ::
  "deploy_env \<Rightarrow> catalog \<Rightarrow> int \<Rightarrow> string \<Rightarrow> string \<Rightarrow> affected list \<Rightarrow> remap list \<Rightarrow> (string, table) dict
   \<Rightarrow> (central, (string \<times> int) list) comp" where
  "default_persist_source D K now by sys affs ms sources =
     bind (default_persist D now by affs ms sources) (\<lambda>persisted c.
       case fold_res (refresh_source_contract (dx_runtime D) K now by sys sources)
              (filter (\<lambda>a. af_table a \<in> fst ` set persisted) affs) c of
         Inl e \<Rightarrow> (Inl e, c) | Inr c' \<Rightarrow> (Inr persisted, c'))"

section \<open>The swap\<close>

record swap_env =
  sw_runtime :: runtime
  sw_catalog :: catalog
  sw_engine :: string
  sw_registry :: "registry res"
  sw_schema :: "schema res"
  sw_approved :: registry
  sw_propose :: proposer
  sw_threshold :: pyfloat
  sw_target_rows :: "row list res"
  sw_recreate :: "target_db \<Rightarrow> target_db res"
  sw_restore :: "target_db \<Rightarrow> target_db res"
  sw_connects :: bool
  sw_legacy :: redeliver_env
  sw_generic :: redeliver_env

datatype swap_status = DryRun | BlockedOnReview "string list" | Applied | PendingWriter

record swap_report =
  sq_affected :: "string list"
  sq_deployed :: "string list"
  sq_remaps :: "remap list"
  sq_persisted :: "(string \<times> int) list"
  sq_redelivered :: "(string \<times> redelivered) list"
  sq_status :: swap_status

definition blocked_remaps :: "remap list \<Rightarrow> string list" where
  "blocked_remaps ms = map rm_table (filter (\<lambda>m. \<not> rm_auto_ok m) ms)"

definition recreate_target :: "swap_env \<Rightarrow> (world, unit) comp" where
  "recreate_target W w =
     (let run = (\<lambda>f. case f (w_target w) of Inl e \<Rightarrow> (Inl e, w) | Inr T \<Rightarrow> (Inr (), w\<lparr>w_target := T\<rparr>)) in
      if sw_engine W = ''mysql'' then run (sw_recreate W)
      else if sw_engine W = ''postgres'' then run (sw_restore W)
      else (Inl (ValidationError (''no recreate strategy for target engine '' @ str_repr (sw_engine W))), w))"

definition redeliver_swapped ::
  "swap_env \<Rightarrow> int \<Rightarrow> string \<Rightarrow> entity_row list \<Rightarrow> (world, swap_status \<times> (string \<times> redelivered) list) comp" where
  "redeliver_swapped W now sys es =
     (if sw_engine W = ''mysql'' then bind (redeliver_all (sw_legacy W) now sys es) (\<lambda>rs. ret (Applied, rs))
      else if \<not> sw_connects W then ret (PendingWriter, [])
      else bind (redeliver_all (sw_generic W) now sys es) (\<lambda>rs. ret (Applied, rs)))"

definition try_central :: "(central, 'a) comp \<Rightarrow> (world, 'a) comp" where
  "try_central f w = (case f (w_central w) of (r, c) \<Rightarrow> (r, w\<lparr>w_central := c\<rparr>))"

definition swap_deploy_env :: "swap_env \<Rightarrow> registry \<Rightarrow> deploy_env" where
  "swap_deploy_env W R = \<lparr>dx_runtime = sw_runtime W, dx_registry = R, dx_target = sw_target_rows W\<rparr>"

definition swap_result ::
  "affected list \<Rightarrow> entity_row list \<Rightarrow> remap list \<Rightarrow> (string \<times> int) list \<Rightarrow> (string \<times> redelivered) list \<Rightarrow> swap_status \<Rightarrow> swap_report" where
  "swap_result affs es ms persisted redelivered status = \<lparr>sq_affected = map af_table affs, sq_deployed = map en_source_table es,
     sq_remaps = ms, sq_persisted = persisted, sq_redelivered = redelivered, sq_status = status\<rparr>"

definition target_plan :: "swap_env \<Rightarrow> string \<Rightarrow> central \<Rightarrow> (registry \<times> entity_row list \<times> affected list) res" where
  "target_plan W sys c = res_bind (sw_registry W) (\<lambda>new.
     let es = deployed_entities c sys in Inr (new, es, affected_entities (diff_registries (sw_approved W) new) es))"

definition target_remaps :: "swap_env \<Rightarrow> registry \<Rightarrow> affected list \<Rightarrow> ((string, table) dict \<times> remap list) res" where
  "target_remaps W new affs =
     res_bind (if affs = [] then Inr [] else default_discover_source (sw_runtime W) (sw_catalog W) affs) (\<lambda>sources.
     res_bind (remap_affected (sw_threshold W) (sw_propose W) new sources affs) (\<lambda>ms. Inr (sources, ms)))"

text \<open>The destructive part of a target swap, after the gate.\<close>

definition swap_target ::
  "swap_env \<Rightarrow> int \<Rightarrow> string \<Rightarrow> string \<Rightarrow> registry \<Rightarrow> entity_row list \<Rightarrow> affected list \<Rightarrow> (string, table) dict
   \<Rightarrow> remap list \<Rightarrow> (world, swap_report) comp" where
  "swap_target W now sys by new es affs sources ms =
     bind (try_central (default_persist (swap_deploy_env W new) now by affs ms sources)) (\<lambda>persisted.
     bind (recreate_target W) (\<lambda>_.
     bind (redeliver_swapped W now sys es) (\<lambda>(status, rs). ret (swap_result affs es ms persisted rs status))))"

definition apply_target :: "swap_env \<Rightarrow> int \<Rightarrow> string \<Rightarrow> string \<Rightarrow> bool \<Rightarrow> (world, swap_report) comp" where
  "apply_target W now sys by force w =
     (case target_plan W sys (w_central w) of
        Inl e \<Rightarrow> (Inl e, w)
      | Inr (new, es, affs) \<Rightarrow> (case target_remaps W new affs of
          Inl e \<Rightarrow> (Inl e, w)
        | Inr (sources, ms) \<Rightarrow>
            if blocked_remaps ms \<noteq> [] \<and> \<not> force
            then (Inr (swap_result affs es ms [] [] (BlockedOnReview (blocked_remaps ms))), w)
            else swap_target W now sys by new es affs sources ms w))"

definition source_plan ::
  "swap_env \<Rightarrow> string \<Rightarrow> central \<Rightarrow> (schema \<times> entity_row list \<times> affected list \<times> (string, source_diff) dict) res" where
  "source_plan W sys c = res_bind (sw_schema W) (\<lambda>S. res_bind (source_contracts c sys) (\<lambda>K.
     let es = deployed_entities c sys in
     case affected_source_entities S es K of (affs, details) \<Rightarrow> Inr (S, es, affs, details)))"

definition source_tables_of :: "schema \<Rightarrow> affected list \<Rightarrow> (string, table) dict" where
  "source_tables_of S affs = dict_of (List.map_filter (\<lambda>a. map_option (\<lambda>t. (af_table a, t)) (get_table S (af_table a))) affs)"

definition apply_source :: "swap_env \<Rightarrow> int \<Rightarrow> string \<Rightarrow> string \<Rightarrow> bool \<Rightarrow> (world, swap_report) comp" where
  "apply_source W now sys by force w =
     (case source_plan W sys (w_central w) of
        Inl e \<Rightarrow> (Inl e, w)
      | Inr (S, es, affs, details) \<Rightarrow>
          (let sources = source_tables_of S affs in
           case remap_affected (sw_threshold W) (sw_propose W) (sw_approved W) sources affs of
             Inl e \<Rightarrow> (Inl e, w)
           | Inr ms \<Rightarrow>
               if blocked_remaps ms \<noteq> [] \<and> \<not> force
               then (Inr (swap_result affs es ms [] [] (BlockedOnReview (blocked_remaps ms))), w)
               else bind (try_central (default_persist_source (swap_deploy_env W (sw_approved W)) (sw_catalog W) now by sys affs ms sources))
                      (\<lambda>persisted. ret (swap_result affs es ms persisted [] Applied)) w))"

definition apply_swap :: "swap_env \<Rightarrow> bool \<Rightarrow> int \<Rightarrow> string \<Rightarrow> string \<Rightarrow> bool \<Rightarrow> (world, swap_report) comp" where
  "apply_swap W source_side now sys by force =
     (if source_side then apply_source W now sys by force else apply_target W now sys by force)"

record swap_preview =
  sp_deployed :: nat
  sp_affected :: "affected list"
  sp_would_remap :: "string list"

definition dry_run_swap :: "swap_env \<Rightarrow> bool \<Rightarrow> string \<Rightarrow> central \<Rightarrow> swap_preview res" where
  "dry_run_swap W source_side sys c =
     (let preview = (\<lambda>es affs. Inr \<lparr>sp_deployed = length es, sp_affected = affs, sp_would_remap = map af_table affs\<rparr>) in
      if source_side then res_bind (source_plan W sys c) (\<lambda>(S, es, affs, details). preview es affs)
      else res_bind (target_plan W sys c) (\<lambda>(new, es, affs). preview es affs))"


section \<open>What a diff finds\<close>

text \<open>The reference: a table differs when one side lacks it or the two map some column differently.\<close>

definition table_shape :: "registry \<Rightarrow> string \<Rightarrow> (string \<Rightarrow> (string \<times> bool) option) option" where
  "table_shape R n = map_option (\<lambda>m. dget (registry_shapes m)) (dget R n)"

lemma sorted_set_empty [simp]: "sorted_set xs = [] \<longleftrightarrow> xs = []"
  by (metis set_empty set_sorted_set)

lemma mem_dkeys: "k \<in> set (dkeys d) \<longleftrightarrow> dget d k \<noteq> None"
  by (auto simp: dkeys_def dget_def map_of_eq_None_iff)

lemma no_column_diff_iff: "no_column_diff (column_diff_of oc nc) \<longleftrightarrow> dget oc = dget nc"
proof -
  have "no_column_diff (column_diff_of oc nc) \<longleftrightarrow> (\<forall>k. (dget nc k \<noteq> None \<longrightarrow> dget oc k \<noteq> None) \<and> (dget oc k \<noteq> None \<longrightarrow> dget nc k \<noteq> None)
      \<and> (dget oc k \<noteq> None \<longrightarrow> dget nc k \<noteq> None \<longrightarrow> dget oc k = dget nc k))"
    unfolding no_column_diff_def column_diff_of_def by (simp add: filter_empty_conv Ball_def mem_dkeys dhas_iff) blast
  also have "\<dots> \<longleftrightarrow> (\<forall>k. dget oc k = dget nc k)" by (intro iff_allI) (metis not_None_eq)
  finally show ?thesis by (simp add: fun_eq_iff)
qed

lemma mem_dkeys_pairs: "n \<in> set (dkeys (List.map_filter f ks)) \<longleftrightarrow> (\<exists>k \<in> set ks. \<exists>d. f k = Some (n, d))"
  by (induction ks) (auto simp: dkeys_def List.map_filter_simps split: option.splits)

lemma changed_entry_iff:
  "(\<exists>d. changed_entry old new k = Some (n, d)) \<longleftrightarrow> k = n \<and> dget old n \<noteq> None \<and> dget new n \<noteq> None \<and> table_shape old n \<noteq> table_shape new n"
proof (cases "dget old k")
  case None
  then show ?thesis by (auto simp: changed_entry_def)
next
  case (Some m)
  then show ?thesis
    by (cases "dget new k") (auto simp: changed_entry_def Let_def no_column_diff_iff table_shape_def)
qed

lemma mem_dkeys_changed:
  "n \<in> set (dkeys (xd_changed (diff_registries old new)))
    \<longleftrightarrow> dget old n \<noteq> None \<and> dget new n \<noteq> None \<and> table_shape old n \<noteq> table_shape new n"
  unfolding diff_registries_def registry_diff.simps mem_dkeys_pairs changed_entry_iff by (auto simp: mem_dkeys dhas_iff)

lemma mem_changed_tables: "n \<in> set (changed_table_set (diff_registries old new)) \<longleftrightarrow> table_shape old n \<noteq> table_shape new n"
proof -
  have "n \<in> set (changed_table_set (diff_registries old new)) \<longleftrightarrow> (dget new n \<noteq> None \<and> dget old n = None)
      \<or> (dget old n \<noteq> None \<and> dget new n = None) \<or> n \<in> set (dkeys (xd_changed (diff_registries old new)))"
    by (auto simp: changed_table_set_def diff_registries_def mem_dkeys dhas_iff)
  then show ?thesis unfolding mem_dkeys_changed by (auto simp: table_shape_def)
qed

text \<open>
  C22: the entities a target swap re-maps are exactly those with a table in their footprint that
  the new schema adds, removes or gives another column, type or nullability; each is listed with
  exactly those tables.
\<close>

theorem affected_entities_exact:
  "af_entity ` set (affected_entities (diff_registries old new) es)
     = en_id ` {e \<in> set es. \<exists>t \<in> set (entity_target_tables e). table_shape old t \<noteq> table_shape new t}
   \<and> list_all (\<lambda>a. set (af_hit a) = {t \<in> set (af_targets a). table_shape old t \<noteq> table_shape new t})
       (affected_entities (diff_registries old new) es)"
proof (rule conjI)
  show "af_entity ` set (affected_entities (diff_registries old new) es)
     = en_id ` {e \<in> set es. \<exists>t \<in> set (entity_target_tables e). table_shape old t \<noteq> table_shape new t}"
    by (induction es) (auto simp: affected_entities_def List.map_filter_simps Let_def filter_empty_conv mem_changed_tables)
  show "list_all (\<lambda>a. set (af_hit a) = {t \<in> set (af_targets a). table_shape old t \<noteq> table_shape new t})
       (affected_entities (diff_registries old new) es)"
    by (induction es) (auto simp: affected_entities_def List.map_filter_simps Let_def mem_changed_tables)
qed

section \<open>The gate\<close>

definition sound_remap :: "pyfloat \<Rightarrow> remap \<Rightarrow> bool" where
  "sound_remap threshold m = (rm_auto_ok m = (rm_error m = None
     \<and> (\<forall>f \<in> set (rm_mappings m). fm_table f \<noteq> PNone \<and> fm_column f \<noteq> PNone \<and> \<not> float_less (fm_confidence f) threshold)))"

lemma remap_entity_sound:
  assumes "remap_entity threshold ai t S = Inr m"
  shows "sound_remap threshold m"
proof -
  obtain ms where "m = \<lparr>rm_table = tab_name t, rm_mappings = ms, rm_review = filter (remap_doubtful threshold) ms,
      rm_auto_ok = (filter (remap_doubtful threshold) ms = []), rm_error = None\<rparr>"
    using assms unfolding remap_entity_def res_bind_Inr_iff Let_def by auto
  then show ?thesis unfolding sound_remap_def by (simp add: filter_empty_conv remap_doubtful_def)
qed

lemma remap_one_sound: "remap_one threshold ai R sources a = Inr m \<Longrightarrow> sound_remap threshold m"
proof (cases "dget sources (af_table a)")
  case None
  assume "remap_one threshold ai R sources a = Inr m"
  then have "m = \<lparr>rm_table = af_table a, rm_mappings = [], rm_review = [], rm_auto_ok = False,
         rm_error = Some ''source table schema not discoverable''\<rparr>" using None by (simp add: remap_one_def)
  then show ?thesis by (simp add: sound_remap_def)
next
  case (Some t)
  assume "remap_one threshold ai R sources a = Inr m"
  then show ?thesis using Some remap_entity_sound by (auto simp: remap_one_def res_bind_Inr_iff)
qed

lemma map_res_all: "map_res f xs = Inr ys \<Longrightarrow> (\<And>x y. f x = Inr y \<Longrightarrow> P y) \<Longrightarrow> \<forall>y \<in> set ys. P y"
  by (induction xs arbitrary: ys) (auto simp: res_bind_Inr_iff)

lemma remap_affected_sound: "remap_affected threshold ai R sources affs = Inr ms \<Longrightarrow> \<forall>m \<in> set ms. sound_remap threshold m"
  unfolding remap_affected_def by (rule map_res_all) (auto intro: remap_one_sound)

lemma persist_one_table: "persist_one D now by m sources a c = (Inr x, c') \<Longrightarrow> fst x = af_table a"
  by (auto simp: persist_one_def Let_def split: sum.splits prod.splits)

definition let_through :: "remap list \<Rightarrow> string set" where
  "let_through ms = rm_table ` {m \<in> set ms. rm_auto_ok m}"

lemma default_persist_gated:
  assumes "default_persist D now by affs ms sources c = (Inr out, c')"
  shows "fst ` set out \<subseteq> let_through ms"
proof -
  have "(\<lambda>_ out _. fst ` set out \<subseteq> let_through ms) affs out c'"
  proof (rule fold_comp_inv [OF assms [unfolded default_persist_def]])
    fix pre :: "affected list" and a out s b t
    assume old: "fst ` set out \<subseteq> let_through ms" and step: "persist_step D now by ms sources a out s = (Inr b, t)"
    show "fst ` set b \<subseteq> let_through ms"
    proof (cases "find (\<lambda>m. rm_table m = af_table a) (rev ms)")
      case None
      then show ?thesis using old step by (simp add: persist_step_def ret_def)
    next
      case (Some m)
      then have m: "m \<in> set ms" "rm_table m = af_table a" using find_someD [OF Some] by simp_all
      show ?thesis
      proof (cases "rm_auto_ok m")
        case True
        then have "af_table a \<in> let_through ms" using m by (force simp: let_through_def)
        moreover obtain x where "b = out @ [x]" "fst x = af_table a"
          using step Some True by (auto simp: persist_step_def ret_def bind_Inr_iff dest!: persist_one_table)
        ultimately show ?thesis using old by (simp add: image_Un)
      qed (use old step Some in \<open>simp add: persist_step_def ret_def\<close>)
    qed
  qed simp
  then show ?thesis by simp
qed

lemma default_persist_source_gated:
  assumes "default_persist_source D K now by sys affs ms sources c = (Inr out, c')"
  shows "fst ` set out \<subseteq> let_through ms"
proof -
  obtain out1 c1 where run: "default_persist D now by affs ms sources c = (Inr out1, c1)"
    and rest: "(case fold_res (refresh_source_contract (dx_runtime D) K now by sys sources)
        (filter (\<lambda>a. af_table a \<in> fst ` set out1) affs) c1 of Inl e \<Rightarrow> (Inl e, c1) | Inr c2 \<Rightarrow> (Inr out1, c2)) = (Inr out, c')"
    using assms unfolding default_persist_source_def by (rule bind_InrE)
  then show ?thesis using default_persist_gated [OF run] by (simp split: sum.splits)
qed

text \<open>What the two sides share: the reviewed outcome, or what went past the gate.\<close>

definition gated :: "swap_env \<Rightarrow> bool \<Rightarrow> world \<Rightarrow> swap_report \<Rightarrow> world \<Rightarrow> bool" where
  "gated W force w rep w' =
     ((case sq_status rep of
         BlockedOnReview ts \<Rightarrow> \<not> force \<and> ts \<noteq> [] \<and> ts = blocked_remaps (sq_remaps rep) \<and> sq_persisted rep = [] \<and> w' = w
       | _ \<Rightarrow> force \<or> blocked_remaps (sq_remaps rep) = [])
      \<and> (\<forall>m \<in> set (sq_remaps rep). sound_remap (sw_threshold W) m)
      \<and> fst ` set (sq_persisted rep) \<subseteq> let_through (sq_remaps rep))"

lemma try_central_Inr: "try_central f w = (Inr x, w') \<longleftrightarrow> (\<exists>c. f (w_central w) = (Inr x, c) \<and> w' = w\<lparr>w_central := c\<rparr>)"
  by (auto simp: try_central_def split: prod.splits)

lemma redeliver_swapped_status: "redeliver_swapped W now sys es w = (Inr (status, rs), w') \<Longrightarrow> status = Applied \<or> status = PendingWriter"
  by (auto simp: redeliver_swapped_def bind_Inr_iff ret_def split: if_splits)

lemma blocked_gated:
  "blocked_remaps ms \<noteq> [] \<Longrightarrow> \<not> force \<Longrightarrow> \<forall>m \<in> set ms. sound_remap (sw_threshold W) m
    \<Longrightarrow> gated W force w (swap_result affs es ms [] [] (BlockedOnReview (blocked_remaps ms))) w"
  by (simp add: gated_def swap_result_def)

lemma passed_gated:
  "blocked_remaps ms = [] \<or> force \<Longrightarrow> \<forall>m \<in> set ms. sound_remap (sw_threshold W) m \<Longrightarrow> fst ` set out \<subseteq> let_through ms
    \<Longrightarrow> status = Applied \<or> status = PendingWriter \<Longrightarrow> gated W force w (swap_result affs es ms out rs status) w'"
  by (auto simp: gated_def swap_result_def)

lemma apply_target_gated:
  assumes "apply_target W now sys by force w = (Inr rep, w')"
  shows "gated W force w rep w'"
proof -
  obtain new es affs where plan: "target_plan W sys (w_central w) = Inr (new, es, affs)"
    using assms unfolding apply_target_def by (auto split: sum.splits)
  obtain sources ms where remaps: "target_remaps W new affs = Inr (sources, ms)"
    using assms plan unfolding apply_target_def by (auto split: sum.splits)
  then have sound: "\<forall>m \<in> set ms. sound_remap (sw_threshold W) m"
    unfolding target_remaps_def by (auto simp: res_bind_Inr_iff dest!: remap_affected_sound)
  show ?thesis
  proof (cases "blocked_remaps ms \<noteq> [] \<and> \<not> force")
    case True
    then show ?thesis using assms plan remaps sound by (auto simp: apply_target_def intro: blocked_gated)
  next
    case False
    then have "swap_target W now sys by new es affs sources ms w = (Inr rep, w')"
      using assms plan remaps by (auto simp: apply_target_def split: if_splits)
    then obtain out status rs w1 w2 w3 where
        "try_central (default_persist (swap_deploy_env W new) now by affs ms sources) w = (Inr out, w1)"
        "redeliver_swapped W now sys es w2 = (Inr (status, rs), w3)" "rep = swap_result affs es ms out rs status"
      unfolding swap_target_def by (auto simp: bind_Inr_iff ret_def)
    then show ?thesis using False sound
      by (auto simp: try_central_Inr intro!: passed_gated dest!: default_persist_gated redeliver_swapped_status)
  qed
qed

lemma apply_source_gated:
  assumes "apply_source W now sys by force w = (Inr rep, w')"
  shows "gated W force w rep w'"
proof -
  obtain S es affs details where plan: "source_plan W sys (w_central w) = Inr (S, es, affs, details)"
    using assms unfolding apply_source_def by (auto split: sum.splits)
  obtain ms where remaps: "remap_affected (sw_threshold W) (sw_propose W) (sw_approved W) (source_tables_of S affs) affs = Inr ms"
    using assms plan unfolding apply_source_def by (auto simp: Let_def split: sum.splits)
  note sound = remap_affected_sound [OF remaps]
  show ?thesis
  proof (cases "blocked_remaps ms \<noteq> [] \<and> \<not> force")
    case True
    then show ?thesis using assms plan remaps sound by (auto simp: apply_source_def Let_def intro: blocked_gated)
  next
    case False
    then obtain out w1 where
        "try_central (default_persist_source (swap_deploy_env W (sw_approved W)) (sw_catalog W) now by sys affs ms (source_tables_of S affs)) w
           = (Inr out, w1)" "rep = swap_result affs es ms out [] Applied"
      using assms plan remaps unfolding apply_source_def Let_def by (auto simp: bind_Inr_iff ret_def)
    then show ?thesis using False sound by (auto simp: try_central_Inr intro!: passed_gated dest!: default_persist_source_gated)
  qed
qed

text \<open>
  C21: a swap that is not forced and finds an entity whose new mapping is doubtful stops before it
  changes anything; and forced or not, only entities whose every new field has a target and reaches
  the threshold get their mapping replaced.
\<close>

theorem swap_gate:
  assumes "apply_swap W source_side now sys by force w = (Inr rep, w')"
  shows "(case sq_status rep of
        BlockedOnReview ts \<Rightarrow> \<not> force \<and> ts = blocked_remaps (sq_remaps rep) \<and> sq_persisted rep = [] \<and> w' = w
      | _ \<Rightarrow> force \<or> blocked_remaps (sq_remaps rep) = [])
    \<and> (\<forall>t \<in> fst ` set (sq_persisted rep). \<exists>m \<in> set (sq_remaps rep). rm_table m = t \<and> rm_error m = None
         \<and> (\<forall>f \<in> set (rm_mappings m). fm_table f \<noteq> PNone \<and> fm_column f \<noteq> PNone
              \<and> \<not> float_less (fm_confidence f) (sw_threshold W)))"
proof -
  have g: "gated W force w rep w'"
    using assms by (auto simp: apply_swap_def intro: apply_target_gated apply_source_gated split: if_splits)
  have "\<exists>m \<in> set (sq_remaps rep). rm_table m = t \<and> rm_error m = None
      \<and> (\<forall>f \<in> set (rm_mappings m). fm_table f \<noteq> PNone \<and> fm_column f \<noteq> PNone \<and> \<not> float_less (fm_confidence f) (sw_threshold W))"
    if "t \<in> fst ` set (sq_persisted rep)" for t
  proof -
    have "t \<in> let_through (sq_remaps rep)" using that g unfolding gated_def by blast
    then obtain m where m: "m \<in> set (sq_remaps rep)" "rm_auto_ok m" "rm_table m = t" unfolding let_through_def by blast
    then have "sound_remap (sw_threshold W) m" using g unfolding gated_def by blast
    then show ?thesis using m unfolding sound_remap_def by blast
  qed
  then show ?thesis using g unfolding gated_def by (auto split: swap_status.splits)
qed

text \<open>The entity list of a swap has no key columns, so every row of an entity gets one reference.\<close>

theorem swapped_references_collapse:
  assumes "e \<in> set (deployed_entities c sys)"
  shows "entity_reference D e r = entity_reference D e r'"
  using assms by (auto simp: deployed_entities_def entity_reference_def)


section \<open>A small swap\<close>

text \<open>A new school table with one more column, and a proposer of given mappings.\<close>

definition grown_registry :: registry where
  "grown_registry = mk_table ''school'' [(''id'', True), (''station_id'', False), (''name'', False), (''motto'', False)]
       [(''station_id'', ''station'')] # tl sample_registry"

definition swap_demo :: "field_mapping list \<Rightarrow> swap_env" where
  "swap_demo ms = \<lparr>sw_runtime = demo_runtime, sw_catalog = demo_catalog, sw_engine = ''mysql'', sw_registry = Inr grown_registry,
     sw_schema = Inr demo_target, sw_approved = sample_registry, sw_propose = demo_ai ms, sw_threshold = Fin (95 / 100),
     sw_target_rows = Inr [demo_row ''school'' ''name'', demo_row ''station'' ''label''], sw_recreate = (\<lambda>T. Inr empty_target),
     sw_restore = (\<lambda>T. Inr empty_target), sw_connects = True, sw_legacy = sample_redeliver, sw_generic = sample_redeliver\<rparr>"

definition swap_start :: world where
  "swap_start = \<lparr>w_central = demo_start\<lparr>entities := map (\<lambda>e. e\<lparr>en_status := EDeployed, en_target_tables := Some [''school'', ''station'']\<rparr>)
     (entities demo_start)\<rparr>, w_target = empty_target\<rparr>"

definition doubtful_fields :: "field_mapping list" where
  "doubtful_fields = [demo_field ''nm'' ''school'' ''name'' (1 / 2)]"

definition swap_stops :: "swap_report res \<times> world" where
  "swap_stops = apply_swap (swap_demo doubtful_fields) False 40 ''LRMIS'' ''ana'' False swap_start"

text \<open>A swap to a target that changes nothing: every entity is still delivered again.\<close>

definition swap_goes :: "swap_report res \<times> world" where
  "swap_goes = apply_swap ((swap_demo sure_fields)\<lparr>sw_registry := Inr sample_registry\<rparr>) False 40 ''LRMIS'' ''ana'' False
     \<lparr>w_central = delivered_schools, w_target = empty_target\<rparr>"

lemma swap_stops_run: "case fst swap_stops of Inl _ \<Rightarrow> False | Inr rep \<Rightarrow> sq_status rep = BlockedOnReview [''schools'']"
  by code_simp

theorem swap_gate_witness:
  "\<exists>rep. apply_swap (swap_demo doubtful_fields) False 40 ''LRMIS'' ''ana'' False swap_start = (Inr rep, swap_start)
     \<and> sq_status rep = BlockedOnReview [''schools''] \<and> sq_persisted rep = []"
proof -
  obtain rep w' where run: "apply_swap (swap_demo doubtful_fields) False 40 ''LRMIS'' ''ana'' False swap_start = (Inr rep, w')"
    and blocked: "sq_status rep = BlockedOnReview [''schools'']"
    using case_res_InrD [OF swap_stops_run] unfolding swap_stops_def by (metis prod.collapse)
  then show ?thesis using swap_gate [OF run] by simp
qed

text \<open>
  Both rows are delivered under one reference, so the second overwrites the first: the report says
  two rows were written, the recreated table holds one.
\<close>

theorem swap_loses_rows:
  "map_sum id (\<lambda>rep. case sq_redelivered rep of [(_, Refreshed out)] \<Rightarrow> Some (sq_status rep, rr_written out) | _ \<Rightarrow> None) (fst swap_goes)
     = Inr (Some (Applied, 2))
   \<and> length (t_rows (w_target (snd swap_goes)) ''school'') = 1"
  by (rule conjI; code_simp)

text \<open>
  The new mapping commits before its deployment checks it: when the check refuses it the swap
  raises, and the worker serves the refused mapping, here of a column no table has.
\<close>

definition misspelt_fields :: "field_mapping list" where
  "misspelt_fields = [demo_field ''nm'' ''school'' ''title'' (99 / 100)]"

definition refused_swap :: "swap_report res \<times> world" where
  "refused_swap = apply_swap (swap_demo misspelt_fields) False 40 ''LRMIS'' ''ana'' False swap_start"

theorem refused_swap_goes_live:
  "(case fst refused_swap of Inl e \<Rightarrow> True | Inr rep \<Rightarrow> False)
   \<and> load_entity_mappings (w_central swap_start) ''schools'' ''LRMIS'' = []
   \<and> map m_column (load_entity_mappings (w_central (snd refused_swap)) ''schools'' ''LRMIS'') = [Some ''title'']
   \<and> (case dget grown_registry ''school'' of None \<Rightarrow> False | Some m \<Rightarrow> ''title'' \<notin> set (map lc_name (lt_columns m)))"
  by (intro conjI; code_simp)

end
