(* ===== verification/Drift_Resolution.thy ===== *)
theory Drift_Resolution
  imports Ops Schema_Drift
begin

text \<open>
  \<open>src/services/scan.py\<close> and \<open>src/services/drift_resolution.py\<close>: the observation of the target
  contract, the combined scan, and the workflows that accept a drift: refresh the entity, store
  the new fingerprint, clear the pause, close the reports; and the two resets.
\<close>

section \<open>Observing the target\<close>

record observation =
  os_system :: string
  os_fingerprint :: string
  os_differences :: "difference list"
  os_impacted :: "string list"
  os_drift :: bool

definition new_version :: "int \<Rightarrow> string \<Rightarrow> string \<Rightarrow> pyval \<Rightarrow> bool \<Rightarrow> string option \<Rightarrow> schema_version_row" where
  "new_version now sys fp doc approved by = \<lparr>sv_target_system = sys, sv_scope_kind = ''contract'', sv_scope_name = [],
     sv_fingerprint = fp, sv_document = doc, sv_observed_at = now, sv_approved_at = (if approved then Some now else None),
     sv_approved_by = by\<rparr>"

definition latest_contract :: "central \<Rightarrow> string \<Rightarrow> schema_version_row option" where
  "latest_contract c sys = latest_by sv_observed_at (filter (is_contract sys) (schema_versions c))"

text \<open>The version row is added unless the fingerprint is already known; its time of observation is then kept.\<close>

definition record_observation ::
  "int \<Rightarrow> central \<Rightarrow> string \<Rightarrow> schema \<Rightarrow> string \<Rightarrow> (string \<times> schema) option \<Rightarrow> bool \<Rightarrow> string option
   \<Rightarrow> observation \<times> central" where
  "record_observation now c sys observed fp previous approve_initial by =
     (let diffs = (case previous of None \<Rightarrow> [] | Some (_, s) \<Rightarrow> diff_schemas s observed);
          c1 = c\<lparr>schema_versions := insert_ignore (\<lambda>v. is_contract sys v \<and> sv_fingerprint v = fp)
            (new_version now sys fp (schema_to_dict observed) (approve_initial \<and> previous = None) by) (schema_versions c)\<rparr>
      in case previous of
           Some (pfp, s) \<Rightarrow> if pfp \<noteq> fp
             then (case record_drift now c1 sys (Some pfp) fp diffs ''source->target'' of (impacted, c2) \<Rightarrow>
               (\<lparr>os_system = sys, os_fingerprint = fp, os_differences = diffs, os_impacted = impacted, os_drift = True\<rparr>, c2))
             else (\<lparr>os_system = sys, os_fingerprint = fp, os_differences = diffs, os_impacted = [], os_drift = False\<rparr>, c1)
         | None \<Rightarrow> (\<lparr>os_system = sys, os_fingerprint = fp, os_differences = diffs, os_impacted = [], os_drift = False\<rparr>, c1))"

definition observe_target ::
  "scan_env \<Rightarrow> int \<Rightarrow> string \<Rightarrow> bool \<Rightarrow> string option \<Rightarrow> central \<Rightarrow> (observation \<times> central) res" where
  "observe_target V now sys approve_initial by c =
     res_bind (sn_target V) (\<lambda>rows.
     res_bind (from_information_schema (sn_runtime V) rows sys) (\<lambda>observed.
     res_bind (schema_fingerprint (sn_runtime V) observed) (\<lambda>fp.
     res_bind (case latest_contract c sys of
         None \<Rightarrow> Inr None
       | Some v \<Rightarrow> res_bind (schema_from_dict (sv_document v)) (\<lambda>s. Inr (Some (sv_fingerprint v, s)))) (\<lambda>previous.
       Inr (record_observation now c sys observed fp previous approve_initial by)))))"

record scan_result =
  sr_target :: observation
  sr_entities :: "monitor_entry list"
  sr_paused :: "string list"
  sr_drift :: bool

text \<open>Two transactions: the observation commits before the monitor runs.\<close>

definition scan :: "scan_env \<Rightarrow> int \<Rightarrow> string \<Rightarrow> bool \<Rightarrow> string option \<Rightarrow> (central, scan_result) comp" where
  "scan V now sys approve_initial by c =
     (case observe_target V now sys approve_initial by c of
        Inl e \<Rightarrow> (Inl e, c)
      | Inr (t, c1) \<Rightarrow> (case monitor V now c1 of
          Inl e \<Rightarrow> (Inl e, c1)
        | Inr (es, c2) \<Rightarrow> (let paused = map mo_entity (filter mo_paused es) in
            (Inr \<lparr>sr_target = t, sr_entities = es, sr_paused = sorted_set (os_impacted t @ paused),
               sr_drift = (os_drift t \<or> paused \<noteq> [])\<rparr>, c2))))"

section \<open>Resolving a drift\<close>

datatype side = SourceSide | TargetSide

definition side_marker :: "side \<Rightarrow> string" where
  "side_marker k = (case k of SourceSide \<Rightarrow> ''source=True'' | TargetSide \<Rightarrow> ''target=True'')"

definition side_fingerprint :: "side \<Rightarrow> entity_row \<Rightarrow> string option" where
  "side_fingerprint k e = (case k of SourceSide \<Rightarrow> en_source_fingerprint e | TargetSide \<Rightarrow> en_target_fingerprint e)"

definition set_side_fingerprint :: "side \<Rightarrow> string option \<Rightarrow> entity_row \<Rightarrow> entity_row" where
  "set_side_fingerprint k fp e = (case k of
     SourceSide \<Rightarrow> e\<lparr>en_source_fingerprint := fp\<rparr> | TargetSide \<Rightarrow> e\<lparr>en_target_fingerprint := fp\<rparr>)"

definition named :: "string list option \<Rightarrow> entity_row \<Rightarrow> bool" where
  "named only e = (case only of None \<Rightarrow> True | Some ns \<Rightarrow> ns = [] \<or> en_source_table e \<in> set ns)"

definition drifted_entities :: "central \<Rightarrow> side \<Rightarrow> string list option \<Rightarrow> entity_row list" where
  "drifted_entities c k only = sort_key en_source_schema (sort_key en_source_table
     (filter (\<lambda>e. drift_paused e \<and> str_in (side_marker k) (case en_paused_reason e of None \<Rightarrow> [] | Some r \<Rightarrow> r)
        \<and> named only e) (entities c)))"

definition mark_reports_resolved :: "int \<Rightarrow> string \<Rightarrow> central \<Rightarrow> nat \<times> central" where
  "mark_reports_resolved now actor c =
     (let clear = (\<lambda>r. dr_resolved_at r = None \<and> dr_impacted r \<noteq> []
            \<and> \<not> list_ex (\<lambda>e. en_source_table e \<in> set (dr_impacted r) \<and> en_status e = EPaused) (entities c)) in
      (row_count clear (drift_reports c), c\<lparr>drift_reports :=
         update_where clear (\<lambda>r. r\<lparr>dr_resolved_at := Some now, dr_resolved_by := Some actor\<rparr>) (drift_reports c)\<rparr>))"

record resolved_entry =
  dn_entity :: string
  dn_old :: "string option"
  dn_new :: "string option"
  dn_rows :: nat

record plan_entry =
  pl_entity :: string
  pl_current :: "string option"
  pl_new :: "string option"
  pl_changed :: bool

record resolution =
  rn_resolved :: "resolved_entry list"
  rn_skipped :: "(string \<times> string) list"
  rn_plan :: "plan_entry list"
  rn_marked :: nat

definition empty_resolution :: resolution where
  "empty_resolution = \<lparr>rn_resolved = [], rn_skipped = [], rn_plan = [], rn_marked = 0\<rparr>"

definition side_of :: "side \<Rightarrow> 'a \<times> 'a \<Rightarrow> 'a" where
  "side_of k x = (case k of SourceSide \<Rightarrow> fst x | TargetSide \<Rightarrow> snd x)"

definition plan_one :: "scan_env \<Rightarrow> side \<Rightarrow> entity_row \<Rightarrow> resolution \<Rightarrow> resolution res" where
  "plan_one V k e out = res_bind (entity_fingerprints V e) (\<lambda>fps.
     let old = side_fingerprint k e; new = side_of k fps in
     Inr (out\<lparr>rn_plan := rn_plan out @ [\<lparr>pl_entity = en_source_table e, pl_current = old, pl_new = new,
       pl_changed = (\<not> blank old \<and> \<not> blank new \<and> old \<noteq> new)\<rparr>]\<rparr>))"

definition clear_pause :: "int \<Rightarrow> string \<Rightarrow> side \<Rightarrow> entity_row \<Rightarrow> string option \<Rightarrow> nat \<Rightarrow> central \<Rightarrow> central" where
  "clear_pause now actor k e fp rows c =
     audit_sink (en_id e) None ''drift_resolved'' (PDict
         [(''kind'', PStr (case k of SourceSide \<Rightarrow> ''source'' | TargetSide \<Rightarrow> ''target'')),
          (''old_fingerprint'', opt_str (side_fingerprint k e)), (''new_fingerprint'', opt_str fp),
          (''target_tables'', opt_tables (en_target_tables e)), (''rows_loaded'', PInt (int rows))]) actor
       (c\<lparr>entities := update_where (\<lambda>x. en_id x = en_id e)
            (\<lambda>x. set_side_fingerprint k fp (x\<lparr>en_status := EDeployed, en_paused_reason := None, en_updated_at := now\<rparr>)) (entities c),
          entity_control := update_where (\<lambda>r. ct_source_entity r = en_source_table e \<and> ct_target_system r = en_target_system e)
            (\<lambda>r. r\<lparr>ct_enabled := True, ct_paused_reason := None, ct_updated_at := now\<rparr>) (entity_control c)\<rparr>)"

record resolve_env =
  rx_scan :: scan_env
  rx_redeliver :: redeliver_env
  rx_source_system :: string

text \<open>The refresh of one entity, read as the code reads its first result.\<close>

definition refreshed_rows :: "refresh_entry list \<Rightarrow> string + nat" where
  "refreshed_rows rs = (case rs of
       [] \<Rightarrow> Inl ''refresh did not run''
     | r # _ \<Rightarrow> (case re_result r of Refreshed out \<Rightarrow> Inr (rr_written out) | RefreshSkipped m \<Rightarrow> Inl m | RefreshFailed m \<Rightarrow> Inl m))"

definition resolve_one_drift ::
  "resolve_env \<Rightarrow> int \<Rightarrow> string \<Rightarrow> side \<Rightarrow> entity_row \<Rightarrow> resolution \<Rightarrow> (world, resolution) comp" where
  "resolve_one_drift X now actor k e out =
     bind (refresh (rx_redeliver X) now (en_source_schema e) [en_source_table e] (en_target_system e)
             (rx_source_system X) None) (\<lambda>rs w.
       case refreshed_rows rs of
         Inl why \<Rightarrow> (Inr (out\<lparr>rn_skipped := rn_skipped out @ [(en_source_table e, why)]\<rparr>), w)
       | Inr n \<Rightarrow> (case entity_fingerprints (rx_scan X) e of
           Inl err \<Rightarrow> (Inl err, w)
         | Inr fps \<Rightarrow> (Inr (out\<lparr>rn_resolved := rn_resolved out @
               [\<lparr>dn_entity = en_source_table e, dn_old = side_fingerprint k e, dn_new = side_of k fps, dn_rows = n\<rparr>]\<rparr>),
             w\<lparr>w_central := clear_pause now actor k e (side_of k fps) n (w_central w)\<rparr>)))"

definition resolve_side ::
  "resolve_env \<Rightarrow> int \<Rightarrow> string \<Rightarrow> bool \<Rightarrow> side \<Rightarrow> string list option \<Rightarrow> (world, resolution) comp" where
  "resolve_side X now actor dry k only w =
     (let es = drifted_entities (w_central w) k only in
      if dry then (fold_res (plan_one (rx_scan X) k) es empty_resolution, w)
      else bind (fold_comp (resolve_one_drift X now actor k) es empty_resolution) (\<lambda>out w1.
        case mark_reports_resolved now actor (w_central w1) of (n, c) \<Rightarrow>
          (Inr (out\<lparr>rn_marked := n\<rparr>), w1\<lparr>w_central := c\<rparr>)) w)"

definition resolve_all ::
  "resolve_env \<Rightarrow> int \<Rightarrow> string \<Rightarrow> bool \<Rightarrow> string list option \<Rightarrow> (world, resolution \<times> resolution) comp" where
  "resolve_all X now actor dry only =
     bind (resolve_side X now actor dry SourceSide only) (\<lambda>s.
       bind (resolve_side X now actor dry TargetSide only) (\<lambda>t. ret (s, t)))"

definition resolve_drift ::
  "resolve_env \<Rightarrow> int \<Rightarrow> string \<Rightarrow> bool \<Rightarrow> bool \<Rightarrow> bool \<Rightarrow> string list option \<Rightarrow> (world, resolution list) comp" where
  "resolve_drift X now actor dry src tgt only =
     (if src \<and> tgt then bind (resolve_all X now actor dry only) (\<lambda>(s, t). ret [s, t])
      else if src then bind (resolve_side X now actor dry SourceSide only) (\<lambda>s. ret [s])
      else if tgt then bind (resolve_side X now actor dry TargetSide only) (\<lambda>t. ret [t])
      else ret [])"

section \<open>The resets\<close>

datatype reset_status = ResetUpdated "string option" "string option" | ResetSkipped string

record reset_result =
  rz_resolved :: "(string \<times> reset_status) list"
  rz_plan :: "plan_entry list"
  rz_total :: nat
  rz_skipped :: nat

definition reset_entities :: "central \<Rightarrow> string list option \<Rightarrow> entity_row list" where
  "reset_entities c only = sort_key en_source_schema (sort_key en_source_table
     (filter (\<lambda>e. en_status e = EDeployed \<and> named only e) (entities c)))"

type_synonym reset_acc = "(string \<times> reset_status) list \<times> plan_entry list"

definition reset_outcome :: "nat \<Rightarrow> reset_acc \<Rightarrow> reset_result" where
  "reset_outcome entries acc = \<lparr>rz_resolved = fst acc, rz_plan = snd acc, rz_total = length (fst acc),
     rz_skipped = entries - length (fst acc)\<rparr>"

definition store_reset :: "int \<Rightarrow> string \<Rightarrow> side \<Rightarrow> entity_row \<Rightarrow> string option \<Rightarrow> pyval \<Rightarrow> central \<Rightarrow> central" where
  "store_reset now actor k e fp details c =
     audit_sink (en_id e) None (case k of SourceSide \<Rightarrow> ''source_reset'' | TargetSide \<Rightarrow> ''target_reset'') details actor
       (c\<lparr>entities := update_where (\<lambda>x. en_id x = en_id e \<and> en_status x = EDeployed)
            (\<lambda>x. set_side_fingerprint k fp (x\<lparr>en_updated_at := now\<rparr>)) (entities c)\<rparr>)"

definition reset_source_one ::
  "scan_env \<Rightarrow> int \<Rightarrow> string \<Rightarrow> bool \<Rightarrow> entity_row \<Rightarrow> reset_acc \<Rightarrow> (world, reset_acc) comp" where
  "reset_source_one V now actor dry e acc w = (case source_fingerprint V e of
       Inl err \<Rightarrow> (Inl err, w)
     | Inr fp \<Rightarrow>
         if dry then (Inr (fst acc, snd acc @ [\<lparr>pl_entity = en_source_table e, pl_current = en_source_fingerprint e,
           pl_new = fp, pl_changed = (en_source_fingerprint e \<noteq> fp)\<rparr>]), w)
         else if blank fp then (Inr (fst acc @ [(en_source_table e, ResetSkipped ''source object not found'')], snd acc), w)
         else (Inr (fst acc @ [(en_source_table e, ResetUpdated (en_source_fingerprint e) fp)], snd acc),
           w\<lparr>w_central := store_reset now actor SourceSide e fp (PDict [(''old_fingerprint'', opt_str (en_source_fingerprint e)),
             (''new_fingerprint'', opt_str fp)]) (w_central w)\<rparr>))"

definition reset_source ::
  "resolve_env \<Rightarrow> int \<Rightarrow> string \<Rightarrow> bool \<Rightarrow> string list option \<Rightarrow> (world, reset_result) comp" where
  "reset_source X now actor dry only w =
     (let es = reset_entities (w_central w) only in
      bind (fold_comp (reset_source_one (rx_scan X) now actor dry) es ([], [])) (\<lambda>acc. ret (reset_outcome (length es) acc)) w)"

definition reset_target_live ::
  "resolve_env \<Rightarrow> int \<Rightarrow> string \<Rightarrow> entity_row \<Rightarrow> reset_acc \<Rightarrow> (world, reset_acc) comp" where
  "reset_target_live X now actor e acc =
     bind (refresh (rx_redeliver X) now (en_source_schema e) [en_source_table e] (en_target_system e)
             (rx_source_system X) None) (\<lambda>rs w.
       case refreshed_rows rs of
         Inl why \<Rightarrow> (Inr (fst acc @ [(en_source_table e, ResetSkipped why)], snd acc), w)
       | Inr n \<Rightarrow> (case entity_fingerprints (rx_scan X) e of
           Inl err \<Rightarrow> (Inl err, w)
         | Inr fps \<Rightarrow> (Inr (fst acc @ [(en_source_table e, ResetUpdated (en_target_fingerprint e) (snd fps))], snd acc),
             w\<lparr>w_central := store_reset now actor TargetSide e (snd fps) (PDict
               [(''old_fingerprint'', opt_str (en_target_fingerprint e)), (''new_fingerprint'', opt_str (snd fps)),
                (''target_tables'', opt_tables (en_target_tables e)), (''rows_loaded'', PInt (int n))]) (w_central w)\<rparr>)))"

definition reset_target_one ::
  "resolve_env \<Rightarrow> int \<Rightarrow> string \<Rightarrow> bool \<Rightarrow> entity_row \<Rightarrow> reset_acc \<Rightarrow> (world, reset_acc) comp" where
  "reset_target_one X now actor dry e acc =
     (if dry then (\<lambda>w. (res_bind (entity_fingerprints (rx_scan X) e) (\<lambda>fps.
        Inr (fst acc, snd acc @ [\<lparr>pl_entity = en_source_table e, pl_current = en_target_fingerprint e, pl_new = snd fps,
          pl_changed = (\<not> blank (en_target_fingerprint e) \<and> \<not> blank (snd fps) \<and> en_target_fingerprint e \<noteq> snd fps)\<rparr>])), w))
      else reset_target_live X now actor e acc)"

definition reset_target ::
  "resolve_env \<Rightarrow> int \<Rightarrow> string \<Rightarrow> bool \<Rightarrow> string list option \<Rightarrow> (world, reset_result) comp" where
  "reset_target X now actor dry only w =
     (let es = reset_entities (w_central w) only in
      bind (fold_comp (reset_target_one X now actor dry) es ([], [])) (\<lambda>acc. ret (reset_outcome (length es) acc)) w)"

definition reset_all ::
  "resolve_env \<Rightarrow> int \<Rightarrow> string \<Rightarrow> bool \<Rightarrow> bool \<Rightarrow> bool \<Rightarrow> string list option
   \<Rightarrow> (world, reset_result option \<times> reset_result option \<times> nat \<times> nat) comp" where
  "reset_all X now actor dry src tgt only =
     bind (if src then bind (reset_source X now actor dry only) (\<lambda>r. ret (Some r)) else ret None) (\<lambda>s.
     bind (if tgt then bind (reset_target X now actor dry only) (\<lambda>r. ret (Some r)) else ret None) (\<lambda>t.
       let sum_of = (\<lambda>f. (case s of None \<Rightarrow> 0 | Some r \<Rightarrow> f r) + (case t of None \<Rightarrow> 0 | Some r \<Rightarrow> f r)) in
       ret (s, t, sum_of rz_total, sum_of rz_skipped)))"

end
