(* ===== verification/Review_Machine.thy ===== *)
theory Review_Machine
  imports Schema_Swap Drift_Resolution
begin

text \<open>
  The life of a proposal across the modules that write it: stored by propose or by a schema
  swap, reviewed field by field, approved, deployed. A step relation over the central database
  collects those operations; the invariant ties the status of a proposal to its pending fields,
  so that the mapping the delivery worker loads is never one that still awaits review.
\<close>

section \<open>The invariant\<close>

abbreviation review_serial :: string where "review_serial \<equiv> ''onboarding_field_review''"
abbreviation proposal_serial :: string where "proposal_serial \<equiv> ''onboarding_proposal''"

definition awaits :: "central \<Rightarrow> int \<Rightarrow> bool" where
  "awaits c pid = list_ex (pending_in pid) (field_reviews c)"

definition status_matches :: "central \<Rightarrow> proposal_row \<Rightarrow> bool" where
  "status_matches c p = (po_status p \<in> {PAutoApproved, PNeedsReview, PApproved}
     \<and> (po_status p = PNeedsReview \<longleftrightarrow> awaits c (po_id p)))"

definition review_base :: "central \<Rightarrow> bool" where
  "review_base c =
     (distinct (map po_id (proposals c)) \<and> (\<forall>p \<in> set (proposals c). po_id p < serials c proposal_serial)
      \<and> distinct (map rv_id (field_reviews c)) \<and> (\<forall>r \<in> set (field_reviews c). rv_id r < serials c review_serial)
      \<and> rv_proposal_id ` set (field_reviews c) \<subseteq> po_id ` set (proposals c))"

definition review_inv :: "central \<Rightarrow> bool" where
  "review_inv c = (review_base c \<and> (\<forall>p \<in> set (proposals c). status_matches c p))"

lemma map_eq_ball:
  assumes "map k xs = map k ys"
  shows "(\<forall>x \<in> set xs. Q (k x)) \<longleftrightarrow> (\<forall>y \<in> set ys. Q (k y))"
proof -
  have "(\<forall>x \<in> set xs. Q (k x)) \<longleftrightarrow> (\<forall>v \<in> set (map k xs). Q v)" by simp
  then show ?thesis unfolding assms by simp
qed

lemma map_eq_image: "map k xs = map k ys \<Longrightarrow> k ` set xs = k ` set ys"
  by (metis set_map)

lemma review_inv_empty: "review_inv empty_central"
  by (simp add: review_inv_def review_base_def empty_central_def)

lemma pending_count_0: "pending_count c pid = 0 \<longleftrightarrow> \<not> awaits c pid"
  by (simp add: pending_count_def row_count_0 awaits_def list_ex_iff)

text \<open>The invariant looks at the two tables and their two counters only.\<close>

definition same_reviews :: "central \<Rightarrow> central \<Rightarrow> bool" where
  "same_reviews c c' = (proposals c' = proposals c \<and> field_reviews c' = field_reviews c
     \<and> serials c' proposal_serial = serials c proposal_serial \<and> serials c' review_serial = serials c review_serial)"

lemma same_reviews_inv: "same_reviews c c' \<Longrightarrow> review_inv c' = review_inv c"
  by (simp add: same_reviews_def review_inv_def review_base_def status_matches_def awaits_def)

text \<open>Setting the status of one proposal; the other proposals must be right already.\<close>

lemma restatus_inv:
  assumes "review_base c" and "\<forall>p \<in> set (proposals c). po_id p \<noteq> pid \<longrightarrow> status_matches c p"
    and "\<And>p. po_id (f p) = po_id p" and "\<And>p. po_status (f p) = st"
    and "st \<in> {PAutoApproved, PNeedsReview, PApproved}" and "st = PNeedsReview \<longleftrightarrow> awaits c pid"
  shows "review_inv (c\<lparr>proposals := update_where (\<lambda>p. po_id p = pid) f (proposals c)\<rparr>)"
proof -
  let ?c = "c\<lparr>proposals := update_where (\<lambda>p. po_id p = pid) f (proposals c)\<rparr>"
  have sel: "field_reviews ?c = field_reviews c" "serials ?c = serials c" by simp_all
  have ids: "map po_id (proposals ?c) = map po_id (proposals c)"
    using assms(3) by (simp add: map_update_where)
  have base: "review_base ?c"
    using assms(1) map_eq_ball [OF ids, of "\<lambda>i. i < serials c proposal_serial"] map_eq_image [OF ids]
    unfolding review_base_def sel ids by simp
  have "status_matches ?c p" if "p \<in> set (proposals ?c)" for p
  proof -
    have "p \<in> set (update_where (\<lambda>p. po_id p = pid) f (proposals c))" using that by simp
    then show ?thesis
    proof (cases rule: update_where_cases)
      case (changed p0)
      then have "po_status p = st" "po_id p = pid" using assms(3,4) by simp_all
      then show ?thesis using assms(5,6) unfolding status_matches_def awaits_def sel by simp
    next
      case kept
      then have "status_matches c p" using assms(2) by blast
      then show ?thesis unfolding status_matches_def awaits_def sel .
    qed
  qed
  with base show ?thesis by (simp add: review_inv_def)
qed

lemma settle_inv:
  assumes "review_base c" and "\<forall>p \<in> set (proposals c). po_id p \<noteq> pid \<longrightarrow> status_matches c p"
  shows "review_inv (snd (settle_proposal now pid by c))"
  unfolding settle_proposal_def Let_def snd_conv
  by (rule restatus_inv [OF assms, where st = "if pending_count c pid = 0 then PApproved else PNeedsReview"])
    (simp_all add: pending_count_0)

section \<open>Updating and adding review rows\<close>

lemma base_update_reviews:
  assumes "review_base c" and "\<And>r. rv_id (f r) = rv_id r" and "\<And>r. rv_proposal_id (f r) = rv_proposal_id r"
  shows "review_base (c\<lparr>field_reviews := update_where P f (field_reviews c)\<rparr>)"
proof -
  have m: "map rv_id (update_where P f (field_reviews c)) = map rv_id (field_reviews c)"
    "map rv_proposal_id (update_where P f (field_reviews c)) = map rv_proposal_id (field_reviews c)"
    using assms(2,3) by (simp_all add: map_update_where)
  show ?thesis
    using assms(1) m(1) map_eq_ball [OF m(1), of "\<lambda>i. i < serials c review_serial"] map_eq_image [OF m(2)]
    unfolding review_base_def by simp
qed

lemma awaits_update_other:
  assumes "\<And>r. P r \<Longrightarrow> r \<in> set (field_reviews c) \<Longrightarrow> rv_proposal_id r = pid" and "\<And>r. rv_proposal_id (f r) = rv_proposal_id r" and "q \<noteq> pid"
  shows "awaits (c\<lparr>field_reviews := update_where P f (field_reviews c)\<rparr>) q = awaits c q"
proof -
  have "pending_in q (if P r then f r else r) = pending_in q r" if "r \<in> set (field_reviews c)" for r
    using assms(1) [of r] assms(2) [of r] assms(3) that by (auto simp: pending_in_def)
  then have "awaits c q \<longleftrightarrow> (\<exists>r \<in> set (field_reviews c). pending_in q (if P r then f r else r))"
    by (metis awaits_def list_ex_iff)
  moreover have "field_reviews (c\<lparr>field_reviews := xs\<rparr>) = xs" for xs by simp
  ultimately show ?thesis unfolding awaits_def update_where_def list_ex_iff by (simp only: set_map bex_simps(7))
qed

lemma settle_update_inv:
  assumes "review_inv c" and "\<And>r. P r \<Longrightarrow> r \<in> set (field_reviews c) \<Longrightarrow> rv_proposal_id r = pid"
    and "\<And>r. rv_id (f r) = rv_id r" and "\<And>r. rv_proposal_id (f r) = rv_proposal_id r"
  shows "review_inv (snd (settle_proposal now pid by (c\<lparr>field_reviews := update_where P f (field_reviews c)\<rparr>)))"
proof (rule settle_inv)
  show "review_base (c\<lparr>field_reviews := update_where P f (field_reviews c)\<rparr>)"
    using base_update_reviews assms(1,3,4) by (simp add: review_inv_def)
  show "\<forall>p \<in> set (proposals (c\<lparr>field_reviews := update_where P f (field_reviews c)\<rparr>)). po_id p \<noteq> pid \<longrightarrow>
      status_matches (c\<lparr>field_reviews := update_where P f (field_reviews c)\<rparr>) p"
    using assms(1) unfolding review_inv_def
    by (auto simp: status_matches_def awaits_update_other [OF assms(2,4)])
qed

text \<open>Rows of one proposal appended, with fresh identifiers.\<close>

definition adds_reviews :: "int \<Rightarrow> central \<Rightarrow> review_row list \<Rightarrow> central \<Rightarrow> bool" where
  "adds_reviews pid c rows c' =
     (c' = c\<lparr>field_reviews := field_reviews c @ rows,
        serials := (serials c)(review_serial := serials c review_serial + int (length rows))\<rparr>
      \<and> map rv_id rows = map (\<lambda>k. serials c review_serial + int k) [0..<length rows]
      \<and> (\<forall>r \<in> set rows. rv_proposal_id r = pid))"

lemma adds_reviews_Nil [simp]: "adds_reviews pid c [] c"
  by (simp add: adds_reviews_def)

lemma append_review_adds:
  assumes "\<And>i. rv_id (f i) = i" and "\<And>i. rv_proposal_id (f i) = pid"
  shows "adds_reviews pid c [f (serials c review_serial)] (append_review f c)"
  using assms by (simp add: adds_reviews_def append_review_def next_serial_def)

lemma map_upt_shift: "map (\<lambda>k. s + int n + int k) [0..<m] = map (\<lambda>k. s + int k) [n..<n + m]"
  by (induction m) (simp_all add: add.commute)

lemma adds_reviews_append:
  assumes "adds_reviews pid c xs c1" and "adds_reviews pid c1 ys c2"
  shows "adds_reviews pid c (xs @ ys) c2"
proof -
  have "map rv_id (xs @ ys) = map (\<lambda>k. serials c review_serial + int k) [0..<length (xs @ ys)]"
    using assms by (simp add: adds_reviews_def map_upt_shift upt_add_eq_append [of 0 "length xs", simplified])
  then show ?thesis using assms by (auto simp: adds_reviews_def fun_upd_def intro!: central.equality)
qed

lemma base_add_reviews:
  assumes "review_base c" and "pid \<in> po_id ` set (proposals c)" and "adds_reviews pid c rows c'"
  shows "review_base c'"
proof -
  let ?s = "serials c review_serial"
  have c': "c' = c\<lparr>field_reviews := field_reviews c @ rows, serials := (serials c)(review_serial := ?s + int (length rows))\<rparr>"
    and ids: "map rv_id rows = map (\<lambda>k. ?s + int k) [0..<length rows]" and own: "\<forall>r \<in> set rows. rv_proposal_id r = pid"
    using assms(3) by (simp_all add: adds_reviews_def)
  have rng: "?s \<le> rv_id r \<and> rv_id r < ?s + int (length rows)" if "r \<in> set rows" for r
  proof -
    have "rv_id r \<in> set (map rv_id rows)" using that by simp
    then show ?thesis unfolding ids by auto
  qed
  have dist: "distinct (map rv_id rows)" unfolding ids by (simp add: distinct_map inj_on_def)
  have "distinct (map rv_id (field_reviews c @ rows))"
    using assms(1) dist rng unfolding review_base_def by (auto simp: image_iff dest!: rng)
  moreover have "\<forall>r \<in> set (field_reviews c @ rows). rv_id r < ?s + int (length rows)"
    using assms(1) rng unfolding review_base_def by (auto dest: rng)
  ultimately show ?thesis using assms(1,2) own unfolding review_base_def c' by auto
qed

lemma awaits_add:
  assumes "adds_reviews pid c rows c'"
  shows "awaits c' q \<longleftrightarrow> awaits c q \<or> (q = pid \<and> (\<exists>r \<in> set rows. rv_status r = RPending))"
  using assms by (auto simp: adds_reviews_def awaits_def list_ex_iff pending_in_def)

lemma adds_reviews_proposals: "adds_reviews pid c rows c' \<Longrightarrow> proposals c' = proposals c"
  by (simp add: adds_reviews_def)

lemma settle_add_inv:
  assumes "review_inv c" and "has_proposal c pid" and "adds_reviews pid c rows c'"
  shows "review_inv (snd (settle_proposal now pid by c'))"
proof (rule settle_inv)
  show "review_base c'"
    using base_add_reviews [OF _ _ assms(3)] assms(1,2) by (auto simp: review_inv_def has_proposal_def list_ex_iff)
  show "\<forall>p \<in> set (proposals c'). po_id p \<noteq> pid \<longrightarrow> status_matches c' p"
    using assms(1) unfolding review_inv_def adds_reviews_proposals [OF assms(3)]
    by (auto simp: status_matches_def awaits_add [OF assms(3)])
qed


section \<open>Each operation keeps the invariant\<close>

named_theorems review_ops \<open>operations that keep the review invariant\<close>

lemma Inr_pair_snd: "Inr x = Inr (a, b) \<Longrightarrow> b = snd x"
  by simp

lemma resolve_field_inv [review_ops]:
  assumes "resolve_field P now c pid src col tr by tab = Inr (out, c')" and "review_inv c"
  shows "review_inv c'"
proof -
  have c': "c' = snd (settle_proposal now pid by (c\<lparr>field_reviews :=
      update_where (in_column pid src) (resolve_row now col (or_none tr) by tab) (field_reviews c)\<rparr>))"
    using assms(1) unfolding resolve_field_def res_bind_Inr_iff by (elim exE conjE) (rule Inr_pair_snd)
  show ?thesis unfolding c'
    by (rule settle_update_inv [OF assms(2)]) (simp_all add: in_column_def resolve_row_def Let_def)
qed

lemma reject_field_inv [review_ops]:
  assumes "reject_field now c pid src by = Inr (out, c')" and "review_inv c"
  shows "review_inv c'"
proof -
  have c': "c' = snd (settle_proposal now pid by (c\<lparr>field_reviews :=
      update_where (in_column pid src) (reject_row now by) (field_reviews c)\<rparr>))"
    using assms(1) unfolding reject_field_def res_bind_Inr_iff by (elim exE conjE) (rule Inr_pair_snd)
  show ?thesis unfolding c'
    by (rule settle_update_inv [OF assms(2)]) (simp_all add: in_column_def reject_row_def)
qed

lemma review_by_id_own:
  assumes "review_inv c" and "review_by_id c rid = Inr r" and "r' \<in> set (field_reviews c)" and "rv_id r' = rid"
  shows "r' = r"
proof -
  have "r \<in> set (field_reviews c)" "rv_id r = rid"
    using assms(2) select_one_Some by (fastforce simp: review_by_id_def split: option.splits)+
  then show ?thesis using assms(1,3,4) distinct_map_eq unfolding review_inv_def review_base_def by metis
qed

lemma reject_field_review_inv [review_ops]:
  assumes "reject_field_review now c rid by = Inr (out, c')" and "review_inv c"
  shows "review_inv c'"
proof -
  obtain r where r: "review_by_id c rid = Inr r"
    and c': "c' = snd (settle_proposal now (rv_proposal_id r) by (c\<lparr>field_reviews :=
         update_where (\<lambda>r. rv_id r = rid) (reject_row now by) (field_reviews c)\<rparr>))"
    using assms(1) unfolding reject_field_review_def res_bind_Inr_iff case_prod_beta by fastforce
  show ?thesis unfolding c'
    by (rule settle_update_inv [OF assms(2)]) (use review_by_id_own [OF assms(2) r] in \<open>auto simp: reject_row_def\<close>)
qed

lemma reopen_field_review_inv [review_ops]:
  assumes "reopen_field_review now c rid by = Inr (out, c')" and "review_inv c"
  shows "review_inv c'"
proof -
  obtain r where r: "review_by_id c rid = Inr r" using assms(1) by (auto simp: reopen_field_review_def res_bind_Inr_iff)
  let ?c = "c\<lparr>field_reviews := update_where (\<lambda>r. rv_id r = rid) (reopen_row now by) (field_reviews c)\<rparr>"
  have mem: "r \<in> set (field_reviews c)" "rv_id r = rid"
    using r select_one_Some by (fastforce simp: review_by_id_def split: option.splits)+
  have keep: "rv_id (reopen_row now by x) = rv_id x" "rv_proposal_id (reopen_row now by x) = rv_proposal_id x" for x
    by (simp_all add: reopen_row_def)
  have base: "review_base ?c" using base_update_reviews keep assms(2) by (simp add: review_inv_def)
  have others: "awaits ?c q = awaits c q" if "q \<noteq> rv_proposal_id r" for q
    using awaits_update_other [of "\<lambda>r. rv_id r = rid" c "rv_proposal_id r" "reopen_row now by" q]
      review_by_id_own [OF assms(2) r] keep that by blast
  have "\<forall>p \<in> set (proposals ?c). po_id p \<noteq> rv_proposal_id r \<longrightarrow> status_matches ?c p"
    using assms(2) unfolding review_inv_def by (auto simp: status_matches_def others)
  moreover have "reopen_row now by r \<in> set (field_reviews ?c)"
    using mem by (auto simp: in_update_where)
  then have "awaits ?c (rv_proposal_id r)"
    unfolding awaits_def list_ex_iff by (rule bexI [rotated]) (simp add: pending_in_def reopen_row_def)
  ultimately have "review_inv (?c\<lparr>proposals := update_where (\<lambda>p. po_id p = rv_proposal_id r)
            (\<lambda>p. p\<lparr>po_status := PNeedsReview, po_review_count := pending_count ?c (rv_proposal_id r), po_reviewed_by := Some by,
                   po_reviewed_at := Some now, po_updated_at := now\<rparr>) (proposals ?c)\<rparr>)"
    by (intro restatus_inv [OF base, where st = PNeedsReview]) simp_all
  then show ?thesis using assms(1) by (simp add: reopen_field_review_def r Let_def)
qed

lemma insert_manual_adds: "\<exists>rows. adds_reviews pid c rows (insert_manual now pid src tab col tr why by c)"
  unfolding insert_manual_def by (rule exI, rule append_review_adds) simp_all

lemma add_mapping_inv [review_ops]:
  assumes "add_mapping P now c pid src tab col tr by = Inr (out, c')" and "review_inv c"
  shows "review_inv c'"
proof -
  have ok: "check_review_column c pid src = Inr ()"
    and c': "c' = snd (settle_proposal now pid by (insert_manual now pid src tab col (or_none tr) ''manual extra mapping'' by c))"
    using assms(1) by (auto simp: add_mapping_def res_bind_Inr_iff split: if_splits intro: sndI [symmetric])
  have "has_proposal c pid" using ok by (auto simp: check_review_column_def split: if_splits)
  then show ?thesis unfolding c' using insert_manual_adds settle_add_inv [OF assms(2)] by blast
qed

lemma add_missing_loop_adds:
  "\<exists>rows. adds_reviews pid c rows (snd (add_missing_loop now pid by sources ws c))"
proof (induction ws arbitrary: c)
  case Nil
  show ?case by (intro exI [of _ "[]"]) simp
next
  case (Cons w ws)
  show ?case
  proof (cases "skip_reason c pid sources w")
    case None
    obtain rows1 where 1: "adds_reviews pid c rows1 (insert_manual now pid (wa_source w) (wa_table w) (wa_column w) (wa_transform w)
        ''manual missing required mapping'' by c)" using insert_manual_adds by blast
    then show ?thesis using Cons.IH adds_reviews_append [OF 1] None by (fastforce split: prod.splits)
  next
    case (Some x)
    then show ?thesis using Cons.IH [of c] by (auto split: prod.splits)
  qed
qed

lemma add_missing_mappings_inv [review_ops]:
  assumes "add_missing_mappings P now c pid raws by = Inr (out, c')" and "review_inv c"
  shows "review_inv c'"
proof -
  obtain sources where "has_proposal c pid"
    and c': "c' = snd (settle_proposal now pid by (snd (add_missing_loop now pid by sources (map (wanted_of P) raws) c)))"
    using assms(1) unfolding add_missing_mappings_def Let_def case_prod_beta by (fastforce split: if_splits)
  then show ?thesis using add_missing_loop_adds settle_add_inv [OF assms(2)] by blast
qed


section \<open>Storing a proposal\<close>

lemma suggested_review_adds:
  "adds_reviews pid c [suggested_review P pid m st src tab col tr why (serials c review_serial)]
     (append_review (suggested_review P pid m st src tab col tr why) c)"
  by (rule append_review_adds) (simp_all add: suggested_review_def)

lemma insert_review_adds:
  assumes "insert_review P pid m c = Inr c'"
  shows "\<exists>r. adds_reviews pid c [r] c' \<and> rv_status r = review_status_of m"
proof -
  obtain src tab col tr why where "c' = append_review (suggested_review P pid m (review_status_of m) src tab col tr why) c"
    using assms unfolding insert_review_def res_bind_Inr_iff by (elim exE conjE) (metis Inr_inject)
  then show ?thesis
    using suggested_review_adds [of pid c P m "review_status_of m" src tab col tr why] by (auto simp: suggested_review_def)
qed

lemma insert_reviews_add:
  "fold_res (insert_review P pid) ms c = Inr c' \<Longrightarrow>
   \<exists>rows. adds_reviews pid c rows c' \<and> map rv_status rows = map review_status_of ms"
proof (induction ms arbitrary: c)
  case Nil
  then show ?case by (intro exI [of _ "[]"]) simp
next
  case (Cons m ms)
  then obtain c1 where 1: "insert_review P pid m c = Inr c1" "fold_res (insert_review P pid) ms c1 = Inr c'"
    by (auto simp: res_bind_Inr_iff)
  obtain r where r: "adds_reviews pid c [r] c1" "rv_status r = review_status_of m"
    using insert_review_adds [OF 1(1)] by blast
  obtain rows where rows: "adds_reviews pid c1 rows c'" "map rv_status rows = map review_status_of ms"
    using Cons.IH [OF 1(2)] by blast
  have "adds_reviews pid c (r # rows) c'" using adds_reviews_append [OF r(1) rows(1)] by simp
  then show ?case using r(2) rows(2) by (intro exI [of _ "r # rows"]) simp
qed

lemma remap_rows_add:
  "fold_res (remap_row P pid) ms c = Inr c' \<Longrightarrow> \<exists>rows. adds_reviews pid c rows c' \<and> (\<forall>r \<in> set rows. rv_status r = RAccepted)"
proof (induction ms arbitrary: c)
  case Nil
  then show ?case by (intro exI [of _ "[]"]) simp
next
  case (Cons m ms)
  then obtain c1 where 1: "remap_row P pid m c = Inr c1" "fold_res (remap_row P pid) ms c1 = Inr c'"
    by (auto simp: res_bind_Inr_iff)
  have "\<exists>xs. adds_reviews pid c xs c1 \<and> (\<forall>r \<in> set xs. rv_status r = RAccepted)"
  proof (cases "\<not> truthy (fm_table m) \<or> \<not> truthy (fm_column m)")
    case True
    then show ?thesis using 1(1) by (intro exI [of _ "[]"]) (simp add: remap_row_def)
  next
    case False
    obtain src tab col tr why where "c1 = append_review (suggested_review P pid m RAccepted src tab col tr why) c"
      using 1(1) unfolding remap_row_def if_not_P [OF False] res_bind_Inr_iff by (elim exE conjE) (metis Inr_inject)
    then show ?thesis
      using suggested_review_adds [of pid c P m RAccepted src tab col tr why]
      by (intro exI [of _ "[suggested_review P pid m RAccepted src tab col tr why (serials c review_serial)]"])
        (simp add: suggested_review_def)
  qed
  then obtain xs where xs: "adds_reviews pid c xs c1" "\<forall>r \<in> set xs. rv_status r = RAccepted" by blast
  obtain rows where rows: "adds_reviews pid c1 rows c'" "\<forall>r \<in> set rows. rv_status r = RAccepted"
    using Cons.IH [OF 1(2)] by blast
  show ?case using adds_reviews_append [OF xs(1) rows(1)] xs(2) rows(2) by (intro exI [of _ "xs @ rows"]) auto
qed

text \<open>A new proposal with a fresh identifier and its rows.\<close>

definition with_proposal :: "(int \<Rightarrow> proposal_row) \<Rightarrow> central \<Rightarrow> central" where
  "with_proposal f c = snd (append_proposal f c)"

lemma append_proposal_eq: "append_proposal f c = (serials c proposal_serial, with_proposal f c)"
  by (simp add: with_proposal_def append_proposal_def next_serial_def)

lemma with_proposal_simps [simp]:
  "proposals (with_proposal f c) = proposals c @ [f (serials c proposal_serial)]"
  "field_reviews (with_proposal f c) = field_reviews c"
  "serials (with_proposal f c) = (serials c)(proposal_serial := serials c proposal_serial + 1)"
  by (simp_all add: with_proposal_def append_proposal_def next_serial_def)

lemma new_proposal_inv:
  assumes "review_inv c" and "\<And>i. po_id (f i) = i" and "\<And>i. po_status (f i) = st"
    and "adds_reviews (serials c proposal_serial) (with_proposal f c) rows c'"
    and "st \<in> {PAutoApproved, PNeedsReview, PApproved}" and "st = PNeedsReview \<longleftrightarrow> (\<exists>r \<in> set rows. rv_status r = RPending)"
  shows "review_inv c'"
proof -
  let ?i = "serials c proposal_serial"
  have b: "review_base c" and m: "\<forall>q \<in> set (proposals c). status_matches c q" using assms(1) by (auto simp: review_inv_def)
  have lt: "po_id q < ?i" if "q \<in> set (proposals c)" for q using b that by (auto simp: review_base_def)
  have "review_base (with_proposal f c)"
    using b assms(2) unfolding review_base_def by (auto dest: lt)
  then have base: "review_base c'" by (rule base_add_reviews [OF _ _ assms(4)]) (simp add: assms(2))
  have fresh: "\<not> awaits c ?i"
  proof
    assume "awaits c ?i"
    then obtain r where "r \<in> set (field_reviews c)" "rv_proposal_id r = ?i" by (auto simp: awaits_def list_ex_iff pending_in_def)
    moreover have "rv_proposal_id ` set (field_reviews c) \<subseteq> po_id ` set (proposals c)" using b unfolding review_base_def by simp
    ultimately have "?i \<in> po_id ` set (proposals c)" by (metis image_eqI subsetD)
    then show False using lt by force
  qed
  have aw: "awaits c' q \<longleftrightarrow> awaits c q \<or> (q = ?i \<and> (\<exists>r \<in> set rows. rv_status r = RPending))" for q
    unfolding awaits_add [OF assms(4)] by (simp add: awaits_def)
  have "status_matches c' q" if "q \<in> set (proposals c')" for q
  proof (cases "q = f ?i")
    case True
    then show ?thesis using assms(2,3,5,6) fresh by (simp add: status_matches_def aw)
  next
    case False
    then have q: "q \<in> set (proposals c)" using that by (auto simp: adds_reviews_proposals [OF assms(4)])
    then have "status_matches c q" "po_id q \<noteq> ?i" using m lt [OF q] by auto
    then show ?thesis unfolding status_matches_def aw by blast
  qed
  with base show ?thesis by (simp add: review_inv_def)
qed

lemma create_proposal_run:
  assumes "create_proposal P now c eid sf tf ms ignored unmet ai counts = Inr (pid, c')"
  obtains f rows where "pid = serials c proposal_serial" and "\<And>i. po_id (f i) = i" and "\<And>i. po_entity_id (f i) = eid"
    and "\<And>i. po_status (f i) = (if nc_review counts = 0 then PAutoApproved else PNeedsReview)"
    and "adds_reviews pid (with_proposal f c) rows c'" and "map rv_status rows = map review_status_of ms"
proof -
  obtain doc ai' c2 where run: "fold_res (insert_review P (serials c proposal_serial)) ms (with_proposal (\<lambda>i. \<lparr>po_id = i,
      po_entity_id = eid, po_source_fingerprint = sf, po_target_fingerprint = tf,
      po_status = (if nc_review counts = 0 then PAutoApproved else PNeedsReview), po_mappings = doc, po_ignored = ignored,
      po_unmet = unmet, po_auto_count = nc_auto counts, po_review_count = nc_review counts,
      po_rejected_count = nc_rejected counts, po_ai_response = ai', po_reviewed_by = None, po_reviewed_at = None,
      po_created_at = now, po_updated_at = now\<rparr>) c) = Inr c2" and eq: "Inr (serials c proposal_serial, c2) = Inr (pid, c')"
    using assms unfolding create_proposal_def res_bind_Inr_iff append_proposal_eq prod.case
    by (elim exE conjE) blast
  have pid: "pid = serials c proposal_serial" and c2: "c2 = c'" using eq by simp_all
  obtain rows where "adds_reviews (serials c proposal_serial) (with_proposal (\<lambda>i. \<lparr>po_id = i,
      po_entity_id = eid, po_source_fingerprint = sf, po_target_fingerprint = tf,
      po_status = (if nc_review counts = 0 then PAutoApproved else PNeedsReview), po_mappings = doc, po_ignored = ignored,
      po_unmet = unmet, po_auto_count = nc_auto counts, po_review_count = nc_review counts,
      po_rejected_count = nc_rejected counts, po_ai_response = ai', po_reviewed_by = None, po_reviewed_at = None,
      po_created_at = now, po_updated_at = now\<rparr>) c) rows c'" "map rv_status rows = map review_status_of ms"
    using insert_reviews_add [OF run [unfolded c2]] by blast
  then show thesis using pid by (intro that) simp_all
qed

lemma create_proposal_inv:
  assumes "create_proposal P now c eid sf tf ms ignored unmet ai counts = Inr (pid, c')" and "review_inv c"
    and "nc_review counts = 0 \<longleftrightarrow> (\<forall>m \<in> set ms. review_status_of m \<noteq> RPending)"
  shows "review_inv c'"
proof -
  obtain f rows where pid: "pid = serials c proposal_serial" and ids: "\<And>i. po_id (f i) = i"
    and st: "\<And>i. po_status (f i) = (if nc_review counts = 0 then PAutoApproved else PNeedsReview)"
    and rows: "adds_reviews pid (with_proposal f c) rows c'" "map rv_status rows = map review_status_of ms"
    using create_proposal_run [OF assms(1)] by metis
  have "rv_status ` set rows = review_status_of ` set ms" using arg_cong [OF rows(2), of set] by simp
  then have p: "(\<exists>r \<in> set rows. rv_status r = RPending) \<longleftrightarrow> (\<exists>m \<in> set ms. review_status_of m = RPending)"
    by (metis (no_types, lifting) imageE image_eqI)
  show ?thesis
    by (rule new_proposal_inv [OF assms(2) ids st rows(1) [unfolded pid]]) (use assms(3) p in auto)
qed

lemma pending_iff_needs_review: "review_status_of m = RPending \<longleftrightarrow> \<not> unusable m \<and> \<not> confident m"
  by (auto simp: review_status_of_def unusable_def confident_def no_target_def)

lemma store_answer_run:
  assumes "store_answer P now c eid sf tf tgt answer = Inr (out, c')"
  obtains ms unmet ai counts where "create_proposal P now c eid sf tf ms [] unmet ai counts = Inr (pp_proposal out, c')"
    and "pp_entity out = eid" and "pp_unmet out = unmet" and "nc_review counts = pp_review out"
    and "pp_status out = (if pp_review out = 0 then PAutoApproved else PNeedsReview)"
    and "pp_review out = 0 \<longleftrightarrow> (\<forall>m \<in> set ms. review_status_of m \<noteq> RPending)"
proof -
  let ?raw = "case answer of Inl e \<Rightarrow> [] | Inr ms \<Rightarrow> ms"
  let ?a = "filter (\<lambda>m. \<not> unusable m \<and> confident m) ?raw" and ?v = "filter (\<lambda>m. \<not> unusable m \<and> \<not> confident m) ?raw"
    and ?j = "filter unusable ?raw"
  have s: "sort_mappings ?raw = (?a, ?v, ?j)" by (simp add: sort_mappings_def)
  obtain unmet ai x where x: "create_proposal P now c eid sf tf (?a @ ?v @ ?j) [] unmet ai
      \<lparr>nc_auto = length ?a, nc_review = length ?v, nc_rejected = length ?j\<rparr> = Inr x" "snd x = c'"
      "pp_proposal out = fst x" "pp_entity out = eid" "pp_unmet out = unmet" "pp_review out = length ?v"
      "pp_status out = (if ?v = [] then PAutoApproved else PNeedsReview)"
    using assms unfolding store_answer_def Let_def s case_prod_beta fst_conv snd_conv res_bind_Inr_iff
    by (elim exE conjE) (rule that, assumption, auto)
  then have run: "create_proposal P now c eid sf tf (?a @ ?v @ ?j) [] unmet ai
      \<lparr>nc_auto = length ?a, nc_review = length ?v, nc_rejected = length ?j\<rparr> = Inr (pp_proposal out, c')" by (metis prod.collapse)
  have "length ?v = 0 \<longleftrightarrow> (\<forall>m \<in> set (?a @ ?v @ ?j). review_status_of m \<noteq> RPending)"
    unfolding pending_iff_needs_review by (auto simp: filter_empty_conv)
  then show thesis using x(4-7) by (intro that [OF run]) simp_all
qed

lemma store_answer_inv:
  assumes "store_answer P now c eid sf tf tgt answer = Inr (out, c')" and "review_inv c"
  shows "review_inv c'"
  using store_answer_run [OF assms(1)] create_proposal_inv [OF _ assms(2)] by metis

lemma propose_entity_inv [review_ops]:
  assumes "propose_entity P K ai now c schema tab sys = Inr (out, c')" and "review_inv c"
  shows "review_inv c'"
proof -
  obtain eid sf tf g answer where run: "store_answer P now (set_fingerprints now eid sf tf c) eid sf tf g answer = Inr (out, c')"
    using assms(1) unfolding propose_entity_def Let_def
    by (auto simp: res_bind_Inr_iff split: option.splits)
  have "same_reviews c (set_fingerprints now eid sf tf c)" by (simp add: same_reviews_def set_fingerprints_def)
  then show ?thesis using store_answer_inv [OF run] same_reviews_inv assms(2) by blast
qed

lemma persist_remap_inv [review_ops]:
  assumes "persist_remap P now eid sf tf ms by c = Inr (pid, c')" and "review_inv c"
  shows "review_inv c'"
proof -
  obtain f where f: "\<And>i. po_id (f i) = i" "\<And>i. po_status (f i) = PApproved"
    and run: "fold_res (remap_row P (serials c proposal_serial)) ms (with_proposal f c) = Inr c'"
    using assms(1) unfolding persist_remap_def res_bind_Inr_iff append_proposal_eq prod.case
    by (elim exE conjE) (simp only: sum.inject prod.inject, elim conjE, rule that, auto)
  obtain rows where rows: "adds_reviews (serials c proposal_serial) (with_proposal f c) rows c'" "\<forall>r \<in> set rows. rv_status r = RAccepted"
    using remap_rows_add [OF run] by blast
  show ?thesis using rows(2) by (intro new_proposal_inv [OF assms(2) f rows(1)]) auto
qed

section \<open>Deploying and approving\<close>

lemma same_reviews_refl [simp]: "same_reviews c c"
  by (simp add: same_reviews_def)

lemma same_reviews_trans: "same_reviews c c1 \<Longrightarrow> same_reviews c1 c2 \<Longrightarrow> same_reviews c c2"
  by (simp add: same_reviews_def)

lemma guide_same_reviews: "same_reviews c c0 \<Longrightarrow> same_reviews c (snd (guide A d c0))"
  by (simp add: guide_def agent_record_def audit_sink_def same_reviews_def split: option.splits)

lemma fold_guides_same:
  "same_reviews c (snd s) \<Longrightarrow> same_reviews c (snd (fold (\<lambda>d (gs, c). case guide A (f d) c of (g, c') \<Rightarrow> (gs @ [g], c')) ds s))"
proof (induction ds arbitrary: s)
  case (Cons d ds)
  have "same_reviews c (snd (case s of (gs, c) \<Rightarrow> case guide A (f d) c of (g, c') \<Rightarrow> (gs @ [g], c')))"
    using guide_same_reviews [OF Cons.prems, of A "f d"] by (simp add: case_prod_beta)
  then show ?case using Cons.IH by simp
qed simp

lemma table_guidance_same:
  assumes "table_guidance R A tc c0 = Inr (gs, c')" and "same_reviews c c0"
  shows "same_reviews c c'"
proof (cases "tc_exists tc")
  case False
  then show ?thesis
    using assms(1) guide_same_reviews [OF assms(2), of A] unfolding table_guidance_def by (auto simp: case_prod_beta)
next
  case True
  then show ?thesis
    using assms(1) fold_guides_same [of c "([], c0)" A "\<lambda>d. d"] assms(2)
    unfolding table_guidance_def Let_def if_not_P [OF not_not [THEN iffD2, OF True]] res_bind_Inr_iff
    by (elim exE conjE) (drule Inr_pair_snd, simp del: fold_append)
qed

lemma tables_guidance_same:
  "fold_res (\<lambda>tc (gs, c). res_bind (table_guidance R A tc c) (\<lambda>(gs', c'). Inr (gs @ gs', c'))) tcs s = Inr s' \<Longrightarrow>
   same_reviews c (snd s) \<Longrightarrow> same_reviews c (snd s')"
proof (induction tcs arbitrary: s)
  case (Cons tc tcs)
  obtain gs c0 where s: "s = (gs, c0)" by fastforce
  obtain gs1 c1 where 1: "table_guidance R A tc c0 = Inr (gs1, c1)"
    and 2: "fold_res (\<lambda>tc (gs, c). res_bind (table_guidance R A tc c) (\<lambda>(gs', c'). Inr (gs @ gs', c'))) tcs (gs @ gs1, c1) = Inr s'"
    using Cons.prems(1) unfolding s by (auto simp: res_bind_Inr_iff)
  show ?case using Cons.IH [OF 2] table_guidance_same [OF 1] Cons.prems(2) unfolding s by simp
qed simp

lemma deploy_guidance_same:
  assumes "deploy_guidance R A r c = Inr (gs, c')"
  shows "same_reviews c c'"
proof -
  obtain s where s: "fold_res (\<lambda>tc (gs, c). res_bind (table_guidance R A tc c) (\<lambda>(gs', c'). Inr (gs @ gs', c'))) (cr_tables r) ([], c) = Inr s"
    and g: "fold (\<lambda>f (gs, c). case fk_guidance A f c of (g, c') \<Rightarrow> (gs @ [g], c')) (cr_fk_unsatisfiable r) s = (gs, c')"
    using assms unfolding deploy_guidance_def res_bind_Inr_iff by auto
  have "same_reviews c (snd s)" using tables_guidance_same [OF s] by simp
  then show ?thesis
    using fold_guides_same [of c s A "\<lambda>f. \<lparr>dl_kind = ''fk_violation'', dl_table = fp_table f, dl_column = fp_column f, dl_candidates = []\<rparr>"
        "cr_fk_unsatisfiable r"] g unfolding fk_guidance_def by simp
qed


lemma select_proposal:
  assumes "select_one (\<lambda>p. po_id p = pid \<and> Q p) (proposals c) = Some p"
  shows "p \<in> set (proposals c) \<and> po_id p = pid"
  using select_one_Some [OF assms] by simp

text \<open>Approving a proposal none of whose fields is pending.\<close>

lemma approve_proposal_inv:
  assumes "review_inv c" and "\<not> awaits c pid"
  shows "review_inv (approve_proposal now pid by c)"
  unfolding approve_proposal_def
  by (rule restatus_inv [where st = PApproved]) (use assms in \<open>simp_all add: review_inv_def\<close>)

lemma commit_deploy_same:
  "same_reviews (approve_proposal now (po_id p) by c) (snd (commit_deploy now p e ms by contract c))"
  by (cases "snd contract") (simp_all add: same_reviews_def commit_deploy_def store_target_tables_def Let_def audit_sink_def
      enable_entity_def approve_proposal_def mark_deployed_def approve_version_def)

lemma deploy_to_lrmis_cases:
  assumes "deploy_to_lrmis D agent now c pid by = Inr (out, c')"
  obtains (refused) A r gs where "deploy_guidance (dx_registry D) A r c = Inr (gs, c')" and "out = NeedsGuidance (blocking r) gs"
  | (deployed) p e ms rows contract r where "load_proposal_mappings c pid = Inr (p, e, ms)"
      and "po_status p = PApproved \<or> po_status p = PAutoApproved" and "ms \<noteq> []"
      and "coverage_report (dx_registry D) ms None = Inr r" and "blocking r = []" and "dx_target D = Inr rows"
      and "entity_target_contract (dx_runtime D) rows (target_tables_for ms) ''LRMIS'' = Inr contract"
      and "out = Deployed (fst (commit_deploy now p e ms by contract c))" and "c' = snd (commit_deploy now p e ms by contract c)"
proof -
  obtain p e ms where l: "load_proposal_mappings c pid = Inr (p, e, ms)"
    using assms unfolding deploy_to_lrmis_def res_bind_Inr_iff by auto
  have st: "po_status p = PApproved \<or> po_status p = PAutoApproved" and ne: "ms \<noteq> []"
    using assms unfolding deploy_to_lrmis_def l by (auto split: if_splits)
  obtain r where r: "coverage_report (dx_registry D) ms None = Inr r"
    using assms st ne unfolding deploy_to_lrmis_def l by (auto simp: res_bind_Inr_iff split: if_splits)
  show thesis
  proof (cases "blocking r = []")
    case True
    then obtain rows contract where rc: "dx_target D = Inr rows"
      "entity_target_contract (dx_runtime D) rows (target_tables_for ms) ''LRMIS'' = Inr contract"
      and "(Deployed (fst (commit_deploy now p e ms by contract c)), snd (commit_deploy now p e ms by contract c)) = (out, c')"
      using assms st ne r unfolding deploy_to_lrmis_def l by (auto simp: res_bind_Inr_iff case_prod_beta split: if_splits)
    then show thesis using deployed [OF l st ne r True rc] by simp
  next
    case False
    then obtain A where "agent = Some A" using assms st ne r unfolding deploy_to_lrmis_def l by (cases agent) auto
    then obtain gs where "deploy_guidance (dx_registry D) A r c = Inr (gs, c')" "out = NeedsGuidance (blocking r) gs"
      using False assms st ne r unfolding deploy_to_lrmis_def l by (auto simp: res_bind_Inr_iff)
    then show thesis by (rule refused)
  qed
qed

lemma load_proposal_selects:
  assumes "load_proposal_mappings c pid = Inr (p, e, ms)"
  shows "p \<in> set (proposals c) \<and> po_id p = pid \<and> e \<in> set (entities c) \<and> en_id e = po_entity_id p
    \<and> ms = List.map_filter accepted_mapping (filter (\<lambda>r. rv_proposal_id r = pid \<and> usable_review r) (field_reviews c))"
  using assms unfolding load_proposal_mappings_def by (auto split: option.splits dest!: select_one_Some)

lemma deploy_to_lrmis_inv [review_ops]:
  assumes "deploy_to_lrmis D agent now c pid by = Inr (out, c')" and "review_inv c"
  shows "review_inv c'"
  using assms(1)
proof (cases rule: deploy_to_lrmis_cases)
  case (refused A r gs)
  then show ?thesis using deploy_guidance_same same_reviews_inv assms(2) by blast
next
  case (deployed p e ms rows contract r)
  have p: "p \<in> set (proposals c)" "po_id p = pid" using load_proposal_selects [OF deployed(1)] by auto
  then have "\<not> awaits c pid" using deployed(2) assms(2) by (auto simp: review_inv_def status_matches_def)
  then have "review_inv (approve_proposal now (po_id p) by c)" using approve_proposal_inv assms(2) p(2) by simp
  then show ?thesis using commit_deploy_same [of now p "by" c e ms contract] same_reviews_inv deployed(9) by metis
qed

lemma approve_same_reviews: "approve now c i by = Inr c' \<Longrightarrow> same_reviews c c'"
  by (auto simp: approve_def Let_def same_reviews_def split: option.splits if_splits)

lemma approve_pending_proposal_inv:
  assumes "approve_pending_proposal now c pid by = Inr c'" and "review_inv c"
  shows "review_inv c' \<and> (\<exists>p \<in> set (proposals c). po_id p = pid) \<and> \<not> awaits c pid"
proof -
  obtain p where p: "select_one (\<lambda>p. po_id p = pid \<and> list_ex (\<lambda>e. en_id e = po_entity_id p) (entities c)) (proposals c) = Some p"
    using assms(1) unfolding approve_pending_proposal_def by (auto split: option.splits)
  have "\<not> awaits c pid"
    using assms(1) p unfolding approve_pending_proposal_def by (auto simp: pending_count_0 split: if_splits)
  moreover have "same_reviews (approve_proposal now pid by c) c'"
    using assms(1) p unfolding approve_pending_proposal_def by (auto simp: Let_def same_reviews_def split: if_splits)
  ultimately show ?thesis
    using approve_proposal_inv [OF assms(2)] same_reviews_inv select_proposal [OF p] by blast
qed

lemma approve_mapping_inv [review_ops]:
  assumes "approve_mapping now c i by = Inr (out, c')" and "review_inv c"
  shows "review_inv c'"
proof (cases "approve now c i by")
  case (Inr c1)
  then have "c' = c1" using assms(1) by (auto simp: approve_mapping_def)
  then show ?thesis using same_reviews_inv [OF approve_same_reviews [OF Inr]] assms(2) by blast
next
  case (Inl e)
  then have "approve_pending_proposal now c i by = Inr c'"
    using assms(1) by (cases e) (auto simp: approve_mapping_def res_bind_Inr_iff split: if_splits)
  then show ?thesis using approve_pending_proposal_inv assms(2) by blast
qed

section \<open>The machine\<close>

text \<open>
  \<open>other\<close> is any write that leaves proposals, field reviews and their counters alone: delivery,
  monitoring, kill switches, discovery.
\<close>

inductive review_step :: "central \<Rightarrow> central \<Rightarrow> bool" where
  propose: "propose_entity P K ai now c schema tab sys = Inr (out, c') \<Longrightarrow> review_step c c'"
| resolve: "resolve_field P now c pid src col tr by tab = Inr (out, c') \<Longrightarrow> review_step c c'"
| reject: "reject_field now c pid src by = Inr (out, c') \<Longrightarrow> review_step c c'"
| reject_row: "reject_field_review now c rid by = Inr (out, c') \<Longrightarrow> review_step c c'"
| reopen: "reopen_field_review now c rid by = Inr (out, c') \<Longrightarrow> review_step c c'"
| add: "add_mapping P now c pid src tab col tr by = Inr (out, c') \<Longrightarrow> review_step c c'"
| add_missing: "add_missing_mappings P now c pid raws by = Inr (out, c') \<Longrightarrow> review_step c c'"
| approve: "approve_mapping now c i by = Inr (out, c') \<Longrightarrow> review_step c c'"
| deploy: "deploy_to_lrmis D agent now c pid by = Inr (out, c') \<Longrightarrow> review_step c c'"
| remap: "persist_remap P now eid sf tf ms by c = Inr (pid, c') \<Longrightarrow> review_step c c'"
| other: "same_reviews c c' \<Longrightarrow> review_step c c'"

inductive review_reachable :: "central \<Rightarrow> bool" where
  start: "review_reachable empty_central"
| step: "review_reachable c \<Longrightarrow> review_step c c' \<Longrightarrow> review_reachable c'"

lemma latest_proposal_member:
  assumes "latest_proposal c entity sys = Some pid"
  shows "pid \<in> set (map po_id (filter (proposal_for c entity sys) (proposals c)))" (is "_ \<in> set ?ids")
proof -
  obtain ps where "rev (sort ?ids) = pid # ps"
    using assms unfolding latest_proposal_def by (cases "rev (sort ?ids)") simp_all
  then have "pid \<in> set (rev (sort ?ids))" by simp
  then show ?thesis by simp
qed

lemma review_step_inv: "review_step c c' \<Longrightarrow> review_inv c \<Longrightarrow> review_inv c'"
  by (induction rule: review_step.induct) (auto dest: review_ops simp: same_reviews_inv)

lemma review_reachable_inv: "review_reachable c \<Longrightarrow> review_inv c"
  by (induction rule: review_reachable.induct) (auto simp: review_inv_empty intro: review_step_inv)

text \<open>
  C8: in every reachable database a proposal waits for review exactly when one of its fields
  is pending, and the mapping the worker loads for an entity comes from an approved proposal of
  that entity none of whose fields is pending.
\<close>

theorem served_mapping_reviewed:
  assumes "review_reachable c"
  shows "(\<forall>p \<in> set (proposals c). po_status p = PNeedsReview \<longleftrightarrow> (\<exists>r \<in> set (field_reviews c). rv_proposal_id r = po_id p \<and> rv_status r = RPending))
    \<and> (\<forall>m \<in> set (load_entity_mappings c entity sys). \<exists>p \<in> set (proposals c).
         (po_status p = PApproved \<or> po_status p = PAutoApproved)
         \<and> (\<forall>r \<in> set (field_reviews c). rv_proposal_id r = po_id p \<longrightarrow> rv_status r \<noteq> RPending)
         \<and> (\<exists>r \<in> set (field_reviews c). rv_proposal_id r = po_id p \<and> usable_review r \<and> review_mapping r = Some m))"
proof -
  have inv: "review_inv c" using assms by (rule review_reachable_inv)
  have st: "po_status p = PNeedsReview \<longleftrightarrow> (\<exists>r \<in> set (field_reviews c). rv_proposal_id r = po_id p \<and> rv_status r = RPending)"
    if "p \<in> set (proposals c)" for p
    using inv that by (auto simp: review_inv_def status_matches_def awaits_def list_ex_iff pending_in_def)
  have "\<exists>p \<in> set (proposals c). (po_status p = PApproved \<or> po_status p = PAutoApproved)
         \<and> (\<forall>r \<in> set (field_reviews c). rv_proposal_id r = po_id p \<longrightarrow> rv_status r \<noteq> RPending)
         \<and> (\<exists>r \<in> set (field_reviews c). rv_proposal_id r = po_id p \<and> usable_review r \<and> review_mapping r = Some m)"
    if m: "m \<in> set (load_entity_mappings c entity sys)" for m
  proof -
    obtain pid where pid: "latest_proposal c entity sys = Some pid"
      and src: "m \<in> set (List.map_filter review_mapping (filter (\<lambda>r. rv_proposal_id r = pid \<and> usable_review r) (field_reviews c)))"
      using m by (cases "latest_proposal c entity sys") (auto simp: load_entity_mappings_def)
    have "pid \<in> set (map po_id (filter (proposal_for c entity sys) (proposals c)))"
      using pid by (rule latest_proposal_member)
    then obtain p where p: "p \<in> set (proposals c)" "po_id p = pid" "po_status p = PApproved \<or> po_status p = PAutoApproved"
      unfolding proposal_for_def by auto
    moreover obtain r where "r \<in> set (field_reviews c)" "rv_proposal_id r = pid" "usable_review r" "review_mapping r = Some m"
      using src by (auto simp: map_filter_def)
    ultimately show ?thesis using st [OF p(1)] by (intro bexI [OF _ p(1)]) auto
  qed
  then show ?thesis using st by blast
qed

theorem served_mapping_reviewed_witness:
  "\<exists>pr c1. propose_entity demo_runtime demo_catalog (demo_ai sure_fields) 10 demo_start ''irimsv'' ''schools'' ''LRMIS'' = Inr (pr, c1)
     \<and> length (load_entity_mappings c1 ''schools'' ''LRMIS'') = 2
     \<and> (\<exists>p \<in> set (proposals c1). po_status p = PApproved \<or> po_status p = PAutoApproved)"
proof -
  have "case demo_proposed of Inl _ \<Rightarrow> False | Inr x \<Rightarrow> length (load_entity_mappings (snd x) ''schools'' ''LRMIS'') = 2"
    by code_simp
  from case_res_InrD [OF this] obtain pr c1
    where run: "propose_entity demo_runtime demo_catalog (demo_ai sure_fields) 10 demo_start ''irimsv'' ''schools'' ''LRMIS'' = Inr (pr, c1)"
      and two: "length (load_entity_mappings c1 ''schools'' ''LRMIS'') = 2"
    by (auto simp: demo_proposed_def)
  have "same_reviews empty_central demo_start" by (simp add: same_reviews_def demo_start_def)
  then have "review_reachable c1"
    using review_reachable.start review_reachable.step review_step.other review_step.propose [OF run] by metis
  moreover obtain m where "m \<in> set (load_entity_mappings c1 ''schools'' ''LRMIS'')"
    using two by (cases "load_entity_mappings c1 ''schools'' ''LRMIS''") auto
  ultimately have "\<exists>p \<in> set (proposals c1). po_status p = PApproved \<or> po_status p = PAutoApproved"
    using served_mapping_reviewed [of c1 "''schools''" "''LRMIS''"] by blast
  with run two show ?thesis by - (rule exI [of _ pr], rule exI [of _ c1], intro conjI)
qed

end
