(* ===== verification/Deployment_Flow.thy ===== *)
theory Deployment_Flow
  imports Review_Machine
begin

text \<open>
  From a proposal to a running entity, across \<open>onboarding.py\<close>, \<open>lrmis_onboarding.py\<close>,
  \<open>lrmis_delivery.py\<close> and \<open>ops.py\<close>: what a deployment writes, that the fingerprints it and the
  proposal store are those of the drift monitor, that the mapping the worker then loads is the
  one the gate let pass, and two ways past the gate.
\<close>

section \<open>What a deployment does\<close>

definition deployed_row :: "int \<Rightarrow> string \<Rightarrow> string list \<Rightarrow> string option \<Rightarrow> entity_row \<Rightarrow> entity_row" where
  "deployed_row now by tables fp e = e\<lparr>en_target_tables := Some tables, en_status := EDeployed, en_deployed_by := Some by,
     en_deployed_at := Some now, en_target_fingerprint := fp, en_updated_at := now\<rparr>"

lemma commit_deploy_entities:
  "entities (snd (commit_deploy now p e ms by contract c))
     = update_where (\<lambda>x. en_id x = en_id e) (deployed_row now by (target_tables_for ms) (snd contract)) (entities c)"
  by (cases "snd contract") (simp_all add: commit_deploy_def store_target_tables_def mark_deployed_def approve_version_def
      enable_entity_def approve_proposal_def audit_sink_def Let_def update_where_def deployed_row_def)

lemma commit_deploy_controls:
  "entity_control (snd (commit_deploy now p e ms by contract c))
     = upsert (\<lambda>k. ct_source_entity k = en_source_table e \<and> ct_target_system k = en_target_system e)
       (\<lambda>k. k\<lparr>ct_enabled := True, ct_paused_reason := None\<rparr>)
       \<lparr>ct_source_entity = en_source_table e, ct_target_system = en_target_system e, ct_enabled = True, ct_paused_reason = None,
        ct_updated_at = now\<rparr> (entity_control c)"
  by (cases "snd contract") (simp_all add: commit_deploy_def store_target_tables_def mark_deployed_def approve_version_def
      enable_entity_def approve_proposal_def audit_sink_def Let_def)

lemma commit_deploy_result:
  "fst (commit_deploy now p e ms by contract c) = \<lparr>dp_proposal = po_id p, dp_entity = en_id e, dp_source_table = en_source_table e,
     dp_tables = target_tables_for ms, dp_fingerprint = snd contract, dp_mappings = length ms\<rparr>"
  by (simp add: commit_deploy_def store_target_tables_def Let_def)

lemma commit_deploy_proposals:
  "proposals (snd (commit_deploy now p e ms by contract c)) = proposals (approve_proposal now (po_id p) by c)"
  "field_reviews (snd (commit_deploy now p e ms by contract c)) = field_reviews c"
  using commit_deploy_same [of now p "by" c e ms contract] by (simp_all add: same_reviews_def approve_proposal_def)

text \<open>Delivery of a deployed entity is on, and there is a control row to say so.\<close>

lemma commit_deploy_enables:
  assumes "k \<in> set (entity_control (snd (commit_deploy now p e ms by contract c)))" and "controls e k"
  shows "ct_enabled k"
  using assms unfolding commit_deploy_controls controls_def
  by (rule upsert_all [where Q = ct_enabled]) simp_all

lemma commit_deploy_has_control:
  "\<exists>k \<in> set (entity_control (snd (commit_deploy now p e ms by contract c))). controls e k"
  unfolding commit_deploy_controls controls_def by (rule upsert_has) simp_all

text \<open>The fingerprint a deployment stores is the one the monitor computes from the same target.\<close>

lemma deployed_row_fingerprint:
  assumes "dx_target D = Inr rows" and "entity_target_contract (dx_runtime D) rows tables ''LRMIS'' = Inr contract"
    and "sn_target V = dx_target D" and "sn_runtime V = dx_runtime D"
  shows "target_fingerprint V (deployed_row now by tables (snd contract) e) = Inr (snd contract)"
proof (cases "tables = []")
  case True
  then have "snd contract = None"
    using assms(2) by (auto simp: entity_target_contract_def res_bind_Inr_iff schema_subset_def Let_def)
  then show ?thesis using True by (simp add: target_fingerprint_def deployed_row_def)
next
  case False
  then show ?thesis using assms by (simp add: target_fingerprint_def deployed_row_def)
qed

section \<open>What a proposal leaves\<close>

lemma adds_reviews_frame: "adds_reviews pid c rows c' \<Longrightarrow> entities c' = entities c \<and> entity_control c' = entity_control c
    \<and> proposals c' = proposals c \<and> schema_versions c' = schema_versions c \<and> outbox c' = outbox c"
  by (simp add: adds_reviews_def)

lemma create_proposal_row:
  assumes "create_proposal P now c eid sf tf ms ignored unmet ai counts = Inr (pid, c')"
  shows "entities c' = entities c \<and> (\<exists>p \<in> set (proposals c'). po_id p = pid \<and> po_entity_id p = eid)"
proof -
  obtain f rows where "\<And>i. po_id (f i) = i" "\<And>i. po_entity_id (f i) = eid" "pid = serials c proposal_serial"
    and "adds_reviews pid (with_proposal f c) rows c'"
    using create_proposal_run [OF assms] by metis
  then show ?thesis using adds_reviews_frame [of pid "with_proposal f c" rows c']
    by (simp add: with_proposal_def append_proposal_def next_serial_def)
qed

lemma propose_entity_leaves:
  assumes "propose_entity P K ai now c schema tab sys = Inr (pr, c')"
  obtains e fp tf where "e \<in> set (entities c)" and "is_entity schema tab sys e" and "pp_entity pr = en_id e"
    and "\<And>V. sn_runtime V = P \<Longrightarrow> sn_catalog V = K \<Longrightarrow> source_fingerprint V e = Inr (Some fp)"
    and "entities c' = entities (set_fingerprints now (en_id e) fp tf c)"
    and "\<exists>p \<in> set (proposals c'). po_id p = pp_proposal pr \<and> po_entity_id p = en_id e"
proof -
  obtain e where e: "select_one (is_entity schema tab sys) (entities c) = Some e"
    using assms unfolding propose_entity_def by (auto split: option.splits)
  let ?src = "discover_source_schema K schema"
  obtain t where t: "get_table ?src tab = Some t"
    using assms e unfolding propose_entity_def Let_def by (auto split: option.splits)
  then have s: "table_schema ?src tab = Some (?src\<lparr>sch_tables := [t]\<rparr>)" by (simp add: table_schema_def)
  obtain fp tf g answer where fp: "schema_fingerprint P (?src\<lparr>sch_tables := [t]\<rparr>) = Inr fp"
    and run: "store_answer P now (set_fingerprints now (en_id e) fp tf c) (en_id e) fp tf g answer = Inr (pr, c')"
    using assms e t s unfolding propose_entity_def Let_def by (auto simp: res_bind_Inr_iff split: option.splits)
  obtain ms unmet a counts where cr: "create_proposal P now (set_fingerprints now (en_id e) fp tf c) (en_id e) fp tf ms [] unmet a counts
      = Inr (pp_proposal pr, c')" and pe: "pp_entity pr = en_id e"
    using store_answer_run [OF run] by metis
  have mem: "e \<in> set (entities c)" "is_entity schema tab sys e" using select_one_Some [OF e] by auto
  then have "source_fingerprint V e = Inr (Some fp)" if "sn_runtime V = P" "sn_catalog V = K" for V
    using s fp that by (simp add: source_fingerprint_def is_entity_def)
  then show thesis using that [OF mem pe] create_proposal_row [OF cr] by blast
qed

section \<open>From a proposal to the first scan\<close>

text \<open>
  C9: an entity proposed and then deployed is live after the next pass of the drift monitor
  that sees the same source catalog and the same target: both fingerprints the two steps store
  are the ones the monitor computes.
\<close>

theorem fresh_entity_survives_scan:
  assumes "propose_entity P K ai now c schema tab sys = Inr (pr, c1)" and "review_inv c" and "distinct (map en_id (entities c))"
    and "deploy_to_lrmis D agent now' c1 (pp_proposal pr) by = Inr (Deployed d, c2)"
    and "sn_runtime V = P" and "sn_catalog V = K" and "dx_runtime D = P" and "sn_target V = dx_target D"
    and "monitor V now'' c2 = Inr (out, c3)"
  shows "\<exists>e \<in> set (entities c3). en_id e = pp_entity pr \<and> is_entity schema tab sys e \<and> en_status e = EDeployed
    \<and> en_target_tables e = Some (dp_tables d)"
proof -
  obtain e fp tf where e: "e \<in> set (entities c)" "is_entity schema tab sys e" "pp_entity pr = en_id e"
    and src: "\<And>V. sn_runtime V = P \<Longrightarrow> sn_catalog V = K \<Longrightarrow> source_fingerprint V e = Inr (Some fp)"
    and c1: "entities c1 = entities (set_fingerprints now (en_id e) fp tf c)"
    and new: "\<exists>p \<in> set (proposals c1). po_id p = pp_proposal pr \<and> po_entity_id p = en_id e"
    using propose_entity_leaves [OF assms(1)] by metis
  let ?f = "\<lambda>e. e\<lparr>en_source_fingerprint := Some fp, en_target_fingerprint := Some tf, en_scope_version := 2, en_updated_at := now\<rparr>"
  have rows1: "entities c1 = update_where (\<lambda>x. en_id x = en_id e) ?f (entities c)"
    using c1 by (simp add: set_fingerprints_def)
  have ids1: "map en_id (entities c1) = map en_id (entities c)" unfolding rows1 by (rule map_update_where) simp
  have inv1: "review_inv c1" by (rule propose_entity_inv [OF assms(1,2)])
  obtain p e1 ms rows contract where l: "load_proposal_mappings c1 (pp_proposal pr) = Inr (p, e1, ms)"
    and rc: "dx_target D = Inr rows" "entity_target_contract (dx_runtime D) rows (target_tables_for ms) ''LRMIS'' = Inr contract"
    and d: "d = fst (commit_deploy now' p e1 ms by contract c1)" and c2: "c2 = snd (commit_deploy now' p e1 ms by contract c1)"
    by (rule deploy_to_lrmis_cases [OF assms(4)]) auto
  note sel = load_proposal_selects [OF l]
  have "po_entity_id p = en_id e"
  proof -
    obtain q where q: "q \<in> set (proposals c1)" "po_id q = pp_proposal pr" "po_entity_id q = en_id e" using new by blast
    have "distinct (map po_id (proposals c1))" using inv1 by (simp add: review_inv_def review_base_def)
    then have "q = p" by (rule distinct_map_eq) (use q sel in auto)
    then show ?thesis using q(3) by simp
  qed
  then have e1: "e1 = ?f e"
    using sel update_where_id(1) [OF assms(3) e(1), of e1 ?f] unfolding rows1 by auto
  let ?e2 = "deployed_row now' by (target_tables_for ms) (snd contract) e1"
  have rows2: "entities c2 = update_where (\<lambda>x. en_id x = en_id e1) (deployed_row now' by (target_tables_for ms) (snd contract)) (entities c1)"
    unfolding c2 by (rule commit_deploy_entities)
  have ids2: "map en_id (entities c2) = map en_id (entities c1)" unfolding rows2 by (rule map_update_where) (simp add: deployed_row_def)
  have e2: "?e2 \<in> set (entities c2)"
    unfolding rows2 by (rule update_where_id(2)) (use assms(3) ids1 sel in simp_all)
  have tfp: "target_fingerprint V ?e2 = Inr (snd contract)"
    by (rule deployed_row_fingerprint [OF rc]) (use assms in simp_all)
  have "source_fingerprint V ?e2 = source_fingerprint V e" by (simp add: e1 source_fingerprint_def deployed_row_def)
  then have "entity_fingerprints V ?e2 = Inr (Some fp, snd contract)"
    using src [OF assms(5,6)] tfp by (simp add: entity_fingerprints_def)
  then have "\<not> monitor_pauses V ?e2"
    by (simp add: monitor_pauses_def drift_of_def drifted_def) (simp add: e1 deployed_row_def)
  then have "?e2 \<in> set (entities c3)"
    using conjunct1 [OF monitor_effect [OF assms(9)]] e2 assms(3) ids1 ids2 by force
  then show ?thesis
    using e(2,3) d by (intro bexI [of _ ?e2]) (simp_all add: e1 deployed_row_def is_entity_def commit_deploy_result)
qed

lemma demo_run:
  obtains pr c1 d c2 out c3 where "propose_entity demo_runtime demo_catalog (demo_ai sure_fields) 10 demo_start ''irimsv'' ''schools'' ''LRMIS'' = Inr (pr, c1)"
    and "deploy_to_lrmis demo_deploy None 20 c1 (pp_proposal pr) ''ana'' = Inr (Deployed d, c2)"
    and "monitor demo_scan 30 c2 = Inr (out, c3)" and "dp_tables d = [''school'', ''station'']" and "pp_entity pr = 1"
proof -
  have "case demo_proposed of Inl _ \<Rightarrow> False | Inr x \<Rightarrow> pp_entity (fst x) = 1 \<and>
      (case deploy_to_lrmis demo_deploy None 20 (snd x) (pp_proposal (fst x)) ''ana'' of Inl _ \<Rightarrow> False
       | Inr y \<Rightarrow> (case fst y of NeedsGuidance _ _ \<Rightarrow> False | Deployed d \<Rightarrow> dp_tables d = [''school'', ''station''])
           \<and> (case monitor demo_scan 30 (snd y) of Inl _ \<Rightarrow> False | Inr z \<Rightarrow> True))" by code_simp
  then show thesis using that
    by (auto simp: demo_proposed_def split: sum.splits deploy_outcome.splits)
qed

theorem fresh_entity_survives_scan_witness:
  "\<exists>pr c1 d c2 out c3. propose_entity demo_runtime demo_catalog (demo_ai sure_fields) 10 demo_start ''irimsv'' ''schools'' ''LRMIS'' = Inr (pr, c1)
     \<and> deploy_to_lrmis demo_deploy None 20 c1 (pp_proposal pr) ''ana'' = Inr (Deployed d, c2) \<and> monitor demo_scan 30 c2 = Inr (out, c3)
     \<and> (\<exists>e \<in> set (entities c3). en_id e = 1 \<and> en_status e = EDeployed \<and> en_target_tables e = Some [''school'', ''station''])"
proof -
  obtain pr c1 d c2 out c3 where p: "propose_entity demo_runtime demo_catalog (demo_ai sure_fields) 10 demo_start ''irimsv'' ''schools'' ''LRMIS'' = Inr (pr, c1)"
    and d: "deploy_to_lrmis demo_deploy None 20 c1 (pp_proposal pr) ''ana'' = Inr (Deployed d, c2)"
    and m: "monitor demo_scan 30 c2 = Inr (out, c3)" and r: "dp_tables d = [''school'', ''station'']" "pp_entity pr = 1"
    by (rule demo_run)
  have i: "review_inv demo_start" "distinct (map en_id (entities demo_start))"
    by (simp_all add: review_inv_def review_base_def demo_start_def empty_central_def)
  have "sn_runtime demo_scan = demo_runtime" "sn_catalog demo_scan = demo_catalog" "dx_runtime demo_deploy = demo_runtime"
    "sn_target demo_scan = dx_target demo_deploy" by (simp_all add: demo_scan_def demo_deploy_def)
  from fresh_entity_survives_scan [OF p i d this m] r
  have "\<exists>e \<in> set (entities c3). en_id e = 1 \<and> en_status e = EDeployed \<and> en_target_tables e = Some [''school'', ''station'']" by auto
  with p d m show ?thesis by (intro exI conjI)
qed

section \<open>What the worker then serves\<close>

lemma accepted_is_review_mapping: "accepted_mapping = review_mapping"
proof
  fix r
  show "accepted_mapping r = review_mapping r"
    by (cases "blank (str_or (rv_resolved_target_column r) (rv_target_column r))"; cases "blank (rv_target_table r)")
      (simp_all add: accepted_mapping_def review_mapping_def is_staging_table_def Let_def)
qed

lemma coverage_report_seeds:
  assumes "coverage_report R ms None = Inr r"
  obtains seeds where "coverage_report R ms (Some seeds) = Inr r"
  using assms by (auto simp: coverage_report_def res_bind_Inr_iff)



text \<open>
  A proposal older than the newest approved one can still be deployed: its own mapping is
  checked, and the worker goes on serving the newer one, which nobody checked here.
\<close>

definition stray_fields :: "field_mapping list" where
  "stray_fields = [demo_field ''nm'' ''school'' ''title'' (99 / 100)]"

definition two_proposals :: "(proposed \<times> central) res" where
  "two_proposals = res_bind demo_proposed (\<lambda>(pr, c).
     propose_entity demo_runtime demo_catalog (demo_ai stray_fields) 15 c ''irimsv'' ''schools'' ''LRMIS'')"

theorem older_deploy_serves_newer:
  "case two_proposals of Inl _ \<Rightarrow> False | Inr x \<Rightarrow>
     (case deploy_to_lrmis demo_deploy None 20 (snd x) 1 ''ana'' of Inl _ \<Rightarrow> False
      | Inr y \<Rightarrow> map m_column (load_entity_mappings (snd y) ''schools'' ''LRMIS'') = [Some ''title'']
          \<and> (case dget sample_registry ''school'' of None \<Rightarrow> False | Some m \<Rightarrow> ''title'' \<notin> set (map lc_name (lt_columns m))))"
  by code_simp

text \<open>
  Proposing again for an entity that is already deployed puts the new mapping live at once when
  its fields are confident enough: no deployment gate, no approval.
\<close>

theorem repropose_bypasses_gate:
  "case demo_deployed of Inl _ \<Rightarrow> False | Inr x \<Rightarrow>
     (case propose_entity demo_runtime demo_catalog (demo_ai stray_fields) 30 (snd x) ''irimsv'' ''schools'' ''LRMIS'' of Inl _ \<Rightarrow> False
      | Inr y \<Rightarrow> map m_column (load_entity_mappings (snd y) ''schools'' ''LRMIS'') = [Some ''title'']
          \<and> map en_status (entities (snd y)) = [EDeployed])"
  by code_simp

end
