(* ===== verification/Onboarding_Flow.thy ===== *)
theory Onboarding_Flow
  imports Deployment_Flow
begin

text \<open>
  Onboarding as a whole, across \<open>pipeline.py\<close>, \<open>onboarding.py\<close> and \<open>lrmis_onboarding.py\<close>: discovery
  registers every table of the source once, and a table that a bulk onboarding reports as onboarded
  is deployed, enabled and completely queued.
\<close>

section \<open>Discovery\<close>

abbreviation entity_serial :: string where "entity_serial \<equiv> ''onboarding_entity''"

definition entity_key :: "entity_row \<Rightarrow> string \<times> string \<times> string" where
  "entity_key e = (en_source_schema e, en_source_table e, en_target_system e)"

text \<open>The primary key and the unique key of \<open>integration.onboarding_entity\<close>.\<close>

definition entity_base :: "central \<Rightarrow> bool" where
  "entity_base c = (distinct (map en_id (entities c)) \<and> (\<forall>e \<in> set (entities c). en_id e < serials c entity_serial)
     \<and> distinct (map entity_key (entities c)))"

lemma is_entity_key: "is_entity schema tab sys e \<longleftrightarrow> entity_key e = (schema, tab, sys)"
  by (auto simp: is_entity_def entity_key_def)

text \<open>New entities only, behind the old ones, and nothing else but their counter.\<close>

definition adds_entities :: "central \<Rightarrow> entity_row list \<Rightarrow> central \<Rightarrow> bool" where
  "adds_entities c news c' \<longleftrightarrow> entities c' = entities c @ news \<and> same_reviews c c' \<and> schema_versions c' = schema_versions c
     \<and> outbox c' = outbox c \<and> entity_control c' = entity_control c"

lemma adds_entities_Nil: "adds_entities c [] c"
  by (simp add: adds_entities_def)

lemma adds_entities_trans: "adds_entities c a c1 \<Longrightarrow> adds_entities c1 b c2 \<Longrightarrow> adds_entities c (a @ b) c2"
  by (auto simp: adds_entities_def intro: same_reviews_trans)

lemma get_or_create_adds:
  assumes "get_or_create_entity now c schema tab sys pks upd = (i, c')" and "entity_base c"
  obtains (known) e where "e \<in> set (entities c)" and "is_entity schema tab sys e" and "i = en_id e" and "c' = c"
  | (new) "\<forall>e \<in> set (entities c). \<not> is_entity schema tab sys e" and "adds_entities c [new_entity now i schema tab sys pks upd] c'"
      and "entity_base c'"
proof (cases "select_one (is_entity schema tab sys) (entities c)")
  case (Some e)
  then have "i = en_id e" "c' = c" using assms(1) by (simp_all add: get_or_create_entity_def)
  then show ?thesis using select_one_Some [OF Some] by (intro known) simp_all
next
  case None
  then have no: "\<forall>e \<in> set (entities c). \<not> is_entity schema tab sys e" by (simp add: select_one_None)
  have "get_or_create_entity now c schema tab sys pks upd = (serials c entity_serial, c\<lparr>serials := (serials c)(entity_serial := serials c entity_serial + 1),
      entities := entities c @ [new_entity now (serials c entity_serial) schema tab sys pks upd]\<rparr>)"
    using None by (simp add: get_or_create_entity_def next_serial_def)
  note eq = trans [OF this [symmetric] assms(1)]
  have i: "serials c entity_serial = i" using eq by simp
  have c': "c' = c\<lparr>serials := (serials c)(entity_serial := i + 1), entities := entities c @ [new_entity now i schema tab sys pks upd]\<rparr>"
    using eq by (elim Pair_inject) (simp add: i [symmetric])
  show ?thesis
  proof (rule new [OF no])
    show "adds_entities c [new_entity now i schema tab sys pks upd] c'" by (simp add: adds_entities_def c' same_reviews_def)
    have "i \<notin> en_id ` set (entities c)" using assms(2) i by (auto simp: entity_base_def)
    moreover have "entity_key (new_entity now i schema tab sys pks upd) \<notin> entity_key ` set (entities c)"
      using no by (auto simp: is_entity_key entity_key_def new_entity_def)
    ultimately show "entity_base c'"
      using assms(2) i by (auto simp: entity_base_def c' new_entity_def)
  qed
qed

lemma discover_tables_adds:
  assumes "discover_tables now schema sys tgt ts c = (ds, c')" and "entity_base c"
  shows "\<exists>news. adds_entities c news c' \<and> entity_base c' \<and> map di_table ds = map tab_name ts
    \<and> (\<forall>e \<in> set news. en_status e = EDiscovered \<and> (\<exists>t \<in> set ts. is_entity schema (tab_name t) sys e))
    \<and> (\<forall>d \<in> set ds. \<exists>e \<in> set (entities c'). is_entity schema (di_table d) sys e \<and> en_id e = di_entity d)"
  using assms
proof (induction ts arbitrary: c ds)
  case Nil
  then show ?case by (auto intro!: exI [of _ "[]"] adds_entities_Nil)
next
  case (Cons t ts)
  obtain i c1 where g: "get_or_create_entity now c schema (tab_name t) sys (table_pk_columns t) (updated_at_of t) = (i, c1)"
    by (cases "get_or_create_entity now c schema (tab_name t) sys (table_pk_columns t) (updated_at_of t)")
  obtain rest d where r: "discover_tables now schema sys tgt ts c1 = (rest, c')" and ds: "ds = d # rest"
      and d: "di_table d = tab_name t" "di_entity d = i"
    using Cons.prems(1) g by (auto split: prod.splits)
  obtain a where a: "adds_entities c a c1" "entity_base c1" "\<forall>e \<in> set a. en_status e = EDiscovered \<and> is_entity schema (tab_name t) sys e"
    "\<exists>e \<in> set (entities c1). is_entity schema (tab_name t) sys e \<and> en_id e = i"
    using g Cons.prems(2)
  proof (cases rule: get_or_create_adds)
    case (known e)
    then show ?thesis using that [of "[]"] Cons.prems(2) adds_entities_Nil by auto
  next
    case new
    then show ?thesis
      by (intro that [of "[new_entity now i schema (tab_name t) sys (table_pk_columns t) (updated_at_of t)]"])
        (auto simp: adds_entities_def new_entity_def is_entity_def)
  qed
  obtain news where n: "adds_entities c1 news c'" "entity_base c'" "map di_table rest = map tab_name ts"
    "\<forall>e \<in> set news. en_status e = EDiscovered \<and> (\<exists>t \<in> set ts. is_entity schema (tab_name t) sys e)"
    "\<forall>d \<in> set rest. \<exists>e \<in> set (entities c'). is_entity schema (di_table d) sys e \<and> en_id e = di_entity d"
    using Cons.IH [OF r a(2)] by blast
  have "\<exists>e \<in> set (entities c'). is_entity schema (tab_name t) sys e \<and> en_id e = i"
    using a(4) n(1) by (auto simp: adds_entities_def)
  then show ?case
    using adds_entities_trans [OF a(1) n(1)] n a(3) ds d by (intro exI [of _ "a @ news"]) auto
qed

text \<open>A discovery of tables that are all registered finds them and writes nothing.\<close>

lemma get_or_create_known:
  assumes "distinct (map entity_key (entities k))" and "e \<in> set (entities k)" and "is_entity schema tab sys e"
  shows "get_or_create_entity now k schema tab sys pks upd = (en_id e, k)"
proof -
  obtain e' where e': "select_one (is_entity schema tab sys) (entities k) = Some e'"
    using assms(2,3) select_one_None by fastforce
  then have "e' = e"
    using select_one_Some [OF e'] assms by (auto simp: is_entity_key intro: distinct_map_eq)
  then show ?thesis using e' by (simp add: get_or_create_entity_def)
qed

lemma discover_tables_again:
  assumes "distinct (map entity_key (entities k))"
    and "discover_tables now schema sys tgt ts c = (ds, c')"
    and "\<forall>d \<in> set ds. \<exists>e \<in> set (entities k). is_entity schema (di_table d) sys e \<and> en_id e = di_entity d"
  shows "discover_tables later schema sys tgt ts k = (ds, k)"
  using assms(2,3)
proof (induction ts arbitrary: c ds)
  case (Cons t ts)
  obtain i c1 where g: "get_or_create_entity now c schema (tab_name t) sys (table_pk_columns t) (updated_at_of t) = (i, c1)"
    by (cases "get_or_create_entity now c schema (tab_name t) sys (table_pk_columns t) (updated_at_of t)")
  obtain rest where r: "discover_tables now schema sys tgt ts c1 = (rest, c')" and ds: "ds = \<lparr>di_table = tab_name t,
        di_columns = length (tab_columns t), di_pk = table_pk_columns t, di_updated_at = updated_at_of t,
        di_candidates = take 5 (case tgt of None \<Rightarrow> [] | Some g \<Rightarrow> rank_target_tables t g), di_entity = i\<rparr> # rest"
    using Cons.prems(1) g by (auto split: prod.splits)
  obtain e where "e \<in> set (entities k)" "is_entity schema (tab_name t) sys e" "en_id e = i"
    using Cons.prems(2) ds by auto
  then have "get_or_create_entity later k schema (tab_name t) sys (table_pk_columns t) (updated_at_of t) = (i, k)"
    using get_or_create_known [OF assms(1)] by metis
  moreover have "discover_tables later schema sys tgt ts k = (rest, k)" using Cons.IH [OF r] Cons.prems(2) ds by simp
  ultimately show ?case using ds by simp
qed simp

lemma discover_target_same: "schema_versions k = schema_versions c \<Longrightarrow> discover_target_schema k sys fp = discover_target_schema c sys fp"
  by (simp add: discover_target_schema_def)


section \<open>A table from discovery to its first events\<close>

lemma create_proposal_newest:
  assumes "create_proposal P now c eid sf tf ms ignored unmet ai counts = Inr (pid, c')" and "review_base c"
  shows "(\<forall>q \<in> set (proposals c'). po_id q \<le> pid) \<and> schema_versions c' = schema_versions c \<and> outbox c' = outbox c
    \<and> entity_control c' = entity_control c"
proof -
  obtain f rows where f: "\<And>i. po_id (f i) = i" and pid: "pid = serials c proposal_serial"
    and rows: "adds_reviews pid (with_proposal f c) rows c'"
    using create_proposal_run [OF assms(1)] by metis
  have "proposals c' = proposals c @ [f pid]" using adds_reviews_frame [OF rows] pid by simp
  moreover have "\<forall>q \<in> set (proposals c). po_id q < pid" using assms(2) by (simp add: review_base_def pid)
  ultimately show ?thesis
    using adds_reviews_frame [OF rows] f by (auto simp: with_proposal_def append_proposal_def next_serial_def)
qed

lemma propose_entity_newest:
  assumes "propose_entity P K ai now c schema tab sys = Inr (pr, c')" and "review_inv c"
  shows "\<forall>q \<in> set (proposals c'). po_id q \<le> pp_proposal pr"
proof -
  obtain eid sf tf g answer where run: "store_answer P now (set_fingerprints now eid sf tf c) eid sf tf g answer = Inr (pr, c')"
    using assms(1) unfolding propose_entity_def Let_def by (auto simp: res_bind_Inr_iff split: option.splits)
  obtain ms unmet a counts where cr: "create_proposal P now (set_fingerprints now eid sf tf c) eid sf tf ms [] unmet a counts
      = Inr (pp_proposal pr, c')"
    using store_answer_run [OF run] by metis
  have "review_base (set_fingerprints now eid sf tf c)"
    using assms(2) by (simp add: review_inv_def review_base_def set_fingerprints_def)
  then show ?thesis using create_proposal_newest [OF cr] by blast
qed

text \<open>The entity a backfill works on is the one of the newest approved proposal among the deployed.\<close>

lemma mem_left_join: "(e, Some p) \<in> set (left_join P bs as) \<longleftrightarrow> e \<in> set as \<and> p \<in> set bs \<and> P e p"
proof -
  have "(case filter (P a) bs of [] \<Rightarrow> [(a, None)] | ms \<Rightarrow> map (\<lambda>b. (a, Some b)) ms)
      = (if filter (P a) bs = [] then [(a, None)] else map (\<lambda>b. (a, Some b)) (filter (P a) bs))" for a
    by (simp split: list.splits)
  then show ?thesis unfolding left_join_def by (auto simp: filter_empty_conv)
qed

lemma backfill_entity_newest:
  assumes "e \<in> set (entities c)" and "en_source_table e = tab" and "en_status e = EDeployed"
    and "p \<in> set (proposals c)" and "approved_for e p" and "\<forall>q \<in> set (proposals c). po_id q \<le> po_id p"
    and "distinct (map po_id (proposals c))" and "distinct (map en_id (entities c))"
  shows "backfill_entity c tab = Some e"
proof -
  define rows where "rows = left_join approved_for (proposals c) (filter (\<lambda>e. en_source_table e = tab \<and> en_status e = EDeployed) (entities c))"
  define L where "L = sort_key (\<lambda>r. - po_id (the (snd r))) (filter (\<lambda>r. snd r \<noteq> None) rows)"
  have mem: "(e, Some p) \<in> set L" using assms(1-5) by (simp add: L_def rows_def mem_left_join)
  then obtain x xs where x: "L = x # xs" by (cases L) auto
  then have "x \<in> set L" by simp
  then have in_rows: "x \<in> set rows" "snd x \<noteq> None" by (simp_all add: L_def)
  then obtain e' p' where xp: "x = (e', Some p')" by (metis not_None_eq prod.collapse)
  have e': "x = (e', Some p')" "e' \<in> set (entities c)" "p' \<in> set (proposals c)" "approved_for e' p'"
    using in_rows(1) unfolding xp rows_def mem_left_join by simp_all
  have "sorted (map (\<lambda>r. - po_id (the (snd r))) L)" unfolding L_def by (rule sorted_sort_key)
  then have "- po_id p' \<le> - po_id p" using mem unfolding x e'(1) by auto
  then have "po_id p' = po_id p" using assms(6) e'(3) by force
  then have "p' = p" using assms(4,7) e'(3) by (auto intro: distinct_map_eq)
  then have "en_id e' = en_id e" using e'(4) assms(5) by (simp add: approved_for_def)
  then have "e' = e" using assms(1,8) e'(2) by (auto intro: distinct_map_eq)
  then show ?thesis using x e'(1) by (simp add: backfill_entity_def L_def rows_def)
qed


text \<open>A deployed proposal's entity, as the next steps find it.\<close>

lemma deployed_proposal:
  assumes "deploy_to_lrmis D None now c pid by = Inr (Deployed d, c')" and "distinct (map en_id (entities c))"
  obtains p e f where "p \<in> set (proposals c)" and "po_id p = pid" and "e \<in> set (entities c)" and "en_id e = po_entity_id p"
    and "f e \<in> set (entities c')" and "\<And>x. entity_key (f x) = entity_key x" and "\<And>x. en_id (f x) = en_id x"
    and "en_status (f e) = EDeployed" and "en_target_tables (f e) = Some (dp_tables d)"
    and "map en_id (entities c') = map en_id (entities c)"
    and "proposals c' = update_where (\<lambda>p. po_id p = pid)
      (\<lambda>p. p\<lparr>po_status := PApproved, po_reviewed_by := Some by, po_reviewed_at := Some now, po_updated_at := now\<rparr>) (proposals c)"
    and "\<exists>k \<in> set (entity_control c'). controls e k" and "\<And>k. k \<in> set (entity_control c') \<Longrightarrow> controls e k \<Longrightarrow> ct_enabled k"
proof -
  obtain p e ms rows contract where l: "load_proposal_mappings c pid = Inr (p, e, ms)"
    and d: "d = fst (commit_deploy now p e ms by contract c)" and c': "c' = snd (commit_deploy now p e ms by contract c)"
    by (rule deploy_to_lrmis_cases [OF assms(1)]) auto
  note sel = load_proposal_selects [OF l]
  let ?f = "deployed_row now by (target_tables_for ms) (snd contract)"
  have rows: "entities c' = update_where (\<lambda>x. en_id x = en_id e) ?f (entities c)" unfolding c' by (rule commit_deploy_entities)
  show thesis
  proof (rule that)
    show "p \<in> set (proposals c)" "po_id p = pid" "e \<in> set (entities c)" "en_id e = po_entity_id p" using sel by simp_all
    show "?f e \<in> set (entities c')" unfolding rows by (rule update_where_id(2)) (use assms(2) sel in simp_all)
    show "map en_id (entities c') = map en_id (entities c)" unfolding rows by (rule map_update_where) (simp add: deployed_row_def)
    show "proposals c' = update_where (\<lambda>p. po_id p = pid)
      (\<lambda>p. p\<lparr>po_status := PApproved, po_reviewed_by := Some by, po_reviewed_at := Some now, po_updated_at := now\<rparr>) (proposals c)"
      using sel unfolding c' commit_deploy_proposals by (simp add: approve_proposal_def)
    show "\<exists>k \<in> set (entity_control c'). controls e k" unfolding c' by (rule commit_deploy_has_control)
    show "ct_enabled k" if "k \<in> set (entity_control c')" "controls e k" for k
      using that unfolding c' by (rule commit_deploy_enables)
  qed (simp_all add: d deployed_row_def entity_key_def commit_deploy_result)
qed

text \<open>
  A proposal leaves its entity under the table it was proposed for, and is the newest of the store.
\<close>

lemma proposed_entity:
  assumes "propose_entity P K ai now c schema tab sys = Inr (pr, c')" and "review_inv c" and "entity_base c"
  obtains e p where "e \<in> set (entities c')" and "is_entity schema tab sys e" and "p \<in> set (proposals c')"
    and "po_id p = pp_proposal pr" and "po_entity_id p = en_id e" and "\<forall>q \<in> set (proposals c'). po_id q \<le> po_id p"
    and "distinct (map en_id (entities c'))" and "distinct (map po_id (proposals c'))"
proof -
  obtain e0 fp tf where e0: "e0 \<in> set (entities c)" "is_entity schema tab sys e0"
    and left: "entities c' = entities (set_fingerprints now (en_id e0) fp tf c)"
    and new: "\<exists>p \<in> set (proposals c'). po_id p = pp_proposal pr \<and> po_entity_id p = en_id e0"
    by (rule propose_entity_leaves [OF assms(1)]) (rule that)
  let ?g = "\<lambda>e. e\<lparr>en_source_fingerprint := Some fp, en_target_fingerprint := Some tf, en_scope_version := 2, en_updated_at := now\<rparr>"
  have rows: "entities c' = update_where (\<lambda>x. en_id x = en_id e0) ?g (entities c)"
    using left by (simp add: set_fingerprints_def)
  have ids: "map en_id (entities c') = map en_id (entities c)" unfolding rows by (rule map_update_where) simp
  have base: "distinct (map en_id (entities c))" using assms(3) by (simp add: entity_base_def)
  obtain p where p: "p \<in> set (proposals c')" "po_id p = pp_proposal pr" "po_entity_id p = en_id e0" using new by blast
  show thesis
  proof (rule that)
    show "?g e0 \<in> set (entities c')" unfolding rows by (rule update_where_id(2) [OF base e0(1)])
    show "is_entity schema tab sys (?g e0)" using e0(2) by (simp add: is_entity_def)
    show "\<forall>q \<in> set (proposals c'). po_id q \<le> po_id p" using propose_entity_newest [OF assms(1,2)] p(2) by simp
    show "distinct (map po_id (proposals c'))"
      using propose_entity_inv [OF assms(1,2)] by (simp add: review_inv_def review_base_def)
  qed (use p ids base in simp_all)
qed

text \<open>
  Deploying the newest proposal puts its entity live, and makes it the one a backfill of the table
  works on.
\<close>

lemma deployed_newest:
  assumes "deploy_to_lrmis D None now c pid by = Inr (Deployed d, c')" and "e \<in> set (entities c)" and "is_entity schema tab sys e"
    and "p \<in> set (proposals c)" and "po_id p = pid" and "po_entity_id p = en_id e" and "\<forall>q \<in> set (proposals c). po_id q \<le> po_id p"
    and "distinct (map en_id (entities c))" and "distinct (map po_id (proposals c))"
  obtains e' where "e' \<in> set (entities c')" and "is_entity schema tab sys e'" and "en_status e' = EDeployed"
    and "en_target_tables e' = Some (dp_tables d)" and "backfill_entity c' tab = Some e'"
    and "\<exists>k \<in> set (entity_control c'). controls e' k" and "\<forall>k \<in> set (entity_control c'). controls e' k \<longrightarrow> ct_enabled k"
proof -
  let ?h = "\<lambda>p. p\<lparr>po_status := PApproved, po_reviewed_by := Some by, po_reviewed_at := Some now, po_updated_at := now\<rparr>"
  obtain q x f where q: "q \<in> set (proposals c)" "po_id q = pid" and x: "x \<in> set (entities c)" "en_id x = po_entity_id q"
    and fx: "f x \<in> set (entities c')" "entity_key (f x) = entity_key x" "en_id (f x) = en_id x" "en_status (f x) = EDeployed"
      "en_target_tables (f x) = Some (dp_tables d)"
    and ids: "map en_id (entities c') = map en_id (entities c)"
    and props: "proposals c' = update_where (\<lambda>p. po_id p = pid) ?h (proposals c)"
    and ctl: "\<exists>k \<in> set (entity_control c'). controls x k" "\<And>k. k \<in> set (entity_control c') \<Longrightarrow> controls x k \<Longrightarrow> ct_enabled k"
    by (rule deployed_proposal [OF assms(1,8)]) (rule that)
  have "q = p" using distinct_map_eq [OF assms(9), of q p] q assms(4,5) by simp
  then have "x = e" using distinct_map_eq [OF assms(8), of x e] x assms(2,6) by simp
  then have key: "is_entity schema tab sys (f x)" using assms(3) fx(2) by (auto simp: is_entity_key entity_key_def)
  have same: "controls (f x) k = controls x k" for k using fx(2) by (simp add: controls_def entity_key_def)
  have "backfill_entity c' tab = Some (f x)"
  proof (rule backfill_entity_newest)
    show "?h p \<in> set (proposals c')" unfolding props assms(5) [symmetric] by (rule update_where_id(2) [OF assms(9,4)])
    show "approved_for (f x) (?h p)" using \<open>x = e\<close> assms(6) fx(3) by (simp add: approved_for_def)
    show "\<forall>q \<in> set (proposals c'). po_id q \<le> po_id (?h p)"
      using assms(7) unfolding props by (auto elim!: update_where_cases)
    have "map po_id (proposals c') = map po_id (proposals c)" unfolding props by (rule map_update_where) simp
    then show "distinct (map po_id (proposals c'))" using assms(9) by simp
  qed (use fx key assms(8) ids in \<open>simp_all add: is_entity_def\<close>)
  then show thesis using that [of "f x"] fx key ctl same by simp
qed

text \<open>
  C5: a table that a bulk onboarding reports as onboarded is registered and deployed with the reported
  tables, its delivery is switched on, and each row the source then has is counted and queued as
  an event of the outbox.
\<close>

theorem onboarded_table_is_live:
  assumes "onboard_one N now schema sys by tab c = (Onboarded pid tables n queued skips, c')"
    and "review_inv c" and "entity_base c"
  shows "\<exists>e \<in> set (entities c'). is_entity schema tab sys e \<and> en_status e = EDeployed \<and> en_target_tables e = Some tables
    \<and> (\<exists>k \<in> set (entity_control c'). controls e k) \<and> (\<forall>k \<in> set (entity_control c'). controls e k \<longrightarrow> ct_enabled k)
    \<and> (\<exists>rows. so_rows (ob_source N) schema tab = Inr rows \<and> queued + skips = length rows
         \<and> (\<forall>r \<in> set rows. queued_for c' (row_reference (so_runtime (ob_source N)) e r) tab))"
proof -
  obtain ds c1 where di: "discover (ob_catalog N) now c schema sys = Inr (ds, c1)"
    using assms(1) unfolding onboard_one_def by (auto split: if_splits sum.splits)
  obtain pr c2 where pr: "propose_entity (dx_runtime (ob_deploy N)) (ob_catalog N) (ob_propose N) now c1 schema tab sys = Inr (pr, c2)"
    using assms(1) di unfolding onboard_one_def by (auto split: if_splits sum.splits)
  have ap: "onboard_approved N now by tab pr c2 = (Onboarded pid tables n queued skips, c')"
    using assms(1) di pr unfolding onboard_one_def by (auto split: if_splits sum.splits)
  obtain d c3 b where dep: "deploy_to_lrmis (ob_deploy N) None now c2 (pp_proposal pr) by = Inr (Deployed d, c3)" and t: "dp_tables d = tables"
    and b: "backfill (ob_source N) now c3 tab = Inr (b, c')" "bf_queued b = queued" "bf_skipped b = skips"
    using ap unfolding onboard_approved_def by (auto split: sum.splits deploy_outcome.splits)
  obtain news where news: "adds_entities c news c1" and base1: "entity_base c1"
    using di discover_tables_adds [OF _ assms(3)] unfolding discover_def res_bind_Inr_iff by blast
  have inv1: "review_inv c1" using same_reviews_inv [of c c1] news assms(2) by (simp add: adds_entities_def)
  obtain e p where e: "e \<in> set (entities c2)" "is_entity schema tab sys e" and p: "p \<in> set (proposals c2)" "po_id p = pp_proposal pr"
      "po_entity_id p = en_id e" "\<forall>q \<in> set (proposals c2). po_id q \<le> po_id p"
    and dist: "distinct (map en_id (entities c2))" "distinct (map po_id (proposals c2))"
    by (rule proposed_entity [OF pr inv1 base1]) (rule that)
  obtain x where x: "x \<in> set (entities c3)" "is_entity schema tab sys x" "en_status x = EDeployed"
      "en_target_tables x = Some (dp_tables d)" "backfill_entity c3 tab = Some x"
    and ctl: "\<exists>k \<in> set (entity_control c3). controls x k" "\<forall>k \<in> set (entity_control c3). controls x k \<longrightarrow> ct_enabled k"
    by (rule deployed_newest [OF dep e p dist]) (rule that)
  have names: "en_source_table x = tab" "en_source_schema x = schema" using x(2) by (simp_all add: is_entity_def)
  obtain y rows evs where y: "backfill_entity c3 tab = Some y" and rows: "so_rows (ob_source N) (en_source_schema y) (en_source_table y) = Inr rows"
    and c': "c' = c3\<lparr>outbox := outbox c3 @ evs\<rparr>" and evs: "new_events (ob_source N) y c3 rows evs"
    and count: "bf_queued b + bf_skipped b = length rows"
    by (rule backfill_run [OF b(1)]) (rule that)
  have "y = x" using x(5) y by simp
  note rows = rows [unfolded \<open>y = x\<close> names] and evs = evs [unfolded \<open>y = x\<close>] and count = count [unfolded b(2,3)]
  have "queued_for c' (row_reference (so_runtime (ob_source N)) x r) tab" if "r \<in> set rows" for r
    using new_events_queue [OF evs that] names(1) by (simp add: c')
  then have "\<exists>rows. so_rows (ob_source N) schema tab = Inr rows \<and> queued + skips = length rows
      \<and> (\<forall>r \<in> set rows. queued_for c' (row_reference (so_runtime (ob_source N)) x r) tab)"
    using rows count by blast
  moreover have "x \<in> set (entities c')" "entity_control c' = entity_control c3" using x(1) by (simp_all add: c')
  ultimately show ?thesis using x t ctl by (intro bexI [of _ x] conjI) simp_all
qed

definition demo_onboarding :: onboard_env where
  "demo_onboarding = \<lparr>ob_deploy = demo_deploy, ob_catalog = demo_catalog, ob_source = three_rows, ob_propose = demo_ai sure_fields\<rparr>"

definition unregistered :: central where
  "unregistered = demo_start\<lparr>entities := []\<rparr>"

definition onboarded :: "onboard_outcome \<times> central" where
  "onboarded = onboard_one demo_onboarding 10 ''irimsv'' ''LRMIS'' ''ana'' ''schools'' unregistered"

lemma onboarded_run: "fst onboarded = Onboarded 1 [''school'', ''station''] 2 2 1"
  by code_simp

lemma unregistered_inv: "review_inv unregistered" "entity_base unregistered"
  by (simp_all add: unregistered_def review_inv_def review_base_def entity_base_def demo_start_def empty_central_def)

theorem onboarded_table_is_live_witness:
  "\<exists>c'. onboard_one demo_onboarding 10 ''irimsv'' ''LRMIS'' ''ana'' ''schools'' unregistered = (Onboarded 1 [''school'', ''station''] 2 2 1, c')
     \<and> (\<exists>e \<in> set (entities c'). is_entity ''irimsv'' ''schools'' ''LRMIS'' e \<and> en_status e = EDeployed
          \<and> en_target_tables e = Some [''school'', ''station''] \<and> queued_for c' (row_reference (so_runtime three_rows) e [(''id'', PStr ''2'')]) ''schools'')"
proof -
  have run: "onboard_one demo_onboarding 10 ''irimsv'' ''LRMIS'' ''ana'' ''schools'' unregistered
      = (Onboarded 1 [''school'', ''station''] 2 2 1, snd onboarded)"
    using onboarded_run by (metis onboarded_def prod.collapse)
  have "so_rows (ob_source demo_onboarding) ''irimsv'' ''schools'' = Inr (map (\<lambda>k. [(''id'', PStr k)]) [''1'', ''2'', ''1''])"
    by (simp add: demo_onboarding_def three_rows_def)
  then have "\<exists>e \<in> set (entities (snd onboarded)). is_entity ''irimsv'' ''schools'' ''LRMIS'' e \<and> en_status e = EDeployed
      \<and> en_target_tables e = Some [''school'', ''station'']
      \<and> queued_for (snd onboarded) (row_reference (so_runtime three_rows) e [(''id'', PStr ''2'')]) ''schools''"
    using onboarded_table_is_live [OF run unregistered_inv] by (auto simp: demo_onboarding_def)
  with run show ?thesis by blast
qed

definition discovered_demo :: "(discovered list \<times> central) res" where
  "discovered_demo = discover demo_catalog 10 unregistered ''irimsv'' ''LRMIS''"

lemma discovered_demo_run: "case discovered_demo of Inl _ \<Rightarrow> False | Inr x \<Rightarrow> map di_table (fst x) = [''schools''] \<and> length (entities (snd x)) = 1"
  by code_simp


end
