(* ===== verification/Drift_Flow.thy ===== *)
theory Drift_Flow
  imports Drift_Resolution
begin

text \<open>
  What a refresh may touch, whichever engine it writes to, and what the workflows built on it
  leave: \<open>lrmis_delivery.py\<close>, \<open>nightly_refresh.py\<close>, \<open>drift_resolution.py\<close> and the re-baselining of
  \<open>ops.py\<close>. Accepting a drift stores the fingerprints of the schema as it is, so the next scan is quiet.
\<close>

section \<open>The frame of a refresh\<close>

definition crosswalk_of_others :: "string \<Rightarrow> string \<Rightarrow> central \<Rightarrow> central \<Rightarrow> bool" where
  "crosswalk_of_others entity sys c c' = (\<forall>k t. dk_entity k \<noteq> entity \<or> dk_target k \<noteq> sys
     \<longrightarrow> crosswalk_lookup k t c' = crosswalk_lookup k t c)"

definition refresh_frame :: "string \<Rightarrow> string \<Rightarrow> central \<Rightarrow> central \<Rightarrow> bool" where
  "refresh_frame entity sys c c' = (central_rest c' = central_rest c \<and> crosswalk_of_others entity sys c c')"

lemma refresh_frame_refl [simp]: "refresh_frame entity sys c c"
  by (simp add: refresh_frame_def crosswalk_of_others_def)

lemma refresh_frame_trans: "refresh_frame entity sys c c1 \<Longrightarrow> refresh_frame entity sys c1 c2 \<Longrightarrow> refresh_frame entity sys c c2"
  by (simp add: refresh_frame_def crosswalk_of_others_def)

text \<open>A writer that also deletes: the rows of an entity and its crosswalk entries only.\<close>

locale refreshing_writer = target_writer +
  assumes delete_frame: "wr_delete wr entity sys w = (rd, w') \<Longrightarrow> refresh_frame entity sys (w_central w) (w_central w')"
begin

lemma refresh_row_frame:
  assumes "refresh_row D wr now entity ms ref_of src s w = (r, w')"
  shows "refresh_frame entity (de_target_system D) (w_central w) (w_central w')"
proof -
  obtain vbt errs where b: "build_values_by_table (de_runtime D) (de_registry D) src ms = (vbt, errs)" by fastforce
  show ?thesis
  proof (cases "errs \<noteq> [] \<or> vbt = []")
    case True
    then show ?thesis using assms b by (auto simp: refresh_row_def ret_def)
  next
    case False
    then have run: "bind (read_fks D wr src ms vbt) (refresh_write D wr now entity (ref_of src) s) w = (r, w')"
      using assms b by (simp add: refresh_row_def)
    show ?thesis
    proof (cases "resolve_cross_entity_fks D wr src ms vbt w")
      case (Inl e)
      then show ?thesis using run by (auto simp: bind_def read_fks_def)
    next
      case (Inr br)
      obtain vbt' un where br: "br = (vbt', un)" by fastforce
      have wf: "wf_dict vbt'"
        using resolve_fks_inv [OF Inr [unfolded br resolve_cross_entity_fks_def] build_values_wf [OF b]] by (simp add: wf_values_def)
      obtain r1 w1 where wr: "wr_write wr now (event_key D entity (ref_of src)) None vbt' w = (r1, w1)" by fastforce
      have "w' = w1" using run Inr br wr by (cases r1) (auto simp: bind_def read_fks_def refresh_write_def ret_def)
      moreover have "crosswalk_lookup k t (w_central w1) = crosswalk_lookup k t (w_central w)"
        if "dk_entity k \<noteq> entity \<or> dk_target k \<noteq> de_target_system D" for k t
        by (rule write_others [OF wr wf]) (use that in \<open>auto simp: event_key_def\<close>)
      ultimately show ?thesis using write_rest [OF wr wf]
        by (simp add: refresh_frame_def crosswalk_of_others_def)
    qed
  qed
qed

lemma refresh_entity_frame:
  assumes "refresh_entity D wr now entity ms ref_of rows w = (r, w')"
  shows "refresh_frame entity (de_target_system D) (w_central w) (w_central w')"
proof -
  let ?I = "\<lambda>x. refresh_frame entity (de_target_system D) (w_central w) (w_central x)"
  obtain rd w1 where d: "wr_delete wr entity (de_target_system D) w = (rd, w1)" by fastforce
  have I1: "?I w1" by (rule delete_frame [OF d])
  have "?I (snd (fold_comp (refresh_row D wr now entity ms ref_of) rows a w1))" for a
    by (rule fold_comp_always [where I = ?I, OF I1])
      (metis refresh_row_frame refresh_frame_trans prod.collapse)
  then show ?thesis using assms d I1 by (cases rd) (auto simp: refresh_entity_def bind_def split: prod.splits, metis snd_conv)
qed

end

lemma delete_owned_frame:
  assumes "delete_owned_rows chk E R entity sys w = (r, w')"
  shows "refresh_frame entity sys (w_central w) (w_central w')"
proof (cases r)
  case (Inl e)
  then show ?thesis using delete_owned_rows_effect(2) [OF assms] by simp
next
  case (Inr d)
  then have "w_central w' = forget_entity entity sys (filter (deletable R) (map fst (crosswalk_rows_for_entity entity sys (w_central w)))) (w_central w)"
    using delete_owned_rows_effect(3) [OF assms] by simp
  moreover have "find (cw_match k t) (delete_where (\<lambda>r. cw_source_entity r = entity \<and> cw_target_system r = sys \<and> Q r) rs) = find (cw_match k t) rs"
    if "dk_entity k \<noteq> entity \<or> dk_target k \<noteq> sys" for k t Q rs
    using that unfolding delete_where_def by (induction rs) (auto simp: cw_match_def)
  ultimately show ?thesis
    by (auto simp: refresh_frame_def crosswalk_of_others_def forget_entity_def central_rest_def crosswalk_lookup_def select_one_def)
qed

interpretation legacy_refresh: refreshing_writer "legacy_writer E P R" for E P R
  by unfold_locales (auto simp: legacy_writer_def delete_entity_rows_def intro: delete_owned_frame)

interpretation generic_refresh: refreshing_writer "generic_writer E P W" for E P W
  by unfold_locales (auto simp: generic_writer_def g_delete_entity_rows_def intro: delete_owned_frame)


text \<open>Either of the two writers of the service.\<close>

definition service_writer :: "writer \<Rightarrow> bool" where
  "service_writer wr \<longleftrightarrow> (\<exists>E P R. wr = legacy_writer E P R) \<or> (\<exists>E P W. wr = generic_writer E P W)"

lemma legacy_is_service_writer: "service_writer (legacy_writer E P R)"
  unfolding service_writer_def by (rule disjI1) (rule exI, rule exI, rule exI, rule refl)

lemma refresh_frame_of_writer:
  assumes "service_writer wr" and "refresh_entity D wr now entity ms ref_of rows w = (r, w')"
  shows "refresh_frame entity (de_target_system D) (w_central w) (w_central w')"
  using assms(1) unfolding service_writer_def
proof (elim disjE exE)
  fix E P R
  assume w: "wr = legacy_writer E P R"
  show ?thesis by (rule legacy_refresh.refresh_entity_frame [OF assms(2) [unfolded w]])
next
  fix E P W
  assume w: "wr = generic_writer E P W"
  show ?thesis by (rule generic_refresh.refresh_entity_frame [OF assms(2) [unfolded w]])
qed

lemma redeliver_entity_frame:
  assumes "service_writer (rd_writer N)" and "redeliver_entity N now sys e w = (r, w')"
  shows "central_rest (w_central w') = central_rest (w_central w)"
  using redeliver_entity_settled [OF assms(2)] refresh_frame_of_writer [OF assms(1)]
  unfolding settled_entity_def by (cases r) (auto simp: refresh_frame_def)

lemma redeliver_loop_frame:
  "service_writer (rd_writer N) \<Longrightarrow> redeliver_loop N now sys es w = (rs, w') \<Longrightarrow> central_rest (w_central w') = central_rest (w_central w)"
proof (induction es arbitrary: w rs)
  case (Cons e es)
  obtain r w1 where one: "redeliver_entity N now sys e w = (r, w1)" by fastforce
  obtain rest w2 where loop: "redeliver_loop N now sys es w1 = (rest, w2)" by fastforce
  have "w' = w2" using Cons.prems(2) one loop by auto
  then show ?case using Cons.IH [OF Cons.prems(1), of w1 rest] loop redeliver_entity_frame [OF Cons.prems(1) one] by simp
qed simp

lemma redeliver_all_frame:
  assumes "service_writer (rd_writer N)" and "redeliver_all N now sys es w = (r, w')"
  shows "central_rest (w_central w') = central_rest (w_central w)"
  using assms(2) redeliver_loop_frame [OF assms(1)]
  by (auto simp: redeliver_all_def split: if_splits option.splits prod.splits)

lemma refresh_keeps_rest:
  assumes "service_writer (rd_writer N)" and "refresh N now schema tables sys source_system None w = (r, w')"
  shows "central_rest (w_central w') = central_rest (w_central w)"
proof -
  let ?N = "N\<lparr>rd_env := (rd_env N)\<lparr>de_source_system := source_system\<rparr>\<rparr>"
  let ?es = "filter (\<lambda>e. en_target_tables e \<noteq> None) (refresh_entities (w_central w) schema tables sys)"
  obtain ro w1 where all: "redeliver_all ?N now sys ?es w = (ro, w1)" by fastforce
  have "w' = w1" using assms(2) all by (cases ro) (auto simp: refresh_def Let_def bind_def blank_def)
  then show ?thesis using redeliver_all_frame [OF _ all] assms(1) by simp
qed

lemma central_rest_entities:
  assumes "central_rest c = central_rest d"
  shows "entities c = entities d" and "entity_control c = entity_control d" and "outbox c = outbox d"
  using arg_cong [OF assms, of entities] arg_cong [OF assms, of entity_control] arg_cong [OF assms, of outbox]
  by (simp_all add: central_rest_def)

section \<open>Accepting fingerprints\<close>

text \<open>Rows accepted one after another, each by its identifier.\<close>

lemma accept_one_more:
  assumes "distinct (map en_id rows)" and "e \<in> set rows" and "e \<notin> A" and "\<And>x. en_id (f x) = en_id x" and "h e = f e"
  shows "update_where (\<lambda>x. en_id x = en_id e) h (map (\<lambda>x. if x \<in> A then f x else x) rows)
    = map (\<lambda>x. if x \<in> insert e A then f x else x) rows"
  unfolding update_where_def map_map comp_def
proof (rule map_cong [OF refl])
  fix x assume "x \<in> set rows"
  then have "en_id x = en_id e \<longleftrightarrow> x = e" using distinct_map_eq [OF assms(1) _ assms(2)] by blast
  then show "(if en_id (if x \<in> A then f x else x) = en_id e then h (if x \<in> A then f x else x) else if x \<in> A then f x else x)
      = (if x \<in> insert e A then f x else x)"
    using assms(3-5) by (cases "x = e") auto
qed


lemma fingerprints_same:
  "en_source_schema x = en_source_schema e \<Longrightarrow> en_source_table x = en_source_table e \<Longrightarrow> en_target_tables x = en_target_tables e
    \<Longrightarrow> entity_fingerprints V x = entity_fingerprints V e"
  by (simp add: entity_fingerprints_def source_fingerprint_def target_fingerprint_def)

section \<open>Re-baselining\<close>

definition measurable :: "scan_env \<Rightarrow> entity_row \<Rightarrow> bool" where
  "measurable V e = (case entity_fingerprints V e of Inl _ \<Rightarrow> False | Inr fps \<Rightarrow> \<not> blank (fst fps) \<and> \<not> blank (snd fps))"

definition baseline_row :: "scan_env \<Rightarrow> int \<Rightarrow> entity_row \<Rightarrow> entity_row" where
  "baseline_row V now e = (case entity_fingerprints V e of
     Inl _ \<Rightarrow> e
   | Inr fps \<Rightarrow> e\<lparr>en_source_fingerprint := fst fps, en_target_fingerprint := snd fps, en_scope_version := 2,
       en_status := (if drift_paused e then EDeployed else en_status e),
       en_paused_reason := (if drift_paused e then None else en_paused_reason e), en_updated_at := now\<rparr>)"

lemma baseline_row_id: "en_id (baseline_row V now e) = en_id e"
  by (simp add: baseline_row_def split: sum.splits)

lemma baseline_quiet: "measurable V e \<Longrightarrow> \<not> monitor_pauses V (baseline_row V now e)"
proof -
  assume "measurable V e"
  then obtain fps where f: "entity_fingerprints V e = Inr fps" by (auto simp: measurable_def split: sum.splits)
  then have "entity_fingerprints V (baseline_row V now e) = Inr fps"
    by (subst fingerprints_same [of _ e]) (simp_all add: baseline_row_def)
  then show ?thesis using f by (simp add: monitor_pauses_def drift_of_def drifted_def) (simp add: baseline_row_def)
qed

lemma store_baseline_entities:
  assumes "entity_fingerprints V e = Inr fps"
  shows "\<exists>h. entities (store_baseline now actor e fps c) = update_where (\<lambda>x. en_id x = en_id e) h (entities c) \<and> h e = baseline_row V now e"
  by (intro exI [of _ "\<lambda>x. x\<lparr>en_source_fingerprint := fst fps, en_target_fingerprint := snd fps, en_scope_version := 2,
      en_status := (if drift_paused e then EDeployed else en_status x),
      en_paused_reason := (if drift_paused e then None else en_paused_reason x), en_updated_at := now\<rparr>"])
    (simp add: store_baseline_def Let_def audit_sink_def baseline_row_def assms)

lemma rebaseline_fold:
  assumes "fold_res (rebaseline_one V now actor True) es (out, c) = Inr (out', c')"
    and "distinct (map en_id rows)" and "set es \<subseteq> set rows" and "distinct es" and "A \<inter> set es = {}"
    and "entities c = map (\<lambda>x. if x \<in> A then baseline_row V now x else x) rows"
  shows "entities c' = map (\<lambda>x. if x \<in> A \<union> {e \<in> set es. measurable V e} then baseline_row V now x else x) rows
    \<and> fold_res (rebaseline_one V now actor False) es (out, d) = Inr (out', d)"
  using assms
proof (induction es arbitrary: out c A)
  case (Cons e es)
  obtain out1 c1 where one: "rebaseline_one V now actor True e (out, c) = Inr (out1, c1)"
    and rest: "fold_res (rebaseline_one V now actor True) es (out1, c1) = Inr (out', c')"
    using Cons.prems(1) by (auto simp: res_bind_Inr_iff)
  obtain fps where f: "entity_fingerprints V e = Inr fps"
    using one unfolding rebaseline_one_def prod.case res_bind_Inr_iff by blast
  have dry: "rebaseline_one V now actor False e (out, d) = Inr (out1, d)"
    using one f by (auto simp: rebaseline_one_def Let_def split: if_splits)
  have e: "e \<in> set rows" "e \<notin> A" using Cons.prems(3,5) by auto
  let ?A = "if measurable V e then insert e A else A"
  have "entities c1 = map (\<lambda>x. if x \<in> ?A then baseline_row V now x else x) rows"
  proof (cases "measurable V e")
    case True
    then have "c1 = store_baseline now actor e fps c" using one f by (simp add: rebaseline_one_def measurable_def Let_def)
    then obtain h where "entities c1 = update_where (\<lambda>x. en_id x = en_id e) h (entities c)" "h e = baseline_row V now e"
      using store_baseline_entities [OF f] by blast
    then show ?thesis using accept_one_more [OF Cons.prems(2) e baseline_row_id] True Cons.prems(6) by simp
  next
    case False
    then have "c1 = c" using one f by (auto simp: rebaseline_one_def measurable_def Let_def split: if_splits)
    then show ?thesis using False Cons.prems(6) by simp
  qed
  moreover have "?A \<inter> set es = {}" using Cons.prems(4,5) by auto
  ultimately have "entities c' = map (\<lambda>x. if x \<in> ?A \<union> {e \<in> set es. measurable V e} then baseline_row V now x else x) rows
      \<and> fold_res (rebaseline_one V now actor False) es (out1, d) = Inr (out', d)"
    using Cons.IH [OF rest Cons.prems(2)] Cons.prems(3,4) by simp
  moreover have "?A \<union> {e \<in> set es. measurable V e} = A \<union> {x \<in> set (e # es). measurable V x}" by auto
  ultimately show ?case using dry by simp
qed simp

text \<open>Who is re-baselined: a row of the old scope, or one paused for a drift, that can be measured.\<close>

definition rebaselines :: "scan_env \<Rightarrow> entity_row \<Rightarrow> bool" where
  "rebaselines V e = ((en_scope_version e < 2 \<or> drift_paused e) \<and> (en_status e = EDeployed \<or> en_status e = EPaused) \<and> measurable V e)"

text \<open>
  C29: re-baselining stores the fingerprints of the schemas as they are in exactly the rows it
  should, frees the ones paused for a drift, and leaves no accepted entity the monitor would
  pause again; its dry run reports the same entries and changes nothing.
\<close>

theorem rebaselined_are_quiet:
  assumes "rebaseline_entity_fingerprints V now actor True c = Inr (out, c')" and "distinct (map en_id (entities c))"
  shows "entities c' = map (\<lambda>e. if rebaselines V e then baseline_row V now e else e) (entities c)
    \<and> (\<forall>e. rebaselines V e \<longrightarrow> \<not> monitor_pauses V (baseline_row V now e))
    \<and> rebaseline_entity_fingerprints V now actor False c = Inr (out, c)"
proof -
  let ?es = "rebaseline_candidates c"
  have set_es: "set ?es = {e \<in> set (entities c). (en_scope_version e < 2 \<or> drift_paused e) \<and> (en_status e = EDeployed \<or> en_status e = EPaused)}"
    by (auto simp: rebaseline_candidates_def)
  have "distinct (entities c)" using assms(2) by (simp add: distinct_map)
  then have d: "distinct ?es" by (simp add: rebaseline_candidates_def distinct_sort)
  have run: "entities c' = map (\<lambda>x. if x \<in> {} \<union> {e \<in> set ?es. measurable V e} then baseline_row V now x else x) (entities c)
      \<and> fold_res (rebaseline_one V now actor False) ?es ([], c) = Inr (out, c)"
    by (rule rebaseline_fold [OF assms(1) [unfolded rebaseline_entity_fingerprints_def] assms(2) _ d]) (auto simp: set_es)
  have "map (\<lambda>x. if x \<in> {} \<union> {e \<in> set ?es. measurable V e} then baseline_row V now x else x) (entities c)
      = map (\<lambda>e. if rebaselines V e then baseline_row V now e else e) (entities c)"
    by (rule map_cong [OF refl]) (simp add: set_es rebaselines_def)
  then have "entities c' = map (\<lambda>e. if rebaselines V e then baseline_row V now e else e) (entities c)"
    using run by simp
  moreover have "\<not> monitor_pauses V (baseline_row V now e)" if "rebaselines V e" for e
    using that by (intro baseline_quiet) (simp add: rebaselines_def)
  ultimately show ?thesis using run by (simp add: rebaseline_entity_fingerprints_def)
qed

text \<open>One row of the old scope and one paused for a drift.\<close>

definition paused_store :: central where
  "paused_store = empty_central\<lparr>entities :=
       [(new_entity 0 1 ''irimsv'' ''schools'' ''LRMIS'' [''id''] None)
          \<lparr>en_status := EDeployed, en_target_tables := Some [''school'']\<rparr>,
        (new_entity 0 2 ''irimsv'' ''schools'' ''OTHER'' [''id''] None)
          \<lparr>en_status := EPaused, en_scope_version := 2, en_source_fingerprint := Some ''old'', en_target_tables := Some [''school''],
           en_paused_reason := Some (drift_reason True False)\<rparr>]\<rparr>"

definition rebaselined :: "(rebaseline_entry list \<times> central) res" where
  "rebaselined = rebaseline_entity_fingerprints demo_scan 30 ''ana'' True paused_store"

lemma rebaselined_run: "case rebaselined of Inl _ \<Rightarrow> False | Inr x \<Rightarrow> map rb_reenable (fst x) = [False, True]
    \<and> map en_status (entities (snd x)) = [EDeployed, EDeployed]"
  by code_simp

theorem rebaselined_are_quiet_witness:
  "\<exists>out c'. rebaseline_entity_fingerprints demo_scan 30 ''ana'' True paused_store = Inr (out, c') \<and> map rb_reenable out = [False, True]
     \<and> map en_status (entities c') = [EDeployed, EDeployed]
     \<and> rebaseline_entity_fingerprints demo_scan 30 ''ana'' False paused_store = Inr (out, paused_store)"
proof -
  obtain out c' where run: "rebaseline_entity_fingerprints demo_scan 30 ''ana'' True paused_store = Inr (out, c')"
    and out: "map rb_reenable out = [False, True]" "map en_status (entities c') = [EDeployed, EDeployed]"
    using case_res_InrD [OF rebaselined_run] by (auto simp: rebaselined_def)
  have "distinct (map en_id (entities paused_store))" by (simp add: paused_store_def new_entity_def)
  with rebaselined_are_quiet [OF run] have "rebaseline_entity_fingerprints demo_scan 30 ''ana'' False paused_store = Inr (out, paused_store)"
    by blast
  with run out show ?thesis by - (rule exI [of _ out], rule exI [of _ c'], intro conjI)
qed

section \<open>Resolving a drift\<close>

definition accepted_row :: "scan_env \<Rightarrow> int \<Rightarrow> side \<Rightarrow> entity_row \<Rightarrow> entity_row" where
  "accepted_row V now k e = (case entity_fingerprints V e of
     Inl _ \<Rightarrow> e
   | Inr fps \<Rightarrow> set_side_fingerprint k (side_of k fps) (e\<lparr>en_status := EDeployed, en_paused_reason := None, en_updated_at := now\<rparr>))"

lemma accepted_row_id: "en_id (accepted_row V now k e) = en_id e"
  by (cases k) (simp_all add: accepted_row_def set_side_fingerprint_def split: sum.splits)

text \<open>After the drift of one side is accepted, only one of the other side can pause the entity again.\<close>

lemma accepted_pauses:
  assumes "entity_fingerprints V e = Inr fps" and "monitor_pauses V (accepted_row V now k e)"
  shows "case k of SourceSide \<Rightarrow> snd (drift_of V e) | TargetSide \<Rightarrow> fst (drift_of V e)"
proof -
  have "entity_fingerprints V (accepted_row V now k e) = Inr fps"
    using assms(1) by (subst fingerprints_same [of _ e]) (cases k; simp add: accepted_row_def set_side_fingerprint_def)+
  then show ?thesis
    using assms by (cases k) (auto simp: monitor_pauses_def drift_of_def accepted_row_def set_side_fingerprint_def side_of_def
        drifted_def legacy_def)
qed

lemma clear_pause_entities:
  assumes "entity_fingerprints V e = Inr fps"
  shows "\<exists>h. entities (clear_pause now actor k e (side_of k fps) n c) = update_where (\<lambda>x. en_id x = en_id e) h (entities c)
    \<and> h e = accepted_row V now k e"
  by (intro exI [of _ "\<lambda>x. set_side_fingerprint k (side_of k fps) (x\<lparr>en_status := EDeployed, en_paused_reason := None, en_updated_at := now\<rparr>)"])
    (simp add: clear_pause_def audit_sink_def accepted_row_def assms)

lemma resolve_one_drift_cases:
  assumes "resolve_one_drift X now actor k e out w = (Inr out', w')" and "service_writer (rd_writer (rx_redeliver X))"
  obtains (skipped) why where "rn_resolved out' = rn_resolved out" and "rn_skipped out' = rn_skipped out @ [(en_source_table e, why)]"
      and "entities (w_central w') = entities (w_central w)"
  | (accepted) d fps h where "rn_resolved out' = rn_resolved out @ [d]" and "dn_entity d = en_source_table e" and "rn_skipped out' = rn_skipped out"
      and "entity_fingerprints (rx_scan X) e = Inr fps"
      and "entities (w_central w') = update_where (\<lambda>x. en_id x = en_id e) h (entities (w_central w))"
      and "h e = accepted_row (rx_scan X) now k e"
proof -
  obtain rs w1 where ref: "refresh (rx_redeliver X) now (en_source_schema e) [en_source_table e] (en_target_system e) (rx_source_system X) None w = (Inr rs, w1)"
    and rest: "(case refreshed_rows rs of
         Inl why \<Rightarrow> (Inr (out\<lparr>rn_skipped := rn_skipped out @ [(en_source_table e, why)]\<rparr>), w1)
       | Inr n \<Rightarrow> (case entity_fingerprints (rx_scan X) e of
           Inl err \<Rightarrow> (Inl err, w1)
         | Inr fps \<Rightarrow> (Inr (out\<lparr>rn_resolved := rn_resolved out @
               [\<lparr>dn_entity = en_source_table e, dn_old = side_fingerprint k e, dn_new = side_of k fps, dn_rows = n\<rparr>]\<rparr>),
             w1\<lparr>w_central := clear_pause now actor k e (side_of k fps) n (w_central w1)\<rparr>))) = (Inr out', w')"
    using assms(1) unfolding resolve_one_drift_def by (rule bind_InrE)
  have same: "entities (w_central w1) = entities (w_central w)"
    using central_rest_entities(1) [OF refresh_keeps_rest [OF assms(2) ref]] .
  show thesis
  proof (cases "refreshed_rows rs")
    case (Inl why)
    then show thesis using rest same by (intro skipped [of why]) auto
  next
    case (Inr n)
    then obtain fps where f: "entity_fingerprints (rx_scan X) e = Inr fps" using rest by (auto split: sum.splits)
    obtain h where "entities (clear_pause now actor k e (side_of k fps) n (w_central w1)) = update_where (\<lambda>x. en_id x = en_id e) h (entities (w_central w1))"
      "h e = accepted_row (rx_scan X) now k e"
      using clear_pause_entities [OF f] by blast
    then show thesis using rest Inr f same by (intro accepted [where h = h, OF _ _ _ f]) auto
  qed
qed

lemma resolve_fold:
  assumes "fold_comp (resolve_one_drift X now actor k) es out w = (Inr out', w')" and "service_writer (rd_writer (rx_redeliver X))"
    and "distinct (map en_id rows)" and "set es \<subseteq> set rows" and "distinct es" and "A \<inter> set es = {}"
    and "entities (w_central w) = map (\<lambda>x. if x \<in> A then accepted_row (rx_scan X) now k x else x) rows"
  shows "\<exists>ok. set ok \<subseteq> set es \<and> map dn_entity (rn_resolved out') = map dn_entity (rn_resolved out) @ map en_source_table ok
    \<and> length ok + length (rn_skipped out') = length es + length (rn_skipped out)
    \<and> (\<forall>e \<in> set ok. \<exists>fps. entity_fingerprints (rx_scan X) e = Inr fps)
    \<and> entities (w_central w') = map (\<lambda>x. if x \<in> A \<union> set ok then accepted_row (rx_scan X) now k x else x) rows"
  using assms(1,4-7)
proof (induction es arbitrary: out w A)
  case Nil
  then show ?case by (intro exI [of _ "[]"]) (simp add: ret_def)
next
  case (Cons e es)
  obtain out1 w1 where one: "resolve_one_drift X now actor k e out w = (Inr out1, w1)"
    and rest: "fold_comp (resolve_one_drift X now actor k) es out1 w1 = (Inr out', w')"
    using Cons.prems(1) by (auto simp: bind_Inr_iff)
  have e: "e \<in> set rows" "e \<notin> A" "set es \<subseteq> set rows" "distinct es" "A \<inter> set es = {}" "insert e A \<inter> set es = {}"
    using Cons.prems by auto
  show ?case
    using one assms(2)
  proof (cases rule: resolve_one_drift_cases)
    case (skipped why)
    then obtain ok where "set ok \<subseteq> set es" "map dn_entity (rn_resolved out') = map dn_entity (rn_resolved out) @ map en_source_table ok"
      "length ok + length (rn_skipped out') = length es + (length (rn_skipped out) + 1)"
      "\<forall>e \<in> set ok. \<exists>fps. entity_fingerprints (rx_scan X) e = Inr fps"
      "entities (w_central w') = map (\<lambda>x. if x \<in> A \<union> set ok then accepted_row (rx_scan X) now k x else x) rows"
      using Cons.IH [OF rest e(3,4,5)] Cons.prems(5) by auto
    then show ?thesis by (intro exI [of _ ok]) auto
  next
    case (accepted d fps h)
    then have "entities (w_central w1) = map (\<lambda>x. if x \<in> insert e A then accepted_row (rx_scan X) now k x else x) rows"
      using accept_one_more [OF assms(3) e(1,2) accepted_row_id] Cons.prems(5) by simp
    then obtain ok where "set ok \<subseteq> set es" "map dn_entity (rn_resolved out') = map dn_entity (rn_resolved out1) @ map en_source_table ok"
      "length ok + length (rn_skipped out') = length es + length (rn_skipped out)"
      "\<forall>e \<in> set ok. \<exists>fps. entity_fingerprints (rx_scan X) e = Inr fps"
      "entities (w_central w') = map (\<lambda>x. if x \<in> insert e A \<union> set ok then accepted_row (rx_scan X) now k x else x) rows"
      using Cons.IH [OF rest e(3,4,6)] accepted(3) by auto
    then show ?thesis using accepted(1,2,4) by (intro exI [of _ "e # ok"]) auto
  qed
qed



text \<open>A paused entity whose source changed, with two rows to load.\<close>

definition drifted_world :: world where
  "drifted_world = \<lparr>w_central = (school_store [])\<lparr>entities := [sample_entity\<lparr>en_target_tables := Some [''school''], en_status := EPaused,
       en_scope_version := 2, en_source_fingerprint := Some ''old'', en_paused_reason := Some (drift_reason True False)\<rparr>]\<rparr>,
     w_target = empty_target\<rparr>"

definition sample_resolve :: resolve_env where
  "sample_resolve = \<lparr>rx_scan = demo_scan, rx_redeliver = sample_redeliver, rx_source_system = ''IRIMSV_REGION_V''\<rparr>"

definition sample_resolved :: "resolution res \<times> world" where
  "sample_resolved = resolve_side sample_resolve 40 ''ana'' False SourceSide None drifted_world"

lemma sample_resolved_run: "case fst sample_resolved of Inl _ \<Rightarrow> False | Inr out \<Rightarrow> map dn_entity (rn_resolved out) = [''schools'']"
  "map en_status (entities (w_central (snd sample_resolved))) = [EDeployed]"
  by code_simp+


definition twice_drifted :: world where
  "twice_drifted = \<lparr>w_central = (school_store [])\<lparr>entities := [sample_entity\<lparr>en_target_tables := Some [''school''], en_status := EPaused,
       en_scope_version := 2, en_source_fingerprint := Some ''old'', en_target_fingerprint := Some ''old'',
       en_paused_reason := Some (drift_reason True True)\<rparr>]\<rparr>, w_target = empty_target\<rparr>"

text \<open>
  Two defects. An entity whose source and target both drifted: accepting the source side frees
  it before the target side looks for paused entities, so the target fingerprint stays old and the
  next scan pauses it again, though the dry run had planned both.
\<close>

theorem both_drifts_resolve_half:
  "case resolve_all sample_resolve 40 ''ana'' False None twice_drifted of (Inl _, w) \<Rightarrow> False
   | (Inr (s, t), w) \<Rightarrow> map dn_entity (rn_resolved s) = [''schools''] \<and> rn_resolved t = [] \<and> rn_skipped t = []
       \<and> (case monitor demo_scan 50 (w_central w) of Inl _ \<Rightarrow> False | Inr (out, c) \<Rightarrow> map mo_paused out = [True])"
  "case resolve_all sample_resolve 40 ''ana'' True None twice_drifted of (Inl _, w) \<Rightarrow> False
   | (Inr (s, t), w) \<Rightarrow> map pl_entity (rn_plan s) = [''schools''] \<and> map pl_entity (rn_plan t) = [''schools'']"
  by code_simp+

text \<open>The target as one or as two tables, with fingerprints that tell them apart.\<close>

definition target_seen :: "row list \<Rightarrow> scan_env" where
  "target_seen rows = demo_scan\<lparr>sn_runtime := so_runtime three_rows, sn_target := Inr rows\<rparr>"

definition one_table :: scan_env where
  "one_table = target_seen [demo_row ''school'' ''name'']"

definition two_tables :: scan_env where
  "two_tables = target_seen [demo_row ''school'' ''name'', demo_row ''station'' ''label'']"

definition back_and_forth :: "(bool \<times> bool \<times> bool) res" where
  "back_and_forth = res_bind (observe_target two_tables 10 ''LRMIS'' True None empty_central) (\<lambda>(o1, c1).
     res_bind (observe_target one_table 20 ''LRMIS'' True None c1) (\<lambda>(o2, c2).
     res_bind (observe_target two_tables 30 ''LRMIS'' True None c2) (\<lambda>(o3, c3).
     res_bind (observe_target two_tables 40 ''LRMIS'' True None c3) (\<lambda>(o4, c4).
       Inr (os_drift o2, os_drift o3, os_drift o4)))))"

theorem returning_contract_drifts_forever:
  "back_and_forth = Inr (True, True, True)"
  by code_simp

end
