(* ===== verification/Py_Regex.thy ===== *)
theory Py_Regex
  imports Py_Prelude
begin

text \<open>
  The part of Python's \<open>re\<close> that the assistant's modules use: characters, classes, repetition,
  alternatives, groups, back references, word boundaries and the ends of the text, matched by
  backtracking. A match is tried at a position of the text, which is kept as the text before it
  (backwards) and the text after it; a pattern gives every way to go on in the order in which
  Python tries them, so that the first one is Python's match. Classes are ASCII.
\<close>

section \<open>Patterns and matching\<close>

datatype rx =
    Cls "char \<Rightarrow> bool"
  | Eps
  | Cat rx rx
  | Alt rx rx
  | Star rx
  | Lazy rx
  | Times nat rx
  | Grp nat rx
  | Back_i nat
  | Bound
  | At_start
  | At_end

record rx_at =
  rx_before :: string
  rx_after :: string
  rx_groups :: "(nat, string) dict"

definition is_word_char :: "char \<Rightarrow> bool" where
  "is_word_char c = (is_upper c \<or> is_lower c \<or> is_digit c \<or> c = CHR ''_'')"

definition first_is_word :: "string \<Rightarrow> bool" where
  "first_is_word s = (case s of [] \<Rightarrow> False | c # _ \<Rightarrow> is_word_char c)"

text \<open>Repetition: every round must consume a character, so the length of the text bounds the rounds.\<close>

definition productive :: "rx_at \<Rightarrow> rx_at list \<Rightarrow> rx_at list" where
  "productive t ts = filter (\<lambda>u. length (rx_after u) < length (rx_after t)) ts"

primrec rx_greedy :: "nat \<Rightarrow> (rx_at \<Rightarrow> rx_at list) \<Rightarrow> rx_at \<Rightarrow> rx_at list" where
  "rx_greedy 0 f t = [t]"
| "rx_greedy (Suc n) f t = concat (map (rx_greedy n f) (productive t (f t))) @ [t]"

primrec rx_lazy :: "nat \<Rightarrow> (rx_at \<Rightarrow> rx_at list) \<Rightarrow> rx_at \<Rightarrow> rx_at list" where
  "rx_lazy 0 f t = [t]"
| "rx_lazy (Suc n) f t = t # concat (map (rx_lazy n f) (productive t (f t)))"

primrec rx_times :: "nat \<Rightarrow> (rx_at \<Rightarrow> rx_at list) \<Rightarrow> rx_at \<Rightarrow> rx_at list" where
  "rx_times 0 f t = [t]"
| "rx_times (Suc n) f t = concat (map (rx_times n f) (f t))"

definition rx_step :: "(char \<Rightarrow> bool) \<Rightarrow> rx_at \<Rightarrow> rx_at list" where
  "rx_step p t = (case rx_after t of [] \<Rightarrow> []
     | c # cs \<Rightarrow> if p c then [t\<lparr>rx_before := c # rx_before t, rx_after := cs\<rparr>] else [])"

text \<open>The text of an earlier group again, in either case: patterns with a back reference are compiled with \<open>re.I\<close>.\<close>

definition rx_text_i :: "string \<Rightarrow> rx_at \<Rightarrow> rx_at list" where
  "rx_text_i w t = (let n = length w; v = take n (rx_after t) in
     if str_lower v = str_lower w
     then [t\<lparr>rx_before := rev v @ rx_before t, rx_after := drop n (rx_after t)\<rparr>] else [])"

text \<open>The text between two positions of one match.\<close>

definition consumed :: "rx_at \<Rightarrow> rx_at \<Rightarrow> string" where
  "consumed t u = rev (take (length (rx_before u) - length (rx_before t)) (rx_before u))"

primrec rx_run :: "rx \<Rightarrow> rx_at \<Rightarrow> rx_at list" where
  "rx_run (Cls p) t = rx_step p t"
| "rx_run Eps t = [t]"
| "rx_run (Cat r s) t = concat (map (rx_run s) (rx_run r t))"
| "rx_run (Alt r s) t = rx_run r t @ rx_run s t"
| "rx_run (Star r) t = rx_greedy (length (rx_after t)) (rx_run r) t"
| "rx_run (Lazy r) t = rx_lazy (length (rx_after t)) (rx_run r) t"
| "rx_run (Times n r) t = rx_times n (rx_run r) t"
| "rx_run (Grp k r) t = map (\<lambda>u. u\<lparr>rx_groups := dput k (consumed t u) (rx_groups u)\<rparr>) (rx_run r t)"
| "rx_run (Back_i k) t = (case dget (rx_groups t) k of None \<Rightarrow> [] | Some w \<Rightarrow> rx_text_i w t)"
| "rx_run Bound t = (if first_is_word (rx_before t) \<noteq> first_is_word (rx_after t) then [t] else [])"
| "rx_run At_start t = (if rx_before t = [] then [t] else [])"
| "rx_run At_end t = (if rx_after t = [] \<or> rx_after t = [char_of (10 :: nat)] then [t] else [])"

text \<open>\<open>r.search(s)\<close>: the first position from which the pattern matches. The match keeps its start.\<close>

record rx_match =
  rm_start :: rx_at
  rm_end :: rx_at

fun search_from :: "rx \<Rightarrow> string \<Rightarrow> string \<Rightarrow> rx_match option" where
  "search_from r b s = (let t = \<lparr>rx_before = b, rx_after = s, rx_groups = []\<rparr> in
     case rx_run r t of
       u # _ \<Rightarrow> Some \<lparr>rm_start = t, rm_end = u\<rparr>
     | [] \<Rightarrow> (case s of [] \<Rightarrow> None | c # cs \<Rightarrow> search_from r (c # b) cs))"

declare search_from.simps [simp del]

definition rx_search :: "rx \<Rightarrow> string \<Rightarrow> rx_match option" where
  "rx_search r s = search_from r [] s"

definition rx_found :: "rx \<Rightarrow> string \<Rightarrow> bool" where
  "rx_found r s = (rx_search r s \<noteq> None)"

text \<open>\<open>m.group(k)\<close>: nothing for a group that took no part in the match.\<close>

definition group0 :: "rx_match \<Rightarrow> string" where
  "group0 m = consumed (rm_start m) (rm_end m)"

definition group_of :: "rx_match \<Rightarrow> nat \<Rightarrow> string option" where
  "group_of m k = dget (rx_groups (rm_end m)) k"

text \<open>\<open>r.findall(s)\<close>, as the matches: the next search starts where the last match ended.\<close>

function find_from :: "rx \<Rightarrow> string \<Rightarrow> string \<Rightarrow> rx_match list" where
  "find_from r b s = (case search_from r b s of None \<Rightarrow> []
     | Some m \<Rightarrow> m # (if length (rx_after (rm_end m)) < length s
         then find_from r (rx_before (rm_end m)) (rx_after (rm_end m))
         else case s of [] \<Rightarrow> [] | c # cs \<Rightarrow> find_from r (c # b) cs))"
  by pat_completeness auto

termination by (relation "measure (\<lambda>(r, b, s). length s)") auto

declare find_from.simps [simp del]

definition rx_findall :: "rx \<Rightarrow> string \<Rightarrow> rx_match list" where
  "rx_findall r s = find_from r [] s"

section \<open>Writing patterns\<close>

definition rx_plus :: "rx \<Rightarrow> rx" where
  "rx_plus r = Cat r (Star r)"

definition rx_opt :: "rx \<Rightarrow> rx" where
  "rx_opt r = Alt r Eps"

fun rx_seq :: "rx list \<Rightarrow> rx" where
  "rx_seq [] = Eps"
| "rx_seq [r] = r"
| "rx_seq (r # s # rs) = Cat r (rx_seq (s # rs))"

fun rx_alts :: "rx list \<Rightarrow> rx" where
  "rx_alts [] = Cls (\<lambda>c. False)"
| "rx_alts [r] = r"
| "rx_alts (r # s # rs) = Alt r (rx_alts (s # rs))"

text \<open>Patterns compiled with \<open>re.I\<close>: letters of the pattern match both cases.\<close>

definition any_case :: "char \<Rightarrow> char \<Rightarrow> bool" where
  "any_case a c = (lower_char a = lower_char c)"

definition lit_i :: "string \<Rightarrow> rx" where
  "lit_i s = rx_seq (map (\<lambda>a. Cls (any_case a)) s)"

definition lit_x :: "string \<Rightarrow> rx" where
  "lit_x s = rx_seq (map (\<lambda>a. Cls (\<lambda>c. c = a)) s)"

definition words_i :: "string list \<Rightarrow> rx" where
  "words_i ws = rx_alts (map lit_i ws)"

text \<open>\<open>\s+\<close>, \<open>\s*\<close>, and \<open>[a-z_][a-z0-9_]*\<close> under \<open>re.I\<close>.\<close>

definition spaces1 :: rx where
  "spaces1 = rx_plus (Cls is_space)"

definition spaces0 :: rx where
  "spaces0 = Star (Cls is_space)"

definition name_start :: "char \<Rightarrow> bool" where
  "name_start c = (is_upper c \<or> is_lower c \<or> c = CHR ''_'')"

definition ident_i :: rx where
  "ident_i = Cat (Cls name_start) (Star (Cls is_word_char))"

definition digits1 :: rx where
  "digits1 = rx_plus (Cls is_digit)"

section \<open>What a match is\<close>

text \<open>A match goes forward through the text it is tried on, and leaves the text as it is.\<close>

definition advances :: "rx_at \<Rightarrow> rx_at \<Rightarrow> bool" where
  "advances t u = (\<exists>w. rx_after t = w @ rx_after u \<and> rx_before u = rev w @ rx_before t)"

lemma advances_refl [simp, intro]: "advances t t"
  by (simp add: advances_def)

lemma advances_trans: "advances t u \<Longrightarrow> advances u v \<Longrightarrow> advances t v"
  unfolding advances_def by force

lemma advances_groups [simp]: "advances t (u\<lparr>rx_groups := g\<rparr>) = advances t u"
  by (simp add: advances_def)

lemma rx_step_advances: "u \<in> set (rx_step p t) \<Longrightarrow> advances t u"
  unfolding rx_step_def advances_def by (auto split: list.splits if_splits)

lemma rx_text_advances: "u \<in> set (rx_text_i w t) \<Longrightarrow> advances t u"
  unfolding rx_text_i_def advances_def Let_def
  by (auto split: if_splits intro!: exI [of _ "take (length w) (rx_after t)"])

lemma rx_greedy_advances:
  assumes "\<And>t u. u \<in> set (f t) \<Longrightarrow> advances t u"
  shows "u \<in> set (rx_greedy n f t) \<Longrightarrow> advances t u"
  by (induction n arbitrary: t) (auto simp: productive_def intro: advances_trans assms)

lemma rx_lazy_advances:
  assumes "\<And>t u. u \<in> set (f t) \<Longrightarrow> advances t u"
  shows "u \<in> set (rx_lazy n f t) \<Longrightarrow> advances t u"
  by (induction n arbitrary: t) (auto simp: productive_def intro: advances_trans assms)

lemma rx_times_advances:
  assumes "\<And>t u. u \<in> set (f t) \<Longrightarrow> advances t u"
  shows "u \<in> set (rx_times n f t) \<Longrightarrow> advances t u"
  by (induction n arbitrary: t) (auto intro: advances_trans assms)

lemma rx_run_advances: "u \<in> set (rx_run r t) \<Longrightarrow> advances t u"
proof (induction r arbitrary: t u)
  case (Cat r s)
  then obtain v where "v \<in> set (rx_run r t)" and "u \<in> set (rx_run s v)" by auto
  then show ?case using Cat.IH advances_trans by blast
next
  case (Star r)
  then show ?case using rx_greedy_advances [of "rx_run r"] by simp
next
  case (Lazy r)
  then show ?case using rx_lazy_advances [of "rx_run r"] by simp
next
  case (Times n r)
  then show ?case using rx_times_advances [of "rx_run r"] by simp
next
  case (Back_i k)
  then show ?case using rx_text_advances by (auto split: option.splits)
qed (auto simp: rx_step_advances split: if_splits)

text \<open>More rounds than characters change nothing: the bound on a repetition is not felt.\<close>

lemma rx_greedy_bound:
  assumes "\<And>t u. u \<in> set (f t) \<Longrightarrow> advances t u"
  shows "length (rx_after t) \<le> n \<Longrightarrow> rx_greedy n f t = rx_greedy (length (rx_after t)) f t"
proof (induction n arbitrary: t rule: less_induct)
  case (less n)
  show ?case
  proof (cases "rx_after t")
    case Nil
    then have "productive t (f t) = []" by (simp add: productive_def)
    then show ?thesis using Nil by (cases n) simp_all
  next
    case (Cons c cs)
    then obtain m where m: "n = Suc m" using less.prems by (cases n) auto
    have "rx_greedy m f u = rx_greedy (length cs) f u" if u: "u \<in> set (productive t (f t))" for u
    proof -
      have "length (rx_after u) \<le> length cs" using u Cons by (simp add: productive_def)
      moreover have "length cs \<le> m" using less.prems Cons m by simp
      ultimately have "rx_greedy m f u = rx_greedy (length (rx_after u)) f u"
        and "rx_greedy (length cs) f u = rx_greedy (length (rx_after u)) f u"
        using less.IH [of m u] less.IH [of "length cs" u] m by simp_all
      then show ?thesis by simp
    qed
    then show ?thesis using Cons m by (simp cong: map_cong)
  qed
qed

lemma search_from_run:
  "search_from r b s = Some m \<Longrightarrow> rm_end m \<in> set (rx_run r (rm_start m))
    \<and> rev (rx_before (rm_start m)) @ rx_after (rm_start m) = rev b @ s \<and> rx_groups (rm_start m) = []"
proof (induction r b s rule: search_from.induct)
  case (1 r b s)
  show ?case
  proof (cases "rx_run r \<lparr>rx_before = b, rx_after = s, rx_groups = []\<rparr>")
    case Nil
    then obtain c cs where s: "s = c # cs" using 1(2) by (subst (asm) search_from.simps) (auto split: list.splits)
    then have "search_from r (c # b) cs = Some m" using 1(2) Nil by (subst (asm) search_from.simps) simp
    then show ?thesis using 1(1) [OF _ Nil s] s by simp
  next
    case (Cons u us)
    then show ?thesis using 1(2) by (subst (asm) search_from.simps) auto
  qed
qed

lemma all_splits_Cons: "(\<forall>u v. c # cs = u @ v \<longrightarrow> Q u v) \<longleftrightarrow> Q [] (c # cs) \<and> (\<forall>u v. cs = u @ v \<longrightarrow> Q (c # u) v)"
  unfolding Cons_eq_append_conv by blast

text \<open>
  The search is complete: it fails only when the pattern matches at no position of the text,
  and the text of a match is a part of the text searched.
\<close>

lemma rx_search_None_iff:
  "search_from r b s = None \<longleftrightarrow>
    (\<forall>u v. s = u @ v \<longrightarrow> rx_run r \<lparr>rx_before = rev u @ b, rx_after = v, rx_groups = []\<rparr> = [])"
proof (induction r b s rule: search_from.induct)
  case (1 r b s)
  show ?case
  proof (cases "rx_run r \<lparr>rx_before = b, rx_after = s, rx_groups = []\<rparr>")
    case (Cons u us)
    then have "search_from r b s \<noteq> None" by (subst search_from.simps) simp
    moreover have "\<exists>u v. s = u @ v \<and> rx_run r \<lparr>rx_before = rev u @ b, rx_after = v, rx_groups = []\<rparr> \<noteq> []"
      using Cons by (intro exI [of _ "[]"] exI [of _ s]) simp
    ultimately show ?thesis by blast
  next
    case Nil
    show ?thesis
    proof (cases s)
      case Nil
      then show ?thesis using \<open>rx_run r _ = []\<close> by (subst search_from.simps) simp
    next
      case (Cons c cs)
      have "search_from r b s = search_from r (c # b) cs" using Nil Cons by (subst search_from.simps) simp
      also have "\<dots> = None \<longleftrightarrow> (\<forall>u v. cs = u @ v \<longrightarrow>
          rx_run r \<lparr>rx_before = rev u @ c # b, rx_after = v, rx_groups = []\<rparr> = [])"
        using 1 [OF _ Nil Cons] by simp
      also have "\<dots> \<longleftrightarrow> (\<forall>u v. s = u @ v \<longrightarrow> rx_run r \<lparr>rx_before = rev u @ b, rx_after = v, rx_groups = []\<rparr> = [])"
        unfolding Cons all_splits_Cons using Nil Cons by simp
      finally show ?thesis .
    qed
  qed
qed

lemma consumed_advances: "advances t u \<Longrightarrow> rx_after t = consumed t u @ rx_after u"
  unfolding advances_def consumed_def by auto

lemma group0_in: "rx_search r s = Some m \<Longrightarrow> str_in (group0 m) s"
proof -
  assume "rx_search r s = Some m"
  then have m: "rm_end m \<in> set (rx_run r (rm_start m))" "rev (rx_before (rm_start m)) @ rx_after (rm_start m) = s"
    using search_from_run [of r "[]" s m] by (simp_all add: rx_search_def)
  have "rx_after (rm_start m) = group0 m @ rx_after (rm_end m)"
    unfolding group0_def using m(1) by (intro consumed_advances rx_run_advances)
  then show ?thesis using m(2) by (metis str_in_iff)
qed

end
