(* ===== verification/Operator_Diagnostics.thy ===== *)
theory Operator_Diagnostics
  imports Py_Regex Onboarding Worker
begin

text \<open>
  \<open>src/services/operator_diagnostics.py\<close>: reading the error texts of failed jobs, and the one
  repair the assistant may make on its own, the crosswalk row that is missing for a target row
  the source row already owns. Python's \<open>ast.literal_eval\<close> and the lookup of a row in the
  target database are parameters.
\<close>

section \<open>Error texts\<close>

definition name_group :: "nat \<Rightarrow> rx" where
  "name_group k = Grp k ident_i"

definition not_in :: "string \<Rightarrow> rx" where
  "not_in cs = rx_plus (Cls (\<lambda>c. c \<notin> set cs))"

definition hex :: rx where
  "hex = Cls (\<lambda>c. is_digit c \<or> lower_char c \<in> set ''abcdef'')"

definition uuid_re :: rx where
  "uuid_re = rx_seq [Bound, Times 8 hex, lit_i ''-'', Times 4 hex, lit_i ''-'', Times 4 hex, lit_i ''-'',
     Times 4 hex, lit_i ''-'', Times 12 hex, Bound]"

definition missing_required_re :: rx where
  "missing_required_re = rx_seq [lit_i ''-'', spaces0, name_group 1, lit_i ''.'', name_group 2, spaces1,
     lit_i ''is required but no source column maps to it'']"

definition pg_duplicate_re :: rx where
  "pg_duplicate_re = rx_seq [lit_i (''unique constraint '' @ [dq]), name_group 1, lit_i (''_pkey'' @ [dq]),
     Lazy (Cls (\<lambda>c. True)), lit_i ''Key ('', name_group 2, lit_i '')=('', Grp 3 (not_in '')''), lit_i '') already exists'']"

definition mysql_duplicate_re :: rx where
  "mysql_duplicate_re = rx_seq [lit_i (''Duplicate entry '' @ [sq]), Grp 1 (not_in [sq]), lit_i ([sq] @ '' for key '' @ [sq]),
     rx_opt (rx_seq [ident_i, lit_i ''.'']),
     Alt (lit_i ''PRIMARY'') (rx_seq [name_group 2, lit_i ''_pkey'']), lit_i [sq]]"

definition read_only_reference_re :: rx where
  "read_only_reference_re = rx_seq [name_group 1, lit_i ''.'', name_group 2, lit_i ''='',
     Alt (rx_seq [lit_i [sq], Grp 3 (not_in [sq]), lit_i [sq]])
       (Grp 4 (rx_plus (Cls (\<lambda>c. c \<noteq> CHR '';'' \<and> \<not> is_space c)))),
     lit_i '' does not exist;'', spaces0, Back_i 1, lit_i '' is read-only'']"

definition reference_match_re :: rx where
  "reference_match_re = rx_seq [lit_i ''no row in reference table'', spaces1, name_group 1, spaces1, lit_i ''matches'', spaces1,
     Grp 2 (rx_seq [lit_i ''{'', Star (Cls (\<lambda>c. c \<noteq> CHR ''}'')), lit_i ''}''])]"

definition bad_date_re :: rx where
  "bad_date_re = rx_seq [name_group 1, lit_i ''.'', name_group 2, lit_i '' date year '', Grp 3 digits1,
     lit_i '' is outside supported range'']"

definition extract_job_id :: "string \<Rightarrow> string option" where
  "extract_job_id text = map_option group0 (rx_search uuid_re text)"

text \<open>Groups that take part in every match of their pattern.\<close>

definition group :: "rx_match \<Rightarrow> nat \<Rightarrow> string" where
  "group m k = (case group_of m k of None \<Rightarrow> [] | Some s \<Rightarrow> s)"

definition missing_required :: "string \<Rightarrow> (string \<times> string) list" where
  "missing_required error = map (\<lambda>m. (group m 1, group m 2)) (rx_findall missing_required_re error)"

record target_value =
  tv_table :: "string option"
  tv_column :: string
  tv_id :: string

definition parse_duplicate_key :: "string \<Rightarrow> target_value option" where
  "parse_duplicate_key error = (case rx_search pg_duplicate_re error of
       Some m \<Rightarrow> Some \<lparr>tv_table = group_of m 1, tv_column = group m 2, tv_id = group m 3\<rparr>
     | None \<Rightarrow> (case rx_search mysql_duplicate_re error of
         Some m \<Rightarrow> Some \<lparr>tv_table = group_of m 2, tv_column = ''id'', tv_id = group m 1\<rparr>
       | None \<Rightarrow> None))"

definition parse_read_only_reference_error :: "string \<Rightarrow> target_value option" where
  "parse_read_only_reference_error error = (case rx_search read_only_reference_re error of
       None \<Rightarrow> None
     | Some m \<Rightarrow> Some \<lparr>tv_table = group_of m 1, tv_column = group m 2,
         tv_id = (if blank (group_of m 3) then group m 4 else group m 3)\<rparr>)"

definition parse_reference_match_error ::
  "runtime \<Rightarrow> (string \<Rightarrow> pyval res) \<Rightarrow> string \<Rightarrow> (target_value \<times> (string \<times> string) list) option" where
  "parse_reference_match_error P literal_eval error = (case rx_search reference_match_re error of
       None \<Rightarrow> None
     | Some m \<Rightarrow> (case literal_eval (group m 2) of
         Inr (PDict ((k, v) # kvs)) \<Rightarrow> Some (\<lparr>tv_table = group_of m 1, tv_column = k, tv_id = py_str P v\<rparr>,
           map (\<lambda>kv. (fst kv, py_str P (snd kv))) ((k, v) # kvs))
       | _ \<Rightarrow> None))"

definition parse_bad_date_errors :: "string \<Rightarrow> (string \<times> string \<times> int) list res" where
  "parse_bad_date_errors error = map_res (\<lambda>m. res_bind (int_of_str (group m 3)) (\<lambda>y. Inr (group m 1, group m 2, y)))
     (rx_findall bad_date_re error)"

section \<open>A duplicate primary key: is it the source row's own?\<close>

record diag_env =
  dg_runtime :: runtime
  dg_literal_eval :: "string \<Rightarrow> pyval res"
  dg_row_exists :: "string \<Rightarrow> string \<Rightarrow> string \<Rightarrow> bool res"
  dg_count_rows :: "string \<Rightarrow> int res"

definition latest_entity :: "central \<Rightarrow> string \<Rightarrow> string \<Rightarrow> entity_row option" where
  "latest_entity c entity sys = latest_by en_updated_at
     (filter (\<lambda>e. en_source_table e = entity \<and> en_target_system e = sys) (entities c))"

definition approved_proposal :: "central \<Rightarrow> entity_row \<Rightarrow> proposal_row option" where
  "approved_proposal c e = latest_by po_id (filter (approved_for e) (proposals c))"

definition duplicate_repair_context ::
  "central \<Rightarrow> string \<Rightarrow> string \<Rightarrow> string \<Rightarrow> string \<Rightarrow> (entity_row \<times> review_row option) res" where
  "duplicate_repair_context c entity sys tab col = (case latest_entity c entity sys of
       None \<Rightarrow> Inl (NotFoundError (''entity '' @ str_repr entity @ '' is not onboarded for '' @ sys))
     | Some e \<Rightarrow> Inr (e, case approved_proposal c e of
           None \<Rightarrow> None
         | Some p \<Rightarrow> latest_by rv_id (filter (usable_for (po_id p) tab col) (field_reviews c))))"

definition claims :: "string \<Rightarrow> string \<Rightarrow> string \<Rightarrow> crosswalk_row \<Rightarrow> bool" where
  "claims sys tab tid r = (cw_target_system r = sys \<and> cw_target_table r = tab \<and> cw_target_id r = Some tid)"

definition crosswalk_conflicts ::
  "central \<Rightarrow> string \<Rightarrow> string \<Rightarrow> string \<Rightarrow> string \<Rightarrow> string option \<Rightarrow> crosswalk_row list" where
  "crosswalk_conflicts c sys tab tid entity reference =
     filter (\<lambda>r. \<not> (cw_source_entity r = entity
         \<and> (case reference of None \<Rightarrow> True | Some x \<Rightarrow> cw_external_reference r = x)))
       (filter (claims sys tab tid) (id_crosswalk c))"

definition duplicate_row_exists :: "diag_env \<Rightarrow> string \<Rightarrow> string \<Rightarrow> string \<Rightarrow> bool" where
  "duplicate_row_exists G tab col v = (dg_row_exists G tab col v = Inr True)"

record repair_plan =
  rp_entity :: entity_row
  rp_name :: string
  rp_target_system :: string
  rp_table :: string
  rp_column :: string
  rp_id :: string
  rp_source_column :: "string option"
  rp_review :: "review_row option"
  rp_reference :: "string option"
  rp_row_exists :: bool
  rp_conflicts :: "crosswalk_row list"
  rp_safe :: bool
  rp_reasons :: "string list"

definition opt_repr :: "string option \<Rightarrow> string" where
  "opt_repr x = (case x of None \<Rightarrow> ''None'' | Some s \<Rightarrow> str_repr s)"

text \<open>Whether the duplicate column is filled from the single primary key of the source.\<close>

definition key_reasons :: "string \<Rightarrow> string \<Rightarrow> string list \<Rightarrow> string option \<Rightarrow> string list" where
  "key_reasons tab col pks source = (case pks of
       [pk] \<Rightarrow> if source = Some pk then [] else [tab @ ''.'' @ col @ '' is mapped from '' @ opt_repr source
           @ '', not source primary key '' @ str_repr pk]
     | _ \<Rightarrow> [''entity has a composite or unknown primary key''])"

definition plan_duplicate ::
  "diag_env \<Rightarrow> central \<Rightarrow> string \<Rightarrow> string \<Rightarrow> string \<Rightarrow> string \<Rightarrow> string \<Rightarrow> entity_row \<times> review_row option \<Rightarrow> repair_plan" where
  "plan_duplicate G c entity sys tab col tid em = (case em of (e, m) \<Rightarrow>
     let source = map_option rv_source_column m;
         bad_key = key_reasons tab col (en_pk_columns e) source;
         reference = (if bad_key = [] then Some (generate_external_reference (dg_runtime G) (en_source_system e)
           (en_source_schema e) (en_source_table e) [PStr tid]) else None);
         there = duplicate_row_exists G tab col tid;
         conflicts = crosswalk_conflicts c sys tab tid entity reference;
         reasons = bad_key @ (if there then [] else [''target row does not exist; duplicate error may be stale''])
           @ (if conflicts = [] then [] else [''target id is already claimed by another crosswalk row''])
     in \<lparr>rp_entity = e, rp_name = entity, rp_target_system = sys, rp_table = tab, rp_column = col, rp_id = tid,
         rp_source_column = source, rp_review = m, rp_reference = reference, rp_row_exists = there,
         rp_conflicts = conflicts, rp_safe = (reasons = []), rp_reasons = reasons\<rparr>)"

definition or_else :: "string option \<Rightarrow> string option \<Rightarrow> string option" where
  "or_else x y = (if blank x then y else x)"

definition diagnose_duplicate_key ::
  "diag_env \<Rightarrow> central \<Rightarrow> string \<Rightarrow> string option \<Rightarrow> string option \<Rightarrow> string option \<Rightarrow> string option \<Rightarrow> string
   \<Rightarrow> repair_plan res" where
  "diagnose_duplicate_key G c entity error tab col tid sys =
     (let parsed = parse_duplicate_key (case error of None \<Rightarrow> [] | Some e \<Rightarrow> e);
          tab' = or_else tab (Option.bind parsed tv_table);
          col' = or_else (or_else col (map_option tv_column parsed)) (Some ''id'');
          tid' = or_else tid (map_option tv_id parsed)
      in if entity = [] then Inl (ValidationError ''entity is required'')
         else if blank tab' \<or> blank tid' then Inl (ValidationError ''target_table and target_id are required'')
         else res_bind (duplicate_repair_context c entity sys (the tab') (the col'))
           (\<lambda>em. Inr (plan_duplicate G c entity sys (the tab') (the col') (the tid') em)))"

definition repair_key :: "repair_plan \<Rightarrow> delivery_key" where
  "repair_key p = \<lparr>dk_system = en_source_system (rp_entity p), dk_entity = rp_name p,
     dk_reference = the (rp_reference p), dk_target = rp_target_system p\<rparr>"

definition record_ownership :: "int \<Rightarrow> repair_plan \<Rightarrow> crosswalk_row list \<Rightarrow> crosswalk_row list" where
  "record_ownership now p = upsert (cw_match (repair_key p) (rp_table p))
     (\<lambda>r. r\<lparr>cw_target_id := Some (rp_id p), cw_updated_at := now\<rparr>)
     \<lparr>cw_source_system = en_source_system (rp_entity p), cw_source_entity = rp_name p,
      cw_external_reference = the (rp_reference p), cw_target_system = rp_target_system p,
      cw_target_table = rp_table p, cw_target_id = Some (rp_id p), cw_last_event_id = None, cw_updated_at = now\<rparr>"

definition repair_audit :: "repair_plan \<Rightarrow> string \<Rightarrow> entity_audit_row" where
  "repair_audit p actor = \<lparr>ea_entity_id = en_id (rp_entity p), ea_proposal_id = None,
     ea_action = ''duplicate_key_crosswalk_repair'',
     ea_details = PDict [(''target_table'', PStr (rp_table p)), (''target_column'', PStr (rp_column p)),
       (''target_id'', PStr (rp_id p)), (''external_reference'', PStr (the (rp_reference p)))],
     ea_by = actor\<rparr>"

definition repair_duplicate_key ::
  "diag_env \<Rightarrow> int \<Rightarrow> string \<Rightarrow> central \<Rightarrow> string \<Rightarrow> string option \<Rightarrow> string option \<Rightarrow> string option \<Rightarrow> string option
   \<Rightarrow> string \<Rightarrow> (repair_plan \<times> central) res" where
  "repair_duplicate_key G now actor c entity error tab col tid sys =
     res_bind (diagnose_duplicate_key G c entity error tab col tid sys) (\<lambda>p.
       if \<not> rp_safe p then Inl (ValidationError (''duplicate-key repair is not safe: '' @ join ''; '' (rp_reasons p)))
       else Inr (p, c\<lparr>id_crosswalk := record_ownership now p (id_crosswalk c),
                      entity_audit := entity_audit c @ [repair_audit p actor]\<rparr>))"

section \<open>What a repair does\<close>

lemma key_reasons_Nil_iff: "key_reasons tab col pks source = [] \<longleftrightarrow> (\<exists>pk. pks = [pk] \<and> source = Some pk)"
  by (auto simp: key_reasons_def split: list.splits)

lemma latest_by_in:
  assumes "latest_by k rs = Some r"
  shows "r \<in> set rs"
proof -
  obtain xs where "sort_key (\<lambda>r. - k r) rs = r # xs" using assms unfolding latest_by_def by (auto split: list.splits)
  then show ?thesis by (metis list.set_intros(1) set_sort)
qed

lemma plan_duplicate_fields [simp]:
  "rp_table (plan_duplicate G c entity sys t k i em) = t"
  "rp_column (plan_duplicate G c entity sys t k i em) = k"
  "rp_id (plan_duplicate G c entity sys t k i em) = i"
  "rp_name (plan_duplicate G c entity sys t k i em) = entity"
  "rp_target_system (plan_duplicate G c entity sys t k i em) = sys"
  "rp_entity (plan_duplicate G c entity sys t k i em) = fst em"
  by (simp_all add: plan_duplicate_def Let_def split: prod.splits)

lemma diagnose_duplicate_run:
  assumes "diagnose_duplicate_key G c entity error tab col tid sys = Inr p"
  obtains e m where "latest_entity c entity sys = Some e"
    and "p = plan_duplicate G c entity sys (rp_table p) (rp_column p) (rp_id p) (e, m)"
    and "m = (case approved_proposal c e of None \<Rightarrow> None
      | Some q \<Rightarrow> latest_by rv_id (filter (usable_for (po_id q) (rp_table p) (rp_column p)) (field_reviews c)))"
proof -
  obtain t k i where "res_bind (duplicate_repair_context c entity sys t k) (\<lambda>em. Inr (plan_duplicate G c entity sys t k i em)) = Inr p"
    using assms unfolding diagnose_duplicate_key_def Let_def by (simp split: if_splits)
  then obtain em where ctx: "duplicate_repair_context c entity sys t k = Inr em" and p: "p = plan_duplicate G c entity sys t k i em"
    by (auto simp: res_bind_Inr_iff)
  obtain e m where em: "em = (e, m)" by (cases em)
  have e: "latest_entity c entity sys = Some e" and m: "m = (case approved_proposal c e of None \<Rightarrow> None
      | Some q \<Rightarrow> latest_by rv_id (filter (usable_for (po_id q) t k) (field_reviews c)))"
    using ctx unfolding duplicate_repair_context_def em by (simp_all split: option.splits)
  have f: "rp_table p = t" "rp_column p = k" "rp_id p = i" by (simp_all add: p)
  show thesis
  proof (rule that [OF e])
    show "p = plan_duplicate G c entity sys (rp_table p) (rp_column p) (rp_id p) (e, m)" unfolding f using p em by simp
    show "m = (case approved_proposal c e of None \<Rightarrow> None
      | Some q \<Rightarrow> latest_by rv_id (filter (usable_for (po_id q) (rp_table p) (rp_column p)) (field_reviews c)))"
      unfolding f by (rule m)
  qed
qed

text \<open>A safe plan: every condition the repair rests on.\<close>

lemma safe_plan:
  assumes "rp_safe (plan_duplicate G c entity sys t k i (e, m))"
  obtains pk r where "en_pk_columns e = [pk]" and "m = Some r" and "rv_source_column r = pk"
    and "duplicate_row_exists G t k i"
    and "rp_reference (plan_duplicate G c entity sys t k i (e, m))
      = Some (generate_external_reference (dg_runtime G) (en_source_system e) (en_source_schema e) (en_source_table e) [PStr i])"
    and "crosswalk_conflicts c sys t i entity (rp_reference (plan_duplicate G c entity sys t k i (e, m))) = []"
proof -
  have key: "key_reasons t k (en_pk_columns e) (map_option rv_source_column m) = []" and there: "duplicate_row_exists G t k i"
    and free: "crosswalk_conflicts c sys t i entity (rp_reference (plan_duplicate G c entity sys t k i (e, m))) = []"
    using assms by (simp_all add: plan_duplicate_def Let_def split: if_splits)
  obtain pk where "en_pk_columns e = [pk]" and src: "map_option rv_source_column m = Some pk"
    using key by (auto simp: key_reasons_Nil_iff)
  moreover obtain r where "m = Some r" and "rv_source_column r = pk" using src by auto
  moreover have "rp_reference (plan_duplicate G c entity sys t k i (e, m))
      = Some (generate_external_reference (dg_runtime G) (en_source_system e) (en_source_schema e) (en_source_table e) [PStr i])"
    using key by (simp add: plan_duplicate_def Let_def)
  ultimately show thesis using that there free by blast
qed

lemma ownership_match:
  "cw_match (repair_key p) (rp_table p) \<lparr>cw_source_system = en_source_system (rp_entity p), cw_source_entity = rp_name p,
      cw_external_reference = the (rp_reference p), cw_target_system = rp_target_system p,
      cw_target_table = rp_table p, cw_target_id = i, cw_last_event_id = v, cw_updated_at = now\<rparr>"
  by (simp add: cw_match_def repair_key_def)

lemma cw_match_owned [simp]: "cw_match k t (r\<lparr>cw_target_id := i, cw_updated_at := now\<rparr>) = cw_match k t r"
  by (simp add: cw_match_def)

lemma record_ownership_claims:
  assumes "x \<in> set (record_ownership now p rs)" and "claims sys tab tid x"
  shows "cw_match (repair_key p) (rp_table p) x \<or> (x \<in> set rs \<and> claims sys tab tid x)"
  using assms ownership_match unfolding record_ownership_def upsert_def update_where_def
  by (auto split: if_splits)

lemma crosswalk_lookup_ownership:
  "crosswalk_lookup k t (c\<lparr>id_crosswalk := record_ownership now p (id_crosswalk c), entity_audit := as\<rparr>)
     = (if k = repair_key p \<and> t = rp_table p then Some (rp_id p) else crosswalk_lookup k t c)"
proof (cases "k = repair_key p \<and> t = rp_table p")
  case True
  note new = select_one_upsert [where P = "cw_match (repair_key p) (rp_table p)", OF ownership_match [of p "Some (rp_id p)" None now],
      of "\<lambda>r. r\<lparr>cw_target_id := Some (rp_id p), cw_updated_at := now\<rparr>"]
  show ?thesis
    using True new by (auto simp: crosswalk_lookup_def record_ownership_def split: option.splits)
next
  case False
  then have n: "cw_match (repair_key p) (rp_table p) r \<Longrightarrow> \<not> cw_match k t r" for r using cw_match_unique by blast
  have "\<not> cw_match k t \<lparr>cw_source_system = en_source_system (rp_entity p), cw_source_entity = rp_name p,
      cw_external_reference = the (rp_reference p), cw_target_system = rp_target_system p,
      cw_target_table = rp_table p, cw_target_id = Some (rp_id p), cw_last_event_id = None, cw_updated_at = now\<rparr>"
    by (rule n) (rule ownership_match)
  then show ?thesis
    unfolding if_not_P [OF False]
    using n by (simp add: crosswalk_lookup_def record_ownership_def select_one_upsert_other)
qed


definition pg_message :: string where
  "pg_message = ''duplicate key value violates unique constraint '' @ [dq] @ ''school_pkey'' @ [dq]
     @ '' DETAIL: Key (id)=(5) already exists.''"

definition keyed_store :: central where
  "keyed_store = (school_store [])\<lparr>field_reviews := [sample_review 3 ''id'' ''school'' ''id'']\<rparr>"

definition keyed_diag :: diag_env where
  "keyed_diag = \<lparr>dg_runtime = sample_runtime, dg_literal_eval = (\<lambda>s. Inl (ValueError s)),
     dg_row_exists = (\<lambda>t k v. Inr (v = ''5'')), dg_count_rows = (\<lambda>t. Inr 1)\<rparr>"

definition keyed_repair :: "(repair_plan \<times> central) res" where
  "keyed_repair = repair_duplicate_key keyed_diag 9 ''ana'' keyed_store ''schools'' (Some pg_message) None None None ''LRMIS''"

lemma keyed_repair_run: "case keyed_repair of Inl _ \<Rightarrow> False | Inr x \<Rightarrow>
    rp_table (fst x) = ''school'' \<and> rp_column (fst x) = ''id'' \<and> rp_id (fst x) = ''5''
    \<and> dk_reference (repair_key (fst x)) = ''IRIMSV_REGION_V|irimsv|schools|5''"
  by code_simp


text \<open>
  The message of MySQL names the table before the key \<open>PRIMARY\<close>, but the pattern discards it: the
  table of a MySQL duplicate is never found, and the diagnosis asks for it.
\<close>

definition mysql_message :: string where
  "mysql_message = ''Duplicate entry '' @ [sq] @ ''5'' @ [sq] @ '' for key '' @ [sq] @ ''school.PRIMARY'' @ [sq]"

lemma mysql_primary_key_has_no_table:
  "parse_duplicate_key mysql_message = Some \<lparr>tv_table = None, tv_column = ''id'', tv_id = ''5''\<rparr>"
  by code_simp

lemma mysql_duplicate_cannot_be_diagnosed:
  "diagnose_duplicate_key keyed_diag keyed_store ''schools'' (Some mysql_message) None None None ''LRMIS''
     = Inl (ValidationError ''target_table and target_id are required'')"
proof -
  have "parse_duplicate_key mysql_message = Some \<lparr>tv_table = None, tv_column = ''id'', tv_id = ''5''\<rparr>"
    by (rule mysql_primary_key_has_no_table)
  then show ?thesis by (simp add: diagnose_duplicate_key_def or_else_def blank_def)
qed

lemma deploy_error_parsed:
  "missing_required (''mapping cannot be deployed: - school.id is required but no source column maps to it''
     @ '' - station.label is required but no source column maps to it'') = [(''school'', ''id''), (''station'', ''label'')]"
  by code_simp

lemma bad_date_parsed:
  "parse_bad_date_errors ''event.start_on date year 12025 is outside supported range'' = Inr [(''event'', ''start_on'', 12025)]"
  by code_simp

lemma read_only_parsed:
  "parse_read_only_reference_error (''user_type.name='' @ [sq] @ ''Clerk'' @ [sq] @ '' does not exist; user_type is read-only'')
     = Some \<lparr>tv_table = Some ''user_type'', tv_column = ''name'', tv_id = ''Clerk''\<rparr>"
  by code_simp

end
