(* ===== verification/Agent_Tools.thy ===== *)
theory Agent_Tools
  imports Review_Machine Ops
begin

text \<open>
  \<open>src/agent/tool_defs.py\<close>, \<open>src/agent/tools.py\<close> and \<open>src/agent/workflows.py\<close>: the tools the
  assistant may call, with their declared autonomy and parameters, the checks on a call's
  parameters, the typed confirmations of the tools that destroy data, the readiness report of a
  proposal, and the step machines that guide an operator. What a handler does to the databases
  is an argument (\<open>handlers\<close>): the services behind them are modelled in their own theories. The
  dashes of descriptions and messages are written in ASCII.
\<close>

section \<open>Tools\<close>

type_synonym 'w handlers = "string \<Rightarrow> row \<Rightarrow> ('w, pyval) comp"

record 'w tool_def =
  td_name :: string
  td_description :: string
  td_properties :: "(string \<times> string option) list"
  td_required :: "string list"
  td_handler :: "row \<Rightarrow> ('w, pyval) comp"
  td_autonomy :: string
  td_destructive :: bool

definition autonomy_levels :: "string list" where
  "autonomy_levels = [''propose_only'', ''auto_safe'', ''destructive'']"

definition names_repr :: "string list \<Rightarrow> string" where
  "names_repr xs = ''('' @ join '', '' (map str_repr xs) @ '')''"

text \<open>\<open>ToolDef.__post_init__\<close>.\<close>

definition checked_tool :: "'w tool_def \<Rightarrow> 'w tool_def res" where
  "checked_tool t =
     (if td_autonomy t \<notin> set autonomy_levels
      then Inl (ValidationError (''tool '' @ str_repr (td_name t) @ '': autonomy must be one of '' @ names_repr autonomy_levels))
      else Inr (if td_autonomy t = ''destructive'' then t\<lparr>td_destructive := True\<rparr> else t))"

definition mk_tool ::
  "'w handlers \<Rightarrow> string \<Rightarrow> string \<Rightarrow> (string \<times> string option) list \<Rightarrow> string list \<Rightarrow> string \<Rightarrow> 'w tool_def res" where
  "mk_tool H name description properties required autonomy = checked_tool
     \<lparr>td_name = name, td_description = description, td_properties = properties, td_required = required,
      td_handler = H name, td_autonomy = autonomy, td_destructive = False\<rparr>"

text \<open>\<open>isinstance(value, type_map.get(expected, object))\<close>: a bool is an int in Python.\<close>

definition has_json_type :: "string \<Rightarrow> pyval \<Rightarrow> bool" where
  "has_json_type expected v =
     (if expected = ''string'' then (case v of PStr s \<Rightarrow> True | _ \<Rightarrow> False)
      else if expected = ''boolean'' then (case v of PBool b \<Rightarrow> True | _ \<Rightarrow> False)
      else if expected = ''number'' then (case v of PInt i \<Rightarrow> True | PFloat f \<Rightarrow> True | PBool b \<Rightarrow> True | _ \<Rightarrow> False)
      else if expected = ''integer'' then (case v of PInt i \<Rightarrow> True | PBool b \<Rightarrow> True | _ \<Rightarrow> False)
      else True)"

definition param_type :: "'w tool_def \<Rightarrow> string \<Rightarrow> string option" where
  "param_type t k = (case map_of (td_properties t) k of None \<Rightarrow> None | Some x \<Rightarrow> x)"

definition bad_param :: "'w tool_def \<Rightarrow> string \<times> pyval \<Rightarrow> bool" where
  "bad_param t kv = (case param_type t (fst kv) of None \<Rightarrow> False | Some ty \<Rightarrow> \<not> has_json_type ty (snd kv))"

definition validate_params :: "'w tool_def \<Rightarrow> row \<Rightarrow> row res" where
  "validate_params t params = (case find (\<lambda>k. \<not> dhas params k) (td_required t) of
       Some k \<Rightarrow> Inl (ValidationError (''tool '' @ str_repr (td_name t) @ '': missing required param '' @ str_repr k))
     | None \<Rightarrow> (case find (bad_param t) params of
         Some kv \<Rightarrow> Inl (ValidationError (''tool '' @ str_repr (td_name t) @ '': param '' @ str_repr (fst kv)
           @ '' must be '' @ the (param_type t (fst kv))))
       | None \<Rightarrow> Inr params))"

definition mvp_tools :: "'w handlers \<Rightarrow> 'w tool_def res list" where
  "mvp_tools H = [
    mk_tool H ''check_status''
      (''Integration health: outbox counts, oldest pending age, entity states, quarantine and ''
       @ ''drift summary.'')
      []
      [] ''auto_safe'',
    mk_tool H ''summarize_proposal''
      (''Summarize a mapping proposal: field counts by status, low-confidence/unmapped columns, ''
       @ ''unmet required target columns, overall risk.'')
      [(''proposal_id'', Some ''integer''), (''threshold'', Some ''number'')]
      [''proposal_id''] ''auto_safe'',
    mk_tool H ''explain_blocker''
      (''Why a proposal cannot deploy yet: approval status, accepted-mapping coverage, unmet ''
       @ ''required columns.'')
      [(''proposal_id'', Some ''integer''), (''threshold'', Some ''number'')]
      [''proposal_id''] ''auto_safe'',
    mk_tool H ''show_schema''
      (''The source and target schema trees (structure only).'')
      [(''source_schema'', Some ''string'')]
      [] ''auto_safe'',
    mk_tool H ''deploy_guidance''
      (''Deploy readiness for a proposal plus recommended next actions. Never executes the ''
       @ ''deploy.'')
      [(''proposal_id'', Some ''integer''), (''threshold'', Some ''number'')]
      [''proposal_id''] ''auto_safe'',
    mk_tool H ''explain_dilemma''
      (''Resolution options for a blocked mapping decision (unmapped column, type mismatch, FK ''
       @ ''violation) with a recommendation. Proposes only; the human picks.'')
      [(''kind'', Some ''string''), (''table'', Some ''string''), (''column'', Some ''string''),
       (''context'', None)]
      [''kind''] ''auto_safe'',
    mk_tool H ''onboard_table''
      (''Discover a source table and create an AI mapping proposal for human review. ''
       @ ''Propose-only: nothing is approved or deployed by this tool.'')
      [(''source_table'', Some ''string''), (''source_schema'', Some ''string''), (''target_system'',
       Some ''string'')]
      [''source_table''] ''propose_only'']"

definition recovery_tools :: "'w handlers \<Rightarrow> 'w tool_def res list" where
  "recovery_tools H = [
    mk_tool H ''swap_source_schema''
      (''Diff a restructured/replacement IRIMSV source against the approved source contracts and ''
       @ ''propose AI re-maps for the affected entities. Read-only unless apply=true, which ''
       @ ''additionally requires the typed source-schema confirmation and passes the same ''
       @ ''low-confidence human gate as the CLI. Never issues DDL/DML against the source.'')
      [(''source_engine'', Some ''string''), (''source_schema'', Some ''string''), (''apply'', Some
       ''boolean''), (''force'', Some ''boolean''), (''threshold'', Some ''number''), (''confirm'',
       Some ''string''), (''actor'', Some ''string'')]
      [] ''propose_only'',
    mk_tool H ''recover_from_backup''
      (''Restore the target from a listed backup / validated upload, or the source from a ''
       @ ''validated uploaded dump. ALWAYS destructive: requires the typed confirmation token no ''
       @ ''matter the autonomy tier (design D4) - the service enforces it before any database or ''
       @ ''shell access.'')
      [(''action'', Some ''string''), (''backup_id'', Some ''string''), (''upload_id'', Some
       ''integer''), (''confirm'', Some ''string''), (''reason'', Some ''string''), (''dry_run'', Some
       ''boolean''), (''actor'', Some ''string'')]
      [''action''] ''destructive'']"

definition inspection_tools :: "'w handlers \<Rightarrow> 'w tool_def res list" where
  "inspection_tools H = [
    mk_tool H ''heal_error''
      (''Propose a fix for a delivery error (safe cast or quarantine). Propose-only unless safe ''
       @ ''auto-heal is explicitly allowlisted via AGENT_AUTONOMOUS_HEAL.'')
      [(''error'', Some ''string''), (''context'', Some ''object'')]
      [''error''] ''propose_only'',
    mk_tool H ''list_drift_reports''
      (''List recorded schema-drift reports (fingerprints, differences, impacted entities) - the ''
       @ ''first step of drift resolution.'')
      [(''limit'', Some ''integer'')]
      [] ''auto_safe'',
    mk_tool H ''resolve_drift''
      (''Re-map and re-deliver drifted entities (live drop+recreate on the target side). ''
       @ ''Destructive: always requires confirmation. Supports dry_run and an entities filter.'')
      [(''entities'', Some ''object''), (''resolve_source'', Some ''boolean''), (''resolve_target'',
       Some ''boolean''), (''dry_run'', Some ''boolean'')]
      [] ''destructive'',
    mk_tool H ''swap_target_dry_run''
      (''Preview a target schema swap: discover the (new) target, diff against the approved ''
       @ ''registry, report affected entities and proposed re-maps. Read-only.'')
      [(''target_engine'', Some ''string'')]
      [] ''auto_safe'',
    mk_tool H ''swap_target_apply''
      (''Confirmed target schema swap: re-map affected entities (human-gated on low confidence), ''
       @ ''recreate the target, re-deliver. Destructive; requires the typed target-db confirmation ''
       @ ''token in addition to chat approval.'')
      [(''target_engine'', Some ''string''), (''confirm'', Some ''string''), (''threshold'', Some
       ''number''), (''force'', Some ''boolean''), (''backup_path'', Some ''string''), (''dsn'', Some
       ''string'')]
      [] ''destructive'',
    mk_tool H ''inspect_job''
      (''Inspect an admin worker job by id, or the latest job: status, progress, error, recent ''
       @ ''events, and per-entity failures where available. Read-only.'')
      [(''job_id'', Some ''string''), (''target_system'', Some ''string'')]
      [] ''auto_safe'',
    mk_tool H ''diagnose_entity_delivery''
      (''Diagnose a deployed entity that has no target data: entity status, target tables, target''
       @ '' row counts, crosswalk counts, latest related refresh job, and next safe action. ''
       @ ''Read-only.'')
      [(''entity'', Some ''string''), (''target_system'', Some ''string'')]
      [''entity''] ''auto_safe'',
    mk_tool H ''explain_deploy_error''
      (''Parse a deploy validation error into missing target columns and concrete repair ''
       @ ''suggestions. Read-only.'')
      [(''error'', Some ''string''), (''entity'', Some ''string''), (''proposal_id'', Some
       ''integer'')]
      [''error''] ''auto_safe'',
    mk_tool H ''diagnose_duplicate_key''
      (''Diagnose a target duplicate-primary-key failure and determine whether a missing ''
       @ ''crosswalk can be safely recorded. Read-only.'')
      [(''entity'', Some ''string''), (''error'', Some ''string''), (''target_table'', Some
       ''string''), (''target_column'', Some ''string''), (''target_id'', Some ''string''),
       (''target_system'', Some ''string'')]
      [''entity''] ''auto_safe'',
    mk_tool H ''plan_refresh_failure_repair''
      (''Inspect a refresh job and produce a read-only, per-entity repair checklist. Includes ''
       @ ''gated tool suggestions only when a repair is proven safe.'')
      [(''job_id'', Some ''string''), (''target_system'', Some ''string'')]
      [] ''auto_safe'']"

definition repair_tools :: "'w handlers \<Rightarrow> 'w tool_def res list" where
  "repair_tools H = [
    mk_tool H ''repair_duplicate_key''
      (''Confirmed duplicate-key repair: records a missing central crosswalk for an existing ''
       @ ''target row after the diagnostic proves ownership is safe. Confirmation-gated.'')
      [(''entity'', Some ''string''), (''error'', Some ''string''), (''target_table'', Some
       ''string''), (''target_column'', Some ''string''), (''target_id'', Some ''string''),
       (''target_system'', Some ''string''), (''actor'', Some ''string'')]
      [''entity''] ''propose_only'',
    mk_tool H ''resolve_deploy_job_repair''
      (''Resolve a pasted failed deploy_lrmis job message into a repair context: recovers the ''
       @ ''job'' @ [sq] @ ''s stored proposal id, parses missing required target columns, and drafts ''
       @ ''confirmation-gated *.id fan-out mappings. Read-only.'')
      [(''text'', Some ''string''), (''target_system'', Some ''string'')]
      [''text''] ''auto_safe'',
    mk_tool H ''add_mapping''
      (''Add a manual source-column to target table/column mapping row on a proposal. ''
       @ ''Confirmation-gated.'')
      [(''proposal_id'', Some ''integer''), (''source_column'', Some ''string''), (''target_table'',
       Some ''string''), (''target_column'', Some ''string''), (''transform'', Some ''string''),
       (''actor'', Some ''string'')]
      [''proposal_id'', ''source_column'', ''target_table'', ''target_column''] ''propose_only'',
    mk_tool H ''add_missing_mappings''
      (''Add a confirmation-gated batch of missing required target mappings to a proposal, ''
       @ ''skipping target columns that already have accepted/resolved mappings.'')
      [(''proposal_id'', Some ''integer''), (''mappings'', Some ''array''), (''actor'', Some
       ''string'')]
      [''proposal_id'', ''mappings''] ''propose_only'',
    mk_tool H ''reject_mapping''
      (''Reject one source-column mapping on a proposal so deploy ignores it. Confirmation-gated.'')
      [(''proposal_id'', Some ''integer''), (''source_column'', Some ''string''), (''actor'', Some
       ''string'')]
      [''proposal_id'', ''source_column''] ''propose_only'',
    mk_tool H ''reject_mapping_review''
      (''Reject one exact field-review mapping row by review id. Safer for fan-out mappings where''
       @ '' a source column feeds multiple targets. Confirmation-gated.'')
      [(''review_id'', Some ''integer''), (''actor'', Some ''string'')]
      [''review_id''] ''propose_only'',
    mk_tool H ''reopen_mapping_review''
      (''Reopen one exact field-review row in the normal review queue by review id. Preserves the''
       @ '' suspect mapping so an operator can correct it in the UI. Confirmation-gated.'')
      [(''review_id'', Some ''integer''), (''actor'', Some ''string'')]
      [''review_id''] ''propose_only'']"

type_synonym 'w tool_registry = "(string, 'w tool_def) dict"

definition registry_of :: "'w handlers \<Rightarrow> 'w tool_registry res" where
  "registry_of H = res_bind (map_res (\<lambda>t. t) (mvp_tools H @ recovery_tools H @ inspection_tools H @ repair_tools H))
     (\<lambda>ts. Inr (dict_of (map (\<lambda>t. (td_name t, t)) ts)))"

definition get_tool :: "'w tool_registry \<Rightarrow> string \<Rightarrow> 'w tool_def res" where
  "get_tool R name = (case dget R name of
     None \<Rightarrow> Inl (NotFoundError (''unknown tool '' @ str_repr name)) | Some t \<Rightarrow> Inr t)"

definition list_tools :: "'w tool_registry \<Rightarrow> (string \<times> string \<times> string \<times> bool) list" where
  "list_tools R = map (\<lambda>t. (td_name t, td_description t, td_autonomy t, td_destructive t)) (dvalues R)"

section \<open>Typed confirmations\<close>

text \<open>\<open>float(v)\<close> where a TypeError or ValueError is not caught.\<close>

definition py_float :: "runtime \<Rightarrow> pyval \<Rightarrow> pyfloat res" where
  "py_float P v = (case v of
       PFloat f \<Rightarrow> Inr f
     | PBool b \<Rightarrow> Inr (Fin (if b then 1 else 0))
     | PInt i \<Rightarrow> (case rt_float_of_int P i of
           None \<Rightarrow> Inl (OverflowError ''int too large to convert to float'') | Some f \<Rightarrow> Inr f)
     | PStr s \<Rightarrow> (case rt_float_of_str P s of
           None \<Rightarrow> Inl (ValueError (''could not convert string to float: '' @ str_repr s)) | Some f \<Rightarrow> Inr f)
     | _ \<Rightarrow> Inl (TypeError (''float() argument must be a string or a real number, not '' @ quoted (type_name v))))"

definition pget_or :: "row \<Rightarrow> string \<Rightarrow> pyval \<Rightarrow> pyval" where
  "pget_or p k d = (case dget p k of None \<Rightarrow> d | Some v \<Rightarrow> v)"

text \<open>The part of a swap the two swap tools call: its preview, and its run for an actor, a threshold and force.\<close>

record 'w swap_service =
  sws_dry_run :: "('w, pyval) comp"
  sws_apply :: "string \<Rightarrow> pyfloat \<Rightarrow> bool \<Rightarrow> ('w, pyval) comp"

definition run_swap :: "runtime \<Rightarrow> 'w swap_service \<Rightarrow> string \<Rightarrow> row \<Rightarrow> ('w, pyval) comp" where
  "run_swap P S default_actor params =
     bind (lift_res (py_float P (pget_or params ''threshold'' (PFloat (Fin (7 / 10)))))) (\<lambda>th.
       sws_apply S (py_str P (pget_or params ''actor'' (PStr default_actor))) th
         (truthy (pget_or params ''force'' (PBool False))))"

definition swap_source_schema :: "runtime \<Rightarrow> string \<Rightarrow> (string \<Rightarrow> 'w swap_service) \<Rightarrow> row \<Rightarrow> ('w, pyval) comp" where
  "swap_source_schema P env_schema service params =
     (let given = row_get params ''source_schema'';
          schema = (if truthy given then given else PStr env_schema);
          S = service (py_str P schema)
      in if \<not> truthy (row_get params ''apply'') then sws_dry_run S
         else if row_get params ''confirm'' \<noteq> schema
         then throw (ValidationError (''swap_source_schema apply requires confirm='' @ py_repr P schema
           @ '' (typed confirmation; the agent cannot skip it at any autonomy tier)''))
         else run_swap P S ''agent:swap_source_schema'' params)"

text \<open>\<open>dsn.rstrip("/").rsplit("/", 1)[-1].split("?")[0]\<close>.\<close>

definition dsn_database :: "string \<Rightarrow> string" where
  "dsn_database dsn = hd (split_on (CHR ''?'') (List.last (split_on (CHR ''/'') (rev (dropWhile (\<lambda>c. c = CHR ''/'') (rev dsn))))))"

definition target_engine :: "runtime \<Rightarrow> string \<Rightarrow> row \<Rightarrow> string" where
  "target_engine P env_engine params =
     (let v = row_get params ''target_engine'' in str_lower (if truthy v then py_str P v else env_engine))"

definition expected_target_confirm :: "string \<Rightarrow> string \<Rightarrow> string \<Rightarrow> string" where
  "expected_target_confirm env_dsn env_database engine =
     (if engine \<in> {''postgres'', ''postgresql'', ''pg''} \<and> env_dsn \<noteq> [] \<and> dsn_database env_dsn \<noteq> []
      then dsn_database env_dsn else env_database)"

record swap_settings =
  st_engine :: string
  st_dsn :: string
  st_database :: string

definition swap_target_apply ::
  "runtime \<Rightarrow> swap_settings \<Rightarrow> (string \<Rightarrow> 'w swap_service) \<Rightarrow> row \<Rightarrow> ('w, pyval) comp" where
  "swap_target_apply P V service params =
     (let engine = target_engine P (st_engine V) params;
          expected = expected_target_confirm (st_dsn V) (st_database V) engine
      in if row_get params ''confirm'' \<noteq> PStr expected
         then throw (ValidationError (''swap_target_apply requires confirm='' @ str_repr expected
           @ '' - the typed confirmation token the CLI uses; chat approval alone cannot run a destructive target recreate''))
         else run_swap P (service engine) ''agent:swap_target'' params)"

text \<open>The two restores, of the target from a backup and of the source from an upload.\<close>

record 'w recovery_service =
  rs_target :: "string \<Rightarrow> pyval \<Rightarrow> pyval \<Rightarrow> bool \<Rightarrow> ('w, pyval) comp"
  rs_source :: "int \<Rightarrow> pyval \<Rightarrow> pyval \<Rightarrow> bool \<Rightarrow> ('w, pyval) comp"

definition recover_from_backup :: "runtime \<Rightarrow> 'w recovery_service \<Rightarrow> row \<Rightarrow> ('w, pyval) comp" where
  "recover_from_backup P S params =
     (let action = row_get params ''action'';
          given = row_get params ''confirm'';
          confirm = (if truthy given then given else PStr []);
          actor = pget_or params ''actor'' (PStr ''agent:recover_from_backup'');
          dry = truthy (pget_or params ''dry_run'' (PBool False))
      in if action = PStr ''restore_target''
         then bind (lift_res (item params ''backup_id'')) (\<lambda>b. rs_target S (py_str P b) confirm actor dry)
         else if action = PStr ''restore_source''
         then bind (lift_res (item params ''upload_id'')) (\<lambda>u. bind (lift_res (py_int P u)) (\<lambda>i. rs_source S i confirm actor dry))
         else throw (ValidationError (''recover_from_backup: action must be '' @ quoted ''restore_target'' @ '' or '' @ quoted ''restore_source'')))"

section \<open>Readiness of a proposal\<close>

record blocker_report =
  bl_status :: proposal_status
  bl_accepted :: nat
  bl_unmet :: "string list"
  bl_blockers :: "string list"
  bl_ready :: bool

definition counts_as_accepted :: "review_row \<Rightarrow> bool" where
  "counts_as_accepted r = (usable_review r \<and> \<not> blank (rv_target_table r))"

definition blockers_of :: "proposal_row \<Rightarrow> review_row list \<Rightarrow> string list" where
  "blockers_of p accepted =
     (if po_status p = PApproved \<or> po_status p = PAutoApproved then []
      else [''proposal status is '' @ quoted (status_text (po_status p)) @ ''; it must be approved before deploy''])
     @ (if accepted = []
        then [''no accepted target-column mappings yet - review and accept (or resolve) the proposed fields''] else [])
     @ map (\<lambda>col. ''required target column '' @ str_repr col @ '' has no mapping and the writer does not fill it'') (po_unmet p)"

definition explain_blocker :: "central \<Rightarrow> int \<Rightarrow> blocker_report res" where
  "explain_blocker c pid = res_bind (get_review c pid) (\<lambda>(p, e, fields).
     let accepted = filter counts_as_accepted fields; blockers = blockers_of p accepted
     in Inr \<lparr>bl_status = po_status p, bl_accepted = length accepted, bl_unmet = po_unmet p,
             bl_blockers = blockers, bl_ready = (blockers = [])\<rparr>)"

definition next_action :: "string \<Rightarrow> string" where
  "next_action blocker =
     (if str_in ''must be approved'' blocker
      then ''approve the proposal (Mapping Review page or approve-mapping action)''
      else if str_in ''no accepted'' blocker then ''accept or resolve the proposed field mappings''
      else ''resolve: '' @ blocker)"

definition readiness_guidance :: "central \<Rightarrow> int \<Rightarrow> (blocker_report \<times> string list) res" where
  "readiness_guidance c pid = res_bind (explain_blocker c pid) (\<lambda>b. Inr (b,
     if bl_ready b then [''deploy: run the deploy job (typed confirmation) - coverage and approval gates are green'']
     else map next_action (bl_blockers b)))"

section \<open>Step machines\<close>

record workflow_spec =
  ws_steps :: "(string \<times> string) list"
  ws_entry_tool :: string

definition step_names :: "workflow_spec \<Rightarrow> string list" where
  "step_names W = map fst (ws_steps W)"

definition workflows :: "(string, workflow_spec) dict" where
  "workflows =
    [(''onboard'', \<lparr>ws_steps =
        [(''discover'', ''discover the source table'' @ [sq] @ ''s structure''),
         (''propose'', ''create the AI mapping proposal''),
         (''review'', ''review and accept/resolve the proposed field mappings''),
         (''deploy'', ''deploy the approved proposal (typed confirmation)''),
         (''backfill'', ''backfill existing source rows into the target'')],
        ws_entry_tool = ''onboard_table''\<rparr>),
     (''deploy'', \<lparr>ws_steps =
        [(''check_coverage'', ''check approval status and required-column coverage''),
         (''resolve_dilemmas'', ''resolve any low-confidence or unmapped columns''),
         (''confirm'', ''confirm the deploy action''),
         (''deploy'', ''run the deploy job'')],
        ws_entry_tool = ''deploy_guidance''\<rparr>),
     (''drift'', \<lparr>ws_steps =
        [(''list_reports'', ''list the recorded drift reports''),
         (''review_diff'', ''review the differences and impacted entities''),
         (''remap'', ''re-map the drifted entities (resolve_drift dry_run previews it)''),
         (''apply'', ''apply drift resolution (destructive - confirmation required)'')],
        ws_entry_tool = ''list_drift_reports''\<rparr>),
     (''swap'', \<lparr>ws_steps =
        [(''dry_run'', ''preview the swap: discover the new target and diff it''),
         (''remap'', ''review the proposed re-maps for affected entities''),
         (''confirm'', ''confirm with the typed target-db token''),
         (''apply'', ''recreate the target and re-deliver (swap_target_apply, destructive)'')],
        ws_entry_tool = ''swap_target_dry_run''\<rparr>)]"

record workflow_state =
  wk_name :: string
  wk_current :: string
  wk_completed :: "string list"
  wk_context :: row

definition workflow_to_dict :: "workflow_state \<Rightarrow> pyval" where
  "workflow_to_dict s = PDict [(''workflow_name'', PStr (wk_name s)), (''current_step'', PStr (wk_current s)),
     (''completed_steps'', PList (map PStr (wk_completed s))), (''context'', PDict (wk_context s))]"

definition workflow_from_dict :: "row \<Rightarrow> workflow_state res" where
  "workflow_from_dict d =
     res_bind (res_bind (item d ''workflow_name'') as_str) (\<lambda>n.
     res_bind (res_bind (item d ''current_step'') as_str) (\<lambda>cur.
     res_bind (let v = row_get d ''completed_steps'' in if truthy v then res_bind (as_list v) (map_res as_str) else Inr []) (\<lambda>steps.
     res_bind (let v = row_get d ''context'' in if truthy v then as_dict v else Inr []) (\<lambda>ctx.
       Inr \<lparr>wk_name = n, wk_current = cur, wk_completed = steps, wk_context = ctx\<rparr>))))"

definition wf_start :: "string \<Rightarrow> row \<Rightarrow> workflow_state res" where
  "wf_start name ctx = (case dget workflows name of
       None \<Rightarrow> Inl (ValidationError (''unknown workflow '' @ str_repr name @ ''; supported: [''
         @ join '', '' (map str_repr (sort (dkeys workflows))) @ '']''))
     | Some W \<Rightarrow> Inr \<lparr>wk_name = name, wk_current = hd (step_names W), wk_completed = [], wk_context = ctx\<rparr>)"

fun step_after :: "string \<Rightarrow> string list \<Rightarrow> string" where
  "step_after s [] = []"
| "step_after s [x] = []"
| "step_after s (x # y # xs) = (if x = s then y else step_after s (y # xs))"

definition wf_advance :: "workflow_state \<Rightarrow> string \<Rightarrow> workflow_state res" where
  "wf_advance s step = (case dget workflows (wk_name s) of
       None \<Rightarrow> Inl (KeyError (wk_name s))
     | Some W \<Rightarrow> if step \<noteq> wk_current s
         then Inl (ValidationError (''workflow '' @ str_repr (wk_name s) @ '': cannot complete '' @ str_repr step
           @ '' - the current step is '' @ str_repr (wk_current s)))
         else if step \<notin> set (step_names W) then Inl (ValueError (str_repr step @ '' is not in list''))
         else Inr (s\<lparr>wk_completed := wk_completed s @ [step], wk_current := step_after step (step_names W)\<rparr>))"

definition is_complete :: "workflow_state \<Rightarrow> bool" where
  "is_complete s = (wk_current s = [])"

definition step_description :: "workflow_spec \<Rightarrow> string \<Rightarrow> string res" where
  "step_description W step = (case map_of (ws_steps W) step of None \<Rightarrow> Inl (KeyError step) | Some d \<Rightarrow> Inr d)"

definition wf_describe :: "workflow_state \<Rightarrow> string res" where
  "wf_describe s = (case dget workflows (wk_name s) of
       None \<Rightarrow> Inl (KeyError (wk_name s))
     | Some W \<Rightarrow> if is_complete s
         then Inr (''The '' @ wk_name s @ '' workflow is complete ('' @ join '' -> '' (step_names W) @ '').'')
         else res_bind (step_description W (wk_current s)) (\<lambda>d.
           let remaining = filter (\<lambda>x. x \<notin> set (wk_completed s) \<and> x \<noteq> wk_current s) (step_names W)
           in Inr (join [char_of (10 :: nat)]
             ([wk_name s @ '' workflow - current step: '' @ wk_current s @ '' ('' @ d @ '').'']
              @ (if wk_completed s = [] then [] else [''Done: '' @ join '', '' (wk_completed s) @ ''.''])
              @ (if remaining = [] then [] else [''Remaining: '' @ join '', '' remaining @ ''.''])))))"

definition next_step_suggestion :: "workflow_state \<Rightarrow> string res" where
  "next_step_suggestion s =
     (if is_complete s then Inr (''The '' @ wk_name s @ '' workflow is complete.'')
      else case dget workflows (wk_name s) of
          None \<Rightarrow> Inl (KeyError (wk_name s))
        | Some W \<Rightarrow> res_bind (step_description W (wk_current s)) (\<lambda>d.
            Inr (''Next step: '' @ wk_current s @ '' - '' @ d @ ''.'')))"

section \<open>The registry\<close>

text \<open>
  The registry loads whatever the handlers are; exactly three tools are destructive, and the tools
  that may run on their own are the reading ones.
\<close>

definition tool_names :: "string list" where
  "tool_names = [''check_status'', ''summarize_proposal'', ''explain_blocker'', ''show_schema'', ''deploy_guidance'',
     ''explain_dilemma'', ''onboard_table'', ''swap_source_schema'', ''recover_from_backup'', ''heal_error'',
     ''list_drift_reports'', ''resolve_drift'', ''swap_target_dry_run'', ''swap_target_apply'', ''inspect_job'',
     ''diagnose_entity_delivery'', ''explain_deploy_error'', ''diagnose_duplicate_key'', ''plan_refresh_failure_repair'',
     ''repair_duplicate_key'', ''resolve_deploy_job_repair'', ''add_mapping'', ''add_missing_mappings'', ''reject_mapping'',
     ''reject_mapping_review'', ''reopen_mapping_review'']"

definition destructive_tools :: "string list" where
  "destructive_tools = [''recover_from_backup'', ''resolve_drift'', ''swap_target_apply'']"

definition reading_tools :: "string list" where
  "reading_tools = [''check_status'', ''summarize_proposal'', ''explain_blocker'', ''show_schema'', ''deploy_guidance'',
     ''explain_dilemma'', ''list_drift_reports'', ''swap_target_dry_run'', ''inspect_job'', ''diagnose_entity_delivery'',
     ''explain_deploy_error'', ''diagnose_duplicate_key'', ''plan_refresh_failure_repair'', ''resolve_deploy_job_repair'']"

lemmas tool_lists = mvp_tools_def recovery_tools_def inspection_tools_def repair_tools_def

lemma mk_tool_known: "a \<in> set autonomy_levels \<Longrightarrow> mk_tool H n d ps rs a
    = Inr \<lparr>td_name = n, td_description = d, td_properties = ps, td_required = rs, td_handler = H n,
           td_autonomy = a, td_destructive = (a = ''destructive'')\<rparr>"
  by (auto simp: mk_tool_def checked_tool_def)

lemma mk_tool_levels [simp]:
  "mk_tool H n d ps rs ''auto_safe'' = Inr \<lparr>td_name = n, td_description = d, td_properties = ps, td_required = rs, td_handler = H n,
     td_autonomy = ''auto_safe'', td_destructive = False\<rparr>"
  "mk_tool H n d ps rs ''propose_only'' = Inr \<lparr>td_name = n, td_description = d, td_properties = ps, td_required = rs, td_handler = H n,
     td_autonomy = ''propose_only'', td_destructive = False\<rparr>"
  "mk_tool H n d ps rs ''destructive'' = Inr \<lparr>td_name = n, td_description = d, td_properties = ps, td_required = rs, td_handler = H n,
     td_autonomy = ''destructive'', td_destructive = True\<rparr>"
  by (simp_all add: mk_tool_known autonomy_levels_def)

lemma registry_loads:
  obtains ts where "registry_of H = Inr (map (\<lambda>t. (td_name t, t)) ts)" and "map td_name ts = tool_names"
    and "map td_destructive ts = map (\<lambda>n. n \<in> set destructive_tools) tool_names"
    and "map (\<lambda>t. td_autonomy t = ''auto_safe'') ts = map (\<lambda>n. n \<in> set reading_tools) tool_names"
    and "map td_handler ts = map H tool_names"
proof -
  define ts where "ts = map (\<lambda>r. case r of Inr t \<Rightarrow> t) (mvp_tools H @ recovery_tools H @ inspection_tools H @ repair_tools H)"
  have load: "map_res (\<lambda>t. t) (mvp_tools H @ recovery_tools H @ inspection_tools H @ repair_tools H) = Inr ts"
    by (simp add: ts_def tool_lists)
  have names: "map td_name ts = tool_names" by (simp add: ts_def tool_lists tool_names_def)
  have "distinct tool_names" by (simp add: tool_names_def)
  then have "distinct (map fst (map (\<lambda>t. (td_name t, t)) ts))" using names by (simp add: comp_def)
  then have "registry_of H = Inr (map (\<lambda>t. (td_name t, t)) ts)" by (simp add: registry_of_def load dict_of_distinct)
  then show thesis using names
    by (rule that) (simp_all add: ts_def tool_lists tool_names_def destructive_tools_def reading_tools_def)
qed

section \<open>What the checks promise\<close>

lemma validate_params_iff:
  "validate_params t ps = Inr qs \<longleftrightarrow> qs = ps \<and> (\<forall>k \<in> set (td_required t). dhas ps k)
    \<and> (\<forall>kv \<in> set ps. case param_type t (fst kv) of None \<Rightarrow> True | Some ty \<Rightarrow> has_json_type ty (snd kv))"
  unfolding validate_params_def
  by (auto split: option.splits simp: find_None_iff find_Some_iff bad_param_def)

lemma unconfirmed_swap_changes_nothing:
  assumes "row_get params ''confirm'' \<noteq> PStr (expected_target_confirm (st_dsn V) (st_database V) (target_engine P (st_engine V) params))"
  shows "snd (swap_target_apply P V service params w) = w"
  using assms by (simp add: swap_target_apply_def Let_def)

section \<open>The step machines run in order\<close>

definition at_step :: "workflow_spec \<Rightarrow> nat \<Rightarrow> workflow_state \<Rightarrow> bool" where
  "at_step W n s = (wk_completed s = take n (step_names W)
     \<and> wk_current s = (if n < length (step_names W) then step_names W ! n else []))"

lemma step_after_nth: "distinct xs \<Longrightarrow> n < length xs \<Longrightarrow> step_after (xs ! n) xs = (if Suc n < length xs then xs ! Suc n else [])"
proof (induction "xs ! n" xs arbitrary: n rule: step_after.induct)
  case (3 x y xs)
  show ?case
  proof (cases n)
    case (Suc m)
    then have "(y # xs) ! m \<in> set (y # xs)" using 3(3) by (intro nth_mem) simp
    then have "(y # xs) ! m \<noteq> x" using 3(2) by (metis distinct.simps(2))
    then show ?thesis using 3(1) [of m] 3(2,3) Suc by auto
  qed simp
qed simp_all

lemma workflow_steps_ok: "dget workflows name = Some W \<Longrightarrow> distinct (step_names W) \<and> step_names W \<noteq> [] \<and> [] \<notin> set (step_names W)"
  by (auto simp: workflows_def step_names_def dget_def split: if_splits)

lemma wf_advance_step:
  assumes "dget workflows (wk_name s) = Some W" and "at_step W n s" and "n < length (step_names W)"
  shows "\<exists>s'. wf_advance s (step_names W ! n) = Inr s' \<and> at_step W (Suc n) s' \<and> wk_name s' = wk_name s \<and> wk_context s' = wk_context s"
  using assms workflow_steps_ok [OF assms(1)]
  by (auto simp: wf_advance_def at_step_def step_after_nth take_Suc_conv_app_nth)

text \<open>
  A guided workflow goes through its steps in order and misses none: from its start, completing
  the steps that are asked for leads after \<open>n\<close> rounds to the \<open>n\<close>-th step with exactly the earlier
  ones done, any other step is refused, and it is complete when every step is done and not before.
\<close>

theorem workflow_in_order:
  assumes "dget workflows name = Some W" and "wf_start name ctx = Inr s0" and "n \<le> length (step_names W)"
  shows "\<exists>s. fold_res (\<lambda>step s. wf_advance s step) (take n (step_names W)) s0 = Inr s \<and> wk_completed s = take n (step_names W)
    \<and> (is_complete s \<longleftrightarrow> n = length (step_names W)) \<and> wk_name s = name \<and> wk_context s = ctx
    \<and> (\<forall>step s'. wf_advance s step = Inr s' \<longrightarrow> n < length (step_names W) \<and> step = step_names W ! n)"
proof -
  note ok = workflow_steps_ok [OF assms(1)]
  have "\<exists>s. fold_res (\<lambda>step s. wf_advance s step) (take n (step_names W)) s0 = Inr s \<and> at_step W n s \<and> wk_name s = name \<and> wk_context s = ctx"
    using assms(3)
  proof (induction n)
    case 0
    have "step_names W \<noteq> []" using ok by simp
    then show ?case using assms(1,2) by (auto simp: wf_start_def at_step_def hd_conv_nth)
  next
    case (Suc n)
    then obtain s where s: "fold_res (\<lambda>step s. wf_advance s step) (take n (step_names W)) s0 = Inr s" "at_step W n s"
      "wk_name s = name" "wk_context s = ctx" by auto
    then show ?case using wf_advance_step [of s W n] assms(1) Suc.prems
      by (auto simp: take_Suc_conv_app_nth fold_res_append)
  qed
  then obtain s where s: "fold_res (\<lambda>step s. wf_advance s step) (take n (step_names W)) s0 = Inr s" "at_step W n s"
    "wk_name s = name" "wk_context s = ctx" by blast
  have "n < length (step_names W) \<and> step = step_names W ! n" if "wf_advance s step = Inr s'" for step s'
    using that s(2,3) assms(1,3) ok by (auto simp: wf_advance_def at_step_def split: if_splits)
  moreover have "is_complete s \<longleftrightarrow> n = length (step_names W)"
  proof -
    have "n < length (step_names W) \<Longrightarrow> step_names W ! n \<noteq> []" using ok nth_mem [of n "step_names W"] by metis
    then show ?thesis using s(2) assms(3) by (auto simp: is_complete_def at_step_def)
  qed
  moreover have "wk_completed s = take n (step_names W)" using s(2) by (simp add: at_step_def)
  ultimately show ?thesis using s by blast
qed

theorem workflow_in_order_witness:
  "\<exists>s. fold_res (\<lambda>step s. wf_advance s step) [''dry_run'', ''remap''] \<lparr>wk_name = ''swap'', wk_current = ''dry_run'', wk_completed = [], wk_context = []\<rparr>
      = Inr s \<and> wk_completed s = [''dry_run'', ''remap''] \<and> \<not> is_complete s
      \<and> (\<exists>m. wf_advance s ''apply'' = Inl (ValidationError m))"
proof -
  obtain W where W: "dget workflows ''swap'' = Some W" and steps: "step_names W = [''dry_run'', ''remap'', ''confirm'', ''apply'']"
    by (simp add: workflows_def dget_def step_names_def)
  have start: "wf_start ''swap'' [] = Inr \<lparr>wk_name = ''swap'', wk_current = ''dry_run'', wk_completed = [], wk_context = []\<rparr>"
    by (simp add: wf_start_def W steps)
  obtain s where s: "fold_res (\<lambda>step s. wf_advance s step) [''dry_run'', ''remap''] \<lparr>wk_name = ''swap'', wk_current = ''dry_run'', wk_completed = [], wk_context = []\<rparr> = Inr s"
    and done': "wk_completed s = [''dry_run'', ''remap'']" "\<not> is_complete s" "wk_name s = ''swap''"
    and only: "\<And>step s'. wf_advance s step = Inr s' \<Longrightarrow> step = ''confirm''"
    using workflow_in_order [OF W start, of 2] by (auto simp: steps numeral_2_eq_2)
  have "wk_current s \<noteq> ''apply''"
  proof
    assume "wk_current s = ''apply''"
    then have "\<exists>s'. wf_advance s ''apply'' = Inr s'" by (simp add: wf_advance_def done'(3) W steps)
    then show False using only by fastforce
  qed
  then have "\<exists>m. wf_advance s ''apply'' = Inl (ValidationError m)" by (simp add: wf_advance_def done'(3) W)
  with s done'(1,2) show ?thesis by - (rule exI [of _ s], intro conjI)
qed

text \<open>
  What the assistant reports as blocking and what deploy refuses: a deployed proposal has no blocker
  but the required columns that were unmet when it was proposed. That list is not brought up to date
  when a mapping is added, so a proposal that deploys may still be reported as blocked.
\<close>

lemma get_review_selects:
  assumes "get_review c pid = Inr (p, e, fs)"
  shows "select_one (\<lambda>p. po_id p = pid \<and> list_ex (\<lambda>e. en_id e = po_entity_id p) (entities c)) (proposals c) = Some p"
    and "set fs = {r \<in> set (field_reviews c). rv_proposal_id r = pid}"
proof -
  have one: "set (insert_by_conf r acc) = insert r (set acc)" for r acc by (induction r acc rule: insert_by_conf.induct) auto
  have ins: "set (fold insert_by_conf rs acc) = set rs \<union> set acc" for rs acc
    by (induction rs arbitrary: acc) (auto simp: one)
  show "select_one (\<lambda>p. po_id p = pid \<and> list_ex (\<lambda>e. en_id e = po_entity_id p) (entities c)) (proposals c) = Some p"
    using assms unfolding get_review_def by (auto split: option.splits)
  have "fs = fold insert_by_conf (filter (\<lambda>r. rv_proposal_id r = pid) (field_reviews c)) []"
    using assms unfolding get_review_def by (auto split: option.splits)
  then show "set fs = {r \<in> set (field_reviews c). rv_proposal_id r = pid}" by (auto simp: ins)
qed

lemma deployed_has_no_other_blocker:
  assumes "deploy_to_lrmis D agent now c pid by = Inr (Deployed d, c')" and "explain_blocker c pid = Inr b"
  shows "length (bl_blockers b) = length (bl_unmet b)" and "bl_ready b \<longleftrightarrow> bl_unmet b = []"
proof -
  obtain p e ms where l: "load_proposal_mappings c pid = Inr (p, e, ms)" and st: "po_status p = PApproved \<or> po_status p = PAutoApproved"
    and ne: "ms \<noteq> []"
    using assms(1) by (rule deploy_to_lrmis_cases) auto
  obtain q x fs where g: "get_review c pid = Inr (q, x, fs)"
    and b: "b = \<lparr>bl_status = po_status q, bl_accepted = length (filter counts_as_accepted fs), bl_unmet = po_unmet q,
             bl_blockers = blockers_of q (filter counts_as_accepted fs), bl_ready = (blockers_of q (filter counts_as_accepted fs) = [])\<rparr>"
    using assms(2) unfolding explain_blocker_def by (auto simp: res_bind_Inr_iff Let_def)
  have "q = p" using get_review_selects(1) [OF g] l unfolding load_proposal_mappings_def by (auto split: option.splits)
  have "ms = List.map_filter accepted_mapping (filter (\<lambda>r. rv_proposal_id r = pid \<and> usable_review r) (field_reviews c))"
    using load_proposal_selects [OF l] by blast
  then obtain r where "r \<in> set (field_reviews c)" "rv_proposal_id r = pid" "usable_review r" "accepted_mapping r \<noteq> None"
    using ne by (auto simp: List.map_filter_def filter_empty_conv)
  then have "r \<in> set fs" "counts_as_accepted r"
    using get_review_selects(2) [OF g] by (auto simp: counts_as_accepted_def accepted_mapping_def Let_def split: if_splits)
  then have "filter counts_as_accepted fs \<noteq> []" by (auto simp: filter_empty_conv)
  then show "length (bl_blockers b) = length (bl_unmet b)" and "bl_ready b \<longleftrightarrow> bl_unmet b = []"
    using st by (auto simp: b \<open>q = p\<close> blockers_of_def)
qed

definition stale_unmet :: "(blocker_report \<times> (deploy_outcome \<times> central)) res" where
  "stale_unmet = res_bind demo_proposed (\<lambda>(pr, c).
     let c1 = c\<lparr>proposals := map (\<lambda>p. p\<lparr>po_unmet := [''school.title'']\<rparr>) (proposals c)\<rparr>
     in res_bind (explain_blocker c1 (pp_proposal pr)) (\<lambda>b.
        res_bind (deploy_to_lrmis demo_deploy None 20 c1 (pp_proposal pr) ''ana'') (\<lambda>out. Inr (b, out))))"

lemma deployable_proposal_reported_blocked:
  "case stale_unmet of Inl _ \<Rightarrow> False
     | Inr (b, out, c) \<Rightarrow> \<not> bl_ready b \<and> (case out of Deployed d \<Rightarrow> True | _ \<Rightarrow> False)"
  by code_simp

end
