(* ===== verification/Chat_Templates.thy ===== *)
theory Chat_Templates
  imports Admin_Jobs
begin

text \<open>
  The reply templates of \<open>src/agent/conversation.py\<close>: one deterministic text per tool, made from the
  tool's result, so that the assistant answers without a language model. A template may raise on
  a result of another shape; \<open>render_result\<close> then falls back to a fixed sentence. Dashes and
  ellipses are written in ASCII.
\<close>

section \<open>Reading a result\<close>

definition vget :: "pyval \<Rightarrow> string \<Rightarrow> pyval \<Rightarrow> pyval res" where
  "vget v k d = (case v of PDict r \<Rightarrow> Inr (pget r k d) | _ \<Rightarrow> Inl (no_attribute v ''get''))"

definition or_v :: "pyval \<Rightarrow> pyval \<Rightarrow> pyval" where
  "or_v x y = (if truthy x then x else y)"

definition vtext :: "runtime \<Rightarrow> pyval \<Rightarrow> string \<Rightarrow> string \<Rightarrow> string res" where
  "vtext P v k d = res_bind (vget v k (PStr d)) (\<lambda>x. Inr (py_str P x))"

definition rtext :: "runtime \<Rightarrow> row \<Rightarrow> string \<Rightarrow> string \<Rightarrow> string" where
  "rtext P r k d = py_str P (pget r k (PStr d))"

text \<open>\<open>v.get(k1) or v.get(k2) or d\<close> for a dictionary \<open>v\<close>.\<close>

definition first_of :: "runtime \<Rightarrow> string list \<Rightarrow> string \<Rightarrow> pyval \<Rightarrow> string res" where
  "first_of P ks d v = res_bind (map_res (\<lambda>k. vget v k PNone) ks)
     (\<lambda>xs. Inr (case find truthy xs of None \<Rightarrow> d | Some x \<Rightarrow> py_str P x))"

definition str_of :: "pyval \<Rightarrow> string res" where
  "str_of v = (case v of PStr s \<Rightarrow> Inr s | _ \<Rightarrow> Inl (TypeError (''expected str instance, '' @ type_name v @ '' found'')))"

definition items_of :: "pyval \<Rightarrow> row res" where
  "items_of v = (case v of PDict r \<Rightarrow> Inr r | _ \<Rightarrow> Inl (no_attribute v ''items''))"

text \<open>\<open>v[:n]\<close> and \<open>len(v)\<close>.\<close>

definition sliced :: "nat \<Rightarrow> pyval \<Rightarrow> pyval list res" where
  "sliced n v = (case v of PList vs \<Rightarrow> Inr (take n vs) | PStr s \<Rightarrow> Inr (map (\<lambda>c. PStr [c]) (take n s))
     | _ \<Rightarrow> Inl (TypeError (quoted (type_name v) @ '' object is not subscriptable'')))"

definition len_of :: "pyval \<Rightarrow> nat res" where
  "len_of v = (case v of PList vs \<Rightarrow> Inr (length vs) | PStr s \<Rightarrow> Inr (length s) | PDict r \<Rightarrow> Inr (length r)
     | _ \<Rightarrow> Inl (TypeError (''object of type '' @ quoted (type_name v) @ '' has no len()'')))"

definition lines :: "string list \<Rightarrow> string" where
  "lines ls = join [char_of (10 :: nat)] ls"

definition bullets :: "string list \<Rightarrow> string list" where
  "bullets xs = map (\<lambda>x. ''- '' @ x) xs"

text \<open>\<open>[f"- {x}" for x in v or []]\<close>.\<close>

definition bullet_items :: "runtime \<Rightarrow> pyval \<Rightarrow> string list res" where
  "bullet_items P v = res_bind (iter_of (or_v v (PList []))) (\<lambda>xs. Inr (bullets (map (py_str P) xs)))"

definition column_of :: "runtime \<Rightarrow> pyval \<Rightarrow> string res" where
  "column_of P m = res_bind (vget m ''target_table'' PNone) (\<lambda>t. res_bind (vget m ''target_column'' PNone)
     (\<lambda>c. Inr (py_str P t @ ''.'' @ py_str P c)))"

definition arrow_of :: "runtime \<Rightarrow> pyval \<Rightarrow> string res" where
  "arrow_of P m = res_bind (vget m ''source_column'' PNone) (\<lambda>s. res_bind (column_of P m) (\<lambda>t. Inr (py_str P s @ '' -> '' @ t)))"

definition row_arrow :: "runtime \<Rightarrow> row \<Rightarrow> string res" where
  "row_arrow P r = arrow_of P (PDict r)"

definition ticked :: "string \<Rightarrow> string" where
  "ticked s = [bt] @ s @ [bt]"

section \<open>The templates\<close>

definition fmt_check_status :: "runtime \<Rightarrow> row \<Rightarrow> string res" where
  "fmt_check_status P r = res_bind (items_of (or_v (row_get r ''outbox'') (PDict []))) (\<lambda>kvs.
     let counts = map (\<lambda>(k, v). k @ '': '' @ py_str P v) kvs;
         parts = (if counts = [] then [''no outbox data''] else counts);
         q = row_get r ''quarantine_unresolved''
     in Inr (lines (''Integration status:'' # bullets (parts
          @ (if q = PNone then [] else [''unresolved quarantine: '' @ py_str P q])))))"

definition mapping_line :: "runtime \<Rightarrow> pyval \<Rightarrow> string res" where
  "mapping_line P f =
     res_bind (first_of P [''resolved_target_column'', ''suggested_target_column''] ''?'' f) (\<lambda>col.
     res_bind (vget f ''suggested_target_table'' PNone) (\<lambda>t.
     res_bind (first_of P [''review_id''] ''?'' f) (\<lambda>i.
     res_bind (vget f ''source_column'' PNone) (\<lambda>s.
       Inr (''review '' @ i @ '': '' @ py_str P s @ '' -> '' @ py_str P t @ ''.'' @ col)))))"

definition fmt_summarize :: "runtime \<Rightarrow> row \<Rightarrow> string res" where
  "fmt_summarize P r =
     (let summary = or_v (row_get r ''summary'') (PStr ''Proposal summary unavailable.'');
          ms = or_v (row_get r ''accepted_mappings'') (PList [])
      in res_bind (str_of summary) (\<lambda>s.
         if \<not> truthy ms then Inr s
         else res_bind (sliced 20 ms) (\<lambda>shown. res_bind (map_res (mapping_line P) shown) (\<lambda>ps. res_bind (len_of ms) (\<lambda>n.
           Inr (lines ([s, ''Accepted mappings:''] @ bullets ps
             @ (if n > 20 then [''(+'' @ nat_str (n - 20) @ '' more)''] else []))))))))"

definition fmt_blocker :: "runtime \<Rightarrow> row \<Rightarrow> string res" where
  "fmt_blocker P r =
     (if truthy (row_get r ''deploy_ready'') then Inr ''Nothing is blocking - this proposal is ready to deploy.''
      else res_bind (bullet_items P (or_v (row_get r ''blockers'') (PList [PStr ''unknown blocker''])))
        (\<lambda>bs. Inr (lines (''Blocked:'' # bs))))"

definition tree_names :: "runtime \<Rightarrow> pyval \<Rightarrow> string list res" where
  "tree_names P tree = res_bind (vget (or_v tree (PDict [])) ''tables'' PNone) (\<lambda>ts.
     case or_v ts (PList []) of
       PDict kvs \<Rightarrow> Inr (sort (dkeys kvs))
     | ts' \<Rightarrow> res_bind (iter_of ts') (map_res (\<lambda>t. case t of PDict d \<Rightarrow> str_of (pget d ''name'' (PStr ''?'')) | _ \<Rightarrow> Inr (py_str P t))))"

definition side_lines :: "string \<Rightarrow> string list \<Rightarrow> string list" where
  "side_lines side names = (side @ '': '' @ nat_str (length names) @ '' tables'')
     # (if names = [] then [] else [''- '' @ join '', '' (take 8 names) @ (if length names > 8 then ''...'' else [])])"

definition fmt_schema :: "runtime \<Rightarrow> row \<Rightarrow> string res" where
  "fmt_schema P r = res_bind (tree_names P (row_get r ''source'')) (\<lambda>src. res_bind (tree_names P (row_get r ''target'')) (\<lambda>tgt.
     Inr (lines (side_lines ''Source'' src @ side_lines ''Target'' tgt))))"

definition fmt_guidance :: "runtime \<Rightarrow> row \<Rightarrow> string res" where
  "fmt_guidance P r =
     (let actions = row_get r ''recommended_actions'';
          lead = ''This proposal is '' @ (if truthy (row_get r ''deploy_ready'') then ''ready to deploy'' else ''not deploy-ready'') @ ''.''
      in if \<not> truthy actions then Inr lead
         else res_bind (bullet_items P actions) (\<lambda>as. Inr (lines ([lead, ''Next:''] @ as))))"

definition option_label :: "runtime \<Rightarrow> pyval \<Rightarrow> string res" where
  "option_label P v = res_bind (vget v ''action'' (PStr ''?'')) (\<lambda>a. res_bind (vget v ''label'' a) (\<lambda>l. Inr (py_str P l)))"

definition fmt_dilemma :: "runtime \<Rightarrow> row \<Rightarrow> string res" where
  "fmt_dilemma P r = res_bind (res_bind (iter_of (or_v (row_get r ''options'') (PList []))) (map_res (option_label P))) (\<lambda>ls.
     Inr (lines ([''Options for this '' @ rtext P r ''kind'' ''dilemma'' @ '':''] @ bullets ls
       @ [''Recommended: '' @ rtext P r ''recommended'' ''manual'' @ ''.''])))"

definition fmt_onboard :: "runtime \<Rightarrow> row \<Rightarrow> string res" where
  "fmt_onboard P r =
     (let note = or_v (row_get r ''note'') (PStr []); p = or_v (row_get r ''proposal'') (PDict [])
      in res_bind (vget p ''proposal_id'' PNone) (\<lambda>a. res_bind (vget p ''id'' PNone) (\<lambda>b.
         let pid = or_v a b;
             lead = (if truthy pid then ''Created proposal '' @ py_str P pid @ '' for review.'' else ''Created a proposal for review.'')
         in if truthy note then res_bind (str_of note) (\<lambda>n. Inr (lines [lead, n])) else Inr lead)))"

text \<open>\<open>json.dumps(v)\<close>: insertion order; a value JSON does not know raises.\<close>

fun json_ordered :: "runtime \<Rightarrow> pyval \<Rightarrow> string" where
  "json_ordered P (PList vs) = ''['' @ join '', '' (map (json_ordered P) vs) @ '']''"
| "json_ordered P (PDict kvs) = ''{'' @ join '', '' (map (\<lambda>kv. json_string (fst kv) @ '': '' @ json_ordered P (snd kv)) kvs) @ ''}''"
| "json_ordered P v = json_text P v"

definition json_dumps :: "runtime \<Rightarrow> pyval \<Rightarrow> string res" where
  "json_dumps P v = (if json_plain v then Inr (json_ordered P v) else Inl (TypeError ''Object is not JSON serializable''))"

definition fmt_heal :: "runtime \<Rightarrow> row \<Rightarrow> string res" where
  "fmt_heal P r = res_bind (json_dumps P (or_v (row_get r ''detail'') (PDict []))) (\<lambda>d.
     Inr (lines ([''Proposed heal: '' @ rtext P r ''action'' ''?'', ''- detail: '' @ d]
       @ (if truthy (row_get r ''note'') then [py_str P (row_get r ''note'')] else []))))"

definition fmt_drift_list :: "runtime \<Rightarrow> row \<Rightarrow> string res" where
  "fmt_drift_list P r =
     (let n = pget r ''count'' (PInt 0)
      in if \<not> truthy n then Inr ''No drift reports recorded - schemas match their contracts.''
         else res_bind (iter_of (or_v (row_get r ''reports'') (PList [PDict []]))) (\<lambda>rs.
           case rs of [] \<Rightarrow> Inl (KeyError ''0'')
           | latest # _ \<Rightarrow> res_bind (vget latest ''impacted_entities'' PNone) (\<lambda>im. res_bind (iter_of (or_v im (PList []))) (\<lambda>is.
               res_bind (vtext P latest ''target_system'' ''?'') (\<lambda>sys.
               let names = join '', '' (map (py_str P) is)
               in Inr (lines [py_str P n @ '' drift report(s).'', ''- latest target: '' @ sys,
                    ''- impacted entities: '' @ (if names = [] then ''none'' else names),
                    ''Say '' @ [dq] @ ''resolve drift'' @ [dq] @ '' to re-map and re-deliver them (confirmation required).'']))))))"

definition fmt_resolve_drift :: "row \<Rightarrow> string res" where
  "fmt_resolve_drift r = Inr (if truthy (row_get r ''dry_run'') then ''Drift resolution dry-run complete - nothing was changed.''
     else ''Drift resolution ran. Full result attached.'')"

definition fmt_swap_dry_run :: "runtime \<Rightarrow> row \<Rightarrow> string res" where
  "fmt_swap_dry_run P r =
     (let affected = or_v (row_get r ''would_remap'') (PList [])
      in if \<not> truthy affected
         then Inr ''Swap preview: no deployed entities are affected by the target diff - an apply would only recreate and re-deliver.''
         else res_bind (len_of affected) (\<lambda>n. res_bind (iter_of affected) (\<lambda>xs.
           Inr (lines [''Swap preview: '' @ nat_str n @ '' affected entities'', ''- '' @ join '', '' (map (py_str P) xs),
             ''Applying will:'', ''- re-map affected entities (human-gated)'', ''- recreate the target'', ''- re-deliver'',
             ''Destructive - typed confirmation required.'']))))"

definition fmt_swap_apply :: "runtime \<Rightarrow> row \<Rightarrow> string res" where
  "fmt_swap_apply P r =
     (let status = pget r ''status'' (PStr ''?'')
      in if status = PStr ''blocked_on_review''
         then res_bind (bullet_items P (row_get r ''blocked'')) (\<lambda>bs.
           Inr (lines (''Swap blocked on low-confidence re-mappings:'' # bs @ [''Resolve them, or re-run with force.''])))
         else Inr (''Target swap '' @ py_str P status @ ''.''))"

section \<open>Jobs and repairs\<close>

definition dicts_of :: "pyval list \<Rightarrow> pyval list" where
  "dicts_of vs = filter (\<lambda>v. case v of PDict d \<Rightarrow> True | _ \<Rightarrow> False) vs"

definition repair_reviews :: "pyval \<Rightarrow> pyval list res" where
  "repair_reviews it = res_bind (vget it ''diagnostic'' PNone) (\<lambda>d0.
     let d = or_v d0 (PDict [])
     in res_bind (vget d ''mapping_review'' PNone) (\<lambda>m. res_bind (vget d ''suspect_mapping_reviews'' PNone) (\<lambda>s0.
        res_bind (iter_of (or_v s0 (PList []))) (\<lambda>ss.
        let rs = (if truthy m then [m] else []) @ ss
        in Inr (dicts_of (rs @ (if truthy m \<and> m \<notin> set rs then [m] else [])))))))"

definition repair_gated_calls :: "pyval \<Rightarrow> pyval list res" where
  "repair_gated_calls it = res_bind (vget it ''gated_tools'' PNone) (\<lambda>cs. res_bind (vget it ''gated_tool'' PNone) (\<lambda>g.
     res_bind (iter_of (or_v cs (PList []))) (\<lambda>calls. Inr (dicts_of ((if truthy g then [g] else []) @ calls)))))"

definition command_for_tool_call :: "runtime \<Rightarrow> pyval \<Rightarrow> string option res" where
  "command_for_tool_call P call = res_bind (vget call ''tool'' PNone) (\<lambda>tool. res_bind (vget call ''params'' PNone) (\<lambda>ps0.
     let ps = or_v ps0 (PDict [])
     in res_bind (if tool = PStr ''reopen_mapping_review'' \<or> tool = PStr ''reject_mapping_review''
                  then vget ps ''review_id'' PNone else Inr PNone) (\<lambda>rid.
        Inr (if truthy rid then Some (ticked ((if tool = PStr ''reopen_mapping_review'' then ''reopen mapping review ''
               else ''reject mapping review '') @ py_str P rid))
             else if tool = PStr ''repair_duplicate_key'' then Some (ticked ''repair duplicate key ...'')
             else if truthy tool then Some (ticked (py_str P tool)) else None))))"

definition review_line :: "runtime \<Rightarrow> pyval \<Rightarrow> string res" where
  "review_line P rv = res_bind (vget rv ''proposal_id'' PNone) (\<lambda>p. res_bind (vget rv ''review_id'' PNone) (\<lambda>i.
     res_bind (first_of P [''source_column''] ''?'' rv) (\<lambda>src. res_bind (column_of P rv) (\<lambda>tgt.
     Inr (''  - '' @ join '' '' ((if truthy p then [''proposal '' @ py_str P p] else [])
        @ (if truthy i then [''review '' @ py_str P i] else []) @ [src @ '' -> '' @ tgt]))))))"

definition handle_lines :: "runtime \<Rightarrow> pyval \<Rightarrow> string list res" where
  "handle_lines P it =
     res_bind (first_of P [''entity''] ''unknown'' it) (\<lambda>e. res_bind (first_of P [''category''] ''unknown'' it) (\<lambda>cat.
     res_bind (repair_reviews it) (\<lambda>rs. res_bind (map_res (review_line P) (take 3 rs)) (\<lambda>rls.
     res_bind (repair_gated_calls it) (\<lambda>cs. res_bind (map_res (command_for_tool_call P) (take 3 cs)) (\<lambda>cmds.
       Inr ([''- '' @ e @ '' ['' @ cat @ '']''] @ rls
         @ map (\<lambda>c. ''  - command: '' @ c) (List.map_filter (\<lambda>c. c) cmds))))))))"

definition fmt_job_repair_handles :: "runtime \<Rightarrow> pyval \<Rightarrow> string res" where
  "fmt_job_repair_handles P plan = res_bind (vget plan ''items'' PNone) (\<lambda>is.
     if \<not> truthy is then Inr []
     else res_bind (sliced 3 is) (\<lambda>items. res_bind (map_res (handle_lines P) items) (\<lambda>ls.
       Inr (lines (''Repair handles:'' # concat ls)))))"

definition failure_line :: "runtime \<Rightarrow> pyval \<Rightarrow> string res" where
  "failure_line P f = res_bind (first_of P [''entity''] ''?'' f) (\<lambda>e. res_bind (vget f ''error'' PNone) (\<lambda>er.
     res_bind (vget f ''status'' PNone) (\<lambda>st. Inr (''- '' @ e @ '': '' @ py_str P (or_v er st)))))"

definition fmt_inspect_job :: "runtime \<Rightarrow> row \<Rightarrow> string res" where
  "fmt_inspect_job P r =
     (let failures = or_v (row_get r ''failures'') (PList []); err = row_get r ''error_message'';
          head = [''Job '' @ rtext P r ''job_id'' ''?'' @ '' ('' @ rtext P r ''job_type'' ''?'' @ '') is '' @ rtext P r ''status'' ''?'' @ ''.'']
            @ (if row_get r ''progress_total'' = PNone then [] else [''- progress: ''
                 @ py_str P (pget r ''progress_current'' (PInt 0)) @ ''/'' @ py_str P (row_get r ''progress_total'')])
            @ (if truthy err then [''- error: '' @ py_str P err] else [])
      in res_bind (if truthy failures then res_bind (sliced 3 failures) (\<lambda>fs. res_bind (map_res (failure_line P) fs)
             (\<lambda>ls. Inr (''Failures:'' # ls))) else Inr []) (\<lambda>fls.
         res_bind (fmt_job_repair_handles P (or_v (row_get r ''repair_plan'') (PDict []))) (\<lambda>h.
           Inr (lines (head @ fls @ (if h = [] then [] else [h]))))))"

definition count_text :: "runtime \<Rightarrow> pyval \<Rightarrow> string res" where
  "count_text P c = (case c of
       PDict d \<Rightarrow> Inr (py_str P (row_get d ''table'') @ '': ''
         @ (if dhas d ''rows'' then py_str P (row_get d ''rows'') else rtext P d ''error'' ''?''))
     | v \<Rightarrow> Inl (no_attribute v ''get''))"

definition fmt_diagnose_entity :: "runtime \<Rightarrow> row \<Rightarrow> string res" where
  "fmt_diagnose_entity P r =
     (let counts = or_v (row_get r ''target_counts'') (PList []); job = or_v (row_get r ''latest_job'') (PDict []);
          recs = row_get r ''recommendations''
      in res_bind (if truthy counts then res_bind (res_bind (iter_of counts) (map_res (count_text P))) (\<lambda>cs. Inr (join '', '' cs))
             else Inr ''no target tables recorded'') (\<lambda>ct.
         res_bind (if truthy job then res_bind (vtext P job ''job_type'' ''None'') (\<lambda>t. res_bind (vtext P job ''status'' ''None'')
             (\<lambda>st. Inr [''- latest job: '' @ t @ '' '' @ st])) else Inr []) (\<lambda>jl.
         res_bind (if truthy recs then res_bind (bullet_items P recs) (\<lambda>bs. Inr (''Next:'' # bs))
             else Inr [''Next: no recommendation.'']) (\<lambda>rl.
           Inr (lines ([rtext P r ''entity'' ''?'' @ '' is '' @ rtext P r ''entity_status'' ''?'' @ ''.'',
             ''- target counts: '' @ ct] @ jl @ rl))))))"

definition action_line :: "runtime \<Rightarrow> pyval \<Rightarrow> string res" where
  "action_line P a = res_bind (vget a ''action'' PNone) (\<lambda>act.
     if act = PStr ''add_mapping''
     then res_bind (first_of P [''source_column''] ''<source_column>'' a) (\<lambda>src. res_bind (column_of P a) (\<lambda>t.
       Inr (''- add '' @ ticked (src @ '' -> '' @ t))))
     else res_bind (vget a ''reason'' PNone) (\<lambda>why. Inr (''- '' @ py_str P (or_v why act))))"

definition fmt_deploy_error :: "runtime \<Rightarrow> row \<Rightarrow> string res" where
  "fmt_deploy_error P r =
     (let missing = row_get r ''missing_required''; actions = row_get r ''suggested_actions''
      in res_bind (if truthy missing then res_bind (res_bind (iter_of missing) (map_res (column_of P))) (\<lambda>cs.
               Inr (''Deploy is blocked - required target columns are unmapped:'' # bullets cs))
             else res_bind (str_of (or_v (row_get r ''summary'') (PStr ''Deploy error parsed.''))) (\<lambda>s. Inr [s])) (\<lambda>head.
         res_bind (if truthy actions then res_bind (res_bind (sliced 4 actions) (map_res (action_line P))) (\<lambda>ls.
               Inr (''Suggested:'' # ls)) else Inr []) (\<lambda>tail.
           Inr (lines (head @ tail)))))"

definition titled :: "string \<Rightarrow> string list \<Rightarrow> string list" where
  "titled t xs = (if xs = [] then [] else t # bullets xs)"

definition fmt_resolve_deploy_job_repair :: "runtime \<Rightarrow> row \<Rightarrow> string res" where
  "fmt_resolve_deploy_job_repair P r =
     (let job = row_get r ''job_id''; pid = row_get r ''proposal_id'';
          each = (\<lambda>k f. res_bind (iter_of (or_v (row_get r k) (PList []))) (map_res f))
      in res_bind (each ''missing_required'' (column_of P)) (\<lambda>missing.
         res_bind (each ''draft_mappings'' (arrow_of P)) (\<lambda>drafts.
         res_bind (each ''manual_required'' (column_of P)) (\<lambda>manual.
           Inr (lines ((if truthy job then [''Job '' @ py_str P job @ ''.''] else [])
             @ [if truthy pid then ''Proposal '' @ py_str P pid @ '' recovered from the job.''
                else ''Could not recover a proposal id from that job - reply with a proposal id, or open the job in the job drawer.'']
             @ titled ''Missing required target columns:'' missing
             @ titled (''Draft repair ('' @ nat_str (length drafts) @ '' mapping(s), confirmation required):'') drafts
             @ titled ''Needs a manual source-column choice:'' manual
             @ (if truthy pid then [''Open the proposal: /mappings/'' @ py_str P pid,
                  ''Approved proposals can leave the review queue but stay reachable by URL.''] else [])
             @ [''After repair: review, approve, then redeploy - nothing redeploys automatically.'']))))))"

definition fmt_diagnose_duplicate :: "runtime \<Rightarrow> row \<Rightarrow> string res" where
  "fmt_diagnose_duplicate P r = res_bind (column_of P (PDict r)) (\<lambda>target.
     let entity = py_str P (row_get r ''entity'')
     in if truthy (row_get r ''safe_to_repair'')
        then Inr (lines [''Duplicate-key repair is safe to prepare for '' @ entity @ ''.'',
          ''- '' @ target @ ''='' @ py_str P (row_get r ''target_id'') @ '' exists, not claimed by another crosswalk row.'',
          ''Confirm '' @ ticked ''repair_duplicate_key'' @ '' to record the missing crosswalk, then retry refresh for this entity.''])
        else res_bind (bullet_items P (or_v (row_get r ''reasons'') (PList [PStr ''manual review required'']))) (\<lambda>bs.
          Inr (lines ((''Duplicate-key repair is not safe to auto-prepare for '' @ entity @ '':'') # bs))))"

definition gated_line :: "runtime \<Rightarrow> pyval \<Rightarrow> string res" where
  "gated_line P call = res_bind (vget call ''params'' PNone) (\<lambda>ps. res_bind (vget call ''tool'' PNone) (\<lambda>t.
     let lead = ''  - gated action: '' @ ticked (py_str P t)
     in if \<not> truthy ps then Inr lead
        else res_bind (items_of ps) (\<lambda>kvs. Inr (lead @ '' ('' @ join '', '' (map (\<lambda>(k, v). k @ ''='' @ py_str P v) kvs) @ '')''))))"

definition plan_item_lines :: "runtime \<Rightarrow> pyval \<Rightarrow> string list res" where
  "plan_item_lines P it =
     res_bind (first_of P [''entity''] ''unknown'' it) (\<lambda>e. res_bind (first_of P [''category''] ''unknown'' it) (\<lambda>cat.
     res_bind (first_of P [''diagnosis''] ''inspect manually'' it) (\<lambda>dg.
     res_bind (vget it ''gated_tools'' PNone) (\<lambda>gs. res_bind (vget it ''gated_tool'' PNone) (\<lambda>g.
     let gated = or_v gs (if truthy g then PList [g] else PList [])
     in res_bind (if truthy gated then res_bind (sliced 3 gated) (map_res (gated_line P))
             else res_bind (vget it ''next_steps'' PNone) (\<lambda>ns. res_bind (sliced 2 (or_v ns (PList []))) (\<lambda>xs.
               Inr (map (\<lambda>x. ''  - next: '' @ py_str P x) xs)))) (\<lambda>tail.
        Inr ((''- '' @ e @ '' ['' @ cat @ '']: '' @ dg) # tail)))))))"

definition fmt_refresh_repair_plan :: "runtime \<Rightarrow> row \<Rightarrow> string res" where
  "fmt_refresh_repair_plan P r =
     (let items = or_v (row_get r ''items'') (PList []); summary = row_get r ''summary''
      in if \<not> truthy items then str_of (or_v summary (PStr ''No refresh failures to repair.''))
         else res_bind (len_of items) (\<lambda>n. res_bind (str_of (or_v summary (PStr (nat_str n @ '' repair item(s).'')))) (\<lambda>s.
           res_bind (res_bind (sliced 5 items) (map_res (plan_item_lines P))) (\<lambda>ls. Inr (lines (s # concat ls))))))"

definition fmt_repair_duplicate :: "runtime \<Rightarrow> row \<Rightarrow> string res" where
  "fmt_repair_duplicate P r = res_bind (column_of P (PDict r)) (\<lambda>t.
     Inr (lines [''Recorded duplicate-key crosswalk repair for '' @ py_str P (row_get r ''entity'') @ ''.'',
       ''- '' @ t @ ''='' @ py_str P (row_get r ''target_id''), ''Next: '' @ rtext P r ''next_step'' ''retry refresh'' @ ''.'']))"

definition proposal_is :: "runtime \<Rightarrow> row \<Rightarrow> string" where
  "proposal_is P r = ''Proposal is '' @ rtext P r ''proposal_status'' ''?'' @ ''.''"

definition fmt_add_mapping :: "runtime \<Rightarrow> row \<Rightarrow> string res" where
  "fmt_add_mapping P r = res_bind (row_arrow P r) (\<lambda>a.
     Inr (lines [''Added mapping on proposal '' @ py_str P (row_get r ''proposal_id'') @ ''.'', ''- '' @ a, proposal_is P r]))"

definition skipped_line :: "runtime \<Rightarrow> pyval \<Rightarrow> string res" where
  "skipped_line P m = res_bind (column_of P m) (\<lambda>c. res_bind (vtext P m ''reason'' ''None'') (\<lambda>why. Inr (c @ '': '' @ why)))"

definition fmt_add_missing_mappings :: "runtime \<Rightarrow> row \<Rightarrow> string res" where
  "fmt_add_missing_mappings P r =
     (let added = or_v (row_get r ''added'') (PList []); skips = or_v (row_get r ''skipped'') (PList []); next' = row_get r ''next_step''
      in res_bind (res_bind (sliced 12 added) (map_res (arrow_of P))) (\<lambda>as.
         res_bind (res_bind (sliced 8 skips) (map_res (skipped_line P))) (\<lambda>ss.
           Inr (lines ([''Updated missing mappings on proposal '' @ py_str P (row_get r ''proposal_id'') @ ''.'']
             @ titled ''Added:'' as @ titled ''Skipped:'' ss @ [proposal_is P r]
             @ (if truthy next' then [''Next: '' @ py_str P next' @ ''.''] else []))))))"

definition fmt_reject_mapping :: "runtime \<Rightarrow> row \<Rightarrow> string res" where
  "fmt_reject_mapping P r = Inr (lines [''Rejected '' @ ticked (py_str P (row_get r ''source_column'')) @ '' on proposal ''
     @ py_str P (row_get r ''proposal_id'') @ ''.'', proposal_is P r])"

definition fmt_reject_mapping_review :: "runtime \<Rightarrow> row \<Rightarrow> string res" where
  "fmt_reject_mapping_review P r = res_bind (row_arrow P r) (\<lambda>a.
     Inr (lines [''Rejected review '' @ py_str P (row_get r ''review_id'') @ '' on proposal '' @ py_str P (row_get r ''proposal_id'') @ ''.'',
       ''- '' @ a, proposal_is P r]))"

definition fmt_reopen_mapping_review :: "runtime \<Rightarrow> row \<Rightarrow> string res" where
  "fmt_reopen_mapping_review P r = res_bind (row_arrow P r) (\<lambda>a.
     Inr (lines [''Reopened review '' @ py_str P (row_get r ''review_id'') @ '' in the review queue.'', ''- '' @ a,
       ''On proposal '' @ py_str P (row_get r ''proposal_id'') @ '', status: '' @ rtext P r ''proposal_status'' ''?'' @ ''.'']))"

section \<open>Rendering\<close>

definition templates :: "runtime \<Rightarrow> (string \<times> (row \<Rightarrow> string res)) list" where
  "templates P =
    [(''check_status'', fmt_check_status P), (''summarize_proposal'', fmt_summarize P), (''explain_blocker'', fmt_blocker P),
     (''show_schema'', fmt_schema P), (''deploy_guidance'', fmt_guidance P), (''explain_dilemma'', fmt_dilemma P),
     (''onboard_table'', fmt_onboard P), (''heal_error'', fmt_heal P), (''list_drift_reports'', fmt_drift_list P),
     (''resolve_drift'', fmt_resolve_drift), (''swap_target_dry_run'', fmt_swap_dry_run P),
     (''swap_target_apply'', fmt_swap_apply P), (''swap_source_schema'', fmt_swap_dry_run P),
     (''inspect_job'', fmt_inspect_job P), (''diagnose_entity_delivery'', fmt_diagnose_entity P),
     (''explain_deploy_error'', fmt_deploy_error P), (''resolve_deploy_job_repair'', fmt_resolve_deploy_job_repair P),
     (''diagnose_duplicate_key'', fmt_diagnose_duplicate P), (''plan_refresh_failure_repair'', fmt_refresh_repair_plan P),
     (''repair_duplicate_key'', fmt_repair_duplicate P), (''add_mapping'', fmt_add_mapping P),
     (''add_missing_mappings'', fmt_add_missing_mappings P), (''reject_mapping'', fmt_reject_mapping P),
     (''reject_mapping_review'', fmt_reject_mapping_review P), (''reopen_mapping_review'', fmt_reopen_mapping_review P)]"

definition render_result :: "runtime \<Rightarrow> string \<Rightarrow> row \<Rightarrow> string" where
  "render_result P tool r = (case map_of (templates P) tool of
       None \<Rightarrow> tool @ '' finished.''
     | Some f \<Rightarrow> (case f r of Inr t \<Rightarrow> t | Inl e \<Rightarrow> tool @ '' finished (result attached).''))"

lemma summary_rendered:
  "render_result sample_runtime ''summarize_proposal'' [(''summary'', PStr ''2 mapped columns.''),
      (''accepted_mappings'', PList [PDict [(''review_id'', PInt 7), (''source_column'', PStr ''nm''),
         (''suggested_target_table'', PStr ''school''), (''suggested_target_column'', PStr ''name'')]])]
     = lines [''2 mapped columns.'', ''Accepted mappings:'', ''- review 7: nm -> school.name'']"
  by code_simp

lemma broken_result_rendered:
  "render_result sample_runtime ''show_schema'' [(''source'', PInt 3)] = ''show_schema finished (result attached).''"
  by code_simp

text \<open>A destructive swap that stopped for review says so; only a finished swap is reported as one.\<close>

lemma blocked_swap_rendered:
  "render_result sample_runtime ''swap_target_apply'' [(''status'', PStr ''blocked_on_review''), (''blocked'', PList [PStr ''schools''])]
     = lines [''Swap blocked on low-confidence re-mappings:'', ''- schools'', ''Resolve them, or re-run with force.'']"
  by code_simp

end
