(* ===== verification/Conversation.thy ===== *)
theory Conversation
  imports Operator_Diagnostics Agent_Tools Chat_Templates
begin

text \<open>
  \<open>src/agent/conversation.py\<close>: the chat assistant. A message is classified by the language model
  or by keywords, the call it asks for passes the autonomy gate, and the exchange is stored with
  the conversation. Modelled: the redaction of row values, the classifier with its parameter
  extraction, the gate, the conversation table, the detection of confirmations and pasted
  jobs, and the processing of one message. The language model, the clock, fresh identifiers and
  what a tool does (\<open>'w\<close> is the state the tools act on) are parameters.
\<close>

section \<open>Redaction\<close>

definition row_value_keys :: "string list" where
  "row_value_keys = [''rows'', ''row'', ''records'', ''record'', ''values'', ''sample_values'',
     ''payload'', ''payload_snapshot'', ''source_row'', ''target_row'', ''data_rows'']"

fun redact :: "pyval \<Rightarrow> pyval" where
  "redact (PDict kvs) = PDict (map (\<lambda>(k, v). (k, redact v)) (filter (\<lambda>(k, v). k \<notin> set row_value_keys) kvs))"
| "redact (PList vs) = PList (map redact vs)"
| "redact v = v"

definition redact_row :: "row \<Rightarrow> row" where
  "redact_row r = map (\<lambda>(k, v). (k, redact v)) (filter (\<lambda>(k, v). k \<notin> set row_value_keys) r)"

text \<open>No row-shaped key at any depth.\<close>

fun row_free :: "pyval \<Rightarrow> bool" where
  "row_free (PDict kvs) = list_all (\<lambda>(k, v). k \<notin> set row_value_keys \<and> row_free v) kvs"
| "row_free (PList vs) = list_all row_free vs"
| "row_free v = True"

lemma redact_row_free [simp]: "row_free (redact v)"
  by (induction v rule: redact.induct) (auto simp: list_all_iff)

lemma redact_id: "row_free v \<Longrightarrow> redact v = v"
proof (induction v rule: redact.induct)
  case (1 kvs)
  then have "filter (\<lambda>(k, v). k \<notin> set row_value_keys) kvs = kvs" by (auto simp: list_all_iff intro!: filter_True)
  with 1 show ?case by (auto simp: list_all_iff intro!: map_idI)
next
  case (2 vs)
  then show ?case by (auto simp: list_all_iff intro!: map_idI)
qed simp_all

lemma redact_PDict: "redact (PDict r) = PDict (redact_row r)"
  by (simp add: redact_row_def)

lemma json_stored_row_free: "row_free (json_stored P v) = row_free v"
  by (induction P v rule: json_stored.induct) (auto simp: list_all_iff)

section \<open>Extracting parameters from a message\<close>

definition proposal_id_re :: rx where
  "proposal_id_re = rx_seq [Alt (rx_seq [lit_i ''proposal'', spaces0, rx_opt (lit_i ''#'')]) (lit_i ''#''), Grp 1 digits1]"

definition table_re :: rx where
  "table_re = rx_seq [Bound, words_i [''onboard'', ''table''], spaces1, Grp 1 ident_i]"

definition two_names :: rx where
  "two_names = rx_seq [ident_i, rx_opt (rx_seq [spaces1, ident_i])]"

definition entity_re :: rx where
  "entity_re = rx_seq [Bound, rx_alts [lit_i ''for'', lit_i ''entity'', lit_i ''table'', lit_i ''refresh'',
     rx_seq [lit_i ''deploy'', rx_opt (words_i [''ed'', ''ing''])], lit_i ''onboard''], spaces1, Grp 1 two_names]"

definition leading_entity_re :: rx where
  "leading_entity_re = rx_seq [Bound, Grp 1 two_names, spaces1,
     words_i [''is deployed'', ''has no data'', ''doesn'' @ [sq] @ ''t have'', ''doesnt have'', ''target db'', ''is paused'', ''duplicate key'']]"

definition direct_diagnose_entity_re :: rx where
  "direct_diagnose_entity_re = rx_seq [Bound, lit_i ''diagnose'',
     rx_opt (words_i [''_entity_delivery'', '' entity delivery'', '' target data'']), spaces1, Grp 1 ident_i, Bound]"

definition mapping_target_re :: rx where
  "mapping_target_re = rx_seq [Bound, Grp 1 ident_i, spaces0, words_i [''->'', ''to''], spaces0, Grp 2 ident_i, lit_i ''.'',
     Grp 3 ident_i, Bound]"

definition reject_column_re :: rx where
  "reject_column_re = rx_seq [Bound, lit_i ''reject'', rx_opt (rx_seq [spaces1, lit_i ''mapping'']), spaces1, Grp 1 ident_i, Bound]"

definition review_id_re :: rx where
  "review_id_re = rx_seq [Bound, words_i [''review'', ''field review''], spaces0, rx_opt (lit_i ''#''), spaces0, Grp 1 digits1, Bound]"

text \<open>\<open>re.sub(r"\s+", "_", s)\<close>.\<close>

function underscored :: "string \<Rightarrow> string" where
  "underscored [] = []"
| "underscored (c # cs) = (if is_space c then CHR ''_'' # underscored (dropWhile is_space cs) else c # underscored cs)"
  by pat_completeness auto

termination by (relation "measure length") (auto simp: le_imp_less_Suc length_dropWhile_le)

definition no_entities :: "string list" where
  "no_entities = [''a'', ''the'', ''it'', ''this'', ''that'', ''target'', ''source'', ''data'', ''status'', ''db'', ''fix'', ''repair'', ''diagnose'']"

definition normalize_entity :: "string option \<Rightarrow> string option" where
  "normalize_entity x = (case x of None \<Rightarrow> None | Some s \<Rightarrow>
     if s = [] then None
     else let e = underscored (str_lower (str_strip s)) in if e \<in> set no_entities then None else Some e)"

definition proposal_id_of :: "runtime \<Rightarrow> string \<Rightarrow> row \<Rightarrow> int option res" where
  "proposal_id_of P msg page = (case rx_search proposal_id_re msg of
       Some m \<Rightarrow> res_bind (int_of_str (group m 1)) (\<lambda>i. Inr (Some i))
     | None \<Rightarrow> if row_get page ''proposal_id'' = PNone then Inr None
         else res_bind (py_int P (row_get page ''proposal_id'')) (\<lambda>i. Inr (Some i)))"

definition named_by :: "string \<Rightarrow> rx \<Rightarrow> string option" where
  "named_by msg r = normalize_entity (Option.bind (rx_search r msg) (\<lambda>m. group_of m 1))"

definition extract_entity :: "runtime \<Rightarrow> string \<Rightarrow> row \<Rightarrow> string option" where
  "extract_entity P msg page =
     (if truthy (row_get page ''entity'') then Some (py_str P (row_get page ''entity''))
      else case filter (\<lambda>x. \<not> blank x) (map (named_by msg) [direct_diagnose_entity_re, leading_entity_re, entity_re]) of
          [] \<Rightarrow> None | x # _ \<Rightarrow> x)"

text \<open>Parameters are put one after the other; a missing value is not put.\<close>

definition put_opt :: "string \<Rightarrow> pyval option \<Rightarrow> row \<Rightarrow> row" where
  "put_opt k x r = (case x of None \<Rightarrow> r | Some v \<Rightarrow> dput k v r)"

definition put_page :: "runtime \<Rightarrow> row \<Rightarrow> string \<Rightarrow> row \<Rightarrow> row" where
  "put_page P page k r = (if truthy (row_get page k) then dput k (PStr (py_str P (row_get page k))) r else r)"

definition put_proposal :: "runtime \<Rightarrow> string \<Rightarrow> row \<Rightarrow> row \<Rightarrow> row res" where
  "put_proposal P msg page r = res_bind (proposal_id_of P msg page) (\<lambda>i. Inr (put_opt ''proposal_id'' (map_option PInt i) r))"

definition put_entity :: "runtime \<Rightarrow> string \<Rightarrow> row \<Rightarrow> row \<Rightarrow> row" where
  "put_entity P msg page r = put_opt ''entity'' (case extract_entity P msg page of None \<Rightarrow> None
     | Some e \<Rightarrow> if e = [] then None else Some (PStr e)) r"

definition put_job :: "string \<Rightarrow> row \<Rightarrow> row" where
  "put_job msg r = put_opt ''job_id'' (map_option PStr (extract_job_id msg)) r"

definition error_param :: "runtime \<Rightarrow> string \<Rightarrow> row \<Rightarrow> string" where
  "error_param P msg page = (if truthy (row_get page ''error'') then py_str P (row_get page ''error'') else msg)"

definition onboard_params :: "runtime \<Rightarrow> string \<Rightarrow> row \<Rightarrow> row" where
  "onboard_params P msg page = (case Option.bind (rx_search table_re msg) (\<lambda>m. group_of m 1) of
       Some t \<Rightarrow> if t \<notin> {''a'', ''the'', ''new''} then [(''source_table'', PStr t)]
         else if truthy (row_get page ''entity'') then [(''source_table'', PStr (py_str P (row_get page ''entity'')))] else []
     | None \<Rightarrow> if truthy (row_get page ''entity'') then [(''source_table'', PStr (py_str P (row_get page ''entity'')))] else [])"

definition dilemma_params :: "string \<Rightarrow> row" where
  "dilemma_params msg = (let low = str_lower msg;
       found = filter (\<lambda>kind. str_in (replace_char (CHR ''_'') '' '' kind) low \<or> str_in kind low)
         [''unmapped_column'', ''type_mismatch'', ''fk_violation'']
     in [(''kind'', PStr (if found = [] then ''unknown'' else List.last found))])"

definition duplicate_params :: "runtime \<Rightarrow> string \<Rightarrow> row \<Rightarrow> row" where
  "duplicate_params P msg page =
     (let error = error_param P msg page;
          r1 = put_entity P msg page [(''error'', PStr error)];
          r2 = (case parse_duplicate_key error of None \<Rightarrow> r1
            | Some d \<Rightarrow> put_opt ''target_id'' (Some (PStr (tv_id d)))
                (put_opt ''target_column'' (Some (PStr (tv_column d))) (put_opt ''target_table'' (map_option PStr (tv_table d)) r1)))
      in fold (put_page P page) [''target_table'', ''target_column'', ''target_id'', ''target_system'', ''actor''] r2)"

definition add_mapping_params :: "runtime \<Rightarrow> string \<Rightarrow> row \<Rightarrow> row res" where
  "add_mapping_params P msg page = res_bind (put_proposal P msg page []) (\<lambda>r.
     Inr (put_page P page ''actor'' (case rx_search mapping_target_re msg of
         None \<Rightarrow> r
       | Some m \<Rightarrow> dput ''target_column'' (PStr (group m 3)) (dput ''target_table'' (PStr (group m 2))
           (dput ''source_column'' (PStr (group m 1)) r)))))"

definition review_params :: "runtime \<Rightarrow> string \<Rightarrow> row \<Rightarrow> row res" where
  "review_params P msg page =
     res_bind (case rx_search review_id_re msg of None \<Rightarrow> Inr []
       | Some m \<Rightarrow> res_bind (int_of_str (group m 1)) (\<lambda>i. Inr [(''review_id'', PInt i)])) (\<lambda>r.
     res_bind (if truthy (row_get page ''review_id'')
       then res_bind (py_int P (row_get page ''review_id'')) (\<lambda>i. Inr (dput ''review_id'' (PInt i) r)) else Inr r) (\<lambda>r'.
     Inr (put_page P page ''actor'' r')))"

definition reject_params :: "runtime \<Rightarrow> string \<Rightarrow> row \<Rightarrow> row res" where
  "reject_params P msg page = res_bind (put_proposal P msg page []) (\<lambda>r.
     Inr (put_page P page ''actor'' (case Option.bind (rx_search reject_column_re msg) (\<lambda>m. group_of m 1) of
         Some col \<Rightarrow> if col \<notin> {''mapping'', ''it'', ''this''} then dput ''source_column'' (PStr col) r
           else put_page P page ''source_column'' r
       | None \<Rightarrow> put_page P page ''source_column'' r)))"

definition extract_params :: "runtime \<Rightarrow> string \<Rightarrow> string \<Rightarrow> row \<Rightarrow> row res" where
  "extract_params P name msg page =
     (if name \<in> {''summarize_proposal'', ''explain_blocker'', ''deploy_guidance''} then put_proposal P msg page []
      else if name = ''onboard_table'' then Inr (onboard_params P msg page)
      else if name = ''explain_dilemma'' then Inr (dilemma_params msg)
      else if name = ''heal_error'' then Inr [(''error'', PStr (error_param P msg page))]
      else if name = ''resolve_drift'' then Inr (if truthy (row_get page ''entity'')
        then [(''entities'', PList [PStr (py_str P (row_get page ''entity''))])] else [])
      else if name = ''inspect_job'' then Inr (put_page P page ''target_system'' (put_job msg []))
      else if name = ''plan_refresh_failure_repair''
        then Inr (put_page P page ''target_system'' (put_page P page ''job_id'' (put_job msg [])))
      else if name = ''diagnose_entity_delivery'' then Inr (put_page P page ''target_system'' (put_entity P msg page []))
      else if name = ''explain_deploy_error''
        then put_proposal P msg page (put_entity P msg page [(''error'', PStr (error_param P msg page))])
      else if name \<in> {''diagnose_duplicate_key'', ''repair_duplicate_key''} then Inr (duplicate_params P msg page)
      else if name = ''add_mapping'' then add_mapping_params P msg page
      else if name \<in> {''reject_mapping_review'', ''reopen_mapping_review''} then review_params P msg page
      else if name = ''reject_mapping'' then reject_params P msg page
      else Inr [])"

section \<open>Classification\<close>

record intent =
  in_name :: "string option"
  in_params :: row
  in_confidence :: pyfloat
  in_source :: string

definition intent_patterns :: "(string \<times> string list) list" where
  "intent_patterns =
    [(''chat_help'', [''--help'', ''chat help'', ''help commands'', ''what commands'', ''supported commands'']),
     (''deferred'', [''restore a backup'', ''restore the target'', ''restore the source'', ''recover from backup'', ''restore from backup'']),
     (''workflow_status'', [''where are we'', ''workflow status'', ''current step'', ''what step'', ''how far along'']),
     (''reopen_mapping_review'', [''reopen mapping review'', ''send review back'', ''back to review queue'', ''return review'', ''reopen review'']),
     (''reject_mapping_review'', [''reject field review'', ''reject review'', ''reject mapping review'']),
     (''reject_mapping'', [''reject mapping'', ''remove mapping'', ''reject and remove'']),
     (''add_mapping'', [''add mapping'', ''manual mapping'', ''map id to'', ''map id ->'', ''maps to'']),
     (''plan_refresh_failure_repair'', [''plan_refresh_failure_repair'', ''plan refresh failure repair'', ''repair refresh failure'',
        ''fix refresh job'', ''fix this refresh'', ''how to fix this job'', ''how do i fix this refresh'', ''failed refresh'']),
     (''repair_duplicate_key'', [''repair duplicate key'', ''fix duplicate key'', ''reconcile duplicate'', ''record the missing crosswalk'']),
     (''diagnose_duplicate_key'', [''duplicate key'', ''already exists'', ''unique constraint'']),
     (''explain_deploy_error'', [''mapping cannot be deployed'', ''required but no source column maps'', ''deploy to target failed'',
        ''deploying to target failed'', ''no row in reference table'']),
     (''diagnose_entity_delivery'', [''diagnose_entity_delivery'', ''diagnose entity delivery'', ''diagnose target data'',
        ''no data in target'', ''has no data'', ''doesn'' @ [sq] @ ''t have data'', ''doesnt have data'', ''target db is empty'', ''paused status'',
        ''is paused'', ''deployed but no data'']),
     (''inspect_job'', [''inspect job'', ''job status'', ''worker job'', ''worker & queues'', ''worker and queues'', ''refresh_all'', ''failed job'']),
     (''swap_source_schema'', [''swap the source'', ''source schema changed'', ''restructured source'', ''new source schema'', ''source swap'']),
     (''swap_target_dry_run'', [''schema swap'', ''swap the target'', ''swap target'', ''target schema changed'', ''new target schema'', ''swap the schema'']),
     (''resolve_drift'', [''resolve drift'', ''resolve the drift'', ''fix the drift'', ''apply drift'']),
     (''list_drift_reports'', [''drift'']),
     (''heal_error'', [''heal'', ''fix this error'', ''fix the error'', ''delivery error'', ''quarantined event'']),
     (''onboard_table'', [''onboard'', ''add a table'', ''add table'', ''new table'', ''map a table'', ''start mapping'']),
     (''summarize_proposal'', [''summarize'', ''summary of'', ''proposal look'', ''review proposal'', ''how good is the proposal'', ''proposal risk'']),
     (''explain_blocker'', [''block'', ''stuck'', ''why can'' @ [sq] @ ''t'', ''why cant'', ''not deploying'', ''won'' @ [sq] @ ''t deploy'', ''wont deploy'']),
     (''deploy_guidance'', [''deploy'', ''ready to ship'', ''go live'']),
     (''explain_dilemma'', [''dilemma'', ''unmapped column'', ''type mismatch'', ''fk violation'', ''which option'', ''how do i map'']),
     (''show_schema'', [''schema'', ''structure'', ''what tables'', ''which tables'', ''columns of'', ''show tables'']),
     (''check_status'', [''status'', ''health'', ''queue'', ''pending'', ''outbox'', ''how are things'', ''everything ok'', ''anything wrong''])]"

definition heuristic_classify :: "runtime \<Rightarrow> string \<Rightarrow> row \<Rightarrow> intent res" where
  "heuristic_classify P msg page =
     (case find (\<lambda>(name, needles). list_ex (\<lambda>n. str_in n (str_lower msg)) needles) intent_patterns of
        None \<Rightarrow> Inr \<lparr>in_name = None, in_params = [], in_confidence = Fin 0, in_source = ''heuristic''\<rparr>
      | Some (name, _) \<Rightarrow> res_bind (extract_params P name msg page) (\<lambda>ps.
          Inr \<lparr>in_name = Some name, in_params = ps, in_confidence = Fin (3 / 4), in_source = ''heuristic''\<rparr>))"

text \<open>The language model: the order of providers, and the parsed answer (or failure) to a prompt.\<close>

record 'w chat_env =
  ce_runtime :: runtime
  ce_registry :: "'w tool_registry"
  ce_order :: "string list"
  ce_llm :: "string \<Rightarrow> pyval res"
  ce_max_prompt :: nat
  ce_max_messages :: nat
  ce_max_conversations :: nat
  ce_auto_safe :: pyfloat
  ce_now_iso :: string
  ce_now :: int
  ce_new_id :: string
  ce_read_uuid :: "string \<Rightarrow> string option"

definition build_classify_prompt :: "'w chat_env \<Rightarrow> string \<Rightarrow> row \<Rightarrow> string res" where
  "build_classify_prompt E msg page = res_bind (json_dumps (ce_runtime E) (PDict page)) (\<lambda>pj.
     let tools = lines (map (\<lambda>(n, d, a, x). ''- '' @ n @ '': '' @ d) (list_tools (ce_registry E)));
         nl = [char_of (10 :: nat)];
         prompt = ''You classify a database-migration operator'' @ [sq] @ ''s message into one intent.'' @ nl @ nl
           @ ''Available intents (respond with exactly one name, or '' @ [dq] @ ''none'' @ [dq] @ ''):'' @ nl @ tools @ nl @ nl
           @ ''Page context (route + IDs only): '' @ pj @ nl @ nl @ ''Message: '' @ msg @ nl @ nl
           @ ''Respond as JSON: {'' @ [dq] @ ''intent'' @ [dq] @ '': '' @ [dq] @ ''<name or none>'' @ [dq] @ '', '' @ [dq] @ ''params'' @ [dq]
           @ '': {...extracted ids/names...}, '' @ [dq] @ ''confidence'' @ [dq] @ '': 0.0-1.0}''
     in Inr (if ce_max_prompt E = 0 then prompt else drop (length prompt - ce_max_prompt E) prompt))"

text \<open>\<open>{**a, **b}\<close>.\<close>

definition merged :: "row \<Rightarrow> row \<Rightarrow> row" where
  "merged a b = fold (\<lambda>(k, v). dput k v) b a"

definition read_intent :: "'w chat_env \<Rightarrow> string \<Rightarrow> row \<Rightarrow> pyval \<Rightarrow> intent res" where
  "read_intent E msg page raw =
     res_bind (vget raw ''intent'' PNone) (\<lambda>i. let name = str_strip (py_str (ce_runtime E) (or_v i (PStr ''none''))) in
     res_bind (vget raw ''confidence'' PNone) (\<lambda>cf. res_bind (py_float (ce_runtime E) (or_v cf (PFloat (Fin 0)))) (\<lambda>conf.
       if dhas (ce_registry E) name
       then res_bind (extract_params (ce_runtime E) name msg page) (\<lambda>ps. res_bind (vget raw ''params'' PNone) (\<lambda>given.
         res_bind (as_dict (or_v given (PDict []))) (\<lambda>qs.
           Inr \<lparr>in_name = Some name, in_params = merged ps qs, in_confidence = conf, in_source = ''gemini''\<rparr>)))
       else Inr \<lparr>in_name = (if name = ''deferred'' then Some ''deferred'' else None), in_params = [],
         in_confidence = (if name = ''deferred'' then conf else Fin 0), in_source = ''gemini''\<rparr>)))"

fun classify_order :: "'w chat_env \<Rightarrow> string list \<Rightarrow> string \<Rightarrow> row \<Rightarrow> intent res" where
  "classify_order E [] msg page = heuristic_classify (ce_runtime E) msg page"
| "classify_order E (p # ps) msg page =
     (if p = ''heuristic'' then heuristic_classify (ce_runtime E) msg page
      else if p \<noteq> ''gemini'' then classify_order E ps msg page
      else res_bind (build_classify_prompt E msg page) (\<lambda>prompt.
        case res_bind (ce_llm E prompt) (read_intent E msg page) of
          Inr i \<Rightarrow> Inr i | Inl e \<Rightarrow> classify_order E ps msg page))"

definition classify :: "'w chat_env \<Rightarrow> string \<Rightarrow> row \<Rightarrow> intent res" where
  "classify E msg page = classify_order E (ce_order E) msg page"

section \<open>The autonomy gate\<close>

record dispatch_outcome =
  oc_executed :: bool
  oc_needs_confirmation :: bool
  oc_tool :: string
  oc_params :: row
  oc_result :: "pyval option"
  oc_error :: "string option"
  oc_autonomy :: string
  oc_tier :: string
  oc_auto :: bool
  oc_destructive :: bool

definition autonomy_tiers :: "string list" where
  "autonomy_tiers = [''propose_only'', ''auto_safe'']"

definition bad_tier :: "string \<Rightarrow> exn" where
  "bad_tier tier = ValidationError (''unsupported autonomy tier '' @ str_repr tier @ ''; supported: '' @ names_repr autonomy_tiers)"

definition needs_confirmation :: "'w chat_env \<Rightarrow> 'w tool_def \<Rightarrow> pyfloat \<Rightarrow> bool \<Rightarrow> bool" where
  "needs_confirmation E t confidence confirmed =
     (if td_destructive t \<and> \<not> confirmed then True
      else if confirmed then False
      else if td_autonomy t = ''auto_safe'' then float_less confidence (ce_auto_safe E)
      else True)"

definition report :: "'w tool_def \<Rightarrow> string \<Rightarrow> string \<Rightarrow> row \<Rightarrow> dispatch_outcome" where
  "report t tier name params = \<lparr>oc_executed = False, oc_needs_confirmation = False, oc_tool = name, oc_params = params,
     oc_result = None, oc_error = None, oc_autonomy = td_autonomy t, oc_tier = tier, oc_auto = False,
     oc_destructive = td_destructive t\<rparr>"

definition dispatch ::
  "'w chat_env \<Rightarrow> string \<Rightarrow> row \<Rightarrow> string \<Rightarrow> pyfloat \<Rightarrow> bool \<Rightarrow> ('w, dispatch_outcome) comp" where
  "dispatch E name params tier confidence confirmed w =
     (if tier \<notin> set autonomy_tiers then (Inl (bad_tier tier), w)
      else case dget (ce_registry E) name of
        None \<Rightarrow> (Inl (NotFoundError (''unknown tool '' @ str_repr name)), w)
      | Some t \<Rightarrow> (case validate_params t params of
          Inl e \<Rightarrow> (Inr ((report t tier name params)\<lparr>oc_error := Some (exn_str e)\<rparr>), w)
        | Inr ps \<Rightarrow>
            if needs_confirmation E t confidence confirmed
            then (Inr ((report t tier name params)\<lparr>oc_needs_confirmation := True\<rparr>), w)
            else (case td_handler t params w of
              (Inr v, w') \<Rightarrow> (Inr ((report t tier name params)\<lparr>oc_executed := True, oc_result := Some (redact v),
                  oc_auto := \<not> confirmed\<rparr>), w')
            | (Inl (ValidationError m), w') \<Rightarrow> (Inr ((report t tier name params)\<lparr>oc_error := Some m, oc_auto := \<not> confirmed\<rparr>), w')
            | (Inl (NotFoundError m), w') \<Rightarrow> (Inr ((report t tier name params)\<lparr>oc_error := Some m, oc_auto := \<not> confirmed\<rparr>), w')
            | (Inl e, w') \<Rightarrow> (Inl e, w'))))"

section \<open>Fixed replies\<close>

definition clarification_text :: string where
  "clarification_text = lines [''I did not catch a supported request. I can:'',
     ''- check integration status'',
     ''- summarize a proposal'',
     ''- explain what blocks a deploy'',
     ''- show the schemas'',
     ''- give deploy guidance'',
     ''- explain a mapping dilemma'',
     ''- onboard a table (propose-only)'',
     ''- inspect worker jobs'',
     ''- diagnose deployed target data'',
     ''- explain deploy errors'',
     ''- plan refresh failure repairs'',
     ''- diagnose or repair duplicate-key crosswalks'',
     ''- prepare mapping repairs'',
     ''- list or resolve schema drift'',
     ''- preview or apply a schema swap'',
     ''- propose an error heal'',
     [],
     ''Try e.g. '' @ [dq] @ ''what'' @ [sq] @ ''s blocking proposal 42?'' @ [dq]]"

definition chat_help_text :: string where
  "chat_help_text = lines [''Chat commands:'',
     ''- '' @ [bt] @ ''--help'' @ [bt] @ '' - this list.'',
     ''- '' @ [bt] @ ''inspect job <job_id>'' @ [bt] @ '' - worker status, failures, repair handles.'',
     ''- '' @ [bt] @ ''plan_refresh_failure_repair for job <job_id>'' @ [bt] @ '' - build repair checklist.'',
     ''- '' @ [bt] @ ''summarize proposal <proposal_id>'' @ [bt] @ '' - accepted mappings + review ids.'',
     ''- '' @ [bt] @ ''diagnose_entity_delivery <entity>'' @ [bt] @ '' - deployed status + target row counts.'',
     ''- '' @ [bt] @ ''reopen mapping review <review_id>'' @ [bt] @ '' - bad mapping back to Review Queue.'',
     ''- '' @ [bt] @ ''reject mapping review <review_id>'' @ [bt] @ '' - reject one bad mapping row.'',
     ''- '' @ [bt] @ ''add mapping <source_column> to <target_table>.<target_column> proposal <proposal_id>'' @ [bt] @ '' - manual mapping.'',
     ''- '' @ [bt] @ ''explain deploy error <error text>'' @ [bt] @ '' - parse missing required mappings.'',
     ''- '' @ [bt] @ ''diagnose duplicate key for <entity>: <error text>'' @ [bt] @ '' - safe to repair?'',
     ''- '' @ [bt] @ ''repair duplicate key ...'' @ [bt] @ '' - gated crosswalk repair (if diagnostic says safe).'',
     ''- '' @ [bt] @ ''onboard <source_table>'' @ [bt] @ '' - create proposal. Deploys nothing.'',
     ''- '' @ [bt] @ ''show schema'' @ [bt] @ '', '' @ [bt] @ ''check status'' @ [bt] @ '', '' @ [bt] @ ''list drift reports'' @ [bt] @ '', '' @ [bt] @ ''schema swap'' @ [bt] @ '' - read-only guidance.'',
     [],
     ''Tip: type '' @ [bt] @ ''/'' @ [bt] @ '' in the box to pick a command.'']"

definition deferred_text :: string where
  "deferred_text = lines [''Chat-guided backup recovery is not available. Restores stay on:'',
     ''- the Recovery page (Maintain group)'',
     ''- '' @ [bt] @ ''scripts/recover.py'' @ [bt],
     ''Both are behind the same typed-confirmation gates.'']"

section \<open>The conversation table\<close>

type_synonym message = row

record conversation =
  cv_id :: string
  cv_user :: int
  cv_title :: string
  cv_tier :: string
  cv_messages :: "message list"
  cv_created :: int
  cv_updated :: int

record 'w chat_state =
  ch_rows :: "conversation list"
  ch_world :: 'w

definition own :: "int \<Rightarrow> conversation \<Rightarrow> bool" where
  "own user r = (cv_user r = user)"

definition is_own :: "string \<Rightarrow> int \<Rightarrow> conversation \<Rightarrow> bool" where
  "is_own i user r = (cv_id r = i \<and> cv_user r = user)"

definition pruned :: "nat \<Rightarrow> int \<Rightarrow> conversation list \<Rightarrow> conversation list" where
  "pruned n user rs = (let kept = map cv_id (take n (sort_key (\<lambda>r. - cv_updated r) (filter (own user) rs)))
     in filter (\<lambda>r. \<not> own user r \<or> cv_id r \<in> set kept) rs)"

definition create_conversation :: "'w chat_env \<Rightarrow> int \<Rightarrow> string \<Rightarrow> ('w chat_state, conversation) comp" where
  "create_conversation E user tier s =
     (let new = \<lparr>cv_id = ce_new_id E, cv_user = user, cv_title = [], cv_tier = tier, cv_messages = [],
            cv_created = ce_now E, cv_updated = ce_now E\<rparr>
      in if tier \<notin> set autonomy_tiers then (Inl (bad_tier tier), s)
         else if list_ex (\<lambda>r. cv_id r = ce_new_id E) (ch_rows s)
         then (Inl (DbError ''duplicate key value violates unique constraint''), s)
         else (Inr new, s\<lparr>ch_rows := pruned (ce_max_conversations E) user (ch_rows s @ [new])\<rparr>))"

definition conversation_missing :: "string \<Rightarrow> exn" where
  "conversation_missing i = NotFoundError (''conversation '' @ i @ '' not found'')"

definition uuid_of :: "'w chat_env \<Rightarrow> string \<Rightarrow> string res" where
  "uuid_of E i = (case ce_read_uuid E i of
     None \<Rightarrow> Inl (DbError ''invalid input syntax for type uuid'') | Some u \<Rightarrow> Inr u)"

definition load_conversation :: "'w chat_env \<Rightarrow> string \<Rightarrow> int \<Rightarrow> 'w chat_state \<Rightarrow> conversation res" where
  "load_conversation E i user s = res_bind (uuid_of E i) (\<lambda>u.
     case find (is_own u user) (ch_rows s) of None \<Rightarrow> Inl (conversation_missing i) | Some r \<Rightarrow> Inr r)"

definition list_for_user :: "int \<Rightarrow> 'w chat_state \<Rightarrow> (string \<times> string \<times> string \<times> nat) list" where
  "list_for_user user s = map (\<lambda>r. (cv_id r, cv_title r, cv_tier r, length (cv_messages r)))
     (sort_key (\<lambda>r. - cv_updated r) (filter (own user) (ch_rows s)))"

definition delete_conversation :: "'w chat_env \<Rightarrow> string \<Rightarrow> int \<Rightarrow> ('w chat_state, unit) comp" where
  "delete_conversation E i user s = (case uuid_of E i of
       Inl e \<Rightarrow> (Inl e, s)
     | Inr u \<Rightarrow> (if list_ex (is_own u user) (ch_rows s) then Inr () else Inl (conversation_missing i),
                s\<lparr>ch_rows := filter (\<lambda>r. \<not> is_own u user r) (ch_rows s)\<rparr>))"

definition bulk_delete :: "'w chat_env \<Rightarrow> int \<Rightarrow> string list \<Rightarrow> ('w chat_state, nat) comp" where
  "bulk_delete E user is s = (case map_res (uuid_of E) is of
       Inl e \<Rightarrow> (Inl e, s)
     | Inr us \<Rightarrow> (let doomed = (\<lambda>r. own user r \<and> cv_id r \<in> set us)
         in (Inr (length (filter doomed (ch_rows s))), s\<lparr>ch_rows := filter (\<lambda>r. \<not> doomed r) (ch_rows s)\<rparr>)))"

definition set_tier :: "'w chat_env \<Rightarrow> string \<Rightarrow> int \<Rightarrow> string \<Rightarrow> ('w chat_state, unit) comp" where
  "set_tier E i user tier s =
     (if tier \<notin> set autonomy_tiers then (Inl (bad_tier tier), s)
      else case uuid_of E i of Inl e \<Rightarrow> (Inl e, s)
        | Inr u \<Rightarrow> (Inr (), s\<lparr>ch_rows := update_where (is_own u user) (\<lambda>r. r\<lparr>cv_tier := tier, cv_updated := ce_now E\<rparr>) (ch_rows s)\<rparr>))"

text \<open>Messages are the dictionaries this module writes: a list of calls, each a dictionary.\<close>

definition dict_field :: "pyval \<Rightarrow> string \<Rightarrow> pyval" where
  "dict_field v k = (case v of PDict r \<Rightarrow> row_get r k | _ \<Rightarrow> PNone)"

definition tool_calls :: "message \<Rightarrow> pyval list" where
  "tool_calls m = (case row_get m ''tool_calls'' of PList cs \<Rightarrow> cs | _ \<Rightarrow> [])"

definition keep_recent :: nat where
  "keep_recent = 20"

definition tools_discussed :: "runtime \<Rightarrow> message list \<Rightarrow> string list" where
  "tools_discussed P ms = rev (remdups (rev (map (py_str P) (filter truthy (map (\<lambda>c. dict_field c ''tool'') (concat (map tool_calls ms)))))))"

definition summary_message :: "'w chat_env \<Rightarrow> message list \<Rightarrow> message" where
  "summary_message E old =
     (let names = tools_discussed (ce_runtime E) old
      in [(''role'', PStr ''system''),
          (''content'', PStr (''[summary] '' @ nat_str (length old) @ '' earlier messages condensed. Tools discussed: ''
             @ (if names = [] then ''none'' else join '', '' names) @ ''.'')),
          (''created_at'', PStr (ce_now_iso E))])"

definition cap_messages :: "'w chat_env \<Rightarrow> message list \<Rightarrow> message list" where
  "cap_messages E ms =
     (if length ms \<le> ce_max_messages E then ms
      else let n = length ms - keep_recent in summary_message E (take n ms) # drop n ms)"

definition seeded_title :: "string \<Rightarrow> string \<Rightarrow> string" where
  "seeded_title title seed =
     (if title \<noteq> [] \<or> seed = [] then title
      else case take 120 (str_strip seed) of [] \<Rightarrow> [] | c # cs \<Rightarrow> upper_char c # cs)"

text \<open>\<open>json.dumps(messages, default=str)\<close> into the JSONB column.\<close>

definition stored_row :: "runtime \<Rightarrow> message \<Rightarrow> message" where
  "stored_row P m = map (\<lambda>(k, v). (k, json_stored P v)) m"

definition append_messages ::
  "'w chat_env \<Rightarrow> string \<Rightarrow> int \<Rightarrow> message list \<Rightarrow> string \<Rightarrow> ('w chat_state, unit) comp" where
  "append_messages E i user new seed s = (case load_conversation E i user s of
       Inl e \<Rightarrow> (Inl e, s)
     | Inr r \<Rightarrow> (let ms = map (stored_row (ce_runtime E)) (cap_messages E (cv_messages r @ map redact_row new))
         in if \<not> list_all (\<lambda>m. json_storable (PDict m)) ms
            then (Inl (DbError ''invalid input syntax for type json''), s)
            else (Inr (), s\<lparr>ch_rows := update_where (is_own (cv_id r) user)
              (\<lambda>x. x\<lparr>cv_messages := ms, cv_title := seeded_title (cv_title r) seed, cv_updated := ce_now E\<rparr>) (ch_rows s)\<rparr>)))"

section \<open>One message\<close>

record stream_event =
  se_event :: string
  se_data :: row

definition confirm_word_re :: rx where
  "confirm_word_re = rx_seq [Bound, words_i [''yes'', ''yep'', ''ok'', ''okay'', ''confirm'', ''confirmed'', ''approve'', ''approved'',
     ''done'', ''proceed'', ''go ahead'', ''run it'', ''do it''], Bound]"

definition help_re :: rx where
  "help_re = rx_seq [At_start, spaces0, rx_alts [lit_i ''--help'', lit_i ''help'', lit_i ''chat help'', lit_i ''help commands'',
     rx_seq [lit_i ''what commands'', Star (Cls (\<lambda>c. c \<noteq> char_of (10 :: nat)))]], spaces0, At_end]"

definition deploy_job_text_re :: rx where
  "deploy_job_text_re = words_i [''deploy_lrmis'', ''mapping cannot be deployed'', ''is required but no source column maps to it'']"

definition looks_like_confirmation :: "string \<Rightarrow> bool" where
  "looks_like_confirmation msg = rx_found confirm_word_re msg"

definition looks_like_help :: "string \<Rightarrow> bool" where
  "looks_like_help msg = rx_found help_re msg"

definition looks_like_pasted_deploy_job :: "string \<Rightarrow> bool" where
  "looks_like_pasted_deploy_job msg = (extract_job_id msg \<noteq> None \<and> rx_found deploy_job_text_re msg)"

text \<open>The newest call that still waits for a confirmation, unless a tool has run since.\<close>

definition gated_call :: "message \<Rightarrow> pyval option" where
  "gated_call m = find (\<lambda>c. truthy (dict_field c ''requires_confirmation'')) (rev (tool_calls m))"

fun newest_gated :: "message list \<Rightarrow> pyval option" where
  "newest_gated [] = None"
| "newest_gated (m # ms) =
     (if row_get m ''role'' \<noteq> PStr ''assistant'' then newest_gated ms
      else case gated_call m of
          Some c \<Rightarrow> Some c
        | None \<Rightarrow> if truthy (row_get m ''tool_results'') then None else newest_gated ms)"

definition pending_confirmation :: "message list \<Rightarrow> row option" where
  "pending_confirmation ms = map_option
     (\<lambda>c. [(''tool'', dict_field c ''tool''), (''params'', or_v (dict_field c ''params'') (PDict []))]) (newest_gated (rev ms))"

text \<open>\<open>dict(v)\<close> of a parameter object.\<close>

definition dict_arg :: "pyval \<Rightarrow> row res" where
  "dict_arg v = (case v of
       PDict r \<Rightarrow> Inr r
     | PList vs \<Rightarrow> res_bind (map_res (\<lambda>x. case x of PList [PStr k, w] \<Rightarrow> Inr (k, w)
         | _ \<Rightarrow> Inl (TypeError ''cannot convert dictionary update sequence'')) vs) (\<lambda>kvs. Inr (dict_of kvs))
     | _ \<Rightarrow> Inl (TypeError (quoted (type_name v) @ '' object is not iterable'')))"

definition outcome_events :: "dispatch_outcome \<Rightarrow> stream_event list" where
  "outcome_events oc =
     \<lparr>se_event = ''tool_call'', se_data = [(''tool'', PStr (oc_tool oc)), (''params'', PDict (oc_params oc)),
        (''requires_confirmation'', PBool (oc_needs_confirmation oc)), (''executed'', PBool (oc_executed oc)),
        (''autonomy'', PStr (oc_tier oc)), (''auto_executed'', PBool (oc_auto oc))]\<rparr>
     # (if oc_executed oc then [\<lparr>se_event = ''tool_result'', se_data = [(''tool'', PStr (oc_tool oc)),
            (''result'', case oc_result oc of None \<Rightarrow> PNone | Some v \<Rightarrow> v)]\<rparr>]
        else if blank (oc_error oc) then []
        else [\<lparr>se_event = ''error'', se_data = [(''tool'', PStr (oc_tool oc)), (''detail'', PStr (the (oc_error oc)))]\<rparr>])"

definition result_or_empty :: "dispatch_outcome \<Rightarrow> pyval" where
  "result_or_empty oc = or_v (case oc_result oc of None \<Rightarrow> PNone | Some v \<Rightarrow> v) (PDict [])"

definition render_any :: "runtime \<Rightarrow> string \<Rightarrow> pyval \<Rightarrow> string" where
  "render_any P tool v = (case v of
       PDict r \<Rightarrow> render_result P tool r
     | _ \<Rightarrow> if map_of (templates P) tool = None then tool @ '' finished.'' else tool @ '' finished (result attached).'')"

definition outcome_call :: "dispatch_outcome \<Rightarrow> pyval" where
  "outcome_call oc = PDict [(''tool'', PStr (oc_tool oc)), (''params'', PDict (oc_params oc)),
     (''requires_confirmation'', PBool (oc_needs_confirmation oc)), (''autonomy'', PStr (oc_tier oc)),
     (''auto_executed'', PBool (oc_auto oc))]"

definition said :: "string \<Rightarrow> string \<Rightarrow> row" where
  "said role text = [(''role'', PStr role), (''content'', PStr text)]"

definition stamped :: "'w chat_env \<Rightarrow> row \<Rightarrow> message" where
  "stamped E r = r @ [(''created_at'', PStr (ce_now_iso E))]"

definition assistant_message :: "'w chat_env \<Rightarrow> dispatch_outcome \<Rightarrow> message res" where
  "assistant_message E oc =
     (let calls = [(''tool_calls'', PList [outcome_call oc])] in
      if oc_needs_confirmation oc
      then res_bind (json_dumps (ce_runtime E) (PDict (oc_params oc))) (\<lambda>ps.
        Inr (stamped E (said ''assistant'' (''I can run '' @ ticked (oc_tool oc) @ '' with '' @ ps @ '' - confirm to proceed.''
          @ (if oc_destructive oc then '' This action is destructive and always requires confirmation.'' else [])) @ calls)))
      else if \<not> blank (oc_error oc)
      then Inr (stamped E (said ''assistant'' (''That did not work: '' @ the (oc_error oc)) @ calls))
      else Inr (stamped E (said ''assistant'' (render_any (ce_runtime E) (oc_tool oc) (result_or_empty oc)) @ calls
        @ [(''tool_results'', PList [redact (result_or_empty oc)])])))"

text \<open>After a tool that enters a workflow has run, its state goes with the reply.\<close>

definition wf_after :: "string \<Rightarrow> string list \<Rightarrow> workflow_state res" where
  "wf_after name steps = res_bind (wf_start name []) (fold_res (\<lambda>x s. wf_advance s x) steps)"

definition entered_workflow :: "dispatch_outcome \<Rightarrow> workflow_state option res" where
  "entered_workflow oc =
     (let r = result_or_empty oc; some = (\<lambda>x. res_bind x (\<lambda>s. Inr (Some s))) in
      if \<not> oc_executed oc then Inr None
      else if oc_tool oc = ''onboard_table'' then some (wf_after ''onboard'' [''discover'', ''propose''])
      else if oc_tool oc = ''deploy_guidance'' then res_bind (vget r ''deploy_ready'' PNone) (\<lambda>ready.
        some (wf_after ''deploy'' ([''check_coverage''] @ (if truthy ready then [''resolve_dilemmas''] else []))))
      else if oc_tool oc = ''list_drift_reports'' then some (wf_after ''drift'' [''list_reports''])
      else if oc_tool oc = ''swap_target_dry_run'' then res_bind (vget r ''would_remap'' PNone) (\<lambda>todo.
        some (wf_after ''swap'' ([''dry_run''] @ (if truthy todo then [] else [''remap'']))))
      else Inr None)"

definition content_of :: "message \<Rightarrow> string" where
  "content_of m = (case row_get m ''content'' of PStr s \<Rightarrow> s | _ \<Rightarrow> [])"

definition attach_workflow :: "message \<Rightarrow> dispatch_outcome \<Rightarrow> message res" where
  "attach_workflow m oc = res_bind (entered_workflow oc) (\<lambda>ws. case ws of
       None \<Rightarrow> Inr m
     | Some s \<Rightarrow> res_bind (next_step_suggestion s) (\<lambda>next'.
         Inr (dput ''content'' (PStr (str_rstrip (content_of m) @ '' '' @ next')) (dput ''workflow_state'' (workflow_to_dict s) m))))"

definition last_workflow_state :: "message list \<Rightarrow> workflow_state option res" where
  "last_workflow_state ms = (case find (\<lambda>m. truthy (row_get m ''workflow_state'')) (rev ms) of
       None \<Rightarrow> Inr None
     | Some m \<Rightarrow> res_bind (as_dict (row_get m ''workflow_state'')) (\<lambda>d. res_bind (workflow_from_dict d) (\<lambda>s. Inr (Some s))))"

function chunks :: "nat \<Rightarrow> string \<Rightarrow> string list" where
  "chunks n s = (if length s \<le> n \<or> n = 0 then [s] else take n s # chunks n (drop n s))"
  by pat_completeness auto

termination by (relation "measure (\<lambda>(n, s). length s)") auto

declare chunks.simps [simp del]

definition token_events :: "string \<Rightarrow> stream_event list" where
  "token_events text = map (\<lambda>c. \<lparr>se_event = ''token'', se_data = [(''text'', PStr c)]\<rparr>) (chunks 80 text)"

definition done_event :: "string \<Rightarrow> string option \<Rightarrow> stream_event" where
  "done_event text i = \<lparr>se_event = ''done'', se_data = (''content'', PStr text)
     # (case i of None \<Rightarrow> [] | Some c \<Rightarrow> [(''conversation_id'', PStr c)])\<rparr>"

definition run_tool ::
  "'w chat_env \<Rightarrow> string \<Rightarrow> row \<Rightarrow> string \<Rightarrow> pyfloat \<Rightarrow> bool \<Rightarrow> ('w chat_state, dispatch_outcome) comp" where
  "run_tool E name params tier confidence confirmed s =
     (case dispatch E name params tier confidence confirmed (ch_world s) of (r, w) \<Rightarrow> (r, s\<lparr>ch_world := w\<rparr>))"

definition open_conversation ::
  "'w chat_env \<Rightarrow> int \<Rightarrow> string option \<Rightarrow> string option \<Rightarrow> ('w chat_state, string \<times> conversation) comp" where
  "open_conversation E user cid tier =
     (if blank cid
      then bind (create_conversation E user (if blank tier then ''propose_only'' else the tier)) (\<lambda>r. ret (cv_id r, r))
      else bind (\<lambda>s. (load_conversation E (the cid) user s, s)) (\<lambda>r.
        if blank tier \<or> the tier = cv_tier r then ret (the cid, r)
        else bind (set_tier E (the cid) user (the tier)) (\<lambda>_. ret (the cid, r\<lparr>cv_tier := the tier\<rparr>))))"

text \<open>Store the exchange, then answer.\<close>

definition stored_reply ::
  "'w chat_env \<Rightarrow> int \<Rightarrow> string \<Rightarrow> string \<Rightarrow> message \<Rightarrow> message \<Rightarrow> stream_event list
   \<Rightarrow> ('w chat_state, stream_event list) comp" where
  "stored_reply E user i msg um am events = bind (append_messages E i user [um, am] msg) (\<lambda>_. ret events)"

definition text_reply :: "'w chat_env \<Rightarrow> int \<Rightarrow> string \<Rightarrow> string \<Rightarrow> message \<Rightarrow> string \<Rightarrow> ('w chat_state, stream_event list) comp" where
  "text_reply E user i msg um text = stored_reply E user i msg um (stamped E (said ''assistant'' text))
     (token_events text @ [done_event text (Some i)])"

definition confirmed_reply ::
  "'w chat_env \<Rightarrow> int \<Rightarrow> string \<Rightarrow> string \<Rightarrow> string \<Rightarrow> message \<Rightarrow> row \<Rightarrow> ('w chat_state, stream_event list) comp" where
  "confirmed_reply E user i tier msg um confirm =
     bind (lift_res (dict_arg (or_v (row_get confirm ''params'') (PDict [])))) (\<lambda>params.
     bind (run_tool E (py_str (ce_runtime E) (row_get confirm ''tool'')) params tier (Fin 1) True) (\<lambda>oc.
     bind (lift_res (assistant_message E oc)) (\<lambda>am.
       stored_reply E user i msg um am (outcome_events oc @ [done_event (content_of am) None]))))"

definition pasted_job_reply ::
  "'w chat_env \<Rightarrow> int \<Rightarrow> string \<Rightarrow> string \<Rightarrow> string \<Rightarrow> message \<Rightarrow> ('w chat_state, stream_event list) comp" where
  "pasted_job_reply E user i tier msg um =
     bind (run_tool E ''resolve_deploy_job_repair'' [(''text'', PStr msg)] tier (Fin 1) False) (\<lambda>oc.
     bind (lift_res (assistant_message E oc)) (\<lambda>am.
       stored_reply E user i msg um am (outcome_events oc @ [done_event (content_of am) (Some i)])))"

definition workflow_text :: "message list \<Rightarrow> string res" where
  "workflow_text ms = res_bind (last_workflow_state ms) (\<lambda>ws. case ws of
       Some s \<Rightarrow> wf_describe s
     | None \<Rightarrow> Inr (''No workflow is in progress. Say e.g. '' @ [dq] @ ''onboard <table>'' @ [dq] @ '' to start the onboarding walkthrough.''))"

definition intent_reply ::
  "'w chat_env \<Rightarrow> int \<Rightarrow> string \<Rightarrow> string \<Rightarrow> string \<Rightarrow> message \<Rightarrow> message list \<Rightarrow> intent \<Rightarrow> ('w chat_state, stream_event list) comp" where
  "intent_reply E user i tier msg um earlier it =
     (if in_name it = Some ''chat_help'' then text_reply E user i msg um chat_help_text
      else if in_name it = Some ''deferred'' then text_reply E user i msg um deferred_text
      else if in_name it = Some ''workflow_status'' then bind (lift_res (workflow_text earlier)) (text_reply E user i msg um)
      else if in_name it = None \<or> float_less (in_confidence it) (Fin (1 / 2)) then text_reply E user i msg um clarification_text
      else bind (run_tool E (the (in_name it)) (in_params it) tier (in_confidence it) False) (\<lambda>oc.
        bind (lift_res (res_bind (assistant_message E oc) (\<lambda>am. attach_workflow am oc))) (\<lambda>am.
          stored_reply E user i msg um am (outcome_events oc @ token_events (content_of am) @ [done_event (content_of am) (Some i)]))))"

definition user_message :: "'w chat_env \<Rightarrow> string \<Rightarrow> row \<Rightarrow> message" where
  "user_message E msg page = stamped E (said ''user'' msg) @ (if page = [] then [] else [(''page_context'', PDict page)])"

definition chosen_confirmation :: "string \<Rightarrow> message list \<Rightarrow> row option \<Rightarrow> row option" where
  "chosen_confirmation msg earlier confirm =
     (if confirm \<noteq> None \<and> confirm \<noteq> Some [] then confirm
      else if looks_like_confirmation msg then pending_confirmation earlier else None)"

definition answer ::
  "'w chat_env \<Rightarrow> int \<Rightarrow> string \<Rightarrow> row \<Rightarrow> row option \<Rightarrow> string \<times> conversation \<Rightarrow> ('w chat_state, stream_event list) comp" where
  "answer E user msg page confirm ir = (case ir of (i, r) \<Rightarrow>
     let um = user_message E msg page; tier = cv_tier r; earlier = cv_messages r in
     if looks_like_help msg then text_reply E user i msg um chat_help_text
     else case chosen_confirmation msg earlier confirm of
         Some call \<Rightarrow> confirmed_reply E user i tier msg um call
       | None \<Rightarrow> if looks_like_pasted_deploy_job msg then pasted_job_reply E user i tier msg um
           else bind (lift_res (classify E msg page)) (intent_reply E user i tier msg um earlier))"

definition process_message ::
  "'w chat_env \<Rightarrow> int \<Rightarrow> string \<Rightarrow> string option \<Rightarrow> row \<Rightarrow> string option \<Rightarrow> row option
   \<Rightarrow> ('w chat_state, stream_event list) comp" where
  "process_message E user msg cid page tier confirm =
     bind (open_conversation E user cid tier) (\<lambda>ir.
     bind (answer E user msg (redact_row page) confirm ir) (\<lambda>events.
       ret (\<lparr>se_event = ''conversation'', se_data = [(''conversation_id'', PStr (fst ir)),
         (''autonomy_tier'', PStr (cv_tier (snd ir))), (''title'', PStr (cv_title (snd ir)))]\<rparr> # events)))"

end
