(* ===== verification/Conversation_Safety.thy ===== *)
theory Conversation_Safety
  imports Conversation
begin

text \<open>
  What the assistant of \<open>Conversation\<close> guarantees: the conversation table never holds row values,
  stays within its caps and keeps users apart; a message runs at most one tool, one that changes
  something only after a confirmation; and what the word-by-word detection of confirmations lets
  through.
\<close>

section \<open>The conversation table\<close>

definition conversation_ok :: "nat \<Rightarrow> conversation \<Rightarrow> bool" where
  "conversation_ok M r = (cv_tier r \<in> set autonomy_tiers \<and> length (cv_messages r) \<le> max M (keep_recent + 1)
     \<and> (\<forall>m \<in> set (cv_messages r). row_free (PDict m)))"

definition chat_inv :: "nat \<Rightarrow> nat \<Rightarrow> conversation list \<Rightarrow> bool" where
  "chat_inv M N rs = (distinct (map cv_id rs) \<and> (\<forall>r \<in> set rs. conversation_ok M r)
     \<and> (\<forall>user. length (filter (own user) rs) \<le> N))"

lemma redacted_row_free: "row_free (PDict (redact_row m))"
  using redact_row_free [of "PDict m"] by (simp only: redact_PDict)

lemma stored_row_free: "row_free (PDict (stored_row P m)) = row_free (PDict m)"
  by (auto simp: stored_row_def list_all_iff json_stored_row_free)

lemma summary_row_free: "row_free (PDict (summary_message E ms))"
  by (simp add: summary_message_def Let_def row_value_keys_def)

lemma cap_messages_length: "length (cap_messages E ms) \<le> max (ce_max_messages E) (keep_recent + 1)"
  by (auto simp: cap_messages_def Let_def)

lemma set_cap_messages: "m \<in> set (cap_messages E ms) \<Longrightarrow> m \<in> set ms \<or> (\<exists>old. m = summary_message E old)"
  by (auto simp: cap_messages_def Let_def dest: in_set_dropD split: if_splits)

lemma conversation_ok_update:
  "conversation_ok M r \<Longrightarrow> tier \<in> set autonomy_tiers \<Longrightarrow> conversation_ok M (r\<lparr>cv_tier := tier, cv_updated := n\<rparr>)"
  by (simp add: conversation_ok_def)

lemma chat_inv_ok: "chat_inv M N rs \<Longrightarrow> r \<in> set rs \<Longrightarrow> conversation_ok M r"
  by (simp add: chat_inv_def)

lemma chat_inv_filter: "chat_inv M N rs \<Longrightarrow> chat_inv M N (filter P rs)"
proof -
  assume inv: "chat_inv M N rs"
  have "length (filter (own u) (filter P rs)) \<le> length (filter (own u) rs)" for u
    by (induction rs) simp_all
  then have "length (filter (own u) (filter P rs)) \<le> N" for u using inv le_trans unfolding chat_inv_def by blast
  then show ?thesis using inv unfolding chat_inv_def by (simp add: distinct_map_filter)
qed

lemma own_update: "\<forall>r. cv_user (f r) = cv_user r \<Longrightarrow> length (filter (own u) (update_where P f rs)) = length (filter (own u) rs)"
  by (induction rs) (auto simp: update_where_def own_def)

lemma chat_inv_update:
  assumes "chat_inv M N rs" and "\<And>r. cv_id (f r) = cv_id r \<and> cv_user (f r) = cv_user r"
    and "\<And>r. r \<in> set rs \<Longrightarrow> P r \<Longrightarrow> conversation_ok M (f r)"
  shows "chat_inv M N (update_where P f rs)"
proof -
  have "map cv_id (update_where P f rs) = map cv_id rs" by (rule map_update_where) (simp add: assms(2))
  moreover have "length (filter (own u) (update_where P f rs)) = length (filter (own u) rs)" for u
    by (rule own_update) (simp add: assms(2))
  moreover have "conversation_ok M r" if r: "r \<in> set (update_where P f rs)" for r
  proof -
    obtain x where "x \<in> set rs" and "r = (if P x then f x else x)" using r by (auto simp: update_where_def)
    then show ?thesis using chat_inv_ok [OF assms(1)] assms(3) by simp
  qed
  ultimately show ?thesis using assms(1) by (simp add: chat_inv_def)
qed

lemma take_distinct_bound:
  assumes "distinct (map cv_id rs)" and "set xs \<subseteq> set rs" and "length xs \<le> n"
  shows "length (filter (\<lambda>r. own u r \<and> cv_id r \<in> set (map cv_id xs)) rs) \<le> n"
proof -
  let ?ys = "filter (\<lambda>r. own u r \<and> cv_id r \<in> set (map cv_id xs)) rs"
  have d: "distinct (map cv_id ?ys)" using assms(1) by (rule distinct_map_filter)
  have "length ?ys = card (set (map cv_id ?ys))" unfolding distinct_card [OF d] by (rule length_map [symmetric])
  also have "\<dots> \<le> card (set (map cv_id xs))" by (rule card_mono) auto
  also have "\<dots> \<le> length xs" by (metis card_length length_map)
  finally show ?thesis using assms(3) by simp
qed

text \<open>A new row with a fresh identifier, and the user's rows pruned to the cap.\<close>

lemma chat_inv_pruned:
  assumes "chat_inv M N rs" and "cv_id new \<notin> set (map cv_id rs)" and "conversation_ok M new" and "cv_user new = user"
  shows "chat_inv M N (pruned N user (rs @ [new]))"
proof -
  let ?all = "rs @ [new]" and ?n = N
  define kept where "kept = take ?n (sort_key (\<lambda>r. - cv_updated r) (filter (own user) ?all))"
  have ids: "distinct (map cv_id ?all)" using assms(1,2) by (simp add: chat_inv_def)
  have pr: "pruned ?n user ?all = filter (\<lambda>r. \<not> own user r \<or> cv_id r \<in> set (map cv_id kept)) ?all"
    by (simp add: pruned_def kept_def Let_def)
  have "length (filter (own u) (pruned ?n user ?all)) \<le> ?n" for u
  proof (cases "u = user")
    case True
    have "set kept \<subseteq> set ?all" unfolding kept_def by (metis filter_is_subset set_sort set_take_subset subset_trans)
    moreover have "filter (own u) (pruned ?n user ?all) = filter (\<lambda>r. own u r \<and> cv_id r \<in> set (map cv_id kept)) ?all"
      unfolding pr True filter_filter by (rule filter_cong) auto
    ultimately show ?thesis using take_distinct_bound [OF ids, of kept ?n u] by (simp add: kept_def)
  next
    case False
    have "filter (own u) (pruned ?n user ?all) = filter (own u) rs"
      unfolding pr using False assms(4) by (auto simp: own_def intro!: filter_cong)
    then show ?thesis using assms(1) by (simp add: chat_inv_def)
  qed
  moreover have "distinct (map cv_id (pruned ?n user ?all))" unfolding pr by (rule distinct_map_filter [OF ids])
  moreover have "conversation_ok M r" if "r \<in> set (pruned ?n user ?all)" for r
  proof -
    have "r \<in> set ?all" using that unfolding pr by (rule subsetD [OF filter_is_subset])
    then show ?thesis using assms(3) chat_inv_ok [OF assms(1)] by auto
  qed
  ultimately show ?thesis by (simp add: chat_inv_def)
qed

section \<open>Computations that keep the table, and those that leave the tools' world alone\<close>

definition keeps_table :: "nat \<Rightarrow> nat \<Rightarrow> ('w chat_state, 'a) comp \<Rightarrow> bool" where
  "keeps_table M N m = (\<forall>s. chat_inv M N (ch_rows s) \<longrightarrow> chat_inv M N (ch_rows (snd (m s))))"

lemma keeps_tableD: "keeps_table M N m \<Longrightarrow> chat_inv M N (ch_rows s) \<Longrightarrow> chat_inv M N (ch_rows (snd (m s)))"
  by (simp add: keeps_table_def)

named_theorems keeps \<open>computations that keep the conversation table\<close>

lemma keeps_tableI: "(\<And>s. chat_inv M N (ch_rows s) \<Longrightarrow> chat_inv M N (ch_rows (snd (m s)))) \<Longrightarrow> keeps_table M N m"
  by (simp add: keeps_table_def)

lemma keeps_bind [keeps]: "keeps_table M N m \<Longrightarrow> (\<And>x. keeps_table M N (f x)) \<Longrightarrow> keeps_table M N (bind m f)"
  unfolding keeps_table_def bind_def by (fastforce split: prod.splits sum.splits)

lemma keeps_ret [keeps]: "keeps_table M N (ret x)"
  by (simp add: keeps_table_def)

lemma keeps_lift [keeps]: "keeps_table M N (lift_res r)"
  by (simp add: keeps_table_def)

lemma keeps_read [keeps]: "keeps_table M N (\<lambda>s. (f s, s))"
  by (simp add: keeps_table_def)

lemma keeps_run_tool [keeps]: "keeps_table M N (run_tool E name ps tier cf ok)"
  by (simp add: keeps_table_def run_tool_def split: prod.splits)

lemma keeps_create [keeps]: "ce_max_conversations E = N \<Longrightarrow> keeps_table M N (create_conversation E user tier)"
proof (rule keeps_tableI)
  fix s :: "'a chat_state"
  assume n: "ce_max_conversations E = N" and inv: "chat_inv M N (ch_rows s)"
  show "chat_inv M N (ch_rows (snd (create_conversation E user tier s)))"
  proof (cases "tier \<notin> set autonomy_tiers \<or> list_ex (\<lambda>r. cv_id r = ce_new_id E) (ch_rows s)")
    case True
    then show ?thesis using inv by (auto simp: create_conversation_def Let_def)
  next
    case False
    define new where "new = \<lparr>cv_id = ce_new_id E, cv_user = user, cv_title = [], cv_tier = tier, cv_messages = [],
            cv_created = ce_now E, cv_updated = ce_now E\<rparr>"
    have "chat_inv M N (pruned N user (ch_rows s @ [new]))"
      by (rule chat_inv_pruned [OF inv]) (use False in \<open>auto simp: new_def conversation_ok_def list_ex_iff\<close>)
    then show ?thesis using False n by (simp add: create_conversation_def Let_def new_def)
  qed
qed

lemma keeps_set_tier [keeps]: "keeps_table M N (set_tier E i user tier)"
  by (rule keeps_tableI)
    (auto simp: set_tier_def intro!: chat_inv_update conversation_ok_update dest: chat_inv_ok split: sum.splits)

lemma keeps_delete [keeps]: "keeps_table M N (delete_conversation E i user)"
  by (rule keeps_tableI) (auto simp: delete_conversation_def intro: chat_inv_filter split: sum.splits)

lemma keeps_bulk_delete [keeps]: "keeps_table M N (bulk_delete E user is)"
  by (rule keeps_tableI) (auto simp: bulk_delete_def Let_def intro: chat_inv_filter split: sum.splits)

lemma keeps_if [keeps]: "keeps_table M N a \<Longrightarrow> keeps_table M N b \<Longrightarrow> keeps_table M N (if c then a else b)"
  by simp

lemma find_in: "find Q xs = Some x \<Longrightarrow> x \<in> set xs \<and> Q x"
  by (metis find_Some_iff nth_mem)

lemma load_conversation_own:
  assumes "load_conversation E i user s = Inr r"
  shows "r \<in> set (ch_rows s) \<and> cv_user r = user"
proof -
  obtain u where "find (is_own u user) (ch_rows s) = Some r"
    using assms unfolding load_conversation_def by (auto simp: res_bind_Inr_iff split: option.splits)
  then show ?thesis using find_in by (force simp: is_own_def)
qed

lemma appended_row_free:
  assumes "\<forall>m \<in> set old. row_free (PDict m)" and "m \<in> set (map (stored_row P) (cap_messages E (old @ map redact_row new)))"
  shows "row_free (PDict m)"
proof -
  obtain m0 where m0: "m = stored_row P m0" "m0 \<in> set (cap_messages E (old @ map redact_row new))" using assms(2) by auto
  have "row_free (PDict m0)"
    using set_cap_messages [OF m0(2)] assms(1) redacted_row_free summary_row_free by auto
  then show ?thesis unfolding m0(1) stored_row_free .
qed

lemma keeps_append [keeps]: "ce_max_messages E = M \<Longrightarrow> keeps_table M N (append_messages E i user new seed)"
proof (rule keeps_tableI)
  fix s :: "'a chat_state"
  assume caps: "ce_max_messages E = M" and inv: "chat_inv M N (ch_rows s)"
  show "chat_inv M N (ch_rows (snd (append_messages E i user new seed s)))"
  proof (cases "load_conversation E i user s")
    case (Inr r)
    let ?ms = "map (stored_row (ce_runtime E)) (cap_messages E (cv_messages r @ map redact_row new))"
    have "r \<in> set (ch_rows s)" using load_conversation_own [OF Inr] by simp
    then have "\<forall>m \<in> set (cv_messages r). row_free (PDict m)" using chat_inv_ok [OF inv] by (simp add: conversation_ok_def)
    then have free: "\<forall>m \<in> set ?ms. row_free (PDict m)" by (blast intro: appended_row_free)
    have len: "length ?ms \<le> max M (keep_recent + 1)" using cap_messages_length [of E "cv_messages r @ map redact_row new"] caps by simp
    have "chat_inv M N (update_where (is_own (cv_id r) user)
        (\<lambda>x. x\<lparr>cv_messages := ?ms, cv_title := seeded_title (cv_title r) seed, cv_updated := ce_now E\<rparr>) (ch_rows s))"
    proof (rule chat_inv_update [OF inv])
      fix x assume "x \<in> set (ch_rows s)"
      then have "cv_tier x \<in> set autonomy_tiers" using chat_inv_ok [OF inv] by (simp add: conversation_ok_def)
      then show "conversation_ok M (x\<lparr>cv_messages := ?ms, cv_title := seeded_title (cv_title r) seed, cv_updated := ce_now E\<rparr>)"
        using free len by (simp add: conversation_ok_def)
    qed simp
    then show ?thesis using Inr inv by (simp add: append_messages_def Let_def)
  qed (simp add: append_messages_def inv)
qed

lemmas replies = text_reply_def stored_reply_def confirmed_reply_def pasted_job_reply_def intent_reply_def

lemma keeps_answer [keeps]: "ce_max_messages E = M \<Longrightarrow> keeps_table M N (answer E user msg page confirm ir)"
  unfolding answer_def replies Let_def
  by (cases ir) (auto intro!: keeps split: option.splits)

lemma keeps_open [keeps]: "ce_max_conversations E = N \<Longrightarrow> keeps_table M N (open_conversation E user cid tier)"
  unfolding open_conversation_def by (auto intro!: keeps)

lemma keeps_process_message [keeps]:
  "ce_max_messages E = M \<Longrightarrow> ce_max_conversations E = N \<Longrightarrow> keeps_table M N (process_message E user msg cid page tier confirm)"
  unfolding process_message_def by (auto intro!: keeps)

section \<open>Every reachable table\<close>

text \<open>Any sequence of requests of any users, each with its own clock, model answers and tools; a failing request leaves what it had stored.\<close>

inductive chat_step :: "nat \<Rightarrow> nat \<Rightarrow> 'w chat_state \<Rightarrow> 'w chat_state \<Rightarrow> bool" for M N where
  message: "ce_max_messages E = M \<Longrightarrow> ce_max_conversations E = N
    \<Longrightarrow> chat_step M N s (snd (process_message E user msg cid page tier confirm s))"
| remove: "chat_step M N s (snd (delete_conversation E i user s))"
| remove_many: "chat_step M N s (snd (bulk_delete E user is s))"
| elsewhere: "chat_step M N s (s\<lparr>ch_world := w\<rparr>)"

inductive chat_reachable :: "nat \<Rightarrow> nat \<Rightarrow> 'w chat_state \<Rightarrow> bool" for M N where
  start: "ch_rows s = [] \<Longrightarrow> chat_reachable M N s"
| step: "chat_reachable M N s \<Longrightarrow> chat_step M N s t \<Longrightarrow> chat_reachable M N t"

inductive_cases chat_stepE: "chat_step M N s t"

text \<open>
  C15: whatever is asked, answered and run, no stored message ever holds a row-shaped key at any
  depth, a conversation keeps at most the cap of messages (or the twenty recent ones and a
  summary), a user at most the cap of conversations, and every tier is one of the two allowed.
\<close>

theorem chat_reachable_inv: "chat_reachable M N s \<Longrightarrow> chat_inv M N (ch_rows s)"
proof (induction rule: chat_reachable.induct)
  case (start s)
  then show ?case by (simp add: chat_inv_def)
next
  case (step s t)
  from step(2) show ?case
  proof (cases rule: chat_step.cases)
    case (message E user msg cid page tier confirm)
    then show ?thesis using keeps_tableD [OF keeps_process_message step(3)] by simp
  next
    case (remove E i user)
    then show ?thesis using keeps_tableD [OF keeps_delete step(3)] by simp
  next
    case (remove_many E user ids)
    then show ?thesis using keeps_tableD [OF keeps_bulk_delete step(3)] by simp
  qed (simp add: step(3))
qed

section \<open>What a message may run\<close>

definition acts :: "('w \<Rightarrow> 'w \<Rightarrow> bool) \<Rightarrow> ('w chat_state, 'a) comp \<Rightarrow> bool" where
  "acts R m = (\<forall>s. R (ch_world s) (ch_world (snd (m s))))"

definition quiet :: "('w chat_state, 'a) comp \<Rightarrow> bool" where
  "quiet m = (\<forall>s. ch_world (snd (m s)) = ch_world s)"

named_theorems quiets \<open>computations that leave the tools' world alone\<close>

lemma quiet_bind [quiets]: "quiet m \<Longrightarrow> (\<And>x. quiet (f x)) \<Longrightarrow> quiet (bind m f)"
  unfolding quiet_def bind_def by (auto split: prod.splits sum.splits) (metis snd_conv)+

lemma quiet_basic [quiets]: "quiet (ret x)" "quiet (lift_res r)" "quiet (\<lambda>s. (f s, s))"
  by (simp_all add: quiet_def)

lemma quiet_table [quiets]:
  "quiet (create_conversation E user tier)" "quiet (set_tier E i user tier)" "quiet (append_messages E i user new seed)"
  by (simp_all add: quiet_def create_conversation_def set_tier_def append_messages_def Let_def split: sum.splits)

lemma quiet_open [quiets]: "quiet (open_conversation E user cid tier)"
  unfolding open_conversation_def by (auto intro!: quiets)

lemma acts_quiet: "quiet m \<Longrightarrow> (\<And>w. R w w) \<Longrightarrow> acts R m"
  by (simp add: acts_def quiet_def)

lemma acts_then_quiet: "acts R m \<Longrightarrow> (\<And>x. quiet (f x)) \<Longrightarrow> acts R (bind m f)"
  unfolding acts_def quiet_def bind_def by (auto split: prod.splits sum.splits) (metis snd_conv)+

lemma quiet_then_acts: "quiet m \<Longrightarrow> (\<And>w. R w w) \<Longrightarrow> (\<And>x. acts R (f x)) \<Longrightarrow> acts R (bind m f)"
  unfolding acts_def quiet_def bind_def by (auto split: prod.splits sum.splits) (metis snd_conv)+

text \<open>The tool ran on these parameters, or nothing did.\<close>

definition ran :: "'w chat_env \<Rightarrow> (string \<Rightarrow> 'w tool_def \<Rightarrow> row \<Rightarrow> bool) \<Rightarrow> 'w \<Rightarrow> 'w \<Rightarrow> bool" where
  "ran E ok w w' = (w' = w \<or> (\<exists>name t ps. dget (ce_registry E) name = Some t \<and> validate_params t ps = Inr ps
     \<and> w' = snd (td_handler t ps w) \<and> ok name t ps))"

lemma ran_refl: "ran E ok w w"
  by (simp add: ran_def)

definition runs_alone :: "'w tool_def \<Rightarrow> bool" where
  "runs_alone t = (td_autonomy t = ''auto_safe'' \<and> \<not> td_destructive t)"

lemma validate_params_same: "validate_params t ps = Inr qs \<Longrightarrow> validate_params t ps = Inr ps"
  by (auto simp: validate_params_iff)

lemma dispatch_ran:
  assumes "confirmed \<Longrightarrow> ok name (the (dget (ce_registry E) name)) ps"
    and "\<And>t. \<not> confirmed \<Longrightarrow> runs_alone t \<Longrightarrow> ok name t ps"
  shows "ran E ok w (snd (dispatch E name ps tier cf confirmed w))"
proof (cases "dget (ce_registry E) name")
  case (Some t)
  show ?thesis
  proof (cases "tier \<in> set autonomy_tiers \<and> (\<exists>qs. validate_params t ps = Inr qs) \<and> \<not> needs_confirmation E t cf confirmed")
    case True
    then obtain qs where qs: "validate_params t ps = Inr qs" by blast
    have "snd (dispatch E name ps tier cf confirmed w) = snd (td_handler t ps w)"
      using True Some qs by (auto simp: dispatch_def split: prod.splits sum.splits exn.splits)
    moreover have "ok name t ps"
      using True assms Some by (auto simp: needs_confirmation_def runs_alone_def split: if_splits)
    ultimately show ?thesis using Some validate_params_same [OF qs] unfolding ran_def by blast
  next
    case False
    then have "snd (dispatch E name ps tier cf confirmed w) = w"
      using Some by (auto simp: dispatch_def split: sum.splits)
    then show ?thesis by (simp add: ran_def)
  qed
qed (simp add: dispatch_def ran_def)

lemma run_tool_ran:
  assumes "confirmed \<Longrightarrow> ok name (the (dget (ce_registry E) name)) ps"
    and "\<And>t. \<not> confirmed \<Longrightarrow> runs_alone t \<Longrightarrow> ok name t ps"
  shows "acts (ran E ok) (run_tool E name ps tier cf confirmed)"
  using dispatch_ran [of confirmed ok name E ps, OF assms] by (simp add: acts_def run_tool_def case_prod_beta)

text \<open>The earlier reply that asked for a confirmation of this call, with no tool run since.\<close>

definition call_of :: "runtime \<Rightarrow> row \<Rightarrow> string \<Rightarrow> row \<Rightarrow> bool" where
  "call_of P c name ps = (name = py_str P (row_get c ''tool'') \<and> dict_arg (or_v (row_get c ''params'') (PDict [])) = Inr ps)"

definition asked :: "message list \<Rightarrow> pyval \<Rightarrow> bool" where
  "asked ms c = (\<exists>pre m post. ms = pre @ m # post \<and> row_get m ''role'' = PStr ''assistant'' \<and> c \<in> set (tool_calls m)
     \<and> truthy (dict_field c ''requires_confirmation'')
     \<and> (\<forall>x \<in> set post. row_get x ''role'' = PStr ''assistant'' \<longrightarrow> \<not> truthy (row_get x ''tool_results'')))"

definition confirmation_for :: "pyval \<Rightarrow> row" where
  "confirmation_for c = [(''tool'', dict_field c ''tool''), (''params'', or_v (dict_field c ''params'') (PDict []))]"

lemma newest_gated_asked: "newest_gated (rev ms) = Some c \<Longrightarrow> asked ms c"
proof (induction ms rule: rev_induct)
  case (snoc m ms)
  show ?case
  proof (cases "row_get m ''role'' = PStr ''assistant'' \<and> gated_call m = Some c")
    case True
    then have "c \<in> set (tool_calls m) \<and> truthy (dict_field c ''requires_confirmation'')"
      using find_in unfolding gated_call_def by fastforce
    then show ?thesis using True unfolding asked_def by (intro exI [of _ ms] exI [of _ m] exI [of _ "[]"]) simp
  next
    case False
    then have "newest_gated (rev ms) = Some c" and quiet: "row_get m ''role'' = PStr ''assistant'' \<longrightarrow> \<not> truthy (row_get m ''tool_results'')"
      using snoc.prems by (auto split: if_splits option.splits)
    then obtain pre x post where "ms = pre @ x # post" "row_get x ''role'' = PStr ''assistant''" "c \<in> set (tool_calls x)"
      "truthy (dict_field c ''requires_confirmation'')"
      "\<forall>y \<in> set post. row_get y ''role'' = PStr ''assistant'' \<longrightarrow> \<not> truthy (row_get y ''tool_results'')"
      using snoc.IH unfolding asked_def by blast
    then show ?thesis using quiet unfolding asked_def by (intro exI [of _ pre] exI [of _ x] exI [of _ "post @ [m]"]) auto
  qed
qed simp

lemma pending_confirmation_asked:
  "pending_confirmation ms = Some c \<Longrightarrow> \<exists>k. asked ms k \<and> c = confirmation_for k"
  using newest_gated_asked unfolding pending_confirmation_def confirmation_for_def by auto

definition authorised ::
  "'w chat_env \<Rightarrow> string \<Rightarrow> row option \<Rightarrow> message list \<Rightarrow> string \<Rightarrow> 'w tool_def \<Rightarrow> row \<Rightarrow> bool" where
  "authorised E msg confirm earlier name t ps = (runs_alone t
     \<or> (\<exists>c. chosen_confirmation msg earlier confirm = Some c \<and> call_of (ce_runtime E) c name ps))"

lemma confirmed_reply_acts:
  assumes "chosen_confirmation msg earlier confirm = Some c"
  shows "acts (ran E (authorised E msg confirm earlier)) (confirmed_reply E user i tier msg um c)"
proof -
  have "acts (ran E (authorised E msg confirm earlier))
      (bind (run_tool E (py_str (ce_runtime E) (row_get c ''tool'')) ps tier (Fin 1) True) (\<lambda>oc.
       bind (lift_res (assistant_message E oc)) (\<lambda>am.
       stored_reply E user i msg um am (outcome_events oc @ [done_event (content_of am) None]))))"
    if ps: "dict_arg (or_v (row_get c ''params'') (PDict [])) = Inr ps" for ps
  proof (rule acts_then_quiet)
    show "acts (ran E (authorised E msg confirm earlier)) (run_tool E (py_str (ce_runtime E) (row_get c ''tool'')) ps tier (Fin 1) True)"
      by (rule run_tool_ran) (use assms ps in \<open>auto simp: authorised_def call_of_def\<close>)
  qed (auto simp: stored_reply_def intro!: quiets)
  then show ?thesis
    unfolding confirmed_reply_def
    by (cases "dict_arg (or_v (row_get c ''params'') (PDict []))") (simp_all add: acts_def bind_def ran_refl)
qed

lemma unconfirmed_acts: "acts (ran E (authorised E msg confirm earlier)) (run_tool E name ps tier cf False)"
  by (rule run_tool_ran) (simp_all add: authorised_def)

lemma answer_acts: "acts (ran E (authorised E msg confirm (cv_messages (snd ir)))) (answer E user msg page confirm ir)"
proof -
  have plain: "acts (ran E ok) (text_reply E user i msg um t)" for ok :: "string \<Rightarrow> 'a tool_def \<Rightarrow> row \<Rightarrow> bool" and i um t
    by (rule acts_quiet) (auto simp: text_reply_def stored_reply_def ran_refl intro!: quiets)
  have pasted: "acts (ran E (authorised E msg confirm ms)) (pasted_job_reply E user i tier msg um)" for ms i tier um
    unfolding pasted_job_reply_def
    by (rule acts_then_quiet [OF unconfirmed_acts]) (auto simp: stored_reply_def intro!: quiets)
  have intent: "acts (ran E (authorised E msg confirm ms)) (intent_reply E user i tier msg um ms it)" for ms i tier um it
    unfolding intent_reply_def
    by (auto intro!: plain acts_then_quiet [OF unconfirmed_acts] quiet_then_acts quiets simp: stored_reply_def ran_refl)
  show ?thesis
    using plain pasted intent confirmed_reply_acts
    by (cases ir) (auto simp: answer_def Let_def ran_refl intro!: quiet_then_acts quiets split: option.splits)
qed

lemma open_conversation_row:
  assumes "open_conversation E user cid tier s = (Inr (i, r), s1)"
  shows "cv_messages r = [] \<or> (\<exists>x \<in> set (ch_rows s). cv_user x = user \<and> cv_messages x = cv_messages r)"
proof (cases "blank cid")
  case True
  then have "cv_messages r = []"
    using assms by (auto simp: open_conversation_def create_conversation_def bind_def Let_def split: if_splits)
  then show ?thesis ..
next
  case False
  then obtain x where x: "load_conversation E (the cid) user s = Inr x" and "cv_messages r = cv_messages x"
    using assms by (auto simp: open_conversation_def bind_def split: sum.splits if_splits prod.splits)
  then show ?thesis using load_conversation_own [OF x] by auto
qed

lemma pending_from_table:
  assumes "open_conversation E user cid tier s = (Inr (i, r), s1)" and "pending_confirmation (cv_messages r) = Some c"
  shows "\<exists>x \<in> set (ch_rows s). cv_user x = user \<and> (\<exists>k. asked (cv_messages x) k \<and> c = confirmation_for k)"
proof -
  have "cv_messages r \<noteq> []" using assms(2) by (auto simp: pending_confirmation_def)
  then obtain x where "x \<in> set (ch_rows s)" "cv_user x = user" "cv_messages x = cv_messages r"
    using open_conversation_row [OF assms(1)] by blast
  then show ?thesis using pending_confirmation_asked [OF assms(2)] by force
qed

text \<open>For any registry.\<close>

lemma process_message_ran:
  assumes "process_message E user msg cid page tier confirm s = (r, s')"
  shows "ch_world s' = ch_world s
    \<or> (\<exists>name t ps. dget (ce_registry E) name = Some t \<and> validate_params t ps = Inr ps \<and> ch_world s' = snd (td_handler t ps (ch_world s))
       \<and> (td_autonomy t = ''auto_safe'' \<and> \<not> td_destructive t
          \<or> (\<exists>c. confirm = Some c \<and> call_of (ce_runtime E) c name ps)
          \<or> (\<exists>x \<in> set (ch_rows s). cv_user x = user \<and> looks_like_confirmation msg
               \<and> (\<exists>k. asked (cv_messages x) k \<and> call_of (ce_runtime E) (confirmation_for k) name ps))))"
proof -
  obtain o1 s1 where op: "open_conversation E user cid tier s = (o1, s1)" by fastforce
  have w1: "ch_world s1 = ch_world s" using quiet_open [of E user cid tier] op unfolding quiet_def by (metis snd_conv)
  show ?thesis
  proof (cases o1)
    case (Inl e)
    then have "s' = s1" using assms op by (simp add: process_message_def bind_def)
    then show ?thesis using w1 by simp
  next
    case (Inr ir)
    obtain i row where ir: "ir = (i, row)" by (cases ir)
    have w': "ch_world s' = ch_world (snd (answer E user msg (redact_row page) confirm ir s1))"
      using assms op Inr by (auto simp: process_message_def bind_def split: prod.splits sum.splits)
    have "ran E (authorised E msg confirm (cv_messages row)) (ch_world s1) (ch_world (snd (answer E user msg (redact_row page) confirm ir s1)))"
      using answer_acts [of E msg confirm ir user "redact_row page"] by (simp add: acts_def ir)
    then have "ran E (authorised E msg confirm (cv_messages row)) (ch_world s) (ch_world s')"
      unfolding w1 w' .
    then consider "ch_world s' = ch_world s" | name t ps where "dget (ce_registry E) name = Some t" "validate_params t ps = Inr ps"
        "ch_world s' = snd (td_handler t ps (ch_world s))" "authorised E msg confirm (cv_messages row) name t ps"
      unfolding ran_def by blast
    then show ?thesis
    proof cases
      case (2 name t ps)
      have op': "open_conversation E user cid tier s = (Inr (i, row), s1)" using op Inr ir by simp
      from 2(4) consider "runs_alone t" | c where "confirm = Some c" "call_of (ce_runtime E) c name ps"
        | c where "looks_like_confirmation msg" "pending_confirmation (cv_messages row) = Some c" "call_of (ce_runtime E) c name ps"
        unfolding authorised_def chosen_confirmation_def by (auto split: if_splits)
      then show ?thesis
      proof cases
        case 1
        then show ?thesis using 2(1-3) unfolding runs_alone_def by blast
      next
        case (2 c)
        then show ?thesis using \<open>dget (ce_registry E) name = Some t\<close> \<open>validate_params t ps = Inr ps\<close>
            \<open>ch_world s' = snd (td_handler t ps (ch_world s))\<close> by blast
      next
        case (3 c)
        then show ?thesis using pending_from_table [OF op' 3(2)] \<open>dget (ce_registry E) name = Some t\<close> \<open>validate_params t ps = Inr ps\<close>
            \<open>ch_world s' = snd (td_handler t ps (ch_world s))\<close> by blast
      qed
    qed simp
  qed
qed

lemma registry_entry:
  assumes "registry_of H = Inr R" and "dget R name = Some t"
  shows "name \<in> set tool_names \<and> td_handler t = H name \<and> (td_autonomy t = ''auto_safe'' \<longrightarrow> name \<in> set reading_tools)
    \<and> td_destructive t = (name \<in> set destructive_tools)"
proof -
  obtain ts where L: "registry_of H = Inr (map (\<lambda>t. (td_name t, t)) ts)" and names: "map td_name ts = tool_names"
    and d: "map td_destructive ts = map (\<lambda>n. n \<in> set destructive_tools) tool_names"
    and a: "map (\<lambda>t. td_autonomy t = ''auto_safe'') ts = map (\<lambda>n. n \<in> set reading_tools) tool_names"
    and h: "map td_handler ts = map H tool_names"
    by (rule registry_loads [of H])
  have R: "R = map (\<lambda>t. (td_name t, t)) ts" using assms(1) L by simp
  have "(name, t) \<in> set R" using assms(2) by (simp add: dget_def map_of_SomeD)
  then obtain j where j: "j < length ts" "t = ts ! j" "td_name t = name" by (auto simp: R in_set_conv_nth)
  have len: "length tool_names = length ts" using names by (metis length_map)
  have n: "tool_names ! j = name" using j nth_map [OF j(1), of td_name] names by simp
  have "td_handler t = H name" using arg_cong [OF h, of "\<lambda>xs. xs ! j"] j len n by simp
  moreover have "(td_autonomy t = ''auto_safe'') = (name \<in> set reading_tools)" using arg_cong [OF a, of "\<lambda>xs. xs ! j"] j len n by simp
  moreover have "td_destructive t = (name \<in> set destructive_tools)" using arg_cong [OF d, of "\<lambda>xs. xs ! j"] j len n by simp
  moreover have "name \<in> set tool_names" using n j(1) len nth_mem by metis
  ultimately show ?thesis by simp
qed

text \<open>
  C14: with the tools the code registers, a message runs no tool or one, on parameters that fit its
  schema. The tool is one of the fourteen that only read, or the client confirmed this call explicitly,
  or the message holds a word of confirmation and an earlier reply, in a conversation of the same
  user, asked to confirm this call with no tool run since.
\<close>

theorem message_runs_only_what_is_allowed:
  assumes "registry_of H = Inr (ce_registry E)" and "process_message E user msg cid page tier confirm s = (r, s')"
  shows "ch_world s' = ch_world s
    \<or> (\<exists>name ps. name \<in> set tool_names \<and> (\<exists>t. dget (ce_registry E) name = Some t \<and> validate_params t ps = Inr ps)
       \<and> ch_world s' = snd (H name ps (ch_world s))
       \<and> (name \<in> set reading_tools
          \<or> (\<exists>c. confirm = Some c \<and> call_of (ce_runtime E) c name ps)
          \<or> (\<exists>x \<in> set (ch_rows s). cv_user x = user \<and> looks_like_confirmation msg
               \<and> (\<exists>k. asked (cv_messages x) k \<and> call_of (ce_runtime E) (confirmation_for k) name ps))))"
  using process_message_ran [OF assms(2)]
proof (elim disjE exE conjE)
  fix name t ps
  assume t: "dget (ce_registry E) name = Some t" and fits: "validate_params t ps = Inr ps"
    and w: "ch_world s' = snd (td_handler t ps (ch_world s))"
  note e = registry_entry [OF assms(1) t]
  have w': "ch_world s' = snd (H name ps (ch_world s))" using w e by simp
  {
    assume "td_autonomy t = ''auto_safe''"
    then show ?thesis using e t fits w' by blast
  next
    fix c assume "confirm = Some c" "call_of (ce_runtime E) c name ps"
    then show ?thesis using e t fits w' by blast
  next
    assume "\<exists>x \<in> set (ch_rows s). cv_user x = user \<and> looks_like_confirmation msg
               \<and> (\<exists>k. asked (cv_messages x) k \<and> call_of (ce_runtime E) (confirmation_for k) name ps)"
    then show ?thesis using e t fits w' by blast
  }
qed simp

section \<open>Words of confirmation, on an example\<close>

text \<open>Every tool counts its calls.\<close>

definition counting :: "nat handlers" where
  "counting name ps w = (Inr (PDict [(''count'', PInt (int w + 1))]), w + 1)"

definition demo_registry :: "nat tool_registry" where
  "demo_registry = (case registry_of counting of Inr R \<Rightarrow> R | Inl e \<Rightarrow> [])"

definition demo_chat :: "nat chat_env" where
  "demo_chat = \<lparr>ce_runtime = sample_runtime, ce_registry = demo_registry,
     ce_order = [''heuristic''], ce_llm = (\<lambda>p. Inl (TypeError [])), ce_max_prompt = 0, ce_max_messages = 3, ce_max_conversations = 2,
     ce_auto_safe = Fin (9 / 10), ce_now_iso = ''now'', ce_now = 5, ce_new_id = ''c2'', ce_read_uuid = Some\<rparr>"

definition demo_rows :: "conversation list" where
  "demo_rows = [\<lparr>cv_id = ''c1'', cv_user = 7, cv_title = ''drift'', cv_tier = ''auto_safe'', cv_messages =
     [[(''role'', PStr ''assistant''), (''content'', PStr ''I can run it - confirm to proceed.''),
       (''tool_calls'', PList [PDict [(''tool'', PStr ''resolve_drift''), (''params'', PDict [(''resolve_target'', PBool True)]),
          (''requires_confirmation'', PBool True)]])]],
     cv_created = 1, cv_updated = 1\<rparr>]"

lemma demo_registry_loads: "registry_of counting = Inr (ce_registry demo_chat)"
proof -
  obtain ts where "registry_of counting = Inr (map (\<lambda>t. (td_name t, t)) ts)" by (rule registry_loads)
  then show ?thesis by (simp add: demo_chat_def demo_registry_def)
qed

text \<open>The words are looked for anywhere, whatever stands around them.\<close>

lemma refusals_hold_words_of_confirmation:
  "looks_like_confirmation ''do not proceed''" "looks_like_confirmation ''is everything ok?''"
  "\<not> looks_like_confirmation ''no, stop''"
  by code_simp+

text \<open>So a refusal runs the destructive call that waits for its confirmation.\<close>

lemma refusal_runs_the_pending_call:
  "ch_world (snd (process_message demo_chat 7 ''do not proceed'' (Some ''c1'') [] None None \<lparr>ch_rows = demo_rows, ch_world = 0\<rparr>)) = 1"
  by code_simp

lemma resolving_is_not_reading: "''resolve_drift'' \<in> set destructive_tools" "''resolve_drift'' \<notin> set reading_tools"
  by code_simp+

theorem message_runs_only_what_is_allowed_witness:
  "\<exists>name ps. name \<in> set tool_names
     \<and> ch_world (snd (process_message demo_chat 7 ''do not proceed'' (Some ''c1'') [] None None \<lparr>ch_rows = demo_rows, ch_world = 0\<rparr>)) = snd (counting name ps 0)
     \<and> (name \<in> set reading_tools \<or> (\<exists>k. asked (cv_messages (hd demo_rows)) k \<and> call_of sample_runtime (confirmation_for k) name ps))"
proof -
  obtain r s' where p: "process_message demo_chat 7 ''do not proceed'' (Some ''c1'') [] None None \<lparr>ch_rows = demo_rows, ch_world = 0\<rparr> = (r, s')"
    by fastforce
  have w: "ch_world s' = 1" using refusal_runs_the_pending_call unfolding p by simp
  have one: "set demo_rows = {hd demo_rows}" and rt: "ce_runtime demo_chat = sample_runtime" by (simp_all add: demo_rows_def demo_chat_def)
  show ?thesis
    using message_runs_only_what_is_allowed [OF demo_registry_loads p] w by (simp add: p one rt) blast
qed

theorem chat_reachable_inv_witness:
  "\<exists>s :: nat chat_state. chat_reachable 3 2 s \<and> ch_rows s \<noteq> [] \<and> chat_inv 3 2 (ch_rows s)"
proof -
  define s where "s = snd (process_message demo_chat 7 ''go'' None [] None (Some [(''tool'', PStr ''check_status'')]) \<lparr>ch_rows = [], ch_world = 0\<rparr>)"
  have "chat_step 3 2 \<lparr>ch_rows = [], ch_world = 0\<rparr> s" unfolding s_def by (rule chat_step.message) (simp_all add: demo_chat_def)
  then have reach: "chat_reachable 3 2 s" by (rule chat_reachable.step [rotated]) (simp add: chat_reachable.start)
  have "length (ch_rows s) = 1" unfolding s_def by code_simp
  then have "ch_rows s \<noteq> []" by auto
  with reach chat_reachable_inv [OF reach] show ?thesis by blast
qed

end
