(* ===== verification/Spec2Isabelle.thy ===== *)
theory Spec2Isabelle
  imports Schema_Models Schema_Ingest Schema_Drift Integration_Store Mapping_Repository
    Transform_Engine Lrmis_Ddl Lrmis_Registry Dialect Mapping_Engine Mapping_Store
    Lrmis_Writer Generic_Writer Lrmis_Delivery Worker Lrmis_Mapping
    Admin_Db Admin_Jobs Job_Runner
    Agent Pipeline Onboarding Lrmis_Onboarding Nightly_Refresh Ops Schema_Swap
    Drift_Resolution Review_Machine Deployment_Flow Onboarding_Flow Drift_Flow
    Py_Regex Operator_Diagnostics Agent_Tools Chat_Templates Conversation Conversation_Safety
begin

text \<open>
  A model of the integration service \<open>src/src\<close>, which maps the tables of a source system (IRIMSV,
  PostgreSQL) to a target system (LRMIS, MySQL or PostgreSQL) and delivers source rows into it.
  Each theory models the Python modules its opening text names; definitions keep the names of the
  functions, records those of the classes and tables.

  \<^bold>\<open>How the parts interact.\<close> Onboarding (\<open>services/onboarding.py\<close>, \<open>services/lrmis_onboarding.py\<close>)
  discovers source tables, asks a provider for a mapping (\<open>mapping_engine.py\<close>), stores it as a
  proposal with one review row per field, lets people resolve the fields, and deploys the result
  behind a gate (\<open>services/lrmis_mapping.py\<close>). A deployed entity's rows become events of the outbox
  (\<open>integration_store.py\<close>, backfill), which the worker (\<open>worker.py\<close>) claims, transforms
  (\<open>lrmis_delivery.py\<close>, \<open>transform_engine.py\<close>) and writes (\<open>lrmis_writer.py\<close>, \<open>delivery/writer.py\<close>)
  in foreign-key order (\<open>lrmis_registry.py\<close>), with a crosswalk from source rows to target ids.
  Scans (\<open>services/scan.py\<close>, \<open>services/ops.py\<close>) compare schema fingerprints and pause what drifted;
  drift resolution, the nightly refresh and the schema swap (\<open>services/\<close>) re-deliver entities. The
  admin API (\<open>admin_api/\<close>) runs these services as jobs with roles, confirmations and an audit trail.
  A chat assistant (\<open>agent/conversation.py\<close>) turns messages into calls of registered tools over the
  same services, behind a gate that asks for confirmations, and helps with failed deliveries
  (\<open>services/operator_diagnostics.py\<close>).

  \<^bold>\<open>State.\<close> The central PostgreSQL database is the record \<open>central\<close> (theory \<open>Central_Db\<close>), one list
  of rows per table of \<open>sql/*.sql\<close> the modelled code touches, with its serial counters; statements
  are \<open>update_where\<close>, \<open>upsert\<close>, \<open>insert_ignore\<close> and the like over these lists, constraints that the
  code runs into are explicit errors. The target database is \<open>target_db\<close> with an \<open>engine\<close> that may
  refuse statements and commits (\<open>Target_Db\<close>); \<open>world\<close> is both. The admin database is \<open>admin_db\<close>
  (\<open>Admin_Db\<close>), the JSON files of the mapping store are \<open>files\<close> (\<open>Mapping_Store\<close>). Exceptions are
  values: \<open>'a res = exn + 'a\<close> for code that leaves no trace when it raises, \<open>('s, 'a) comp\<close> for code
  whose writes before an exception stay visible. Rolled-back transactions are modelled where the
  code opens and ends them.

  \<^bold>\<open>Theories and their lemmas.\<close>
  \<^item> \<open>Py_Prelude\<close>, \<open>Py_Values\<close>: results, strings, insertion-ordered dictionaries, Python values,
    numbers and their text; the collections of simplification rules the others use.
  \<^item> \<open>Schema_Models\<close>, \<open>Schema_Ingest\<close>, \<open>Schema_Drift\<close>: schemas, their readers and fingerprints,
    differences; the round trip of documents, breaking differences as incompatibility, and that a
    recorded drift pauses exactly the impacted entities.
  \<^item> \<open>Integration_Store\<close>, \<open>Worker\<close>: the outbox as a state machine with its invariant, what a claim
    returns, and a delivery pass as a run of that machine, with either writer (locale
    \<open>target_writer\<close>, interpreted for both).
  \<^item> \<open>Transform_Engine\<close>, \<open>Lrmis_Mapping\<close>, \<open>Lrmis_Delivery\<close>: transforms and contracts, the deployment
    gate, the values built for the target, cross-entity references, events and refreshes.
  \<^item> \<open>Lrmis_Ddl\<close>, \<open>Lrmis_Registry\<close>: the reader of the MySQL dump; closure and topological order, which
    end always and succeed exactly on acyclic foreign keys.
  \<^item> \<open>Target_Db\<close>, \<open>Fan_Out\<close>, \<open>Lrmis_Writer\<close>, \<open>Generic_Writer\<close>, \<open>Dialect\<close>: statements, the fan-out of a
    row over its tables (locales \<open>table_writer\<close>, \<open>storing_writer\<close>, \<open>updating_writer\<close>), both writers,
    the SQL of three engines.
  \<^item> \<open>Mapping_Engine\<close>, \<open>Mapping_Store\<close>, \<open>Mapping_Repository\<close>: prompts, answers and retries of the
    mapping providers, the file store, versions of which exactly one is approved.
  \<^item> \<open>Admin_Db\<close>, \<open>Admin_Jobs\<close>, \<open>Job_Runner\<close>: accounts, audit, the job queue with its guards, and the
    runner, whose threads, heartbeats and reaper interleave as steps of a machine with an invariant.
  \<^item> \<open>Agent\<close>, \<open>Pipeline\<close>, \<open>Onboarding\<close>, \<open>Lrmis_Onboarding\<close>, \<open>Ops\<close>, \<open>Drift_Resolution\<close>, \<open>Nightly_Refresh\<close>,
    \<open>Schema_Swap\<close>: the services, with what a backfill, a scan, a nightly run and a swap change.
  \<^item> \<open>Review_Machine\<close>: the operations on proposals as a step relation; a served mapping never has a
    pending field. \<open>Deployment_Flow\<close>, \<open>Onboarding_Flow\<close>, \<open>Drift_Flow\<close>: properties of several services
    in a row, from discovery to the first events and from a drift to a quiet scan.
  \<^item> \<open>Py_Regex\<close>: the regular expressions of Python's \<open>re\<close> that the code uses, as a backtracking matcher
    in Python's order of preference. \<open>Operator_Diagnostics\<close>: the error texts it reads, and that a
    duplicate-key repair records only an ownership it has checked.
  \<^item> \<open>Agent_Tools\<close>, \<open>Chat_Templates\<close>, \<open>Conversation\<close>: the registry of tools, typed confirmations and
    guided workflows; the reply templates; the classifier, the gate, the conversation table and the
    processing of a message. \<open>Conversation_Safety\<close>: no row values in any reachable table, and what a
    message may run.

  \<^bold>\<open>Parameters.\<close> Code outside \<open>src/\<close> is an argument: the record \<open>runtime\<close> holds hashing, UUIDs, float
  text and rounding, JSON and date parsing; \<open>proposer\<close> is the mapping provider's answer; drivers give
  rows or raise (\<open>so_rows\<close>, \<open>sn_target\<close>, \<open>rd_rows\<close>, \<open>engine\<close>); \<open>auth_libs\<close> is bcrypt and the cookie
  signer; the shell, the dump and the recreation of the target are fields of \<open>nightly_env\<close> and
  \<open>swap_env\<close>. Clocks are integers of microseconds passed in.

  \<^bold>\<open>Bounds.\<close> Every function is total. Loops that a source file bounds (retries, poll rounds, the
  passes of \<open>run_loop\<close>) recurse over the list of their times; the two graph loops carry a fuel that
  \<open>fk_closure_spec\<close> and \<open>topological_order_spec\<close> show to be enough; the star of a regular expression
  runs as often as characters are left, which \<open>rx_greedy_bound\<close> shows to be enough.

  \<^bold>\<open>Idealised.\<close> Floats are rationals with NaN and the infinities, decimal constants such as 0.95 exact;
  characters are ASCII; ties of an ORDER BY keep the order of the table; arguments a function only
  echoes are left out of its result; SQL text is modelled where the code builds it and as its effect
  where it is a constant.

  \<^bold>\<open>Not modelled.\<close> Tools of the assistant that only pass their parameters to a service, and the
  read-only reports and checklists of \<open>services/operator_diagnostics.py\<close>; the view proposer (text of
  SQL views), backup files and \<open>pg_restore\<close> (subprocesses), connectors and adapters (drivers; their
  rows are arguments), the terminal commands of \<open>pipeline.py\<close> (they print what the services return)
  and the reports of \<open>ops.py\<close> (read-only aggregates).
\<close>

end
